(* ===== verification/CP_Prelude.thy ===== *)
theory CP_Prelude
  imports
    Main
    "HOL-Library.Char_ord"
    "HOL-Library.List_Lexorder"
    "HOL-Library.Product_Lexorder"
    "HOL-Library.Multiset"
    "HOL-Library.FSet"
    "HOL-Library.AList"
begin

section \<open>Shared vocabulary, dictionaries and sorting\<close>

text \<open>
  This theory holds what every component of the development shares.

  \<^item> Types: a \<open>uuid\<close> is its canonical lower-case text (the source compares UUIDs
    for equality and sorts them by \<open>str\<close>, both of which the text decides); a
    \<open>moment\<close> is a timezone-aware instant in microseconds; \<open>json\<close> is a decoded
    JSON value as the driver hands it to Python.
  \<^item> Errors: a Python function that may raise returns a value of \<open>'e + 'a\<close>, \<open>Inl\<close>
    the exception; \<open>result_bind\<close> is the sequencing of two such calls and
    \<open>traverse\<close> the loop that stops at the first exception.
  \<^item> Dictionaries: Python's insertion-ordered \<open>dict\<close> is an association list with
    \<open>AList.update\<close> (replace in place, otherwise append).
  \<^item> Loops: \<open>best_per_key\<close> is the loop \<open>if current is None or better(item, current):
    d[key(item)] = item\<close>, which the source writes in several places; the locale
    \<open>keyed_preference\<close> states what such a comparison promises and proves once what
    the loop then computes.
  \<^item> Sorting: Python's \<open>sorted(xs, key=f)\<close> is the stable \<open>sort_key f xs\<close>; the
    lemmas here say when its result does not depend on the input order.
\<close>

subsection \<open>Types\<close>

type_synonym uuid = string
type_synonym moment = int

datatype json =
    JNull
  | JBool bool
  | JInt int
  | JFloat rat
  | JStr string
  | JArr "json list"
  | JObj "(string \<times> json) list"

text \<open>A \<open>datetime\<close> that may lack its time zone.\<close>

datatype py_datetime = Aware (instant: moment) | Naive (instant: moment)

fun is_naive :: "py_datetime \<Rightarrow> bool" where
  "is_naive (Aware _) = False"
| "is_naive (Naive _) = True"

named_theorems result_simps \<open>equations of the result combinators\<close>

subsection \<open>Results\<close>

definition result_bind :: "'e + 'a \<Rightarrow> ('a \<Rightarrow> 'e + 'b) \<Rightarrow> 'e + 'b" where
  "result_bind r f = (case r of Inl e \<Rightarrow> Inl e | Inr x \<Rightarrow> f x)"

definition result_map :: "('a \<Rightarrow> 'b) \<Rightarrow> 'e + 'a \<Rightarrow> 'e + 'b" where
  "result_map f r = (case r of Inl e \<Rightarrow> Inl e | Inr x \<Rightarrow> Inr (f x))"

definition of_option :: "'e \<Rightarrow> 'a option \<Rightarrow> 'e + 'a" where
  "of_option e v = (case v of None \<Rightarrow> Inl e | Some x \<Rightarrow> Inr x)"

fun traverse :: "('a \<Rightarrow> 'e + 'b) \<Rightarrow> 'a list \<Rightarrow> 'e + 'b list" where
  "traverse f [] = Inr []"
| "traverse f (x # xs) =
     (case f x of Inl e \<Rightarrow> Inl e
      | Inr y \<Rightarrow> (case traverse f xs of Inl e \<Rightarrow> Inl e | Inr ys \<Rightarrow> Inr (y # ys)))"

lemma result_bind_simps [simp, result_simps]:
  "result_bind (Inl e) f = Inl e"
  "result_bind (Inr x) f = f x"
  by (simp_all add: result_bind_def)

lemma result_map_simps [simp, result_simps]:
  "result_map f (Inl e) = Inl e"
  "result_map f (Inr x) = Inr (f x)"
  by (simp_all add: result_map_def)

lemma of_option_simps [simp, result_simps]:
  "of_option e None = Inl e"
  "of_option e (Some x) = Inr x"
  by (simp_all add: of_option_def)

lemma result_bind_eq_Inr:
  "result_bind r f = Inr y \<longleftrightarrow> (\<exists>x. r = Inr x \<and> f x = Inr y)"
  by (cases r) auto

lemma result_map_eq_Inr: "result_map f r = Inr y \<longleftrightarrow> (\<exists>x. r = Inr x \<and> y = f x)"
  by (cases r) auto

lemma of_option_eq_Inr: "of_option e v = Inr x \<longleftrightarrow> v = Some x"
  by (cases v) auto

lemma traverse_Inr_length: "traverse f xs = Inr ys \<Longrightarrow> length ys = length xs"
  by (induction xs arbitrary: ys) (auto split: sum.splits)

lemma traverse_Inr_iff:
  "traverse f xs = Inr ys \<longleftrightarrow> list_all2 (\<lambda>x y. f x = Inr y) xs ys"
proof (induction xs arbitrary: ys)
  case Nil
  show ?case by (cases ys) auto
next
  case (Cons x xs)
  show ?case
    by (cases ys; cases "f x"; cases "traverse f xs") (auto simp flip: Cons.IH)
qed

lemma traverse_Inr_set:
  assumes "traverse f xs = Inr ys" "y \<in> set ys"
  shows "\<exists>x \<in> set xs. f x = Inr y"
  using assms by (induction xs arbitrary: ys) (auto split: sum.splits)

lemma traverse_Inr_set_rev:
  assumes "traverse f xs = Inr ys" "x \<in> set xs"
  shows "\<exists>y \<in> set ys. f x = Inr y"
  using assms by (induction xs arbitrary: ys) (auto split: sum.splits)

lemma traverse_total: "(\<And>x. x \<in> set xs \<Longrightarrow> f x = Inr (g x)) \<Longrightarrow> traverse f xs = Inr (map g xs)"
  by (induction xs) auto

text \<open>A loop of calls that may raise, threading a state: the first exception ends it.\<close>

fun fold_result :: "('a \<Rightarrow> 's \<Rightarrow> 'e + 's) \<Rightarrow> 'a list \<Rightarrow> 's \<Rightarrow> 'e + 's" where
  "fold_result f [] s = Inr s"
| "fold_result f (x # xs) s = result_bind (f x s) (fold_result f xs)"

lemma fold_result_preserves:
  assumes "fold_result f xs s = Inr s'" "R s s"
    and "\<And>x a b c. x \<in> set xs \<Longrightarrow> R a b \<Longrightarrow> f x b = Inr c \<Longrightarrow> R a c"
  shows "R s s'"
proof -
  have "R a s'" if "R a b" "fold_result f ys b = Inr s'" "set ys \<subseteq> set xs" for a b ys
    using that
  proof (induction ys arbitrary: b)
    case Nil
    then show ?case by simp
  next
    case (Cons y ys)
    then obtain c where "f y b = Inr c" "fold_result f ys c = Inr s'" by (auto simp: result_bind_eq_Inr)
    with Cons assms(3) [of y a b c] show ?case by auto
  qed
  from this [of s s xs] assms(1,2) show ?thesis by simp
qed

text \<open>\<open>[x for x in xs if x is not None]\<close>.\<close>

fun somes :: "'a option list \<Rightarrow> 'a list" where
  "somes [] = []"
| "somes (None # xs) = somes xs"
| "somes (Some x # xs) = x # somes xs"

lemma set_somes: "x \<in> set (somes xs) \<longleftrightarrow> Some x \<in> set xs"
  by (induction xs rule: somes.induct) auto

lemma map_somes_filter: "map h (somes (map (\<lambda>x. if P x then Some (f x) else None) xs)) = map (h \<circ> f) (filter P xs)"
  by (induction xs) auto

subsection \<open>Dictionaries: one winner, or one list, per key\<close>

definition keep_better :: "('a \<Rightarrow> 'k) \<Rightarrow> ('a \<Rightarrow> 'a \<Rightarrow> bool) \<Rightarrow> 'a \<Rightarrow> ('k \<times> 'a) list \<Rightarrow> ('k \<times> 'a) list" where
  "keep_better key better item d =
     (case map_of d (key item) of
        None \<Rightarrow> AList.update (key item) item d
      | Some current \<Rightarrow> if better item current then AList.update (key item) item d else d)"

definition best_per_key :: "('a \<Rightarrow> 'k) \<Rightarrow> ('a \<Rightarrow> 'a \<Rightarrow> bool) \<Rightarrow> 'a list \<Rightarrow> ('k \<times> 'a) list" where
  "best_per_key key better items = fold (keep_better key better) items []"

lemma best_per_key_Nil [simp]: "best_per_key key better [] = []"
  by (simp add: best_per_key_def)

lemma best_per_key_snoc:
  "best_per_key key better (items @ [x]) = keep_better key better x (best_per_key key better items)"
  by (simp add: best_per_key_def)

lemma map_of_keep_better:
  "map_of (keep_better key better x d) k =
     (if k = key x
      then (case map_of d k of None \<Rightarrow> Some x | Some c \<Rightarrow> Some (if better x c then x else c))
      else map_of d k)"
  by (auto simp: keep_better_def update_conv' split: option.splits)

lemma distinct_keys_keep_better:
  "distinct (map fst d) \<Longrightarrow> distinct (map fst (keep_better key better x d))"
  by (auto simp: keep_better_def distinct_update split: option.splits)

lemma distinct_keys_best_per_key: "distinct (map fst (best_per_key key better items))"
  by (induction items rule: rev_induct) (simp_all add: best_per_key_snoc distinct_keys_keep_better)

lemma best_per_key_Some:
  "map_of (best_per_key key better items) k = Some x \<Longrightarrow> x \<in> set items \<and> key x = k"
  by (induction items arbitrary: x rule: rev_induct)
    (auto simp: best_per_key_snoc map_of_keep_better split: if_splits option.splits)

lemma best_per_key_None_iff:
  "map_of (best_per_key key better items) k = None \<longleftrightarrow> k \<notin> key ` set items"
  by (induction items rule: rev_induct)
    (auto simp: best_per_key_snoc map_of_keep_better split: option.splits)

text \<open>\<open>d.setdefault(k, []).append(x)\<close>: one list per key, in order of arrival.\<close>

definition group_append :: "'k \<Rightarrow> 'a \<Rightarrow> ('k \<times> 'a list) list \<Rightarrow> ('k \<times> 'a list) list" where
  "group_append k x g = AList.update k ((case map_of g k of None \<Rightarrow> [] | Some xs \<Rightarrow> xs) @ [x]) g"

text \<open>The values of a dictionary read off at its sorted keys.\<close>

lemma set_lookup_sorted_keys:
  fixes d :: "('k::linorder \<times> 'a) list"
  shows "x \<in> set (map (\<lambda>k. the (map_of d k)) (sort (map fst d))) \<longleftrightarrow> (\<exists>k. map_of d k = Some x)"
proof -
  have "k \<in> fst ` set d \<longleftrightarrow> (\<exists>y. map_of d k = Some y)" for k
    using map_of_eq_None_iff [of d k] by auto
  then show ?thesis by (simp add: image_iff) force
qed

locale keyed_preference =
  fixes key :: "'a \<Rightarrow> 'k" and better :: "'a \<Rightarrow> 'a \<Rightarrow> bool"
  assumes better_asym: "better a b \<Longrightarrow> \<not> better b a"
    and better_cotrans: "better a c \<Longrightarrow> better a b \<or> better b c"
begin

lemma better_irrefl: "\<not> better a a"
  using better_asym by blast

lemma better_trans: "better a b \<Longrightarrow> better b c \<Longrightarrow> better a c"
  using better_cotrans [of a b c] better_asym [of b c] by blast

lemma winner_maximal:
  "map_of (best_per_key key better items) k = Some x \<Longrightarrow> y \<in> set items \<Longrightarrow> key y = k \<Longrightarrow> \<not> better y x"
proof (induction items arbitrary: x y rule: rev_induct)
  case Nil
  then show ?case by simp
next
  case (snoc z items)
  show ?case
  proof (cases "key z = k")
    case False
    with snoc show ?thesis by (auto simp: best_per_key_snoc map_of_keep_better)
  next
    case True
    show ?thesis
    proof (cases "map_of (best_per_key key better items) k")
      case None
      with True snoc.prems have "x = z"
        by (simp add: best_per_key_snoc map_of_keep_better)
      moreover from None have "k \<notin> key ` set items" by (simp add: best_per_key_None_iff)
      ultimately show ?thesis using snoc.prems better_irrefl by auto
    next
      case (Some c)
      with True snoc.prems have x: "x = (if better z c then z else c)"
        by (simp add: best_per_key_snoc map_of_keep_better)
      from snoc.prems consider "y = z" | "y \<in> set items" by auto
      then show ?thesis
      proof cases
        case 1
        with x show ?thesis using better_irrefl by auto
      next
        case 2
        with Some snoc.IH snoc.prems have "\<not> better y c" by blast
        with x show ?thesis using better_trans [of y z c] by auto
      qed
    qed
  qed
qed

text \<open>
  A winner that strictly beats every other item of its key is found whatever the order.
\<close>

lemma winner_unique:
  assumes "x \<in> set items" "key x = k"
    and "\<And>y. y \<in> set items \<Longrightarrow> key y = k \<Longrightarrow> y \<noteq> x \<Longrightarrow> better x y"
  shows "map_of (best_per_key key better items) k = Some x"
proof (cases "map_of (best_per_key key better items) k")
  case None
  with assms(1,2) show ?thesis by (auto simp: best_per_key_None_iff)
next
  case (Some w)
  then have "w \<in> set items" "key w = k" using best_per_key_Some by fast+
  moreover have "\<not> better x w" using winner_maximal [OF Some assms(1,2)] .
  ultimately show ?thesis using assms(3) Some by metis
qed

lemma best_per_key_cong:
  assumes "set xs = set ys"
    and "\<And>a b. a \<in> set xs \<Longrightarrow> b \<in> set xs \<Longrightarrow> key a = key b \<Longrightarrow> a \<noteq> b \<Longrightarrow> better a b \<or> better b a"
  shows "map_of (best_per_key key better xs) = map_of (best_per_key key better ys)"
proof
  fix k
  show "map_of (best_per_key key better xs) k = map_of (best_per_key key better ys) k"
  proof (cases "map_of (best_per_key key better xs) k")
    case None
    with assms(1) show ?thesis by (metis best_per_key_None_iff)
  next
    case (Some x)
    then have x: "x \<in> set ys" "key x = k" using best_per_key_Some assms(1) by fast+
    have "map_of (best_per_key key better ys) k = Some x"
    proof (rule winner_unique [OF x])
      fix y assume "y \<in> set ys" "key y = k" "y \<noteq> x"
      with assms x winner_maximal [OF Some] show "better x y" by metis
    qed
    with Some show ?thesis by simp
  qed
qed

end

subsection \<open>Sorting\<close>

lemma sort_key_determined:
  fixes f :: "'a \<Rightarrow> 'k::linorder"
  assumes "mset xs = mset ys" "inj_on f (set xs)"
  shows "sort_key f xs = sort_key f ys"
proof (rule sort_key_inj_key_eq)
  show "mset xs = mset (sort_key f ys)" using assms(1) by simp
  show "inj_on f (set xs)" by (rule assms(2))
  show "sorted (map f (sort_key f ys))" by simp
qed

lemma sort_key_determined_distinct:
  fixes f :: "'a \<Rightarrow> 'k::linorder"
  assumes "set xs = set ys" "distinct xs" "distinct ys" "inj_on f (set xs)"
  shows "sort_key f xs = sort_key f ys"
  using assms by (intro sort_key_determined) (simp_all add: set_eq_iff_mset_eq_distinct)

text \<open>What a \<open>LIMIT\<close> after an \<open>ORDER BY\<close> keeps has fewer than that many smaller rows.\<close>

lemma take_sort_key_count:
  fixes f :: "'a \<Rightarrow> 'k::linorder"
  assumes "h \<in> set (take n (sort_key f xs))"
  shows "length (filter (\<lambda>x. f x < f h) xs) < n"
proof -
  let ?ys = "sort_key f xs"
  from assms obtain j where j: "j < n" "j < length ?ys" "?ys ! j = h" by (auto simp: in_set_conv_nth)
  have "filter (\<lambda>x. f x < f h) (drop j ?ys) = []"
  proof -
    have "f h \<le> f x" if "x \<in> set (drop j ?ys)" for x
    proof -
      from that obtain i where "i < length (drop j ?ys)" "drop j ?ys ! i = x" unfolding in_set_conv_nth by blast
      then have "j + i < length ?ys" "?ys ! (j + i) = x" by auto
      with j(2,3) show ?thesis using sorted_nth_mono [OF sorted_sort_key [of f xs], of j "j + i"] by simp
    qed
    then show ?thesis by (auto simp: filter_empty_conv not_less)
  qed
  then have "filter (\<lambda>x. f x < f h) ?ys = filter (\<lambda>x. f x < f h) (take j ?ys)"
    by (metis append_Nil2 append_take_drop_id filter_append)
  moreover have "length (filter (\<lambda>x. f x < f h) (take j ?ys)) \<le> j"
    by (metis length_filter_le length_take min.bounded_iff min_def)
  moreover have "length (filter (\<lambda>x. f x < f h) ?ys) = length (filter (\<lambda>x. f x < f h) xs)"
    by (metis mset_filter mset_sort size_mset)
  ultimately show ?thesis using j(1) by simp
qed

lemma length_filter_map_mono:
  assumes "\<And>x. x \<in> set xs \<Longrightarrow> P x \<Longrightarrow> P (f x)"
  shows "length (filter P xs) \<le> length (filter P (map f xs))"
  using assms by (induction xs) (auto simp: le_SucI)

subsection \<open>Pairs in list order\<close>

fun ordered_pairs :: "'a list \<Rightarrow> ('a \<times> 'a) list" where
  "ordered_pairs [] = []"
| "ordered_pairs (x # xs) = map (Pair x) xs @ ordered_pairs xs"

lemma set_ordered_pairs:
  "(l, r) \<in> set (ordered_pairs xs) \<longleftrightarrow> (\<exists>i j. i < j \<and> j < length xs \<and> l = xs ! i \<and> r = xs ! j)"
proof (induction xs)
  case Nil
  show ?case by simp
next
  case (Cons x xs)
  have "(\<exists>i j. i < j \<and> j < length (x # xs) \<and> l = (x # xs) ! i \<and> r = (x # xs) ! j) \<longleftrightarrow>
      (l = x \<and> r \<in> set xs) \<or> (\<exists>i j. i < j \<and> j < length xs \<and> l = xs ! i \<and> r = xs ! j)"
    (is "?L \<longleftrightarrow> ?R")
  proof
    assume ?L
    then obtain i j where "i < j" "j < Suc (length xs)" "l = (x # xs) ! i" "r = (x # xs) ! j" by auto
    then show ?R by (cases i; cases j) auto
  next
    assume ?R
    then show ?L
    proof
      assume "l = x \<and> r \<in> set xs"
      then obtain j where "j < length xs" "r = xs ! j" "l = x" by (auto simp: in_set_conv_nth)
      then show ?L by (intro exI [of _ 0] exI [of _ "Suc j"]) simp
    next
      assume "\<exists>i j. i < j \<and> j < length xs \<and> l = xs ! i \<and> r = xs ! j"
      then obtain i j where "i < j" "j < length xs" "l = xs ! i" "r = xs ! j" by blast
      then show ?L by (intro exI [of _ "Suc i"] exI [of _ "Suc j"]) simp
    qed
  qed
  with Cons.IH show ?case by auto
qed

lemma ordered_pairs_members:
  "(l, r) \<in> set (ordered_pairs xs) \<Longrightarrow> l \<in> set xs \<and> r \<in> set xs"
  by (induction xs) auto

lemma ordered_pairs_total:
  assumes "l \<in> set xs" "r \<in> set xs" "l \<noteq> r"
  shows "(l, r) \<in> set (ordered_pairs xs) \<or> (r, l) \<in> set (ordered_pairs xs)"
  using assms by (induction xs) auto

end
