(* ===== verification/Py_Strings.thy ===== *)
theory Py_Strings
  imports CP_Prelude
begin

section \<open>The string operations of the Python library\<close>

text \<open>
  The operations of Python's \<open>str\<close> and \<open>int\<close> that the modelled code uses, on strings of
  code points below 256 (\<open>char\<close>): \<open>strip\<close>, \<open>lstrip\<close>, \<open>split\<close>, \<open>startswith\<close>,
  \<open>int(text)\<close> with its sign, surrounding white space and digit-group underscores, and
  \<open>str(int)\<close>. Case folding is modelled on ASCII letters. The lemmas are the ones the
  parsers of the components rest on: splitting undoes joining, and reading back a printed
  integer gives the integer.
\<close>

subsection \<open>White space, stripping and splitting\<close>

definition py_isspace :: "char \<Rightarrow> bool" where
  "py_isspace c \<longleftrightarrow> (let n = (of_char c :: nat) in
     (9 \<le> n \<and> n \<le> 13) \<or> (28 \<le> n \<and> n \<le> 32) \<or> n = 133 \<or> n = 160)"

definition py_strip :: "string \<Rightarrow> string" where
  "py_strip s = rev (dropWhile py_isspace (rev (dropWhile py_isspace s)))"

definition py_lstrip_chars :: "char list \<Rightarrow> string \<Rightarrow> string" where
  "py_lstrip_chars cs s = dropWhile (\<lambda>c. c \<in> set cs) s"

definition py_startswith :: "string \<Rightarrow> string \<Rightarrow> bool" where
  "py_startswith p s \<longleftrightarrow> take (length p) s = p"

definition py_endswith :: "string \<Rightarrow> string \<Rightarrow> bool" where
  "py_endswith p s \<longleftrightarrow> length p \<le> length s \<and> drop (length s - length p) s = p"

fun py_split :: "char \<Rightarrow> string \<Rightarrow> string list" where
  "py_split sep [] = [[]]"
| "py_split sep (c # cs) =
     (if c = sep then [] # py_split sep cs
      else (case py_split sep cs of [] \<Rightarrow> [[c]] | p # ps \<Rightarrow> (c # p) # ps))"

text \<open>\<open>str.split()\<close> without a separator: the maximal runs of non-space characters.\<close>

fun py_words_acc :: "string \<Rightarrow> string \<Rightarrow> string list" where
  "py_words_acc cur [] = (if cur = [] then [] else [rev cur])"
| "py_words_acc cur (c # cs) =
     (if py_isspace c then (if cur = [] then py_words_acc [] cs else rev cur # py_words_acc [] cs)
      else py_words_acc (c # cur) cs)"

definition py_words :: "string \<Rightarrow> string list" where
  "py_words s = py_words_acc [] s"

definition py_join :: "string \<Rightarrow> string list \<Rightarrow> string" where
  "py_join sep ws = (case ws of [] \<Rightarrow> [] | w # rest \<Rightarrow> w @ concat (map (\<lambda>x. sep @ x) rest))"

definition ascii_lower :: "char \<Rightarrow> char" where
  "ascii_lower c = (let n = (of_char c :: nat) in if 65 \<le> n \<and> n \<le> 90 then char_of (n + 32) else c)"

definition py_casefold :: "string \<Rightarrow> string" where
  "py_casefold s = map ascii_lower s"

subsection \<open>Integers and their text\<close>

definition digit_val :: "char \<Rightarrow> int option" where
  "digit_val c = (let n = (of_char c :: nat) in if 48 \<le> n \<and> n \<le> 57 then Some (int n - 48) else None)"

definition is_digit :: "char \<Rightarrow> bool" where
  "is_digit c \<longleftrightarrow> digit_val c \<noteq> None"

fun py_digits :: "bool \<Rightarrow> int \<Rightarrow> string \<Rightarrow> int option" where
  "py_digits prev acc [] = (if prev then Some acc else None)"
| "py_digits prev acc (c # cs) =
     (case digit_val c of
        Some d \<Rightarrow> py_digits True (acc * 10 + d) cs
      | None \<Rightarrow> if c = CHR ''_'' \<and> prev then py_digits False acc cs else None)"

definition py_int :: "string \<Rightarrow> int option" where
  "py_int s =
     (case py_strip s of
        [] \<Rightarrow> None
      | c # cs \<Rightarrow>
          if c = CHR ''-'' then map_option uminus (py_digits False 0 cs)
          else if c = CHR ''+'' then py_digits False 0 cs
          else py_digits False 0 (c # cs))"

definition digit_char :: "nat \<Rightarrow> char" where
  "digit_char n = char_of (48 + n)"

fun show_nat :: "nat \<Rightarrow> string" where
  "show_nat n = (if n < 10 then [digit_char n] else show_nat (n div 10) @ [digit_char (n mod 10)])"

declare show_nat.simps [simp del]

definition show_int :: "int \<Rightarrow> string" where
  "show_int i = (if i < 0 then CHR ''-'' # show_nat (nat (- i)) else show_nat (nat i))"

subsection \<open>Facts about splitting\<close>

lemma py_split_ne [simp]: "py_split sep s \<noteq> []"
  by (induction s) (auto split: list.splits)

lemma py_split_no_sep: "sep \<notin> set s \<Longrightarrow> py_split sep s = [s]"
  by (induction s) auto

lemma py_split_append_sep:
  "sep \<notin> set s \<Longrightarrow> py_split sep (s @ sep # t) = s # py_split sep t"
  by (induction s) auto

lemma py_split_parts_no_sep: "p \<in> set (py_split sep s) \<Longrightarrow> sep \<notin> set p"
proof (induction s arbitrary: p)
  case Nil
  then show ?case by simp
next
  case (Cons c s)
  then show ?case
    by (cases "py_split sep s") (auto split: if_splits)
qed

lemma concat_py_split: "py_join [sep] (py_split sep s) = s"
proof (induction s)
  case Nil
  show ?case by (simp add: py_join_def)
next
  case (Cons c s)
  then show ?case
    by (cases "py_split sep s") (auto simp: py_join_def)
qed

lemma dropWhile_id: "(s = [] \<or> \<not> P (hd s)) \<Longrightarrow> dropWhile P s = s"
  by (cases s) auto

lemma py_strip_id:
  assumes "s = [] \<or> (\<not> py_isspace (hd s) \<and> \<not> py_isspace (last s))"
  shows "py_strip s = s"
proof (cases "s = []")
  case True
  then show ?thesis by (simp add: py_strip_def)
next
  case False
  with assms have "dropWhile py_isspace s = s" "dropWhile py_isspace (rev s) = rev s"
    by (auto intro!: dropWhile_id simp: hd_rev)
  then show ?thesis by (simp add: py_strip_def)
qed

lemma py_strip_no_space: "(\<forall>c \<in> set s. \<not> py_isspace c) \<Longrightarrow> py_strip s = s"
  by (cases "s = []") (auto intro!: py_strip_id)

lemma set_py_strip: "set (py_strip s) \<subseteq> set s"
  unfolding py_strip_def by (metis set_dropWhileD set_rev subsetI)

text \<open>Stripping the whole text first does not change the stripped pieces.\<close>

lemma py_split_append:
  "py_split sep (s @ sep # t) = py_split sep s @ py_split sep t"
proof (induction s)
  case (Cons c s)
  then show ?case by (cases "py_split sep s") auto
qed simp

lemma py_strip_Cons_space: "py_isspace c \<Longrightarrow> py_strip (c # s) = py_strip s"
  by (simp add: py_strip_def)

lemma dropWhile_rev_snoc: "dropWhile P (rev (dropWhile P (s @ [c]))) = (if P c then dropWhile P (rev (dropWhile P s)) else c # rev (dropWhile P s))"
  by (induction s) auto

lemma py_strip_snoc_space: "py_isspace c \<Longrightarrow> py_strip (s @ [c]) = py_strip s"
  by (simp add: py_strip_def dropWhile_rev_snoc)

lemma strip_split_lstrip:
  "\<not> py_isspace sep \<Longrightarrow> map py_strip (py_split sep (dropWhile py_isspace s)) = map py_strip (py_split sep s)"
proof (induction s)
  case (Cons c s)
  show ?case
  proof (cases "py_isspace c")
    case True
    with Cons have "c \<noteq> sep" by auto
    with True Cons show ?thesis
      by (cases "py_split sep s") (auto simp: py_strip_Cons_space)
  qed simp
qed simp

lemma py_split_snoc:
  "c \<noteq> sep \<Longrightarrow> py_split sep (s @ [c]) = butlast (py_split sep s) @ [last (py_split sep s) @ [c]]"
proof (induction s)
  case (Cons d s)
  then show ?case by (cases "py_split sep s") auto
qed simp

lemma strip_split_rstrip:
  "\<not> py_isspace sep \<Longrightarrow> map py_strip (py_split sep (rev (dropWhile py_isspace (rev s)))) = map py_strip (py_split sep s)"
proof (induction s rule: rev_induct)
  case (snoc c s)
  show ?case
  proof (cases "py_isspace c")
    case True
    with snoc have "c \<noteq> sep" by auto
    obtain ps q where ps: "py_split sep s = ps @ [q]"
      using py_split_ne by (cases "py_split sep s" rule: rev_cases) auto
    from True snoc.IH [OF snoc.prems] ps \<open>c \<noteq> sep\<close> show ?thesis
      by (simp add: py_split_snoc py_strip_snoc_space)
  qed simp
qed simp

lemma strip_split_strip:
  "\<not> py_isspace sep \<Longrightarrow> map py_strip (py_split sep (py_strip s)) = map py_strip (py_split sep s)"
  by (simp add: py_strip_def strip_split_lstrip strip_split_rstrip)
lemma py_strip_blank_iff: "py_strip s = [] \<longleftrightarrow> (\<forall>c \<in> set s. py_isspace c)"
proof (cases "dropWhile py_isspace s")
  case Nil
  then have "\<forall>c \<in> set s. py_isspace c" by (simp add: dropWhile_eq_Nil_conv)
  then show ?thesis unfolding py_strip_def Nil by simp
next
  case (Cons a r)
  then have a: "\<not> py_isspace a" "a \<in> set s"
    using hd_dropWhile [of py_isspace s] set_dropWhileD [of a py_isspace s] by auto
  with Cons show ?thesis by (auto simp: py_strip_def dropWhile_eq_Nil_conv)
qed

subsection \<open>Facts about printed integers\<close>

lemma of_char_digit_char: "n < 10 \<Longrightarrow> (of_char (digit_char n) :: nat) = 48 + n"
  by (simp add: digit_char_def)

lemma digit_val_digit_char [simp]: "n < 10 \<Longrightarrow> digit_val (digit_char n) = Some (int n)"
  by (simp add: digit_val_def of_char_digit_char Let_def)

lemma is_digit_digit_char [simp]: "n < 10 \<Longrightarrow> is_digit (digit_char n)"
  by (simp add: is_digit_def)

lemma digit_not_space: "is_digit c \<Longrightarrow> \<not> py_isspace c"
  by (auto simp: is_digit_def digit_val_def py_isspace_def Let_def split: if_splits)

lemma digit_not_special:
  "is_digit c \<Longrightarrow> c \<noteq> CHR ''.'' \<and> c \<noteq> CHR ''v'' \<and> c \<noteq> CHR ''-'' \<and> c \<noteq> CHR ''+'' \<and> c \<noteq> CHR '',''"
  by (auto simp: is_digit_def digit_val_def Let_def split: if_splits)

lemma show_nat_digits: "c \<in> set (show_nat n) \<Longrightarrow> is_digit c"
proof (induction n rule: show_nat.induct)
  case (1 n)
  show ?case
  proof (cases "n < 10")
    case True
    with "1.prems" show ?thesis by (simp add: show_nat.simps [of n])
  next
    case False
    with "1.prems" have "c \<in> set (show_nat (n div 10)) \<or> c = digit_char (n mod 10)"
      by (auto simp: show_nat.simps [of n])
    with "1.IH" False show ?thesis by auto
  qed
qed

lemma show_nat_ne [simp]: "show_nat n \<noteq> []"
  by (simp add: show_nat.simps [of n])

lemma py_digits_append:
  assumes "\<forall>c \<in> set s. is_digit c" "s \<noteq> []"
  shows "py_digits prev acc (s @ t) = py_digits True (the (py_digits True acc s)) t"
  using assms
proof (induction s arbitrary: prev acc)
  case Nil
  then show ?case by simp
next
  case (Cons c s)
  then obtain d where "digit_val c = Some d" by (auto simp: is_digit_def)
  with Cons show ?case by (cases "s = []") auto
qed

lemma py_digits_show_nat: "py_digits prev 0 (show_nat n) = Some (int n)"
proof (induction n arbitrary: prev rule: show_nat.induct)
  case (1 n)
  show ?case
  proof (cases "n < 10")
    case True
    then show ?thesis by (simp add: show_nat.simps [of n])
  next
    case False
    have "py_digits prev 0 (show_nat n) =
        py_digits True (the (py_digits True 0 (show_nat (n div 10)))) [digit_char (n mod 10)]"
      using False show_nat_digits
      by (simp add: show_nat.simps [of n] py_digits_append)
    also have "\<dots> = Some (int (n div 10) * 10 + int (n mod 10))"
      using "1.IH" [OF False] by simp
    also have "\<dots> = Some (int n)" by (simp add: zdiv_int zmod_int)
    finally show ?thesis .
  qed
qed

lemma py_strip_show_nat [simp]: "py_strip (show_nat n) = show_nat n"
  by (rule py_strip_no_space) (use show_nat_digits digit_not_space in blast)

lemma py_int_show_nat [simp]: "py_int (show_nat n) = Some (int n)"
proof (cases "show_nat n")
  case Nil
  then show ?thesis by simp
next
  case (Cons c cs)
  then have "is_digit c" using show_nat_digits by (metis list.set_intros(1))
  moreover have "py_strip (c # cs) = c # cs" using py_strip_show_nat [of n] Cons by simp
  ultimately show ?thesis
    using Cons digit_not_special [of c] py_digits_show_nat [of False n] by (simp add: py_int_def)
qed

lemma show_nat_no_dot [simp]: "CHR ''.'' \<notin> set (show_nat n)"
  using show_nat_digits digit_not_special by blast

lemma show_int_nonneg [simp]: "0 \<le> i \<Longrightarrow> show_int i = show_nat (nat i)"
  by (simp add: show_int_def)

subsection \<open>Splitting undoes joining\<close>

lemma py_join_Nil [simp]: "py_join sep [] = []"
  by (simp add: py_join_def)

lemma py_join_single [simp]: "py_join sep [w] = w"
  by (simp add: py_join_def)

lemma py_join_Cons: "ws \<noteq> [] \<Longrightarrow> py_join sep (w # ws) = w @ sep @ py_join sep ws"
  by (cases ws) (simp_all add: py_join_def)

lemma set_py_join: "set (py_join sep ws) \<subseteq> set sep \<union> \<Union> (set ` set ws)"
  by (cases ws) (auto simp: py_join_def)

lemma py_split_join:
  assumes "ws \<noteq> []" "\<forall>w \<in> set ws. c \<notin> set w"
  shows "py_split c (py_join [c] ws) = ws"
  using assms
proof (induction ws)
  case (Cons w ws)
  show ?case
  proof (cases "ws = []")
    case True
    with Cons.prems show ?thesis by (simp add: py_split_no_sep)
  next
    case False
    with Cons show ?thesis by (simp add: py_join_Cons py_split_append_sep)
  qed
qed simp

lemma py_join_inj:
  assumes eq: "py_join [c] ws = py_join [c] vs" and plain: "\<forall>w \<in> set ws \<union> set vs. w \<noteq> [] \<and> c \<notin> set w"
  shows "ws = vs"
proof -
  have empty: "us = [] \<longleftrightarrow> py_join [c] us = []" if "set us \<subseteq> set ws \<union> set vs" for us
    using that plain by (cases us) (auto simp: py_join_def)
  have split: "py_split c (py_join [c] us) = us" if "us \<noteq> []" "set us \<subseteq> set ws \<union> set vs" for us
    using that plain by (intro py_split_join) auto
  show ?thesis
  proof (cases "ws = []")
    case True
    with eq have "py_join [c] vs = []" by simp
    with True empty [of vs] show ?thesis by simp
  next
    case False
    then have "vs \<noteq> []" using eq empty [of ws] empty [of vs] by simp
    then have "py_split c (py_join [c] vs) = vs" by (rule split) simp
    moreover have "py_split c (py_join [c] ws) = ws" by (rule split) (simp_all add: False)
    ultimately show ?thesis using eq by metis
  qed
qed

subsection \<open>Length-prefixed messages\<close>

text \<open>
  \<open>len(p).to_bytes(4, "big")\<close> raises \<open>OverflowError\<close> from \<open>2^32\<close> bytes on; text is its
  own encoding here (code points below 128). The exception is an argument.
\<close>

definition be_bytes4 :: "nat \<Rightarrow> string" where
  "be_bytes4 n = map char_of [n div 256 ^ 3 mod 256, n div 256 ^ 2 mod 256, n div 256 mod 256, n mod 256]"

definition length_prefixed :: "'e \<Rightarrow> string \<Rightarrow> 'e + string" where
  "length_prefixed e p = (if length p < 2 ^ 32 then Inr (be_bytes4 (length p) @ p) else Inl e)"

lemma be_bytes4_nested:
  "be_bytes4 n = map char_of [n div 256 div 256 div 256 mod 256, n div 256 div 256 mod 256, n div 256 mod 256, n mod 256]"
  by (simp add: be_bytes4_def div_mult2_eq [symmetric])

lemma char_of_eq_mod: "char_of a = (char_of b :: char) \<longleftrightarrow> a mod 256 = b mod (256 :: nat)"
  by (metis char_of_mod_256 of_char_of)

lemma nat_eq_by_digit: "m div k = n div k \<Longrightarrow> m mod k = n mod k \<Longrightarrow> m = (n :: nat)"
  by (metis div_mult_mod_eq)

lemma be_bytes4_inj:
  assumes "m < 2 ^ 32" "n < 2 ^ 32" "be_bytes4 m = be_bytes4 n"
  shows "m = n"
proof -
  have top: "x div 256 div 256 div 256 < 256" if "x < 2 ^ 32" for x :: nat
    using that by (simp add: div_mult2_eq [symmetric] less_mult_imp_div_less)
  have "m div 256 div 256 div 256 mod 256 = n div 256 div 256 div 256 mod 256"
    and 2: "m div 256 div 256 mod 256 = n div 256 div 256 mod 256"
    and 3: "m div 256 mod 256 = n div 256 mod 256" and 4: "m mod 256 = n mod 256"
    using assms(3) by (simp_all add: be_bytes4_nested char_of_eq_mod)
  then have "m div 256 div 256 div 256 = n div 256 div 256 div 256"
    using top [OF assms(1)] top [OF assms(2)] by simp
  then have "m div 256 div 256 = n div 256 div 256" using 2 by (rule nat_eq_by_digit)
  then have "m div 256 = n div 256" using 3 by (rule nat_eq_by_digit)
  then show "m = n" using 4 by (rule nat_eq_by_digit)
qed

lemma length_prefixed_prefix_free:
  assumes "length_prefixed e p = Inr x" "length_prefixed e q = Inr y" "x @ s = y @ t"
  shows "p = q \<and> s = t"
proof -
  have p: "length p < 2 ^ 32" "x = be_bytes4 (length p) @ p"
    and q: "length q < 2 ^ 32" "y = be_bytes4 (length q) @ q"
    using assms by (auto simp: length_prefixed_def split: if_splits)
  have "be_bytes4 (length p) = be_bytes4 (length q)" and "p @ s = q @ t"
    using assms(3) p(2) q(2) by (auto simp: be_bytes4_def)
  then show ?thesis using be_bytes4_inj [OF p(1) q(1)] by simp
qed

lemma concat_length_prefixed_inj:
  assumes "traverse (length_prefixed e) ps = Inr xs" "traverse (length_prefixed e) qs = Inr ys"
    and "concat xs = concat ys" "length ps = length qs"
  shows "ps = qs"
  using assms
proof (induction ps arbitrary: qs xs ys)
  case Nil
  then show ?case by simp
next
  case (Cons p ps)
  obtain q qs' where qs: "qs = q # qs'" using Cons.prems(4) by (cases qs) auto
  obtain x xs' where x: "length_prefixed e p = Inr x" "traverse (length_prefixed e) ps = Inr xs'" "xs = x # xs'"
    using Cons.prems(1) by (auto split: sum.splits)
  obtain y ys' where y: "length_prefixed e q = Inr y" "traverse (length_prefixed e) qs' = Inr ys'" "ys = y # ys'"
    using Cons.prems(2) qs by (auto split: sum.splits)
  have "x @ concat xs' = y @ concat ys'" using Cons.prems(3) x(3) y(3) by simp
  then have pq: "p = q" "concat xs' = concat ys'"
    using length_prefixed_prefix_free [OF x(1) y(1)] by blast+
  have "ps = qs'"
    by (rule Cons.IH [OF x(2) y(2) pq(2)]) (use Cons.prems(4) qs in simp)
  with pq(1) qs show ?case by simp
qed

end
