(* ===== verification/Sensitivity.thy ===== *)
theory Sensitivity
  imports Py_Strings
begin

section \<open>The sensitivity scale\<close>

text \<open>
  The model of \<open>contextplane/sensitivity.py\<close>: one closed, ordered vocabulary of handling
  tiers. Membership and rank are derived from the order; \<open>rank\<close> refuses a name the scale
  does not have. The theory is used by ARC selection, which reads an unknown or missing
  declaration as the most restrictive tier.
\<close>

definition TIERS :: "string list" where
  "TIERS = [''public'', ''internal'', ''confidential'', ''restricted'']"

definition MOST_RESTRICTIVE :: string where
  "MOST_RESTRICTIVE = last TIERS"

datatype sensitivity_error = UnknownSensitivityTier string

text \<open>The argument of \<open>is_tier\<close> is any object; only a string can be a tier.\<close>

definition is_tier :: "string option \<Rightarrow> bool" where
  "is_tier v = (case v of None \<Rightarrow> False | Some s \<Rightarrow> s \<in> set TIERS)"

fun tier_index :: "string list \<Rightarrow> string \<Rightarrow> nat option" where
  "tier_index [] s = None"
| "tier_index (t # ts) s = (if t = s then Some 0 else map_option Suc (tier_index ts s))"

definition tier_rank :: "string \<Rightarrow> sensitivity_error + nat" where
  "tier_rank s = of_option (UnknownSensitivityTier s) (tier_index TIERS s)"

definition at_most :: "string \<Rightarrow> string \<Rightarrow> sensitivity_error + bool" where
  "at_most v cap =
     result_bind (tier_rank v) (\<lambda>a. result_bind (tier_rank cap) (\<lambda>b. Inr (a \<le> b)))"

lemma tier_index_Some_iff: "(\<exists>i. tier_index ts s = Some i) \<longleftrightarrow> s \<in> set ts"
  by (induction ts) auto

lemma tier_index_nth: "tier_index ts s = Some i \<Longrightarrow> i < length ts \<and> ts ! i = s"
  by (induction ts arbitrary: i) (auto split: if_splits)

lemma most_restrictive_tier [simp]: "MOST_RESTRICTIVE = ''restricted''" "''restricted'' \<in> set TIERS"
  by (simp_all add: MOST_RESTRICTIVE_def TIERS_def)

lemma tier_rank_Inr_iff: "(\<exists>i. tier_rank s = Inr i) \<longleftrightarrow> is_tier (Some s)"
  by (simp add: tier_rank_def is_tier_def of_option_eq_Inr tier_index_Some_iff)

lemma tier_rank_bound: "tier_rank s = Inr i \<Longrightarrow> i \<le> 3"
proof -
  assume "tier_rank s = Inr i"
  then have "i < length TIERS" using tier_index_nth by (simp add: tier_rank_def of_option_eq_Inr)
  then show ?thesis by (simp add: TIERS_def)
qed

text \<open>
  On known tiers \<open>at_most\<close> is total and antisymmetric with the most restrictive tier on
  top; with an unknown name on either side it refuses instead of answering.
\<close>

lemma at_most_known:
  assumes "is_tier (Some a)" "is_tier (Some b)"
  shows "at_most a b = Inr True \<or> at_most b a = Inr True"
    and "at_most a b = Inr True \<Longrightarrow> at_most b a = Inr True \<Longrightarrow> a = b"
    and "at_most a MOST_RESTRICTIVE = Inr True"
proof -
  from assms obtain i j where i: "tier_rank a = Inr i" and j: "tier_rank b = Inr j"
    by (metis tier_rank_Inr_iff)
  have top: "tier_rank ''restricted'' = Inr 3" by (simp add: tier_rank_def TIERS_def)
  have eq: "i = j \<Longrightarrow> a = b"
    using i j tier_index_nth by (metis of_option_eq_Inr tier_rank_def)
  show "at_most a b = Inr True \<or> at_most b a = Inr True" using i j by (auto simp: at_most_def)
  show "at_most a b = Inr True \<Longrightarrow> at_most b a = Inr True \<Longrightarrow> a = b"
    using i j eq by (simp add: at_most_def)
  show "at_most a MOST_RESTRICTIVE = Inr True"
    using i top tier_rank_bound [OF i] by (simp add: at_most_def)
qed

lemma at_most_unknown:
  assumes "\<not> is_tier (Some a) \<or> \<not> is_tier (Some b)"
  shows "\<exists>e. at_most a b = Inl e"
  using assms tier_rank_Inr_iff [of a] tier_rank_Inr_iff [of b]
  by (cases "tier_rank a"; cases "tier_rank b") (auto simp: at_most_def)

end
