(* ===== verification/Version_Predicates.thy ===== *)
theory Version_Predicates
  imports Py_Strings
begin

section \<open>Version predicates\<close>

text \<open>
  The model of \<open>contextplane/service/catalog/version_predicates.py\<close>: npm-style ranges over
  semantic versions. The \<open>semver\<close> package is not part of the repository, so the two
  operations the module calls are parameters: \<open>parse\<close> is \<open>semver.Version.parse\<close>
  (\<open>None\<close> where it raises) into an ordered type of versions, and \<open>vmatch\<close> is
  \<open>Version.match\<close> on one comparison (\<open>None\<close> where it raises). What the module relies on
  is named: \<open>semver_match_law\<close> (a comparison text means the comparison of the parsed
  version) and \<open>semver_triples\<close> (three numbers joined by dots parse, and are ordered
  lexicographically).
\<close>

subsection \<open>Coercion and parsing of one version\<close>

definition coerce_version :: "string \<Rightarrow> string option" where
  "coerce_version ver_str =
     (let s = py_lstrip_chars ''v'' (py_strip ver_str); parts = py_split CHR ''.'' s in
      case parts of
        [p0] \<Rightarrow> (case py_int p0 of None \<Rightarrow> None | Some _ \<Rightarrow> Some (p0 @ ''.0.0''))
      | [p0, p1] \<Rightarrow>
          (case py_int p0 of None \<Rightarrow> None
           | Some _ \<Rightarrow> (case py_int p1 of None \<Rightarrow> None | Some _ \<Rightarrow> Some (p0 @ ''.'' @ p1 @ ''.0'')))
      | _ \<Rightarrow> Some s)"

definition parse_version :: "(string \<Rightarrow> 'v option) \<Rightarrow> string \<Rightarrow> 'v option" where
  "parse_version parse ver_str =
     (case coerce_version ver_str of None \<Rightarrow> None | Some coerced \<Rightarrow> parse coerced)"

subsection \<open>Range expansion\<close>

text \<open>
  \<open>int(text)\<close> raises \<open>ValueError\<close>; reading the numeric prefix of a patch with no digit
  in front raises \<open>AttributeError\<close> (the match is \<open>None\<close>). Both callers catch the two.
\<close>

datatype version_error = ValueError | AttributeError

definition int_or_raise :: "string \<Rightarrow> version_error + int" where
  "int_or_raise s = of_option ValueError (py_int s)"

definition patch_prefix :: "string \<Rightarrow> version_error + int" where
  "patch_prefix s =
     (let ds = takeWhile is_digit s in if ds = [] then Inl AttributeError else int_or_raise ds)"

definition ver3 :: "int \<Rightarrow> int \<Rightarrow> int \<Rightarrow> string" where
  "ver3 a b c = show_int a @ ''.'' @ show_int b @ ''.'' @ show_int c"

definition expand_caret :: "string \<Rightarrow> version_error + string list option" where
  "expand_caret ver_str =
     (let s = py_lstrip_chars ''v'' (py_strip ver_str) in
      case py_split CHR ''.'' s of
        [] \<Rightarrow> Inr None
      | [p0] \<Rightarrow>
          result_bind (int_or_raise p0) (\<lambda>major.
            Inr (Some [''>='' @ show_int major @ ''.0.0'', ''<'' @ show_int (major + 1) @ ''.0.0'']))
      | [p0, p1] \<Rightarrow>
          result_bind (int_or_raise p0) (\<lambda>major. result_bind (int_or_raise p1) (\<lambda>minor.
            if major > 0
            then Inr (Some [''>='' @ show_int major @ ''.'' @ show_int minor @ ''.0'',
                            ''<'' @ show_int (major + 1) @ ''.0.0''])
            else Inr (Some [''>=0.'' @ show_int minor @ ''.0'',
                            ''<0.'' @ show_int (minor + 1) @ ''.0''])))
      | p0 # p1 # p2 # _ \<Rightarrow>
          result_bind (int_or_raise p0) (\<lambda>major. result_bind (int_or_raise p1) (\<lambda>minor.
            result_bind (patch_prefix p2) (\<lambda>patch.
              if major > 0
              then Inr (Some [''>='' @ ver3 major minor patch, ''<'' @ show_int (major + 1) @ ''.0.0''])
              else if minor > 0
              then Inr (Some [''>=0.'' @ show_int minor @ ''.'' @ show_int patch,
                              ''<0.'' @ show_int (minor + 1) @ ''.0''])
              else Inr (Some [''>=0.0.'' @ show_int patch, ''<0.0.'' @ show_int (patch + 1)])))))"

definition expand_tilde :: "string \<Rightarrow> version_error + string list option" where
  "expand_tilde ver_str =
     (let s = py_lstrip_chars ''v'' (py_strip ver_str) in
      case py_split CHR ''.'' s of
        [] \<Rightarrow> Inr None
      | [p0] \<Rightarrow>
          result_bind (int_or_raise p0) (\<lambda>major.
            Inr (Some [''>='' @ show_int major @ ''.0.0'', ''<'' @ show_int (major + 1) @ ''.0.0'']))
      | [p0, p1] \<Rightarrow>
          result_bind (int_or_raise p0) (\<lambda>major. result_bind (int_or_raise p1) (\<lambda>minor.
            Inr (Some [''>='' @ show_int major @ ''.'' @ show_int minor @ ''.0'',
                       ''<'' @ show_int major @ ''.'' @ show_int (minor + 1) @ ''.0''])))
      | p0 # p1 # p2 # _ \<Rightarrow>
          result_bind (int_or_raise p0) (\<lambda>major. result_bind (int_or_raise p1) (\<lambda>minor.
            result_bind (patch_prefix p2) (\<lambda>patch.
              Inr (Some [''>='' @ ver3 major minor patch,
                         ''<'' @ show_int major @ ''.'' @ show_int (minor + 1) @ ''.0''])))))"

subsection \<open>Clauses and whole predicates\<close>

definition valid_ops :: "string list" where
  "valid_ops = [''>='', ''<='', ''!='', ''=='', ''>'', ''<'']"

text \<open>
  The regular expression \<open>^(op)?\s*(\S+)$\<close>: the operators are tried in the order of the
  alternation and then the empty operator; the text after the operator and its white space
  must be a single non-empty run of non-space characters.
\<close>

definition run_of_nonspace :: "string \<Rightarrow> string option" where
  "run_of_nonspace rest =
     (let ver = dropWhile py_isspace rest in
      if ver \<noteq> [] \<and> (\<forall>c \<in> set ver. \<not> py_isspace c) then Some ver else None)"

fun simple_op_match :: "string list \<Rightarrow> string \<Rightarrow> (string \<times> string) option" where
  "simple_op_match [] clause = map_option (\<lambda>ver. ('''', ver)) (run_of_nonspace clause)"
| "simple_op_match (op # ops) clause =
     (if py_startswith op clause
      then (case run_of_nonspace (drop (length op) clause) of
              Some ver \<Rightarrow> Some (op, ver)
            | None \<Rightarrow> simple_op_match ops clause)
      else simple_op_match ops clause)"

definition parse_clause :: "(string \<Rightarrow> 'v option) \<Rightarrow> string \<Rightarrow> string list option" where
  "parse_clause parse clause0 =
     (let clause = py_strip clause0 in
      if clause = [] then None
      else if py_startswith ''^'' clause
      then (case expand_caret (py_strip (drop 1 clause)) of Inl _ \<Rightarrow> None | Inr r \<Rightarrow> r)
      else if py_startswith ''~'' clause
      then (case expand_tilde (py_strip (drop 1 clause)) of Inl _ \<Rightarrow> None | Inr r \<Rightarrow> r)
      else (case simple_op_match valid_ops clause of
              None \<Rightarrow> None
            | Some (op0, ver) \<Rightarrow>
                let op = (if op0 = '''' then ''=='' else op0) in
                if op \<notin> set valid_ops then None
                else (case coerce_version ver of
                        None \<Rightarrow> None
                      | Some coerced \<Rightarrow>
                          (case parse coerced of None \<Rightarrow> None | Some _ \<Rightarrow> Some [op @ coerced]))))"

fun clauses_to_atomics :: "(string \<Rightarrow> 'v option) \<Rightarrow> string list \<Rightarrow> string list option" where
  "clauses_to_atomics parse [] = Some []"
| "clauses_to_atomics parse (clause # rest) =
     (if clause = [] then None
      else (case parse_clause parse clause of
              None \<Rightarrow> None
            | Some result \<Rightarrow> map_option (\<lambda>more. result @ more) (clauses_to_atomics parse rest)))"

definition predicate_to_atomics :: "(string \<Rightarrow> 'v option) \<Rightarrow> string \<Rightarrow> string list option" where
  "predicate_to_atomics parse predicate0 =
     (let predicate = py_strip predicate0 in
      if predicate = [] then Some []
      else clauses_to_atomics parse (map py_strip (py_split CHR '','' predicate)))"

subsection \<open>The public operations\<close>

definition validate_version_predicate :: "(string \<Rightarrow> 'v option) \<Rightarrow> string \<Rightarrow> bool" where
  "validate_version_predicate parse pred \<longleftrightarrow> predicate_to_atomics parse pred \<noteq> None"

definition evaluate_version_predicate ::
    "(string \<Rightarrow> 'v option) \<Rightarrow> ('v \<Rightarrow> string \<Rightarrow> bool option) \<Rightarrow> string \<Rightarrow> string \<Rightarrow> bool" where
  "evaluate_version_predicate parse vmatch version predicate =
     (case coerce_version (py_strip version) of
        None \<Rightarrow> False
      | Some coerced_ver \<Rightarrow>
          (case parse coerced_ver of
             None \<Rightarrow> False
           | Some parsed_ver \<Rightarrow>
               (case predicate_to_atomics parse predicate of
                  None \<Rightarrow> False
                | Some atomics \<Rightarrow> \<forall>atomic \<in> set atomics. vmatch parsed_ver atomic = Some True)))"

subsection \<open>What is relied on of the semver package\<close>

definition cmp_holds :: "string \<Rightarrow> 'v::linorder \<Rightarrow> 'v \<Rightarrow> bool" where
  "cmp_holds op v w =
     (if op = ''>='' then w \<le> v else if op = ''<='' then v \<le> w
      else if op = ''!='' then v \<noteq> w else if op = ''=='' then v = w
      else if op = ''>'' then w < v else v < w)"

definition semver_match_law :: "(string \<Rightarrow> 'v::linorder option) \<Rightarrow> ('v \<Rightarrow> string \<Rightarrow> bool option) \<Rightarrow> bool" where
  "semver_match_law parse vmatch \<longleftrightarrow>
     (\<forall>op ver w v. op \<in> set valid_ops \<longrightarrow> parse ver = Some w \<longrightarrow>
        vmatch v (op @ ver) = Some (cmp_holds op v w))"

definition semver_triples :: "(string \<Rightarrow> 'v::linorder option) \<Rightarrow> (nat \<times> nat \<times> nat \<Rightarrow> 'v) \<Rightarrow> bool" where
  "semver_triples parse mk \<longleftrightarrow>
     strict_mono mk \<and> (\<forall>a b c. parse (ver3 (int a) (int b) (int c)) = Some (mk (a, b, c)))"

text \<open>The upper end of a caret range, and a triple as text.\<close>

definition caret_upper :: "nat \<Rightarrow> nat \<Rightarrow> nat \<Rightarrow> nat \<times> nat \<times> nat" where
  "caret_upper M m p = (if M > 0 then (M + 1, 0, 0) else if m > 0 then (0, m + 1, 0) else (0, 0, p + 1))"

abbreviation ver3t :: "nat \<times> nat \<times> nat \<Rightarrow> string" where
  "ver3t t \<equiv> (case t of (a, b, c) \<Rightarrow> ver3 (int a) (int b) (int c))"

text \<open>
  A package that knows release versions only (three runs of digits): the instance at which
  the hypotheses about \<open>semver\<close> are shown to hold together.
\<close>

definition release_part :: "string \<Rightarrow> nat option" where
  "release_part s =
     (if s \<noteq> [] \<and> (\<forall>c \<in> set s. is_digit c) then map_option nat (py_digits False 0 s) else None)"

definition release_parse :: "string \<Rightarrow> (nat \<times> nat \<times> nat) option" where
  "release_parse s =
     (case py_split CHR ''.'' s of
        [a, b, c] \<Rightarrow>
          (case release_part a of None \<Rightarrow> None
           | Some x \<Rightarrow> (case release_part b of None \<Rightarrow> None
              | Some y \<Rightarrow> (case release_part c of None \<Rightarrow> None | Some z \<Rightarrow> Some (x, y, z))))
      | _ \<Rightarrow> None)"

fun release_match_ops :: "string list \<Rightarrow> nat \<times> nat \<times> nat \<Rightarrow> string \<Rightarrow> bool option" where
  "release_match_ops [] v s = None"
| "release_match_ops (op # ops) v s =
     (if py_startswith op s
      then (case release_parse (drop (length op) s) of
              Some w \<Rightarrow> Some (cmp_holds op v w) | None \<Rightarrow> release_match_ops ops v s)
      else release_match_ops ops v s)"

definition release_match :: "nat \<times> nat \<times> nat \<Rightarrow> string \<Rightarrow> bool option" where
  "release_match v s = release_match_ops valid_ops v s"

subsection \<open>Triples as text\<close>

lemma dot_not_space [simp]: "\<not> py_isspace CHR ''.''" "\<not> py_isspace CHR '',''" "\<not> py_isspace CHR ''^''" "\<not> py_isspace CHR ''~''"
  by code_simp+

lemma ver3_chars: "c \<in> set (ver3 (int a) (int b) (int p)) \<Longrightarrow> is_digit c \<or> c = CHR ''.''"
  using show_nat_digits by (auto simp: ver3_def)

lemma ver3_no_space: "c \<in> set (ver3 (int a) (int b) (int p)) \<Longrightarrow> \<not> py_isspace c"
  using ver3_chars digit_not_space dot_not_space(1) by blast

lemma ver3_no_comma: "CHR '','' \<notin> set (ver3 (int a) (int b) (int p))"
proof
  assume "CHR '','' \<in> set (ver3 (int a) (int b) (int p))"
  from ver3_chars [OF this] show False by (auto simp: is_digit_def digit_val_def)
qed

lemma ver3_strip [simp]: "py_strip (ver3 (int a) (int b) (int p)) = ver3 (int a) (int b) (int p)"
  by (rule py_strip_no_space) (use ver3_no_space in blast)

lemma ver3_lstrip [simp]: "py_lstrip_chars ''v'' (ver3 (int a) (int b) (int p)) = ver3 (int a) (int b) (int p)"
proof -
  obtain c cs where cs: "show_nat a = c # cs" by (cases "show_nat a") auto
  then have "is_digit c" using show_nat_digits [of c a] by simp
  with cs show ?thesis using digit_not_special [of c]
    by (auto simp: py_lstrip_chars_def ver3_def)
qed

lemma ver3_split [simp]:
  "py_split CHR ''.'' (ver3 (int a) (int b) (int p)) = [show_nat a, show_nat b, show_nat p]"
  by (simp add: ver3_def py_split_append_sep py_split_no_sep)

lemma coerce_ver3 [simp]: "coerce_version (ver3 (int a) (int b) (int p)) = Some (ver3 (int a) (int b) (int p))"
  by (simp add: coerce_version_def)

lemma takeWhile_show_nat [simp]: "takeWhile is_digit (show_nat p) = show_nat p"
  by (rule takeWhile_eq_all_conv [THEN iffD2]) (use show_nat_digits in blast)

lemma patch_prefix_show_nat [simp]: "patch_prefix (show_nat p) = Inr (int p)"
  by (simp add: patch_prefix_def int_or_raise_def)

lemma int_or_raise_show_nat [simp]: "int_or_raise (show_nat p) = Inr (int p)"
  by (simp add: int_or_raise_def)

lemma show_consts: "show_nat 0 = ''0''" "show_nat (Suc 0) = ''1''" 
  by code_simp+

lemma expand_caret_ver3:
  "expand_caret (ver3 (int M) (int m) (int p)) =
     Inr (Some [''>='' @ ver3 (int M) (int m) (int p), ''<'' @ ver3t (caret_upper M m p)])"
  unfolding expand_caret_def Let_def ver3_strip ver3_lstrip ver3_split
  by (simp add: caret_upper_def ver3_def show_consts nat_add_distrib)

lemma expand_tilde_ver3:
  "expand_tilde (ver3 (int M) (int m) (int p)) =
     Inr (Some [''>='' @ ver3 (int M) (int m) (int p), ''<'' @ ver3 (int M) (int (m + 1)) 0])"
  unfolding expand_tilde_def Let_def ver3_strip ver3_lstrip ver3_split
  by (simp add: ver3_def show_consts nat_add_distrib)

lemma atomics_prefixed:
  assumes "\<not> py_isspace c" "c \<noteq> CHR '',''"
  shows "predicate_to_atomics parse (c # ver3 (int M) (int m) (int p)) = 
    parse_clause parse (c # ver3 (int M) (int m) (int p))"
proof -
  let ?s = "c # ver3 (int M) (int m) (int p)"
  have strip: "py_strip ?s = ?s"
    by (rule py_strip_no_space) (use assms(1) ver3_no_space in auto)
  have "py_split CHR '','' ?s = [?s]"
    by (rule py_split_no_sep) (use assms(2) ver3_no_comma in auto)
  moreover have "clauses_to_atomics parse [?s] = parse_clause parse ?s"
    by (simp split: option.splits)
  ultimately show ?thesis
    by (simp only: predicate_to_atomics_def strip Let_def list.map) simp
qed

lemma atomics_caret:
  "predicate_to_atomics parse (CHR ''^'' # ver3 (int M) (int m) (int p)) =
     Some [''>='' @ ver3 (int M) (int m) (int p), ''<'' @ ver3t (caret_upper M m p)]"
proof -
  have "py_strip (CHR ''^'' # ver3 (int M) (int m) (int p)) = CHR ''^'' # ver3 (int M) (int m) (int p)"
    by (rule py_strip_no_space) (use ver3_no_space in auto)
  then show ?thesis
    by (simp add: atomics_prefixed parse_clause_def py_startswith_def expand_caret_ver3 Let_def)
qed

lemma atomics_tilde:
  "predicate_to_atomics parse (CHR ''~'' # ver3 (int M) (int m) (int p)) =
     Some [''>='' @ ver3 (int M) (int m) (int p), ''<'' @ ver3 (int M) (int (m + 1)) 0]"
proof -
  have "py_strip (CHR ''~'' # ver3 (int M) (int m) (int p)) = CHR ''~'' # ver3 (int M) (int m) (int p)"
    by (rule py_strip_no_space) (use ver3_no_space in auto)
  then show ?thesis
    by (simp add: atomics_prefixed parse_clause_def py_startswith_def expand_tilde_ver3 Let_def)
qed

lemma vmatch_triple:
  assumes "semver_match_law parse vmatch" "semver_triples parse mk"
  shows "vmatch (mk t) (''>='' @ ver3 (int a) (int b) (int c)) = Some ((a, b, c) \<le> t)"
    and "vmatch (mk t) (''<'' @ ver3 (int a) (int b) (int c)) = Some (t < (a, b, c))"
  using assms unfolding semver_match_law_def semver_triples_def
  by (simp_all add: valid_ops_def cmp_holds_def strict_mono_less strict_mono_less_eq)

lemma evaluate_range:
  assumes "semver_match_law parse vmatch" "semver_triples parse mk"
    and "predicate_to_atomics parse pred = Some [''>='' @ ver3t lo, ''<'' @ ver3t hi]"
  shows "evaluate_version_predicate parse vmatch (ver3t v) pred \<longleftrightarrow> lo \<le> v \<and> v < hi"
proof -
  have "parse (ver3t v) = Some (mk v)" 
    using assms(2) by (cases v) (simp add: semver_triples_def)
  then show ?thesis
    using assms(3) vmatch_triple [OF assms(1,2)]
    by (cases v; cases lo; cases hi) (simp add: evaluate_version_predicate_def)
qed


subsection \<open>Conjunction of clauses\<close>

lemma clauses_to_atomics_append:
  "clauses_to_atomics parse (xs @ ys) =
     (case clauses_to_atomics parse xs of None \<Rightarrow> None
      | Some a \<Rightarrow> map_option (\<lambda>b. a @ b) (clauses_to_atomics parse ys))"
  by (induction xs; cases "clauses_to_atomics parse ys") (auto split: option.splits)

lemma predicate_to_atomics_nonblank:
  assumes "py_strip p \<noteq> []"
  shows "predicate_to_atomics parse p = clauses_to_atomics parse (map py_strip (py_split CHR '','' p))"
  using assms by (simp add: predicate_to_atomics_def Let_def strip_split_strip)

lemma atomics_conj:
  assumes "py_strip p \<noteq> []" "py_strip q \<noteq> []"
  shows "predicate_to_atomics parse (p @ CHR '','' # q) =
    (case predicate_to_atomics parse p of None \<Rightarrow> None
     | Some a \<Rightarrow> map_option (\<lambda>b. a @ b) (predicate_to_atomics parse q))"
proof -
  have "py_strip (p @ CHR '','' # q) \<noteq> []" 
    by (auto simp: py_strip_blank_iff)
  then show ?thesis
    using assms
    by (simp add: predicate_to_atomics_nonblank py_split_append clauses_to_atomics_append
        split: option.splits)
qed

subsection \<open>The release-only instance satisfies the laws\<close>

lemma release_part_show_nat [simp]: "release_part (show_nat n) = Some n"
  by (simp add: release_part_def py_digits_show_nat) (use show_nat_digits in blast)

lemma release_parse_ver3: "release_parse (ver3 (int a) (int b) (int c)) = Some (a, b, c)"
  by (simp add: release_parse_def)

lemma release_parse_hd_digit:
  assumes "release_parse s = Some w"
  shows "\<exists>c cs. s = c # cs \<and> is_digit c"
proof -
  from assms obtain a b d where split: "py_split CHR ''.'' s = [a, b, d]" and a: "release_part a \<noteq> None"
    by (auto simp: release_parse_def split: list.splits option.splits)
  from a obtain c cs where "a = c # cs" "is_digit c"
    by (cases a) (auto simp: release_part_def split: if_splits)
  moreover have "s = a @ concat (map (\<lambda>x. ''.'' @ x) [b, d])"
    using concat_py_split [of "CHR ''.''" s] split by (simp add: py_join_def)
  ultimately show ?thesis by simp
qed

lemma release_match_law: "semver_match_law release_parse release_match"
proof -
  have "release_match v (op @ ver) = Some (cmp_holds op v w)"
    if op: "op \<in> set valid_ops" and w: "release_parse ver = Some w" for op ver w v
  proof -
    obtain c cs where ver: "ver = c # cs" and "is_digit c"
      using release_parse_hd_digit [OF w] by blast
    then have "c \<noteq> CHR ''=''" "c \<noteq> CHR ''<''" "c \<noteq> CHR ''>''"
      by (auto simp: is_digit_def digit_val_def)
    with op w ver show ?thesis
      by (auto simp: release_match_def valid_ops_def py_startswith_def)
  qed
  then show ?thesis by (simp add: semver_match_law_def)
qed

lemma release_triples: "semver_triples release_parse id"
  by (simp add: semver_triples_def release_parse_ver3 strict_mono_def)

subsection \<open>Properties\<close>

text \<open>
  C35. \<open>^M.m.p\<close> means what npm's caret means: a release \<open>a.b.c\<close> satisfies it exactly when
  it is at least \<open>M.m.p\<close> and agrees with it up to and including the left-most non-zero
  component.
\<close>

theorem caret_range_semantics:
  assumes "semver_match_law parse vmatch" "semver_triples parse mk"
  shows "evaluate_version_predicate parse vmatch (ver3 (int a) (int b) (int c)) (CHR ''^'' # ver3 (int M) (int m) (int p)) \<longleftrightarrow>
     (M, m, p) \<le> (a, b, c) \<and> 
     (if M > 0 then a = M else if m > 0 then a = 0 \<and> b = m else a = 0 \<and> b = 0 \<and> c = p)"
  using evaluate_range [OF assms, of _ "(M, m, p)" "caret_upper M m p" "(a, b, c)"] atomics_caret [of parse M m p]
  by (auto simp: caret_upper_def less_prod_def' less_eq_prod_def)


theorem caret_range_semantics_witness:
  "evaluate_version_predicate release_parse release_match (ver3 1 9 0) (CHR ''^'' # ver3 1 2 3)"
  using caret_range_semantics [OF release_match_law release_triples, of 1 9 0 1 2 3] by simp

text \<open>
  \<open>~M.m.p\<close> admits exactly the patch releases of \<open>M.m\<close> from \<open>p\<close> on.
\<close>

theorem tilde_range_semantics:
  assumes "semver_match_law parse vmatch" "semver_triples parse mk"
  shows "evaluate_version_predicate parse vmatch (ver3 (int a) (int b) (int c)) (CHR ''~'' # ver3 (int M) (int m) (int p)) \<longleftrightarrow>
     a = M \<and> b = m \<and> p \<le> c"
  using evaluate_range [OF assms, of _ "(M, m, p)" "(M, m + 1, 0)" "(a, b, c)"] atomics_tilde [of parse M m p]
  by (auto simp: less_prod_def' less_eq_prod_def)

theorem tilde_range_semantics_witness:
  "evaluate_version_predicate release_parse release_match (ver3 2 3 7) (CHR ''~'' # ver3 2 3 4)"
  using tilde_range_semantics [OF release_match_law release_triples, of 2 3 7 2 3 4] by simp

text \<open>
  A comma is a conjunction: for two non-blank predicates, a version satisfies the joined
  predicate exactly when it satisfies both, and the joined predicate is well formed exactly
  when both are. This holds for every \<open>semver\<close> package.
\<close>

theorem version_predicate_conjunction:
  assumes "py_strip p \<noteq> []" "py_strip q \<noteq> []"
  shows "evaluate_version_predicate parse vmatch v (p @ CHR '','' # q) \<longleftrightarrow>
    evaluate_version_predicate parse vmatch v p \<and> evaluate_version_predicate parse vmatch v q"
  by (auto simp: evaluate_version_predicate_def atomics_conj [OF assms] split: option.splits)

theorem version_predicate_conjunction_witness:
  "evaluate_version_predicate release_parse release_match ''1.5'' (''^1.2.3'' @ CHR '','' # ''~1.5.0'') \<longleftrightarrow>
     evaluate_version_predicate release_parse release_match ''1.5'' ''^1.2.3'' \<and>
     evaluate_version_predicate release_parse release_match ''1.5'' ''~1.5.0''"
proof -
  have "py_strip ''^1.2.3'' \<noteq> []" "py_strip ''~1.5.0'' \<noteq> []" by code_simp+
  then show ?thesis by (rule version_predicate_conjunction)
qed

text \<open>
  The module documents OR ranges and hyphen ranges as unsupported, refused by
  validation. A caret clause followed by either is accepted: only the digits in front of the
  third component are read, so \<open>^1.2.3 || ^2.0.0\<close> validates and is evaluated as \<open>^1.2.3\<close>
  alone, whatever the \<open>semver\<close> package does.
\<close>

theorem caret_swallows_alternation:
  "validate_version_predicate parse ''^1.2.3 || ^2.0.0'' \<and>
   predicate_to_atomics parse ''^1.2.3 || ^2.0.0'' = predicate_to_atomics parse ''^1.2.3'' \<and>
   validate_version_predicate parse ''^1.2.3 - 2.3.4''"
  by code_simp
end
