(* ===== verification/Arc_Types.thy ===== *)
theory Arc_Types
  imports Sensitivity
begin

section \<open>ARC domain types\<close>

text \<open>
  The model of \<open>contextplane/arc/types.py\<close>: the closed vocabularies with their parsers, the
  conflict subject with its length-prefixed digest, normalized constraints and their parser,
  directives and applicability rules with the checks their constructors run
  (\<open>__post_init__\<close>), and the intent manifest selection reads. A constructor that raises
  returns \<open>Inl\<close>. \<open>frozenset\<close> is \<open>fset\<close>. The hash function is a parameter.
\<close>

subsection \<open>Closed vocabularies\<close>

datatype intent_kind = READ_ONLY | CODE_CHANGE | DEPENDENCY_CHANGE | CONFIGURATION_CHANGE
  | SECURITY_SENSITIVE_CHANGE | DATA_ACCESS | DEPLOYMENT

datatype action_class = MERGE | DEPLOY | PRODUCTION_CONFIGURATION_MUTATION | SECRET_RELEASE | DATA_EXPORT

datatype authority_scope = GLOBAL | TENANT | DOMAIN | ENTITY | INTENT

datatype directive_type = D_REQUIRE | D_PROHIBIT | D_VERIFY | D_ESCALATE | D_CITATION_ONLY

datatype modality = M_REQUIRE | M_PROHIBIT

datatype constraint_operator = EQUALS | IN_SET | NOT_IN_SET | PRESENT

datatype satisfaction_mode = AUTHORIZED_RETRIEVAL | SIGNED_RESULT

datatype resolution_status = READY | DEGRADED | BLOCKED

datatype detail_audience = ALL_MATCHED_ACTORS | TENANT_ADMIN_AUDITOR | REGISTERED_GATEWAY_ONLY

text \<open>The exceptions the code of this component and of the corpus reader raises.\<close>

datatype arc_error = ArcVocabularyError | PyValueError | PyTypeError | PyOverflowError

text \<open>The members of each vocabulary with their wire values, in declaration order.\<close>

definition intent_kinds_table :: "(string \<times> intent_kind) list" where
  "intent_kinds_table =
     [(''read_only'', READ_ONLY), (''code_change'', CODE_CHANGE), (''dependency_change'', DEPENDENCY_CHANGE),
      (''configuration_change'', CONFIGURATION_CHANGE),
      (''security_sensitive_change'', SECURITY_SENSITIVE_CHANGE), (''data_access'', DATA_ACCESS),
      (''deployment'', DEPLOYMENT)]"

definition action_class_table :: "(string \<times> action_class) list" where
  "action_class_table =
     [(''merge'', MERGE), (''deploy'', DEPLOY),
      (''production_configuration_mutation'', PRODUCTION_CONFIGURATION_MUTATION),
      (''secret_release'', SECRET_RELEASE), (''data_export'', DATA_EXPORT)]"

definition authority_scope_table :: "(string \<times> authority_scope) list" where
  "authority_scope_table =
     [(''global'', GLOBAL), (''tenant'', TENANT), (''domain'', DOMAIN), (''entity'', ENTITY), (''intent'', INTENT)]"

definition directive_type_table :: "(string \<times> directive_type) list" where
  "directive_type_table =
     [(''require'', D_REQUIRE), (''prohibit'', D_PROHIBIT), (''verify'', D_VERIFY),
      (''escalate'', D_ESCALATE), (''citation_only'', D_CITATION_ONLY)]"

definition modality_table :: "(string \<times> modality) list" where
  "modality_table = [(''require'', M_REQUIRE), (''prohibit'', M_PROHIBIT)]"

definition constraint_operator_table :: "(string \<times> constraint_operator) list" where
  "constraint_operator_table =
     [(''equals'', EQUALS), (''in_set'', IN_SET), (''not_in_set'', NOT_IN_SET), (''present'', PRESENT)]"

definition satisfaction_mode_table :: "(string \<times> satisfaction_mode) list" where
  "satisfaction_mode_table =
     [(''authorized_retrieval'', AUTHORIZED_RETRIEVAL), (''signed_result'', SIGNED_RESULT)]"

text \<open>Calling an enum class on a value, and \<open>str\<close> of a member.\<close>

definition enum_of :: "(string \<times> 'a) list \<Rightarrow> string \<Rightarrow> arc_error + 'a" where
  "enum_of table v = of_option PyValueError (map_of table v)"

definition enum_str :: "(string \<times> 'a) list \<Rightarrow> 'a \<Rightarrow> string" where
  "enum_str table x = (case map_of (map (\<lambda>(s, y). (y, s)) table) x of Some s \<Rightarrow> s | None \<Rightarrow> '''')"

definition scope_order :: "authority_scope list" where
  "scope_order = [GLOBAL, TENANT, DOMAIN, ENTITY, INTENT]"

fun scope_rank :: "authority_scope \<Rightarrow> nat" where
  "scope_rank GLOBAL = 0"
| "scope_rank TENANT = 1"
| "scope_rank DOMAIN = 2"
| "scope_rank ENTITY = 3"
| "scope_rank INTENT = 4"

fun is_action_protecting :: "directive_type \<Rightarrow> bool" where
  "is_action_protecting D_CITATION_ONLY = False"
| "is_action_protecting _ = True"

definition parse_closed :: "(string \<times> 'a) list \<Rightarrow> string \<Rightarrow> arc_error + 'a" where
  "parse_closed table v = (case enum_of table v of Inl _ \<Rightarrow> Inl ArcVocabularyError | Inr x \<Rightarrow> Inr x)"

definition parse_intent_kind :: "string \<Rightarrow> arc_error + intent_kind" where
  "parse_intent_kind v = parse_closed intent_kinds_table v"

definition parse_action_class :: "string \<Rightarrow> arc_error + action_class" where
  "parse_action_class v = parse_closed action_class_table v"

definition parse_directive_type :: "string \<Rightarrow> arc_error + directive_type" where
  "parse_directive_type v = parse_closed directive_type_table v"

definition wire_directive_type_translation :: "(string \<times> directive_type) list" where
  "wire_directive_type_translation =
     [(''citation_only'', D_CITATION_ONLY), (''verify_before_action'', D_VERIFY)]"

definition parse_wire_directive_type :: "string \<Rightarrow> arc_error + directive_type" where
  "parse_wire_directive_type v = of_option ArcVocabularyError (map_of wire_directive_type_translation v)"

subsection \<open>Conflict subject\<close>

datatype conflict_subject_key =
  ConflictSubjectKey
    (schema_version: string) (namespace: string) (subject_selector: string)
    (operation: string) (key_action_class: string) (target_selector: string)

definition canonical_tuple :: "conflict_subject_key \<Rightarrow> string \<times> string \<times> string \<times> string \<times> string \<times> string" where
  "canonical_tuple k =
     (schema_version k, namespace k, subject_selector k, operation k, key_action_class k, target_selector k)"

text \<open>The dataclass is declared with \<open>order=True\<close>: field-by-field comparison.\<close>

instantiation conflict_subject_key :: linorder
begin

definition less_eq_conflict_subject_key :: "conflict_subject_key \<Rightarrow> conflict_subject_key \<Rightarrow> bool" where
  "a \<le> b \<longleftrightarrow> canonical_tuple a \<le> canonical_tuple b"

definition less_conflict_subject_key :: "conflict_subject_key \<Rightarrow> conflict_subject_key \<Rightarrow> bool" where
  "a < b \<longleftrightarrow> canonical_tuple a < canonical_tuple b"

instance
proof
  fix a b c :: conflict_subject_key
  have inj: "canonical_tuple a = canonical_tuple b \<Longrightarrow> a = b"
    by (cases a; cases b) (simp add: canonical_tuple_def)
  show "a < b \<longleftrightarrow> a \<le> b \<and> \<not> b \<le> a"
    unfolding less_eq_conflict_subject_key_def less_conflict_subject_key_def by (rule less_le_not_le)
  show "a \<le> a" by (simp add: less_eq_conflict_subject_key_def)
  show "a \<le> b \<Longrightarrow> b \<le> c \<Longrightarrow> a \<le> c"
    unfolding less_eq_conflict_subject_key_def by (rule order_trans)
  show "a \<le> b \<Longrightarrow> b \<le> a \<Longrightarrow> a = b"
    unfolding less_eq_conflict_subject_key_def using inj by (blast dest: order_antisym)
  show "a \<le> b \<or> b \<le> a"
    unfolding less_eq_conflict_subject_key_def by (rule linear)
qed

end

definition key_parts :: "conflict_subject_key \<Rightarrow> string list" where
  "key_parts k = [schema_version k, namespace k, subject_selector k, operation k, key_action_class k, target_selector k]"

definition digest_message :: "conflict_subject_key \<Rightarrow> arc_error + string" where
  "digest_message k = result_map concat (traverse (length_prefixed PyOverflowError) (key_parts k))"

definition subject_digest :: "(string \<Rightarrow> string) \<Rightarrow> conflict_subject_key \<Rightarrow> arc_error + string" where
  "subject_digest sha256_hex k = result_map sha256_hex (digest_message k)"

subsection \<open>Normalized constraints\<close>

record normalized_constraint =
  modality :: modality
  operator :: constraint_operator
  cvalues :: "string fset"

text \<open>The members of a comma-separated list, stripped, blank ones dropped.\<close>

definition constraint_members :: "string \<Rightarrow> string fset" where
  "constraint_members raw = fset_of_list (filter (\<lambda>v. v \<noteq> '''') (map py_strip (py_split CHR '','' raw)))"

definition parse_constraint :: "string \<Rightarrow> string \<Rightarrow> string option \<Rightarrow> arc_error + normalized_constraint" where
  "parse_constraint modality_text operator_text raw_value =
     (case enum_of modality_table modality_text of
        Inl _ \<Rightarrow> Inl ArcVocabularyError
      | Inr mod' \<Rightarrow>
          (case enum_of constraint_operator_table operator_text of
             Inl _ \<Rightarrow> Inl ArcVocabularyError
           | Inr op' \<Rightarrow>
               if op' = PRESENT
               then (if raw_value \<noteq> None \<and> raw_value \<noteq> Some '''' then Inl ArcVocabularyError
                     else Inr \<lparr>modality = mod', operator = op', cvalues = {||}\<rparr>)
               else (case raw_value of
                       None \<Rightarrow> Inl ArcVocabularyError
                     | Some raw \<Rightarrow>
                         if raw = '''' then Inl ArcVocabularyError
                         else if op' = IN_SET \<or> op' = NOT_IN_SET
                         then (let members = constraint_members raw in
                               if members = {||} then Inl ArcVocabularyError
                               else Inr \<lparr>modality = mod', operator = op', cvalues = members\<rparr>)
                         else Inr \<lparr>modality = mod', operator = op', cvalues = {|raw|}\<rparr>)))"

subsection \<open>Directives, rules, manifests\<close>

record directive =
  directive_id :: uuid
  d_revision_id :: uuid
  directive_type :: directive_type
  source_anchor :: string
  conflict_subject :: "conflict_subject_key option"
  constraint :: "normalized_constraint option"
  satisfaction_mode :: "satisfaction_mode option"
  verification_max_age_seconds :: "int option"
  accepted_verifier_classes :: "string fset"
  required_evidence_type :: "string option"
  delegable_exception :: bool

definition directive_post_init :: "directive \<Rightarrow> arc_error + directive" where
  "directive_post_init d =
     (let comparable = conflict_subject d \<noteq> None \<and> constraint d \<noteq> None in
      if is_action_protecting (directive_type d) \<and> \<not> comparable then Inl ArcVocabularyError
      else if satisfaction_mode d = Some SIGNED_RESULT \<and>
              (accepted_verifier_classes d = {||} \<or> required_evidence_type d = None)
      then Inl ArcVocabularyError
      else Inr d)"

text \<open>
  A member of a text selector of a rule: a string, or \<open>None\<close> for a JSON value that is not
  one. A snapshot is untyped JSON, so such a member can reach a selector; it makes the
  selector non-empty and equals no value of a manifest.
\<close>

type_synonym label = "string option"

record applicability_rule =
  rule_id :: uuid
  r_revision_id :: uuid
  scope :: authority_scope
  is_mandatory :: bool
  target_tenant_id :: "uuid option"
  entity_ids :: "uuid fset"
  domain_ids :: "label fset"
  intent_kinds :: "intent_kind fset"
  action_classes :: "action_class fset"
  environments :: "label fset"
  data_sensitivity_tiers :: "label fset"
  effective_from :: "moment option"
  effective_until :: "moment option"

definition rule_post_init :: "applicability_rule \<Rightarrow> arc_error + applicability_rule" where
  "rule_post_init r =
     (if scope r = TENANT \<and> target_tenant_id r = None then Inl ArcVocabularyError
      else if scope r = ENTITY \<and> entity_ids r = {||} then Inl ArcVocabularyError
      else if scope r = DOMAIN \<and> domain_ids r = {||} then Inl ArcVocabularyError
      else if scope r = INTENT \<and> \<not> (intent_kinds r \<noteq> {||} \<and> action_classes r \<noteq> {||}) then Inl ArcVocabularyError
      else Inr r)"

record intent_manifest =
  session_id :: string
  m_intent_kind :: intent_kind
  requested_action_classes :: "action_class fset"
  m_entity_ids :: "uuid fset"
  m_domain_ids :: "string fset"
  m_environment :: "string option"
  data_sensitivity :: "string option"
  repository_identity :: "string option"

subsection \<open>Facts about the vocabularies\<close>

lemma scope_rank_index: "scope_rank s < length scope_order \<and> scope_order ! scope_rank s = s"
  by (cases s) (simp_all add: scope_order_def)

lemma scope_rank_inj: "scope_rank a = scope_rank b \<longleftrightarrow> a = b"
  by (cases a; cases b) simp_all

lemma parse_closed_Inr: "parse_closed table v = Inr x \<longleftrightarrow> map_of table v = Some x"
  by (simp add: parse_closed_def enum_of_def of_option_def split: option.splits)

lemmas vocabulary_defs = parse_intent_kind_def parse_action_class_def parse_directive_type_def
  intent_kinds_table_def action_class_table_def directive_type_table_def enum_str_def parse_closed_def
  enum_of_def

lemma parse_intent_kind_str: "parse_intent_kind (enum_str intent_kinds_table k) = Inr k"
  by (cases k) (simp_all add: vocabulary_defs)

lemma parse_action_class_str: "parse_action_class (enum_str action_class_table k) = Inr k"
  by (cases k) (simp_all add: vocabulary_defs)

lemma parse_directive_type_str: "parse_directive_type (enum_str directive_type_table k) = Inr k"
  by (cases k) (simp_all add: vocabulary_defs)

lemma parse_wire_persisted:
  "parse_wire_directive_type v = Inr t \<Longrightarrow> t = D_CITATION_ONLY \<or> t = D_VERIFY"
  by (auto simp: parse_wire_directive_type_def wire_directive_type_translation_def of_option_eq_Inr
      split: if_splits)

subsection \<open>The hashed message determines the subject\<close>

text \<open>
  The digest of a conflict subject is computed over a message from which the six fields
  can be read back: two subjects with the same message are the same subject, so no different
  split of the same characters over the fields reaches the hash.
\<close>

theorem digest_message_inj:
  assumes "digest_message j = Inr m" "digest_message k = Inr m"
  shows "j = k"
proof -
  obtain xs ys where "traverse (length_prefixed PyOverflowError) (key_parts j) = Inr xs"
      "traverse (length_prefixed PyOverflowError) (key_parts k) = Inr ys" "concat xs = concat ys"
    using assms by (auto simp: digest_message_def result_map_def split: sum.splits)
  then have "key_parts j = key_parts k"
    by (rule concat_length_prefixed_inj) (simp add: key_parts_def)
  then show ?thesis by (cases j; cases k) (simp add: key_parts_def)
qed

theorem digest_message_inj_witness:
  "(\<exists>m. digest_message (ConflictSubjectKey ''1'' ''ab'' ''c'' ''o'' ''a'' ''t'') = Inr m \<and>
        digest_message (ConflictSubjectKey ''1'' ''ab'' ''c'' ''o'' ''a'' ''t'') = Inr m) \<and>
   digest_message (ConflictSubjectKey ''1'' ''ab'' ''c'' ''o'' ''a'' ''t'') \<noteq>
     digest_message (ConflictSubjectKey ''1'' ''a'' ''bc'' ''o'' ''a'' ''t'')"
proof -
  let ?j = "ConflictSubjectKey ''1'' ''ab'' ''c'' ''o'' ''a'' ''t''"
  let ?k = "ConflictSubjectKey ''1'' ''a'' ''bc'' ''o'' ''a'' ''t''"
  obtain m where m: "digest_message ?j = Inr m"
    by (simp add: digest_message_def key_parts_def length_prefixed_def)
  moreover have "digest_message ?j \<noteq> digest_message ?k"
  proof
    assume "digest_message ?j = digest_message ?k"
    with m have "?j = ?k" using digest_message_inj [of ?j m ?k] by simp
    then show False by simp
  qed
  ultimately show ?thesis by blast
qed

subsection \<open>Parsing constraints\<close>

lemma parse_constraint_cases:
  "parse_constraint m op raw = Inr c \<Longrightarrow>
     (operator c = PRESENT \<longrightarrow> cvalues c = {||}) \<and> (operator c \<noteq> PRESENT \<longrightarrow> cvalues c \<noteq> {||})"
  by (auto simp: parse_constraint_def Let_def split: sum.splits if_splits option.splits)

text \<open>The order in which the members are written does not matter.\<close>

lemma constraint_members_append:
  "constraint_members (p @ CHR '','' # q) = constraint_members p |\<union>| constraint_members q"
  by (simp add: constraint_members_def py_split_append)

end
