(* ===== verification/Arc_Selection.thy ===== *)
theory Arc_Selection
  imports Arc_Types
begin

section \<open>ARC selection\<close>

text \<open>
  The model of \<open>contextplane/arc/service/selection.py\<close>: constraints reduced to the values
  they permit, pairwise conflicts grouped by subject, applicability of a rule to a manifest,
  successor collapse, approved exceptions, precedence order, the pure function \<open>select\<close>, and
  \<open>select_and_verify\<close>, which re-checks the integrity of every selected revision. The
  integrity assessor is a parameter: \<open>None\<close> for a revision that is valid, \<open>Some code\<close> for a
  refusal with its reason code (an \<open>IntegrityAssessment\<close> carries a code exactly when it is
  not valid). The session that \<open>select_and_verify\<close> holds is one snapshot, so the parameter
  is a function of the revision.
\<close>

subsection \<open>What a constraint permits\<close>

definition SELECTION_ENGINE_VERSION :: string where
  "SELECTION_ENGINE_VERSION = ''arc_selection_v2''"

record permitted =
  pvalues :: "string fset"
  is_complement :: bool

definition intersects :: "permitted \<Rightarrow> permitted \<Rightarrow> bool" where
  "intersects self other =
     (if \<not> is_complement self \<and> \<not> is_complement other
      then pvalues self |\<inter>| pvalues other \<noteq> {||}
      else if is_complement self \<and> is_complement other then True
      else (let (finite_part, compl) =
                  (if \<not> is_complement self then (pvalues self, pvalues other)
                   else (pvalues other, pvalues self))
            in finite_part |-| compl \<noteq> {||}))"

definition permitted_of :: "normalized_constraint \<Rightarrow> permitted" where
  "permitted_of c =
     (let prohibit = (modality c = M_PROHIBIT) in
      if operator c = PRESENT then \<lparr>pvalues = {||}, is_complement = \<not> prohibit\<rparr>
      else if operator c = EQUALS \<or> operator c = IN_SET
      then \<lparr>pvalues = cvalues c, is_complement = prohibit\<rparr>
      else \<lparr>pvalues = cvalues c, is_complement = \<not> prohibit\<rparr>)"

definition constraints_are_compatible :: "normalized_constraint \<Rightarrow> normalized_constraint \<Rightarrow> bool" where
  "constraints_are_compatible l r = intersects (permitted_of l) (permitted_of r)"

definition directives_conflict :: "directive \<Rightarrow> directive \<Rightarrow> bool" where
  "directives_conflict l r =
     (if \<not> is_action_protecting (directive_type l) \<or> \<not> is_action_protecting (directive_type r) then False
      else (case constraint l of None \<Rightarrow> False | Some lc \<Rightarrow>
            (case constraint r of None \<Rightarrow> False | Some rc \<Rightarrow>
             (if conflict_subject l = None \<or> conflict_subject r = None then False
              else if conflict_subject l \<noteq> conflict_subject r then False
              else if directive_id l = directive_id r then False
              else \<not> constraints_are_compatible lc rc))))"

record conflict_finding =
  f_subject :: conflict_subject_key
  f_left :: directive
  f_right :: directive

definition revision_pair :: "conflict_finding \<Rightarrow> uuid \<times> uuid" where
  "revision_pair f = (d_revision_id (f_left f), d_revision_id (f_right f))"

definition by_subject_step ::
    "directive \<Rightarrow> (conflict_subject_key \<times> directive list) list \<Rightarrow> (conflict_subject_key \<times> directive list) list" where
  "by_subject_step d g =
     (case conflict_subject d of
        None \<Rightarrow> g
      | Some s \<Rightarrow> if constraint d = None then g else group_append s d g)"

definition by_subject :: "directive list \<Rightarrow> (conflict_subject_key \<times> directive list) list" where
  "by_subject ds = fold by_subject_step ds []"

definition find_conflicts :: "directive list \<Rightarrow> conflict_finding list" where
  "find_conflicts ds =
     (let groups = by_subject ds in
      concat (map (\<lambda>s.
        let group = sort_key directive_id (case map_of groups s of None \<Rightarrow> [] | Some g \<Rightarrow> g) in
        map (\<lambda>(l, r). \<lparr>f_subject = s, f_left = l, f_right = r\<rparr>)
          (filter (\<lambda>(l, r). directives_conflict l r) (ordered_pairs group)))
        (sort (map fst groups))))"

subsection \<open>Applicability\<close>

definition matches_any :: "'a fset \<Rightarrow> 'a fset \<Rightarrow> bool" where
  "matches_any rule_values manifest_values =
     (if rule_values = {||} then True else rule_values |\<inter>| manifest_values \<noteq> {||})"

definition matches_scalar :: "label fset \<Rightarrow> string option \<Rightarrow> bool" where
  "matches_scalar rule_values v =
     (if rule_values = {||} then True else (case v of None \<Rightarrow> False | Some x \<Rightarrow> Some x |\<in>| rule_values))"

definition declared_sensitivity :: "string option \<Rightarrow> string" where
  "declared_sensitivity v = (case v of Some s \<Rightarrow> if is_tier (Some s) then s else MOST_RESTRICTIVE | None \<Rightarrow> MOST_RESTRICTIVE)"

definition rule_applies :: "applicability_rule \<Rightarrow> intent_manifest \<Rightarrow> uuid \<Rightarrow> moment \<Rightarrow> bool" where
  "rule_applies rule manifest tenant_id as_of =
     (if (case effective_from rule of Some f \<Rightarrow> as_of < f | None \<Rightarrow> False) then False
      else if (case effective_until rule of Some u \<Rightarrow> as_of > u | None \<Rightarrow> False) then False
      else if scope rule = TENANT \<and> target_tenant_id rule \<noteq> Some tenant_id then False
      else if \<not> matches_any (intent_kinds rule) {|m_intent_kind manifest|} then False
      else if \<not> matches_any (action_classes rule) (requested_action_classes manifest) then False
      else if \<not> matches_any (entity_ids rule) (m_entity_ids manifest) then False
      else if \<not> matches_any (domain_ids rule) (Some |`| m_domain_ids manifest) then False
      else if \<not> matches_scalar (environments rule) (m_environment manifest) then False
      else matches_scalar (data_sensitivity_tiers rule)
             (Some (declared_sensitivity (data_sensitivity manifest))))"

subsection \<open>Precedence, exceptions and successors\<close>

record scoped_directive =
  sd_directive :: directive
  sd_rule :: applicability_rule
  revision_effective_from :: moment

definition sd_scope :: "scoped_directive \<Rightarrow> authority_scope" where
  "sd_scope s = scope (sd_rule s)"

definition sd_is_mandatory :: "scoped_directive \<Rightarrow> bool" where
  "sd_is_mandatory s = is_mandatory (sd_rule s)"

record approved_exception =
  exception_id :: uuid
  higher_scope_directive_id :: uuid
  higher_scope_revision_id :: uuid
  lower_scope_tenant_id :: uuid
  replacement_constraint :: normalized_constraint
  e_effective_from :: "moment option"
  e_effective_until :: "moment option"
  e_revoked_at :: "moment option"

definition exception_is_active_at :: "approved_exception \<Rightarrow> moment \<Rightarrow> bool" where
  "exception_is_active_at e m =
     (if (case e_revoked_at e of Some r \<Rightarrow> m \<ge> r | None \<Rightarrow> False) then False
      else if (case e_effective_from e of Some f \<Rightarrow> m < f | None \<Rightarrow> False) then False
      else \<not> (case e_effective_until e of Some u \<Rightarrow> m > u | None \<Rightarrow> False))"

definition exception_target :: "approved_exception \<Rightarrow> uuid \<times> uuid" where
  "exception_target e = (higher_scope_directive_id e, higher_scope_revision_id e)"

text \<open>A dict comprehension: the last exception for a target wins.\<close>

definition by_target ::
    "approved_exception list \<Rightarrow> uuid \<Rightarrow> moment \<Rightarrow> (uuid \<times> uuid) \<rightharpoonup> approved_exception" where
  "by_target exceptions tenant_id as_of =
     map_of (rev (map (\<lambda>e. (exception_target e, e))
       (filter (\<lambda>e. lower_scope_tenant_id e = tenant_id \<and> exception_is_active_at e as_of) exceptions)))"

fun apply_loop ::
    "((uuid \<times> uuid) \<rightharpoonup> approved_exception) \<Rightarrow> scoped_directive list \<Rightarrow> scoped_directive list \<times> uuid list" where
  "apply_loop targets [] = ([], [])"
| "apply_loop targets (item # rest) =
     (let (result, used) = apply_loop targets rest in
      case targets (directive_id (sd_directive item), d_revision_id (sd_directive item)) of
        None \<Rightarrow> (item # result, used)
      | Some e \<Rightarrow>
          if \<not> delegable_exception (sd_directive item) then (item # result, used)
          else (item\<lparr>sd_directive := (sd_directive item)\<lparr>constraint := Some (replacement_constraint e)\<rparr>\<rparr> # result,
                exception_id e # used))"

definition apply_exceptions ::
    "scoped_directive list \<Rightarrow> approved_exception list \<Rightarrow> uuid \<Rightarrow> moment \<Rightarrow> scoped_directive list \<times> uuid list" where
  "apply_exceptions scoped exceptions tenant_id as_of =
     (let (result, used) = apply_loop (by_target exceptions tenant_id as_of) scoped in (result, sort used))"

definition precedence_key :: "scoped_directive \<Rightarrow> nat \<times> moment \<times> uuid" where
  "precedence_key s = (scope_rank (sd_scope s), revision_effective_from s, directive_id (sd_directive s))"

definition order_by_precedence :: "scoped_directive list \<Rightarrow> scoped_directive list" where
  "order_by_precedence scoped = sort_key precedence_key scoped"

definition successor_key :: "scoped_directive \<Rightarrow> moment \<times> uuid" where
  "successor_key s = (revision_effective_from s, d_revision_id (sd_directive s))"

definition sd_directive_id :: "scoped_directive \<Rightarrow> uuid" where
  "sd_directive_id s = directive_id (sd_directive s)"

definition later_successor :: "scoped_directive \<Rightarrow> scoped_directive \<Rightarrow> bool" where
  "later_successor item current \<longleftrightarrow> successor_key item > successor_key current"

definition collapse_successors :: "scoped_directive list \<Rightarrow> scoped_directive list" where
  "collapse_successors scoped =
     (let latest = best_per_key sd_directive_id later_successor scoped in
      map (\<lambda>k. the (map_of latest k)) (sort (map fst latest)))"

subsection \<open>Selection\<close>

record mandatory_obligation =
  obligation_id :: uuid
  o_directive_id :: uuid
  obligation_state :: string
  applicability_digest :: string

definition is_missing :: "mandatory_obligation \<Rightarrow> bool" where
  "is_missing ob \<longleftrightarrow> obligation_state ob \<noteq> ''satisfied''"

record selection_input =
  manifest :: intent_manifest
  si_tenant_id :: uuid
  as_of :: moment
  candidates :: "(directive \<times> applicability_rule \<times> moment) list"
  exceptions :: "approved_exception list"
  obligations :: "mandatory_obligation list"
  si_engine_version :: string
  si_config_digest :: string

record selection_result =
  status :: resolution_status
  mandatory :: "scoped_directive list"
  optional :: "scoped_directive list"
  blocked_reasons :: "string list"
  degraded_reasons :: "string list"
  conflicts :: "conflict_finding list"
  applied_exception_ids :: "uuid list"
  sr_engine_version :: string

definition config_material :: string where
  "config_material =
     py_join ''|'' (SELECTION_ENGINE_VERSION #
       map (\<lambda>m. show_nat (length m) @ '':'' @ m)
         (concat (map (\<lambda>vocabulary. sort vocabulary)
           [map fst authority_scope_table, map fst constraint_operator_table,
            map fst directive_type_table, map fst modality_table, TIERS])))"

definition selection_config_digest :: "(string \<Rightarrow> string) \<Rightarrow> string" where
  "selection_config_digest sha256_hex = sha256_hex config_material"

definition BLOCKED_CONFLICT :: string where "BLOCKED_CONFLICT = ''blocked_conflict''"
definition BLOCKED_MISSING_MANDATORY :: string where "BLOCKED_MISSING_MANDATORY = ''blocked_missing_mandatory''"
definition DEGRADED_OPTIONAL_UNAVAILABLE :: string where
  "DEGRADED_OPTIONAL_UNAVAILABLE = ''degraded_optional_unavailable''"

definition matched_candidates :: "selection_input \<Rightarrow> scoped_directive list" where
  "matched_candidates inputs =
     map (\<lambda>(d, r, eff). \<lparr>sd_directive = d, sd_rule = r, revision_effective_from = eff\<rparr>)
       (filter (\<lambda>(d, r, eff). rule_applies r (manifest inputs) (si_tenant_id inputs) (as_of inputs)) (candidates inputs))"

definition select :: "selection_input \<Rightarrow> selection_result" where
  "select inputs =
     (let collapsed = collapse_successors (matched_candidates inputs);
          (with_exceptions, applied) =
            apply_exceptions collapsed (exceptions inputs) (si_tenant_id inputs) (as_of inputs);
          ordered = order_by_precedence with_exceptions;
          mand = filter sd_is_mandatory ordered;
          opt = filter (\<lambda>s. \<not> sd_is_mandatory s) ordered;
          found = find_conflicts (map sd_directive mand);
          blocking = (if found \<noteq> [] then {|BLOCKED_CONFLICT|} else {||})
            |\<union>| (if (\<exists>ob \<in> set (obligations inputs). is_missing ob) then {|BLOCKED_MISSING_MANDATORY|} else {||});
          degrading = (if find_conflicts (map sd_directive opt) \<noteq> [] then {|DEGRADED_OPTIONAL_UNAVAILABLE|} else {||})
      in \<lparr>status = (if blocking \<noteq> {||} then BLOCKED else if degrading \<noteq> {||} then DEGRADED else READY),
          mandatory = mand, optional = opt,
          blocked_reasons = sorted_list_of_fset blocking,
          degraded_reasons = sorted_list_of_fset degrading,
          conflicts = found,
          applied_exception_ids = applied,
          sr_engine_version = si_engine_version inputs\<rparr>)"

definition selected_revisions :: "selection_result \<Rightarrow> uuid list" where
  "selected_revisions res =
     sorted_list_of_fset (fset_of_list (map (\<lambda>s. d_revision_id (sd_directive s)) (mandatory res @ optional res)))"

definition integrity_failures :: "(uuid \<Rightarrow> string option) \<Rightarrow> uuid list \<Rightarrow> (uuid \<times> string) list" where
  "integrity_failures assess ids = List.map_filter (\<lambda>r. map_option (Pair r) (assess r)) ids"

definition select_and_verify :: "selection_input \<Rightarrow> (uuid \<Rightarrow> string option) \<Rightarrow> selection_result" where
  "select_and_verify inputs assess =
     (let result = select inputs;
          failures = integrity_failures assess (selected_revisions result);
          failed = (\<lambda>s. map_of failures (d_revision_id (sd_directive s)) \<noteq> None);
          codes = fset_of_list (map snd failures)
      in if failures = [] then result
         else let optional_kept = filter (\<lambda>s. \<not> failed s) (optional result) in
         if (\<exists>s \<in> set (mandatory result). failed s)
         then result\<lparr>blocked_reasons := sorted_list_of_fset (fset_of_list (blocked_reasons result) |\<union>| codes),
                     status := BLOCKED\<rparr>
         else if optional_kept \<noteq> optional result
         then result\<lparr>optional := optional_kept,
                     degraded_reasons := sorted_list_of_fset (fset_of_list (degraded_reasons result) |\<union>| codes),
                     status := (if status result = READY then DEGRADED else status result)\<rparr>
         else result)"


subsection \<open>A small corpus for the witnesses\<close>

definition sample_subject :: conflict_subject_key where
  "sample_subject = ConflictSubjectKey ''1'' ''ns'' ''svc'' ''write'' ''deploy'' ''prod''"

definition sample_directive :: "uuid \<Rightarrow> uuid \<Rightarrow> string \<Rightarrow> directive" where
  "sample_directive i v x =
     \<lparr>directive_id = i, d_revision_id = v, directive_type = D_REQUIRE, source_anchor = ''a'',
      conflict_subject = Some sample_subject,
      constraint = Some \<lparr>modality = M_REQUIRE, operator = EQUALS, cvalues = {|x|}\<rparr>,
      satisfaction_mode = None, verification_max_age_seconds = None, accepted_verifier_classes = {||},
      required_evidence_type = None, delegable_exception = True\<rparr>"

definition sample_rule :: "uuid \<Rightarrow> bool \<Rightarrow> applicability_rule" where
  "sample_rule v mand =
     \<lparr>rule_id = ''r'' @ v, r_revision_id = v, scope = GLOBAL, is_mandatory = mand, target_tenant_id = None,
      entity_ids = {||}, domain_ids = {||}, intent_kinds = {||}, action_classes = {||}, environments = {||},
      data_sensitivity_tiers = {||}, effective_from = None, effective_until = None\<rparr>"

definition sample_manifest :: intent_manifest where
  "sample_manifest =
     \<lparr>session_id = ''s'', m_intent_kind = DEPLOYMENT, requested_action_classes = {|DEPLOY|}, m_entity_ids = {||},
      m_domain_ids = {||}, m_environment = None, data_sensitivity = None, repository_identity = None\<rparr>"

definition sample_exception :: approved_exception where
  "sample_exception =
     \<lparr>exception_id = ''x'', higher_scope_directive_id = ''d1'', higher_scope_revision_id = ''v2'',
      lower_scope_tenant_id = ''t'',
      replacement_constraint = \<lparr>modality = M_PROHIBIT, operator = EQUALS, cvalues = {|''a''|}\<rparr>,
      e_effective_from = None, e_effective_until = Some 9, e_revoked_at = None\<rparr>"

definition sample_input ::
    "(directive \<times> applicability_rule \<times> moment) list \<Rightarrow> approved_exception list \<Rightarrow> selection_input" where
  "sample_input cs es =
     \<lparr>manifest = sample_manifest, si_tenant_id = ''t'', as_of = 5, candidates = cs, exceptions = es,
      obligations = [], si_engine_version = SELECTION_ENGINE_VERSION, si_config_digest = []\<rparr>"

definition sample_candidates :: "(directive \<times> applicability_rule \<times> moment) list" where
  "sample_candidates =
     [(sample_directive ''d1'' ''v1'' ''a'', sample_rule ''v1'' True, 1),
      (sample_directive ''d1'' ''v2'' ''b'', sample_rule ''v2'' True, 2),
      (sample_directive ''d2'' ''w1'' ''c'', sample_rule ''w1'' False, 1)]"

lemmas sample_defs = sample_subject_def sample_directive_def sample_rule_def sample_manifest_def
  sample_exception_def sample_input_def sample_candidates_def

lemma sample_rule_applies: "rule_applies (sample_rule v b) sample_manifest t m"
  by (simp add: rule_applies_def sample_rule_def matches_any_def matches_scalar_def)

subsection \<open>Constraints mean what they admit\<close>

text \<open>
  The reading of a constraint the reduction to permitted values has to respect: an operator
  holds of a value, and a prohibition admits the values of which it does not hold.
\<close>

fun operator_holds :: "constraint_operator \<Rightarrow> string fset \<Rightarrow> string \<Rightarrow> bool" where
  "operator_holds EQUALS vs v \<longleftrightarrow> v |\<in>| vs"
| "operator_holds IN_SET vs v \<longleftrightarrow> v |\<in>| vs"
| "operator_holds NOT_IN_SET vs v \<longleftrightarrow> v |\<notin>| vs"
| "operator_holds PRESENT vs v \<longleftrightarrow> True"

fun admits :: "normalized_constraint \<Rightarrow> string \<Rightarrow> bool" where
  "admits c v = (case modality c of M_REQUIRE \<Rightarrow> operator_holds (operator c) (cvalues c) v
                 | M_PROHIBIT \<Rightarrow> \<not> operator_holds (operator c) (cvalues c) v)"

definition permits :: "permitted \<Rightarrow> string \<Rightarrow> bool" where
  "permits p v \<longleftrightarrow> (if is_complement p then v |\<notin>| pvalues p else v |\<in>| pvalues p)"

lemma string_outside: "\<exists>v :: string. v |\<notin>| a \<and> v |\<notin>| b"
proof -
  have "finite (fset a \<union> fset b)" by simp
  then have "fset a \<union> fset b \<noteq> (UNIV :: string set)" by (metis infinite_UNIV_listI)
  then show ?thesis by auto
qed

lemma intersects_permits: "intersects p q \<longleftrightarrow> (\<exists>v. permits p v \<and> permits q v)"
  using string_outside [of "pvalues p" "pvalues q"]
  by (auto simp: intersects_def permits_def Let_def)

lemma permits_permitted_of: "permits (permitted_of c) v \<longleftrightarrow> admits c v"
  by (cases "operator c"; cases "modality c") (auto simp: permitted_of_def permits_def)

lemma compatible_admits:
  "constraints_are_compatible l r \<longleftrightarrow> (\<exists>v. admits l v \<and> admits r v)"
  by (simp only: constraints_are_compatible_def intersects_permits permits_permitted_of)

lemma directives_conflict_iff:
  "directives_conflict l r \<longleftrightarrow>
     is_action_protecting (directive_type l) \<and> is_action_protecting (directive_type r) \<and>
     directive_id l \<noteq> directive_id r \<and>
     (\<exists>s lc rc. conflict_subject l = Some s \<and> conflict_subject r = Some s \<and>
        constraint l = Some lc \<and> constraint r = Some rc \<and> (\<nexists>v. admits lc v \<and> admits rc v))"
  by (auto simp: directives_conflict_def compatible_admits simp del: admits.simps split: option.splits)

lemma directives_conflict_sym: "directives_conflict l r \<longleftrightarrow> directives_conflict r l"
  unfolding directives_conflict_iff by metis

text \<open>
  C6. Two constraints are reported compatible exactly when some value satisfies both of them:
  the reduction to finite sets and complements loses nothing, for both modalities and all
  four operators.
\<close>

theorem compatible_iff_common_value:
  "constraints_are_compatible l r \<longleftrightarrow> (\<exists>v. admits l v \<and> admits r v)"
  by (rule compatible_admits)

subsection \<open>Conflict search\<close>

definition comparable_on :: "conflict_subject_key \<Rightarrow> directive list \<Rightarrow> directive list" where
  "comparable_on s ds = filter (\<lambda>d. conflict_subject d = Some s \<and> constraint d \<noteq> None) ds"

lemma map_of_by_subject:
  "map_of (by_subject ds) s = (let g = comparable_on s ds in if g = [] then None else Some g)"
  unfolding by_subject_def
  by (induction ds rule: rev_induct)
    (auto simp: comparable_on_def by_subject_step_def group_append_def update_conv' Let_def
      split: option.splits if_splits)

lemma set_find_conflicts:
  "f \<in> set (find_conflicts ds) \<longleftrightarrow>
     directives_conflict (f_left f) (f_right f) \<and>
     (f_left f, f_right f) \<in> set (ordered_pairs (sort_key directive_id (comparable_on (f_subject f) ds)))"
  (is "?L \<longleftrightarrow> ?R")
proof -
  have "?L \<longleftrightarrow> f_subject f \<in> fst ` set (by_subject ds) \<and> ?R"
    by (cases f) (force simp: find_conflicts_def Let_def map_of_by_subject)
  moreover have "?R \<Longrightarrow> f_subject f \<in> fst ` set (by_subject ds)"
  proof -
    assume ?R
    then have "comparable_on (f_subject f) ds \<noteq> []" by auto
    then have "map_of (by_subject ds) (f_subject f) \<noteq> None" by (simp add: map_of_by_subject Let_def)
    then show ?thesis by (simp add: map_of_eq_None_iff)
  qed
  ultimately show ?thesis by blast
qed

lemma find_conflicts_sound:
  assumes "f \<in> set (find_conflicts ds)"
  shows "directives_conflict (f_left f) (f_right f)" "f_left f \<in> set ds" "f_right f \<in> set ds"
    "conflict_subject (f_left f) = Some (f_subject f)"
  using assms ordered_pairs_members [of "f_left f" "f_right f"]
  unfolding set_find_conflicts by (force simp: comparable_on_def)+

lemma find_conflicts_complete:
  assumes "l \<in> set ds" "r \<in> set ds" "directives_conflict l r"
  shows "\<exists>f \<in> set (find_conflicts ds). {f_left f, f_right f} = {l, r}"
proof -
  obtain s where s: "l \<in> set (sort_key directive_id (comparable_on s ds))"
      "r \<in> set (sort_key directive_id (comparable_on s ds))" "l \<noteq> r"
    using assms by (auto simp: directives_conflict_iff comparable_on_def)
  let ?f = "\<lambda>a b. \<lparr>f_subject = s, f_left = a, f_right = b\<rparr>"
  from ordered_pairs_total [OF s] have "?f l r \<in> set (find_conflicts ds) \<or> ?f r l \<in> set (find_conflicts ds)"
    using assms(3) directives_conflict_sym [of l r] by (auto simp: set_find_conflicts)
  then show ?thesis by (metis conflict_finding.select_convs(2,3) insert_commute)
qed

lemma find_conflicts_empty_iff:
  "find_conflicts ds = [] \<longleftrightarrow> (\<forall>l \<in> set ds. \<forall>r \<in> set ds. \<not> directives_conflict l r)"
  using find_conflicts_sound find_conflicts_complete by (metis empty_iff list.set(1) list.set_intros(1) neq_Nil_conv)

text \<open>
  C5. The grouped search reports exactly the conflicting pairs: a pair of directives is cited
  by some finding precisely when both are in the list, both are action protecting with
  distinct identities, they constrain the same subject and no value satisfies both.
\<close>

theorem find_conflicts_exact:
  "(\<exists>f \<in> set (find_conflicts ds). {f_left f, f_right f} = {l, r}) \<longleftrightarrow>
     l \<in> set ds \<and> r \<in> set ds \<and> directive_id l \<noteq> directive_id r \<and>
     is_action_protecting (directive_type l) \<and> is_action_protecting (directive_type r) \<and>
     (\<exists>s lc rc. conflict_subject l = Some s \<and> conflict_subject r = Some s \<and>
        constraint l = Some lc \<and> constraint r = Some rc \<and> (\<nexists>v. admits lc v \<and> admits rc v))"
  (is "?L \<longleftrightarrow> ?R")
proof
  assume ?L
  then obtain f where f: "f \<in> set (find_conflicts ds)" "{f_left f, f_right f} = {l, r}" by blast
  then have "l \<in> set ds" "r \<in> set ds" "directives_conflict l r"
    using find_conflicts_sound [OF f(1)] directives_conflict_sym by (auto simp: doubleton_eq_iff)
  then show ?R unfolding directives_conflict_iff by blast
next
  assume ?R
  then have "directives_conflict l r" unfolding directives_conflict_iff by blast
  with \<open>?R\<close> show ?L using find_conflicts_complete by blast
qed


subsection \<open>Successors and precedence\<close>

interpretation successors: keyed_preference sd_directive_id later_successor
  by unfold_locales (auto simp: later_successor_def)

lemma set_collapse_successors:
  "s \<in> set (collapse_successors scoped) \<longleftrightarrow>
     map_of (best_per_key sd_directive_id later_successor scoped) (sd_directive_id s) = Some s"
proof -
  let ?b = "best_per_key sd_directive_id later_successor scoped"
  have "s \<in> set (collapse_successors scoped) \<longleftrightarrow> (\<exists>k. map_of ?b k = Some s)"
    unfolding collapse_successors_def Let_def by (rule set_lookup_sorted_keys)
  then show ?thesis using best_per_key_Some [of sd_directive_id later_successor scoped] by metis
qed

lemma ids_collapse_successors:
  "map sd_directive_id (collapse_successors scoped) = sorted_list_of_set (sd_directive_id ` set scoped)"
proof -
  let ?b = "best_per_key sd_directive_id later_successor scoped"
  have keys: "set (map fst ?b) = sd_directive_id ` set scoped"
    using best_per_key_None_iff [of sd_directive_id later_successor scoped]
    by (auto simp: map_of_eq_None_iff)
  have "map sd_directive_id (collapse_successors scoped) = map (\<lambda>k. k) (sort (map fst ?b))"
    unfolding collapse_successors_def Let_def map_map
  proof (rule map_cong [OF refl])
    fix k assume "k \<in> set (sort (map fst ?b))"
    then obtain x where "map_of ?b k = Some x" by (metis keys best_per_key_None_iff option.exhaust set_sort)
    then show "(sd_directive_id \<circ> (\<lambda>k. the (map_of ?b k))) k = k" using best_per_key_Some by fastforce
  qed
  also have "\<dots> = sorted_list_of_set (sd_directive_id ` set scoped)"
    unfolding keys [symmetric] sorted_list_of_set_sort_remdups
    by (simp add: distinct_remdups_id distinct_keys_best_per_key)
  finally show ?thesis .
qed

lemma collapse_successors_member:
  assumes "s \<in> set (collapse_successors scoped)"
  shows "s \<in> set scoped"
    and "\<And>t. t \<in> set scoped \<Longrightarrow> sd_directive_id t = sd_directive_id s \<Longrightarrow> successor_key t \<le> successor_key s"
  using assms best_per_key_Some [of sd_directive_id later_successor scoped "sd_directive_id s" s]
    successors.winner_maximal [of scoped "sd_directive_id s" s]
  by (auto simp: set_collapse_successors later_successor_def not_less)

lemma collapse_successors_cong:
  assumes "set xs = set ys"
    and "inj_on (\<lambda>s. (sd_directive_id s, successor_key s)) (set xs)"
  shows "collapse_successors xs = collapse_successors ys"
proof -
  have eq: "map_of (best_per_key sd_directive_id later_successor xs) =
      map_of (best_per_key sd_directive_id later_successor ys)"
  proof (rule successors.best_per_key_cong [OF assms(1)])
    fix a b assume "a \<in> set xs" "b \<in> set xs" "sd_directive_id a = sd_directive_id b" "a \<noteq> b"
    with assms(2) have "successor_key a \<noteq> successor_key b" by (auto dest: inj_onD)
    then show "later_successor a b \<or> later_successor b a"
      by (auto simp: later_successor_def neq_iff)
  qed
  have "fst ` set (best_per_key sd_directive_id later_successor xs) =
      fst ` set (best_per_key sd_directive_id later_successor ys)"
    using eq by (metis dom_map_of_conv_image_fst)
  then have "sort (map fst (best_per_key sd_directive_id later_successor xs)) =
      sort (map fst (best_per_key sd_directive_id later_successor ys))"
    using sort_key_determined_distinct [of _ _ "\<lambda>k. k"] distinct_keys_best_per_key by (metis inj_on_id2 set_map)
  with eq show ?thesis by (simp add: collapse_successors_def Let_def)
qed

subsection \<open>Exceptions\<close>

lemma by_target_Some:
  "by_target es t m k = Some e \<Longrightarrow>
     e \<in> set es \<and> lower_scope_tenant_id e = t \<and> exception_is_active_at e m \<and> exception_target e = k"
  unfolding by_target_def by (drule map_of_SomeD) auto

lemma by_target_cong:
  assumes "set es = set fs"
    and "inj_on exception_target {e \<in> set es. lower_scope_tenant_id e = t \<and> exception_is_active_at e m}"
  shows "by_target es t m = by_target fs t m"
proof
  fix k
  let ?P = "\<lambda>e. lower_scope_tenant_id e = t \<and> exception_is_active_at e m"
  have none: "by_target xs t m k = None \<longleftrightarrow> (\<forall>e \<in> set xs. ?P e \<longrightarrow> exception_target e \<noteq> k)" for xs
    by (auto simp: by_target_def map_of_eq_None_iff image_image)
  show "by_target es t m k = by_target fs t m k"
  proof (cases "by_target es t m k")
    case None
    then show ?thesis using none [of es] none [of fs] assms(1) by simp
  next
    case (Some e)
    with none [of es] none [of fs] assms(1) obtain f where f: "by_target fs t m k = Some f" by auto
    from by_target_Some [OF Some] by_target_Some [OF f] assms have "e = f" by (auto dest: inj_onD)
    with Some f show ?thesis by simp
  qed
qed

text \<open>One directive under the exceptions in force.\<close>

definition excepted :: "((uuid \<times> uuid) \<rightharpoonup> approved_exception) \<Rightarrow> scoped_directive \<Rightarrow> scoped_directive" where
  "excepted targets s =
     (case targets (directive_id (sd_directive s), d_revision_id (sd_directive s)) of
        None \<Rightarrow> s
      | Some e \<Rightarrow> if delegable_exception (sd_directive s)
          then s\<lparr>sd_directive := (sd_directive s)\<lparr>constraint := Some (replacement_constraint e)\<rparr>\<rparr> else s)"

lemma fst_apply_loop: "fst (apply_loop targets xs) = map (excepted targets) xs"
  by (induction xs) (auto simp: excepted_def Let_def split: option.splits prod.splits)

lemma fst_apply_exceptions: "fst (apply_exceptions xs es t m) = map (excepted (by_target es t m)) xs"
  by (simp add: apply_exceptions_def fst_apply_loop [symmetric] split: prod.splits)

lemma excepted_simps [simp]:
  "sd_rule (excepted targets s) = sd_rule s"
  "revision_effective_from (excepted targets s) = revision_effective_from s"
  "directive_id (sd_directive (excepted targets s)) = directive_id (sd_directive s)"
  "d_revision_id (sd_directive (excepted targets s)) = d_revision_id (sd_directive s)"
  "directive_type (sd_directive (excepted targets s)) = directive_type (sd_directive s)"
  "conflict_subject (sd_directive (excepted targets s)) = conflict_subject (sd_directive s)"
  by (simp_all add: excepted_def split: option.splits)


subsection \<open>What selection serves\<close>

definition served :: "selection_result \<Rightarrow> scoped_directive list" where
  "served res = mandatory res @ optional res"

definition in_force :: "selection_input \<Rightarrow> (uuid \<times> uuid) \<rightharpoonup> approved_exception" where
  "in_force i = by_target (exceptions i) (si_tenant_id i) (as_of i)"

definition selection_order :: "selection_input \<Rightarrow> scoped_directive list" where
  "selection_order i =
     order_by_precedence (map (excepted (in_force i)) (collapse_successors (matched_candidates i)))"

lemma select_fields:
  "mandatory (select i) = filter sd_is_mandatory (selection_order i)"
  "optional (select i) = filter (\<lambda>s. \<not> sd_is_mandatory s) (selection_order i)"
  "conflicts (select i) = find_conflicts (map sd_directive (mandatory (select i)))"
  "blocked_reasons (select i) = sorted_list_of_fset
     ((if conflicts (select i) \<noteq> [] then {|BLOCKED_CONFLICT|} else {||}) |\<union>|
      (if (\<exists>ob \<in> set (obligations i). is_missing ob) then {|BLOCKED_MISSING_MANDATORY|} else {||}))"
  "degraded_reasons (select i) = sorted_list_of_fset
     (if find_conflicts (map sd_directive (optional (select i))) \<noteq> [] then {|DEGRADED_OPTIONAL_UNAVAILABLE|} else {||})"
  by (simp_all add: select_def Let_def selection_order_def in_force_def fst_apply_exceptions [symmetric]
      split: prod.splits)

lemma select_status:
  "status (select i) =
     (if conflicts (select i) \<noteq> [] \<or> (\<exists>ob \<in> set (obligations i). is_missing ob) then BLOCKED
      else if find_conflicts (map sd_directive (optional (select i))) \<noteq> [] then DEGRADED else READY)"
  by (simp add: select_def Let_def split: prod.splits)

lemma mset_selection_order:
  "mset (selection_order i) = mset (map (excepted (in_force i)) (collapse_successors (matched_candidates i)))"
  by (simp add: selection_order_def order_by_precedence_def)

lemma set_selection_order:
  "set (selection_order i) = excepted (in_force i) ` set (collapse_successors (matched_candidates i))"
  using arg_cong [OF mset_selection_order, of set_mset] by simp

lemma set_served: "set (served (select i)) = set (selection_order i)"
  by (auto simp: served_def select_fields)

lemma set_matched:
  "s \<in> set (matched_candidates i) \<longleftrightarrow>
     (sd_directive s, sd_rule s, revision_effective_from s) \<in> set (candidates i) \<and>
     rule_applies (sd_rule s) (manifest i) (si_tenant_id i) (as_of i)"
  by (cases s) (force simp: matched_candidates_def)

text \<open>
  C1. Status is exact. A resolution is blocked precisely when two mandatory directives of the
  result conflict or an obligation is missing; it is ready precisely when, besides, no two
  optional directives conflict; otherwise it is degraded.
\<close>

theorem select_status_exact:
  "let res = select i;
       clash = (\<lambda>ss. \<exists>l \<in> set ss. \<exists>r \<in> set ss. directives_conflict (sd_directive l) (sd_directive r));
       missing = (\<exists>ob \<in> set (obligations i). obligation_state ob \<noteq> ''satisfied'')
   in (status res = BLOCKED \<longleftrightarrow> clash (mandatory res) \<or> missing) \<and>
      (status res = READY \<longleftrightarrow> \<not> clash (mandatory res) \<and> \<not> missing \<and> \<not> clash (optional res)) \<and>
      (blocked_reasons res = [] \<longleftrightarrow> status res \<noteq> BLOCKED)"
proof -
  have clash: "find_conflicts (map sd_directive ss) \<noteq> [] \<longleftrightarrow>
      (\<exists>l \<in> set ss. \<exists>r \<in> set ss. directives_conflict (sd_directive l) (sd_directive r))" for ss
    by (simp add: find_conflicts_empty_iff)
  have "blocked_reasons (select i) = [] \<longleftrightarrow> status (select i) \<noteq> BLOCKED"
    unfolding select_fields(4) select_status by (simp add: sorted_list_of_fset.rep_eq)
  then show ?thesis
    unfolding Let_def select_status select_fields(3) clash is_missing_def by auto
qed

text \<open>
  C3. Selection serves exactly one directive per identity for which some candidate applies: the
  identities served are those of the candidates whose rule applies, none twice, and each one
  comes from an applying candidate that no other applying candidate of the same identity
  succeeds (by effective time, then revision id).
\<close>

theorem select_serves_latest:
  "distinct (map sd_directive_id (served (select i))) \<and>
   sd_directive_id ` set (served (select i)) =
     {directive_id d | d r e. (d, r, e) \<in> set (candidates i) \<and>
        rule_applies r (manifest i) (si_tenant_id i) (as_of i)} \<and>
   (\<forall>s \<in> set (served (select i)).
      (\<exists>d. (d, sd_rule s, revision_effective_from s) \<in> set (candidates i) \<and>
           directive_id d = sd_directive_id s \<and> d_revision_id d = d_revision_id (sd_directive s)) \<and>
      rule_applies (sd_rule s) (manifest i) (si_tenant_id i) (as_of i) \<and>
      (\<forall>(d, r, e) \<in> set (candidates i).
         directive_id d = sd_directive_id s \<and> rule_applies r (manifest i) (si_tenant_id i) (as_of i) \<longrightarrow>
         (e, d_revision_id d) \<le> (revision_effective_from s, d_revision_id (sd_directive s))))"
proof (intro conjI ballI)
  let ?c = "collapse_successors (matched_candidates i)"
  have ids: "map sd_directive_id (map (excepted f) ?c) = sorted_list_of_set (sd_directive_id ` set (matched_candidates i))"
    for f unfolding ids_collapse_successors [symmetric] by (simp add: sd_directive_id_def)
  have "mset (served (select i)) = mset (selection_order i)"
    by (simp add: served_def select_fields)
  then have ms: "mset (map sd_directive_id (served (select i))) =
      mset (sorted_list_of_set (sd_directive_id ` set (matched_candidates i)))"
    by (metis ids mset_map mset_selection_order)
  then show "distinct (map sd_directive_id (served (select i)))"
    by (metis distinct_sorted_list_of_set mset_eq_imp_distinct_iff)
  have "sd_directive_id ` set (served (select i)) = sd_directive_id ` set (matched_candidates i)"
    using arg_cong [OF ms, of set_mset] by simp
  also have "\<dots> = {directive_id d | d r e. (d, r, e) \<in> set (candidates i) \<and>
        rule_applies r (manifest i) (si_tenant_id i) (as_of i)}"
    by (force simp: matched_candidates_def sd_directive_id_def)
  finally show "sd_directive_id ` set (served (select i)) = \<dots>" .
next
  fix s assume "s \<in> set (served (select i))"
  then obtain t where t: "t \<in> set (collapse_successors (matched_candidates i))" "s = excepted (in_force i) t"
    by (auto simp: set_served set_selection_order)
  note m = collapse_successors_member [OF t(1)]
  from m(1) t(2) show "\<exists>d. (d, sd_rule s, revision_effective_from s) \<in> set (candidates i) \<and>
      directive_id d = sd_directive_id s \<and> d_revision_id d = d_revision_id (sd_directive s)"
    by (auto simp: set_matched sd_directive_id_def)
  from m(1) t(2) show "rule_applies (sd_rule s) (manifest i) (si_tenant_id i) (as_of i)"
    by (simp add: set_matched)
  fix x assume x: "x \<in> set (candidates i)"
  obtain d r e where "x = (d, r, e)" by (cases x)
  with x m(2) [of "\<lparr>sd_directive = d, sd_rule = r, revision_effective_from = e\<rparr>"] t(2)
  show "case x of (d, r, e) \<Rightarrow> directive_id d = sd_directive_id s \<and>
      rule_applies r (manifest i) (si_tenant_id i) (as_of i) \<longrightarrow>
      (e, d_revision_id d) \<le> (revision_effective_from s, d_revision_id (sd_directive s))"
    by (auto simp: set_matched sd_directive_id_def successor_key_def)
qed

theorem select_serves_latest_witness:
  "sd_directive_id ` set (served (select (sample_input sample_candidates []))) = {''d1'', ''d2''} \<and>
   (\<exists>s \<in> set (served (select (sample_input sample_candidates []))).
      sd_directive_id s = ''d1'' \<and> d_revision_id (sd_directive s) = ''v2'')"
proof -
  let ?i = "sample_input sample_candidates []"
  note serves = select_serves_latest [of ?i]
  have "sd_directive_id ` set (served (select ?i)) =
      {directive_id d | d r e. (d, r, e) \<in> set (candidates ?i) \<and> rule_applies r (manifest ?i) (si_tenant_id ?i) (as_of ?i)}"
    (is "_ = ?S") using serves by blast
  also have "\<dots> = {''d1'', ''d2''}"
  proof -
    have "rule_applies r (manifest ?i) (si_tenant_id ?i) (as_of ?i)" if "(d, r, e) \<in> set (candidates ?i)" for d r e
      using that by (auto simp: sample_input_def sample_candidates_def sample_rule_applies)
    then have "?S = directive_id ` fst ` set (candidates ?i)" by force
    also have "\<dots> = {''d1'', ''d2''}" by (simp add: sample_input_def sample_candidates_def sample_directive_def)
    finally show ?thesis .
  qed
  finally have ids: "sd_directive_id ` set (served (select ?i)) = {''d1'', ''d2''}" .
  have "d_revision_id (sd_directive s) = ''v2''"
    if s: "s \<in> set (served (select ?i))" "sd_directive_id s = ''d1''" for s
  proof -
    from serves s(1) obtain d where d: "(d, sd_rule s, revision_effective_from s) \<in> set (candidates ?i)"
        "directive_id d = sd_directive_id s" "d_revision_id d = d_revision_id (sd_directive s)" by blast
    have c2: "(sample_directive ''d1'' ''v2'' ''b'', sample_rule ''v2'' True, 2) \<in> set (candidates ?i)"
      by (simp add: sample_input_def sample_candidates_def)
    have "(2, ''v2'') \<le> (revision_effective_from s, d_revision_id (sd_directive s))"
      using serves s c2 by (fastforce simp: sample_input_def sample_rule_applies sample_directive_def)
    with d s(2) show ?thesis
      by (auto simp: sample_input_def sample_candidates_def sample_directive_def)
  qed
  moreover from ids obtain s where "s \<in> set (served (select ?i))" "sd_directive_id s = ''d1''"
    by (metis imageE insertI1)
  ultimately show ?thesis using ids by blast
qed

text \<open>
  C4. Selection does not depend on the order in which its inputs were read: when no two
  candidates of one directive tie on effective time and revision, and no two exceptions in
  force for the tenant name the same target, the same sets of candidates, exceptions and
  obligations give the identical result, findings and reason lists included.
\<close>

theorem select_order_independent:
  assumes "manifest i = manifest j" "si_tenant_id i = si_tenant_id j" "as_of i = as_of j"
    and "si_engine_version i = si_engine_version j"
    and "set (candidates i) = set (candidates j)" "set (exceptions i) = set (exceptions j)"
    and "set (obligations i) = set (obligations j)"
    and "inj_on (\<lambda>(d, r, e). (directive_id d, e, d_revision_id d)) (set (candidates i))"
    and "inj_on exception_target {e \<in> set (exceptions i).
           lower_scope_tenant_id e = si_tenant_id i \<and> exception_is_active_at e (as_of i)}"
  shows "select i = select j"
proof -
  have "set (matched_candidates i) = set (matched_candidates j)"
    using assms by (auto simp: set_matched set_eq_iff)
  moreover have "inj_on (\<lambda>s. (sd_directive_id s, successor_key s)) (set (matched_candidates i))"
  proof (rule inj_onI)
    fix s t assume st: "s \<in> set (matched_candidates i)" "t \<in> set (matched_candidates i)"
      and eq: "(sd_directive_id s, successor_key s) = (sd_directive_id t, successor_key t)"
    from st have "(sd_directive s, sd_rule s, revision_effective_from s) =
        (sd_directive t, sd_rule t, revision_effective_from t)"
      using eq by (intro inj_onD [OF assms(8)]) (auto simp: set_matched sd_directive_id_def successor_key_def)
    then show "s = t" by (cases s; cases t) simp
  qed
  ultimately have "collapse_successors (matched_candidates i) = collapse_successors (matched_candidates j)"
    by (rule collapse_successors_cong)
  moreover have "by_target (exceptions i) (si_tenant_id i) (as_of i) = by_target (exceptions j) (si_tenant_id j) (as_of j)"
    using by_target_cong [OF assms(6,9)] assms(2,3) by simp
  ultimately show ?thesis
    using assms(2,3,4,7) by (simp add: select_def apply_exceptions_def)
qed

theorem select_order_independent_witness:
  "select (sample_input sample_candidates [sample_exception]) =
   select (sample_input (rev sample_candidates) [sample_exception])"
  by (rule select_order_independent)
    (auto simp: sample_input_def sample_candidates_def sample_directive_def inj_on_def)

subsection \<open>Exceptions weaken only what may be weakened\<close>

lemma snd_apply_loop:
  "x \<in> set (snd (apply_loop targets xs)) \<longleftrightarrow>
     (\<exists>s \<in> set xs. delegable_exception (sd_directive s) \<and>
        (\<exists>e. targets (directive_id (sd_directive s), d_revision_id (sd_directive s)) = Some e \<and> x = exception_id e))"
  by (induction xs) (auto simp: Let_def split: option.splits prod.splits)

text \<open>The exception \<open>e\<close> may be used for \<open>s\<close>.\<close>

definition covers :: "approved_exception list \<Rightarrow> uuid \<Rightarrow> moment \<Rightarrow> approved_exception \<Rightarrow> scoped_directive \<Rightarrow> bool" where
  "covers es t m e s \<longleftrightarrow>
     e \<in> set es \<and> lower_scope_tenant_id e = t \<and> exception_is_active_at e m \<and>
     delegable_exception (sd_directive s) \<and>
     exception_target e = (directive_id (sd_directive s), d_revision_id (sd_directive s))"

lemma by_target_covers:
  "by_target es t m (directive_id (sd_directive s), d_revision_id (sd_directive s)) = Some e \<Longrightarrow>
   delegable_exception (sd_directive s) \<Longrightarrow> covers es t m e s"
  by (drule by_target_Some) (simp add: covers_def)

lemma excepted_cases:
  "excepted (by_target es t m) s = s \<or>
   (\<exists>e. covers es t m e s \<and> excepted (by_target es t m) s =
      s\<lparr>sd_directive := (sd_directive s)\<lparr>constraint := Some (replacement_constraint e)\<rparr>\<rparr>)"
  by (auto simp: excepted_def dest: by_target_covers split: option.splits)

text \<open>
  An exception changes nothing but the constraint of a directive that declares itself
  delegable: position by position, \<open>apply_exceptions\<close> returns the same scoped directive, or the
  same one with the replacement constraint of an exception that is active at the evaluation
  moment, belongs to the requesting tenant and names exactly this directive and revision; and
  the identifiers it reports are those of such exceptions.
\<close>

theorem apply_exceptions_sound:
  "let (result, used) = apply_exceptions scoped es t m
   in list_all2 (\<lambda>s r. r = s \<or> (\<exists>e. covers es t m e s \<and>
          r = s\<lparr>sd_directive := (sd_directive s)\<lparr>constraint := Some (replacement_constraint e)\<rparr>\<rparr>)) scoped result \<and>
      sorted used \<and> set used \<subseteq> {exception_id e | e s. s \<in> set scoped \<and> covers es t m e s} \<and>
      (used = [] \<longrightarrow> result = scoped)"
proof -
  let ?tg = "by_target es t m"
  obtain result used where loop: "apply_loop ?tg scoped = (result, used)" by fastforce
  then have r: "result = map (excepted ?tg) scoped" using fst_apply_loop by (metis fst_conv)
  have u: "x \<in> set used \<longleftrightarrow> (\<exists>s \<in> set scoped. delegable_exception (sd_directive s) \<and>
        (\<exists>e. ?tg (directive_id (sd_directive s), d_revision_id (sd_directive s)) = Some e \<and> x = exception_id e))" for x
    using snd_apply_loop [of x ?tg scoped] loop by simp
  have "list_all2 (\<lambda>s r. r = s \<or> (\<exists>e. covers es t m e s \<and>
          r = s\<lparr>sd_directive := (sd_directive s)\<lparr>constraint := Some (replacement_constraint e)\<rparr>\<rparr>)) scoped result"
    unfolding r list_all2_map2 by (rule list.rel_refl_strong) (rule excepted_cases)
  moreover have "set used \<subseteq> {exception_id e | e s. s \<in> set scoped \<and> covers es t m e s}"
    using u by_target_covers by blast
  moreover have "result = scoped" if "used = []"
  proof -
    have "excepted ?tg s = s" if s: "s \<in> set scoped" for s
      using u \<open>used = []\<close> s by (auto simp: excepted_def split: option.splits)
    then show ?thesis unfolding r by (rule map_idI)
  qed
  moreover have "sort used = [] \<longleftrightarrow> used = []" by (metis set_empty set_sort)
  ultimately show ?thesis unfolding apply_exceptions_def loop by auto
qed

theorem apply_exceptions_sound_witness:
  "let s = \<lparr>sd_directive = sample_directive ''d1'' ''v2'' ''b'', sd_rule = sample_rule ''v2'' True,
             revision_effective_from = 2\<rparr>;
       (result, used) = apply_exceptions [s] [sample_exception] ''t'' 5
   in covers [sample_exception] ''t'' 5 sample_exception s \<and> used = [''x''] \<and> length result = 1"
proof -
  let ?s = "\<lparr>sd_directive = sample_directive ''d1'' ''v2'' ''b'', sd_rule = sample_rule ''v2'' True,
             revision_effective_from = 2\<rparr>"
  have c: "covers [sample_exception] ''t'' 5 sample_exception ?s"
    by (simp add: covers_def sample_defs exception_is_active_at_def exception_target_def)
  have a: "snd (apply_exceptions [?s] [sample_exception] ''t'' 5) = [''x'']"
    by (simp add: apply_exceptions_def by_target_def sample_defs exception_is_active_at_def exception_target_def)
  show ?thesis using apply_exceptions_sound [of "[?s]" "[sample_exception]" "''t''" 5] a c
    by (auto simp: Let_def dest: list_all2_lengthD split: prod.splits)
qed

subsection \<open>Sensitivity fails closed\<close>

text \<open>
  A manifest that declares no sensitivity, or one outside the scale, is matched exactly as one
  that declares the most restrictive tier.
\<close>

theorem unknown_sensitivity_most_restrictive:
  assumes "\<not> is_tier (data_sensitivity man)"
  shows "rule_applies r man t m = rule_applies r (man\<lparr>data_sensitivity := Some MOST_RESTRICTIVE\<rparr>) t m"
  using assms by (auto simp: rule_applies_def declared_sensitivity_def most_restrictive_tier split: option.splits)

theorem unknown_sensitivity_most_restrictive_witness:
  "\<not> is_tier (data_sensitivity (sample_manifest\<lparr>data_sensitivity := Some ''ultra-secret''\<rparr>)) \<and>
   rule_applies ((sample_rule ''v'' True)\<lparr>data_sensitivity_tiers := {|Some MOST_RESTRICTIVE|}\<rparr>)
     (sample_manifest\<lparr>data_sensitivity := Some ''ultra-secret''\<rparr>) ''t'' 5"
proof -
  let ?m = "sample_manifest\<lparr>data_sensitivity := Some ''ultra-secret''\<rparr>"
  let ?r = "(sample_rule ''v'' True)\<lparr>data_sensitivity_tiers := {|Some MOST_RESTRICTIVE|}\<rparr>"
  have "\<not> is_tier (data_sensitivity ?m)" by (simp add: is_tier_def TIERS_def)
  moreover have "rule_applies ?r (?m\<lparr>data_sensitivity := Some MOST_RESTRICTIVE\<rparr>) ''t'' 5"
    by (simp add: rule_applies_def sample_rule_def matches_any_def matches_scalar_def declared_sensitivity_def
        most_restrictive_tier)
  ultimately show ?thesis using unknown_sensitivity_most_restrictive [of ?m ?r "''t''" 5] by simp
qed

subsection \<open>Re-checking integrity\<close>

lemma map_of_integrity_failures:
  "map_of (integrity_failures assess ids) v = (if v \<in> set ids then assess v else None)"
  by (induction ids) (auto simp: integrity_failures_def List.map_filter_simps split: option.splits)

lemma integrity_failures_Nil_iff:
  "integrity_failures assess ids = [] \<longleftrightarrow> (\<forall>v \<in> set ids. assess v = None)"
  by (induction ids) (auto simp: integrity_failures_def List.map_filter_simps split: option.splits)

lemma set_selected_revisions:
  "set (selected_revisions res) = (\<lambda>s. d_revision_id (sd_directive s)) ` set (served res)"
  by (simp add: selected_revisions_def served_def image_Un sorted_list_of_fset.rep_eq fset_of_list.rep_eq)

text \<open>
  C2. Nothing that fails its integrity check is offered. After the recheck the mandatory
  directives are those of the selection; a result that is not blocked carries only directives
  whose revision is valid, and its optional ones are the valid optional ones of the selection;
  a blocked selection stays blocked; and an invalid mandatory revision blocks.
\<close>

theorem select_and_verify_safe:
  "let before = select i; after = select_and_verify i assess;
       valid = (\<lambda>s. assess (d_revision_id (sd_directive s)) = None)
   in mandatory after = mandatory before \<and>
      (status before = BLOCKED \<longrightarrow> status after = BLOCKED) \<and>
      ((\<exists>s \<in> set (mandatory before). \<not> valid s) \<longrightarrow> status after = BLOCKED) \<and>
      (status after \<noteq> BLOCKED \<longrightarrow>
         (\<forall>s \<in> set (served after). valid s) \<and> optional after = filter valid (optional before)) \<and>
      (status after = READY \<longleftrightarrow> status before = READY \<and> (\<forall>s \<in> set (served before). valid s))"
proof -
  let ?res = "select i"
  define failures where "failures = integrity_failures assess (selected_revisions ?res)"
  have failed: "map_of failures (d_revision_id (sd_directive s)) = assess (d_revision_id (sd_directive s))"
    if "s \<in> set (served ?res)" for s
    unfolding failures_def map_of_integrity_failures set_selected_revisions using that by auto
  have none: "failures = [] \<longleftrightarrow> (\<forall>s \<in> set (served ?res). assess (d_revision_id (sd_directive s)) = None)"
    unfolding failures_def integrity_failures_Nil_iff set_selected_revisions by simp
  have opt: "filter (\<lambda>s. map_of failures (d_revision_id (sd_directive s)) = None) (optional ?res) =
      filter (\<lambda>s. assess (d_revision_id (sd_directive s)) = None) (optional ?res)"
    by (rule filter_cong) (auto simp: failed served_def)
  have mand: "(\<exists>s \<in> set (mandatory ?res). map_of failures (d_revision_id (sd_directive s)) \<noteq> None) \<longleftrightarrow>
      (\<exists>s \<in> set (mandatory ?res). assess (d_revision_id (sd_directive s)) \<noteq> None)"
    by (auto simp: failed served_def)
  have sav: "select_and_verify i assess =
     (if failures = [] then ?res
      else if \<exists>s \<in> set (mandatory ?res). assess (d_revision_id (sd_directive s)) \<noteq> None
      then ?res\<lparr>blocked_reasons := sorted_list_of_fset (fset_of_list (blocked_reasons ?res) |\<union>| fset_of_list (map snd failures)),
               status := BLOCKED\<rparr>
      else if filter (\<lambda>s. assess (d_revision_id (sd_directive s)) = None) (optional ?res) \<noteq> optional ?res
      then ?res\<lparr>optional := filter (\<lambda>s. assess (d_revision_id (sd_directive s)) = None) (optional ?res),
               degraded_reasons := sorted_list_of_fset (fset_of_list (degraded_reasons ?res) |\<union>| fset_of_list (map snd failures)),
               status := (if status ?res = READY then DEGRADED else status ?res)\<rparr>
      else ?res)"
    unfolding select_and_verify_def Let_def failures_def [symmetric] not_not mand opt by simp
  show ?thesis
    unfolding Let_def sav none
    by (auto simp: served_def filter_id_conv filter_empty_conv split: if_splits)
qed

definition sample_assess :: "uuid \<Rightarrow> string option" where
  "sample_assess v = (if v = ''w1'' then Some ''revoked'' else None)"

theorem select_and_verify_safe_witness:
  "status (select (sample_input sample_candidates [])) = READY \<and>
   status (select_and_verify (sample_input sample_candidates []) sample_assess) = DEGRADED \<and>
   ''w1'' \<notin> (\<lambda>s. d_revision_id (sd_directive s)) `
     set (served (select_and_verify (sample_input sample_candidates []) sample_assess))"
proof -
  let ?i = "sample_input sample_candidates []"
  have "status (select ?i) = READY" by code_simp
  moreover have "status (select_and_verify ?i sample_assess) = DEGRADED" by code_simp
  ultimately show ?thesis
    using select_and_verify_safe [of ?i sample_assess]
    by (force simp: Let_def sample_assess_def split: if_splits)
qed

end
