(* ===== verification/Py_Uuid.thy ===== *)
theory Py_Uuid
  imports Py_Strings
begin

section \<open>Parsing UUIDs\<close>

text \<open>
  The constructor \<open>uuid.UUID(text)\<close> of the Python library, which the corpus reader calls on
  identifiers it finds in JSON: \<open>urn:\<close>, \<open>uuid:\<close>, braces and dashes are dropped, exactly 32
  characters must remain and \<open>int(_, 16)\<close> must accept them (it takes white space, a sign, a
  \<open>0x\<close> prefix and digit-group underscores). A UUID is its canonical text.
\<close>

function py_delete :: "string \<Rightarrow> string \<Rightarrow> string" where
  "py_delete sub s =
     (case s of [] \<Rightarrow> []
      | c # cs \<Rightarrow> if sub \<noteq> [] \<and> py_startswith sub s then py_delete sub (drop (length sub) s) else c # py_delete sub cs)"
  by auto
termination
  by (relation "measure (length \<circ> snd)") auto

declare py_delete.simps [simp del]

definition py_strip_chars :: "char list \<Rightarrow> string \<Rightarrow> string" where
  "py_strip_chars cs s = rev (dropWhile (\<lambda>c. c \<in> set cs) (rev (dropWhile (\<lambda>c. c \<in> set cs) s)))"

definition hex_val :: "char \<Rightarrow> int option" where
  "hex_val c =
     (let n = (of_char c :: nat) in
      if 48 \<le> n \<and> n \<le> 57 then Some (int n - 48)
      else if 97 \<le> n \<and> n \<le> 102 then Some (int n - 87)
      else if 65 \<le> n \<and> n \<le> 70 then Some (int n - 55)
      else None)"

fun py_hex_digits :: "bool \<Rightarrow> int \<Rightarrow> string \<Rightarrow> int option" where
  "py_hex_digits prev acc [] = (if prev then Some acc else None)"
| "py_hex_digits prev acc (c # cs) =
     (case hex_val c of
        Some d \<Rightarrow> py_hex_digits True (acc * 16 + d) cs
      | None \<Rightarrow> if c = CHR ''_'' \<and> prev then py_hex_digits False acc cs else None)"

text \<open>\<open>int(text, 16)\<close> on a text without \<open>-\<close>; after a \<open>0x\<close> prefix an underscore may come first.\<close>

definition py_int16 :: "string \<Rightarrow> int option" where
  "py_int16 s =
     (let t = py_strip s;
          u = (case t of c # cs \<Rightarrow> if c = CHR ''+'' then cs else t | [] \<Rightarrow> []) in
      if py_startswith ''0x'' u \<or> py_startswith ''0X'' u
      then (case drop 2 u of
              c # cs \<Rightarrow> if c = CHR ''_'' then py_hex_digits False 0 cs else py_hex_digits False 0 (c # cs)
            | [] \<Rightarrow> None)
      else py_hex_digits False 0 u)"

definition hex_char :: "nat \<Rightarrow> char" where
  "hex_char n = (if n < 10 then char_of (48 + n) else char_of (87 + n))"

fun hex_text :: "nat \<Rightarrow> int \<Rightarrow> string" where
  "hex_text 0 n = []"
| "hex_text (Suc w) n = hex_text w (n div 16) @ [hex_char (nat (n mod 16))]"

definition uuid_text :: "int \<Rightarrow> uuid" where
  "uuid_text n =
     (let h = hex_text 32 n in
      py_join ''-'' [take 8 h, take 4 (drop 8 h), take 4 (drop 12 h), take 4 (drop 16 h), drop 20 h])"

definition py_uuid :: "string \<Rightarrow> uuid option" where
  "py_uuid text =
     (let h = py_delete ''-'' (py_strip_chars ''{}'' (py_delete ''uuid:'' (py_delete ''urn:'' text))) in
      if length h \<noteq> 32 then None else map_option uuid_text (py_int16 h))"

lemma py_uuid_canonical_form: "py_uuid t = Some u \<Longrightarrow> \<exists>n. u = uuid_text n"
  by (auto simp: py_uuid_def Let_def split: if_splits)

subsection \<open>The canonical text is read back\<close>

lemma hex_char_facts:
  assumes "d < 16"
  shows "hex_val (hex_char d) = Some (int d)"
    "hex_char d \<notin> set [CHR ''u'', CHR ''-'', CHR ''{'', CHR ''}'', CHR ''+'', CHR ''x'', CHR ''X'', CHR '' '']"
    "\<not> py_isspace (hex_char d)"
proof -
  from assms have "d \<in> set [0..<16]" by simp
  then have "d = 0 \<or> d = 1 \<or> d = 2 \<or> d = 3 \<or> d = 4 \<or> d = 5 \<or> d = 6 \<or> d = 7 \<or> d = 8 \<or> d = 9 \<or>
    d = 10 \<or> d = 11 \<or> d = 12 \<or> d = 13 \<or> d = 14 \<or> d = 15" using assms by presburger
  then show "hex_val (hex_char d) = Some (int d)"
    "hex_char d \<notin> set [CHR ''u'', CHR ''-'', CHR ''{'', CHR ''}'', CHR ''+'', CHR ''x'', CHR ''X'', CHR '' '']"
    "\<not> py_isspace (hex_char d)"
    by (elim disjE; hypsubst; code_simp)+
qed

lemma set_hex_text: "c \<in> set (hex_text w n) \<Longrightarrow> \<exists>d < 16. c = hex_char d"
proof (induction w arbitrary: n)
  case (Suc w)
  have "nat (n mod 16) < 16" by (simp add: nat_less_iff)
  with Suc show ?case by auto
qed simp

lemma hex_text_no:
  "c \<in> set [CHR ''u'', CHR ''-'', CHR ''{'', CHR ''}'', CHR ''+'', CHR ''x'', CHR ''X'', CHR '' ''] \<Longrightarrow> c \<notin> set (hex_text w n)"
  using set_hex_text hex_char_facts(2) by blast

lemma length_hex_text [simp]: "length (hex_text w n) = w"
  by (induction w arbitrary: n) simp_all

lemma py_hex_digits_text:
  "py_hex_digits p a (hex_text w n @ ys) =
     (if w = 0 then py_hex_digits p a ys else py_hex_digits True (a * 16 ^ w + n mod 16 ^ w) ys)"
proof (induction w arbitrary: n ys)
  case (Suc w)
  have d: "nat (n mod 16) < 16" "int (nat (n mod 16)) = n mod 16" by (simp_all add: nat_less_iff)
  have eq: "(a * 16 ^ w + n div 16 mod 16 ^ w) * 16 + n mod 16 = a * 16 ^ Suc w + n mod 16 ^ Suc w"
    using zmod_zmult2_eq [of "16 ^ w" n 16] by (simp add: algebra_simps)
  have "py_hex_digits q b (hex_char (nat (n mod 16)) # ys) = py_hex_digits True (b * 16 + n mod 16) ys" for q b
    using hex_char_facts(1) [OF d(1)] d(2) by simp
  then have "py_hex_digits p a (hex_text (Suc w) n @ ys) =
      py_hex_digits True ((a * 16 ^ w + n div 16 mod 16 ^ w) * 16 + n mod 16) ys"
    using Suc [of "n div 16" "hex_char (nat (n mod 16)) # ys"] by (cases "w = 0") (simp_all del: py_hex_digits.simps)
  then show ?case unfolding eq by simp
qed simp

lemma py_delete_absent: "c \<notin> set s \<Longrightarrow> py_delete (c # sub) s = s"
proof (induction s)
  case Nil
  show ?case by (subst py_delete.simps) simp
next
  case (Cons x s)
  then have "\<not> py_startswith (c # sub) (x # s)" by (auto simp: py_startswith_def)
  with Cons show ?case by (subst py_delete.simps) simp
qed

lemma py_delete_char: "py_delete [c] s = filter (\<lambda>x. x \<noteq> c) s"
proof (induction s)
  case Nil
  show ?case by (subst py_delete.simps) simp
next
  case (Cons x s)
  then show ?case by (subst py_delete.simps) (simp add: py_startswith_def)
qed

lemma py_strip_chars_absent: "(\<And>c. c \<in> set cs \<Longrightarrow> c \<notin> set s) \<Longrightarrow> py_strip_chars cs s = s"
proof -
  assume "\<And>c. c \<in> set cs \<Longrightarrow> c \<notin> set s"
  then have "dropWhile (\<lambda>c. c \<in> set cs) xs = xs" if "set xs \<subseteq> set s" for xs
    using that by (cases xs) auto
  from this [of s] this [of "rev s"] show ?thesis by (simp add: py_strip_chars_def)
qed

lemma uuid_text_dashes: "filter (\<lambda>x. x \<noteq> CHR ''-'') (uuid_text n) = hex_text 32 n"
proof -
  let ?h = "hex_text 32 n"
  have nodash: "filter (\<lambda>x. x \<noteq> CHR ''-'') xs = xs" if "set xs \<subseteq> set ?h" for xs
    using that hex_text_no [of "CHR ''-''" 32 n] by (auto simp: filter_id_conv)
  have "take 8 ?h @ take 4 (drop 8 ?h) @ take 4 (drop 12 ?h) @ take 4 (drop 16 ?h) @ drop 20 ?h = ?h"
    using append_take_drop_id [of 8 ?h] append_take_drop_id [of 4 "drop 8 ?h"] append_take_drop_id [of 4 "drop 12 ?h"]
      append_take_drop_id [of 4 "drop 16 ?h"] by simp
  moreover have "set (take 8 ?h) \<subseteq> set ?h" "set (take 4 (drop 8 ?h)) \<subseteq> set ?h" "set (take 4 (drop 12 ?h)) \<subseteq> set ?h"
    "set (take 4 (drop 16 ?h)) \<subseteq> set ?h" "set (drop 20 ?h) \<subseteq> set ?h"
    by (meson set_take_subset set_drop_subset order_trans)+
  ultimately show ?thesis by (simp add: uuid_text_def py_join_def Let_def nodash)
qed

lemma py_uuid_text:
  assumes "0 \<le> n" "n < 16 ^ 32"
  shows "py_uuid (uuid_text n) = Some (uuid_text n)"
proof -
  have only: "c = CHR ''-'' \<or> c \<in> set (hex_text 32 n)" if "c \<in> set (uuid_text n)" for c
    using that arg_cong [OF uuid_text_dashes [of n], of set] by auto
  have "CHR ''u'' \<notin> set (uuid_text n)" "CHR ''{'' \<notin> set (uuid_text n)" "CHR ''}'' \<notin> set (uuid_text n)"
    using only hex_text_no [of _ 32 n] by fastforce+
  moreover from this have "py_strip_chars ''{}'' (uuid_text n) = uuid_text n" by (intro py_strip_chars_absent) auto
  ultimately have h: "py_delete ''-'' (py_strip_chars ''{}'' (py_delete ''uuid:'' (py_delete ''urn:'' (uuid_text n)))) = hex_text 32 n"
    by (simp add: py_delete_absent py_delete_char uuid_text_dashes)
  obtain a b cs where hab: "hex_text 32 n = a # b # cs"
    by (metis length_hex_text length_0_conv length_Cons list.exhaust numeral_eq_iff zero_neq_numeral num.distinct(1) numeral_1_eq_Suc_0 numeral_One)
  have "py_strip (hex_text 32 n) = hex_text 32 n"
    using set_hex_text hex_char_facts(3) by (intro py_strip_no_space) blast
  moreover have "a \<noteq> CHR ''+''" "b \<noteq> CHR ''x''" "b \<noteq> CHR ''X''"
    using hex_text_no [of _ 32 n] hab by fastforce+
  moreover have "py_hex_digits False 0 (hex_text 32 n) = Some n"
    using py_hex_digits_text [of False 0 32 n "[]"] assms by simp
  ultimately have "py_int16 (hex_text 32 n) = Some n"
    unfolding py_int16_def Let_def hab by (simp add: py_startswith_def)
  with h show ?thesis by (simp add: py_uuid_def Let_def)
qed

end
