(* ===== verification/Arc_Corpus.thy ===== *)
theory Arc_Corpus
  imports Arc_Selection Py_Uuid
begin

section \<open>Assembling the governed corpus\<close>

text \<open>
  The model of \<open>contextplane/arc/service/corpus.py\<close>: the three queries over the database
  snapshot, the conversion of rows into domain objects, and \<open>CorpusReader.assemble\<close>, which
  builds the input of \<open>select\<close>. A table is the list of its rows in storage order; a query is
  a join, a filter and a sort by the \<open>ORDER BY\<close> columns (text order of a UUID is its byte
  order). The text columns of a conflict subject are read only when the digest is set, and are
  then text. A JSONB column is the value the driver returns, \<open>JStr\<close> when it returns text, and
  \<open>json_loads\<close>, a parameter about which nothing is assumed, decodes that text or raises. The
  integrity assessor is a parameter as in the selection theory.
\<close>

subsection \<open>Tables\<close>

record revision_row =
  rv_revision_id :: uuid
  rv_tenant_id :: "uuid option"
  rv_lifecycle_state :: string
  rv_effective_from :: moment
  rv_effective_until :: "moment option"

record directive_row =
  dr_directive_id :: uuid
  dr_revision_id :: uuid
  dr_directive_type :: string
  dr_source_anchor :: string
  dr_conflict_subject_digest :: "string option"
  dr_subject :: conflict_subject_key
  dr_modality :: "string option"
  dr_constraint_operator :: "string option"
  dr_constraint_value :: "string option"
  dr_satisfaction_mode :: "string option"
  dr_verification_max_age_seconds :: "int option"
  dr_accepted_verifier_classes :: "string list option"
  dr_required_evidence_type :: "string option"
  dr_delegable_exception :: bool

record rule_row =
  rr_rule_id :: uuid
  rr_revision_id :: uuid
  rr_scope :: string
  rr_is_mandatory :: bool
  rr_target_tenant_id :: "uuid option"
  rr_entity_ids :: "uuid list option"
  rr_domain_ids :: "string list option"
  rr_intent_kinds :: "string list option"
  rr_action_classes :: "string list option"
  rr_environments :: "string list option"
  rr_data_sensitivity_tiers :: "string list option"
  rr_effective_from :: moment
  rr_effective_until :: "moment option"

record candidate_row =
  cr_revision_effective_from :: moment
  cr_directive :: directive_row
  cr_rule :: rule_row

record exception_row =
  xr_exception_id :: uuid
  xr_higher_scope_directive_id :: uuid
  xr_higher_scope_revision_id :: uuid
  xr_lower_scope_tenant_id :: uuid
  xr_replacement_conflict_descriptor :: json
  xr_lower_scope_domain_id :: "string option"
  xr_lower_scope_entity_id :: "uuid option"
  xr_lower_scope_intent_kind :: "string option"
  xr_lower_scope_action_class :: "string option"
  xr_lower_scope_environment :: "string option"
  xr_lower_scope_data_sensitivity :: "string option"
  xr_effective_from :: moment
  xr_effective_until :: "moment option"
  xr_revoked_at :: "moment option"

record obligation_row =
  or_obligation_id :: uuid
  or_artifact_id :: uuid
  or_directive_id :: uuid
  or_obligation_state :: string
  or_applicability_digest :: string
  or_applicability_snapshot :: json
  or_effective_from :: moment
  or_effective_until :: "moment option"

record artifact_row =
  ar_artifact_id :: uuid
  ar_tenant_id :: "uuid option"

record corpus_db =
  arc_revisions :: "revision_row list"
  arc_directives :: "directive_row list"
  arc_applicability_rules :: "rule_row list"
  arc_approved_exceptions :: "exception_row list"
  arc_mandatory_obligations :: "obligation_row list"
  arc_artifacts :: "artifact_row list"

subsection \<open>Queries\<close>

definition SELECTABLE_LIFECYCLE :: "string list" where
  "SELECTABLE_LIFECYCLE = [''active'', ''expired'']"

definition until_after :: "moment option \<Rightarrow> moment \<Rightarrow> bool" where
  "until_after u m = (case u of None \<Rightarrow> True | Some t \<Rightarrow> t > m)"

definition visible_to :: "uuid option \<Rightarrow> uuid \<Rightarrow> bool" where
  "visible_to owner tenant_id = (case owner of None \<Rightarrow> True | Some t \<Rightarrow> t = tenant_id)"

definition selectable_revision :: "uuid \<Rightarrow> moment \<Rightarrow> revision_row \<Rightarrow> bool" where
  "selectable_revision tenant_id m r \<longleftrightarrow>
     rv_lifecycle_state r \<in> set SELECTABLE_LIFECYCLE \<and> rv_effective_from r \<le> m \<and>
     until_after (rv_effective_until r) m \<and> visible_to (rv_tenant_id r) tenant_id"

definition candidate_order :: "candidate_row \<Rightarrow> uuid \<times> uuid \<times> uuid" where
  "candidate_order c = (dr_revision_id (cr_directive c), dr_directive_id (cr_directive c), rr_rule_id (cr_rule c))"

definition candidates_sql :: "corpus_db \<Rightarrow> uuid \<Rightarrow> moment \<Rightarrow> candidate_row list" where
  "candidates_sql db tenant_id m =
     sort_key candidate_order
       [\<lparr>cr_revision_effective_from = rv_effective_from r, cr_directive = d, cr_rule = ar\<rparr>.
          r \<leftarrow> arc_revisions db, selectable_revision tenant_id m r,
          d \<leftarrow> arc_directives db, dr_revision_id d = rv_revision_id r,
          ar \<leftarrow> arc_applicability_rules db, rr_revision_id ar = rv_revision_id r]"

definition exceptions_sql :: "corpus_db \<Rightarrow> uuid \<Rightarrow> moment \<Rightarrow> exception_row list" where
  "exceptions_sql db tenant_id m =
     sort_key xr_exception_id
       (filter (\<lambda>x. xr_lower_scope_tenant_id x = tenant_id \<and> until_after (xr_revoked_at x) m)
         (arc_approved_exceptions db))"

definition obligations_sql :: "corpus_db \<Rightarrow> uuid \<Rightarrow> moment \<Rightarrow> obligation_row list" where
  "obligations_sql db tenant_id m =
     sort_key or_obligation_id
       [ob. ob \<leftarrow> arc_mandatory_obligations db,
          or_effective_from ob \<le> m \<and> until_after (or_effective_until ob) m,
          a \<leftarrow> arc_artifacts db, ar_artifact_id a = or_artifact_id ob \<and> visible_to (ar_tenant_id a) tenant_id]"

subsection \<open>Reading columns\<close>

definition jget :: "json \<Rightarrow> string \<Rightarrow> json" where
  "jget j k = (case j of JObj flds \<Rightarrow> (case map_of flds k of Some v \<Rightarrow> v | None \<Rightarrow> JNull) | _ \<Rightarrow> JNull)"

definition as_list :: "json \<Rightarrow> arc_error + json list option" where
  "as_list v = (case v of JNull \<Rightarrow> Inr None | JArr xs \<Rightarrow> Inr (Some xs) | _ \<Rightarrow> Inl PyTypeError)"

definition or_empty :: "'a list option \<Rightarrow> 'a list" where
  "or_empty raw = (case raw of None \<Rightarrow> [] | Some xs \<Rightarrow> xs)"

text \<open>
  \<open>uuid.UUID(str(v))\<close>: the text of a number or string; the text of any other JSON value is
  never 32 hexadecimal digits.
\<close>

definition uuid_member :: "json \<Rightarrow> arc_error + uuid" where
  "uuid_member v =
     (case v of JStr s \<Rightarrow> of_option PyValueError (py_uuid s)
      | JInt i \<Rightarrow> of_option PyValueError (py_uuid (show_int i))
      | _ \<Rightarrow> Inl PyValueError)"

definition uuid_set :: "json list option \<Rightarrow> arc_error + uuid fset" where
  "uuid_set raw = result_map fset_of_list (traverse uuid_member (or_empty raw))"

text \<open>A set of hashable values; an array or an object inside is not hashable.\<close>

definition str_member :: "json \<Rightarrow> arc_error + label" where
  "str_member v =
     (case v of JStr s \<Rightarrow> Inr (Some s) | JArr _ \<Rightarrow> Inl PyTypeError | JObj _ \<Rightarrow> Inl PyTypeError | _ \<Rightarrow> Inr None)"

definition str_set :: "json list option \<Rightarrow> arc_error + label fset" where
  "str_set raw = result_map fset_of_list (traverse str_member (or_empty raw))"

definition vocab_member :: "(string \<times> 'a) list \<Rightarrow> json \<Rightarrow> arc_error + 'a" where
  "vocab_member table v = (case v of JStr s \<Rightarrow> enum_of table s | _ \<Rightarrow> Inl PyValueError)"

definition vocab_set :: "(string \<times> 'a) list \<Rightarrow> json list option \<Rightarrow> arc_error + 'a fset" where
  "vocab_set table raw = result_map fset_of_list (traverse (vocab_member table) (or_empty raw))"

definition text_column :: "string list option \<Rightarrow> json list option" where
  "text_column raw = map_option (map JStr) raw"

definition exception_in_scope :: "exception_row \<Rightarrow> intent_manifest \<Rightarrow> bool" where
  "exception_in_scope row man =
     (if (case xr_lower_scope_domain_id row of Some x \<Rightarrow> x |\<notin>| m_domain_ids man | None \<Rightarrow> False) then False
      else if (case xr_lower_scope_entity_id row of Some x \<Rightarrow> x |\<notin>| m_entity_ids man | None \<Rightarrow> False) then False
      else if (case xr_lower_scope_intent_kind row of
                 Some x \<Rightarrow> x \<noteq> enum_str intent_kinds_table (m_intent_kind man) | None \<Rightarrow> False) then False
      else if (case xr_lower_scope_action_class row of
                 Some x \<Rightarrow> x |\<notin>| enum_str action_class_table |`| requested_action_classes man | None \<Rightarrow> False) then False
      else if (case xr_lower_scope_environment row of
                 Some x \<Rightarrow> Some x \<noteq> m_environment man | None \<Rightarrow> False) then False
      else \<not> (case xr_lower_scope_data_sensitivity row of
                 Some x \<Rightarrow> Some x \<noteq> data_sensitivity man | None \<Rightarrow> False))"

definition governing_rank :: "candidate_row \<Rightarrow> arc_error + nat \<times> nat \<times> uuid" where
  "governing_rank row =
     result_map (\<lambda>s. (if rr_is_mandatory (cr_rule row) then 0 else 1, scope_rank s, rr_rule_id (cr_rule row)))
       (enum_of authority_scope_table (rr_scope (cr_rule row)))"

definition directive_from_row :: "directive_row \<Rightarrow> arc_error + directive" where
  "directive_from_row row =
     result_bind
       (case dr_conflict_subject_digest row of
          None \<Rightarrow> Inr (None, None)
        | Some _ \<Rightarrow>
            (case (dr_modality row, dr_constraint_operator row) of
               (Some m, Some opr) \<Rightarrow>
                 result_map (\<lambda>c. (Some (dr_subject row), Some c)) (parse_constraint m opr (dr_constraint_value row))
             | _ \<Rightarrow> Inl ArcVocabularyError))
       (\<lambda>(subject, constr).
        result_bind (parse_directive_type (dr_directive_type row)) (\<lambda>dtype.
        result_bind
          (case dr_satisfaction_mode row of
             None \<Rightarrow> Inr None
           | Some s \<Rightarrow> result_map Some (enum_of satisfaction_mode_table s)) (\<lambda>smode.
        directive_post_init
          \<lparr>directive_id = dr_directive_id row, d_revision_id = dr_revision_id row, directive_type = dtype,
           source_anchor = dr_source_anchor row, conflict_subject = subject, constraint = constr,
           satisfaction_mode = smode, verification_max_age_seconds = dr_verification_max_age_seconds row,
           accepted_verifier_classes = fset_of_list (or_empty (dr_accepted_verifier_classes row)),
           required_evidence_type = dr_required_evidence_type row,
           delegable_exception = dr_delegable_exception row\<rparr>)))"

definition rule_from_row :: "rule_row \<Rightarrow> arc_error + applicability_rule" where
  "rule_from_row row =
     result_bind (enum_of authority_scope_table (rr_scope row)) (\<lambda>sc.
     result_bind (str_set (text_column (rr_domain_ids row))) (\<lambda>domains.
     result_bind (vocab_set intent_kinds_table (text_column (rr_intent_kinds row))) (\<lambda>kinds.
     result_bind (vocab_set action_class_table (text_column (rr_action_classes row))) (\<lambda>actions.
     result_bind (str_set (text_column (rr_environments row))) (\<lambda>envs.
     result_bind (str_set (text_column (rr_data_sensitivity_tiers row))) (\<lambda>tiers.
     rule_post_init
       \<lparr>rule_id = rr_rule_id row, r_revision_id = rr_revision_id row, scope = sc,
        is_mandatory = rr_is_mandatory row, target_tenant_id = rr_target_tenant_id row,
        entity_ids = fset_of_list (or_empty (rr_entity_ids row)), domain_ids = domains,
        intent_kinds = kinds, action_classes = actions, environments = envs, data_sensitivity_tiers = tiers,
        effective_from = Some (rr_effective_from row), effective_until = rr_effective_until row\<rparr>))))))"

definition replacement_constraint_of :: "json \<Rightarrow> normalized_constraint option" where
  "replacement_constraint_of descriptor =
     (case descriptor of
        JObj _ \<Rightarrow>
          (case (jget descriptor ''modality'', jget descriptor ''constraint_operator'') of
             (JStr m, JStr opr) \<Rightarrow>
               (case (case jget descriptor ''constraint_value'' of
                        JNull \<Rightarrow> Some None | JStr v \<Rightarrow> Some (Some v) | _ \<Rightarrow> None) of
                  None \<Rightarrow> None
                | Some raw \<Rightarrow> (case parse_constraint m opr raw of Inl _ \<Rightarrow> None | Inr c \<Rightarrow> Some c))
           | _ \<Rightarrow> None)
      | _ \<Rightarrow> None)"

definition snapshot_rule :: "json \<Rightarrow> uuid \<Rightarrow> string \<Rightarrow> arc_error + applicability_rule" where
  "snapshot_rule snapshot oid scope_raw =
     result_bind (enum_of authority_scope_table scope_raw) (\<lambda>sc.
     result_bind (case jget snapshot ''target_tenant_id'' of
                    JStr t \<Rightarrow> result_map Some (of_option PyValueError (py_uuid t)) | _ \<Rightarrow> Inr None) (\<lambda>target.
     result_bind (result_bind (as_list (jget snapshot ''entity_ids'')) uuid_set) (\<lambda>entities.
     result_bind (result_bind (as_list (jget snapshot ''domain_ids'')) str_set) (\<lambda>domains.
     result_bind (result_bind (as_list (jget snapshot ''intent_kinds'')) (vocab_set intent_kinds_table)) (\<lambda>kinds.
     result_bind (result_bind (as_list (jget snapshot ''action_classes'')) (vocab_set action_class_table)) (\<lambda>actions.
     result_bind (result_bind (as_list (jget snapshot ''environments'')) str_set) (\<lambda>envs.
     result_bind (result_bind (as_list (jget snapshot ''data_sensitivity_tiers'')) str_set) (\<lambda>tiers.
     rule_post_init
       \<lparr>rule_id = oid, r_revision_id = oid, scope = sc, is_mandatory = True,
        target_tenant_id = target, entity_ids = entities, domain_ids = domains, intent_kinds = kinds,
        action_classes = actions, environments = envs, data_sensitivity_tiers = tiers,
        effective_from = None, effective_until = None\<rparr>))))))))"

text \<open>The exceptions \<open>snapshot_rule\<close> raises are the three the handler catches.\<close>

definition obligation_rule :: "json \<Rightarrow> uuid \<Rightarrow> applicability_rule option" where
  "obligation_rule snapshot oid =
     (case snapshot of
        JObj _ \<Rightarrow>
          (case jget snapshot ''scope'' of
             JStr scope_raw \<Rightarrow>
               (case snapshot_rule snapshot oid scope_raw of Inl _ \<Rightarrow> None | Inr r \<Rightarrow> Some r)
           | _ \<Rightarrow> None)
      | _ \<Rightarrow> None)"

subsection \<open>The reader\<close>

definition candidate_key :: "candidate_row \<Rightarrow> uuid \<times> uuid" where
  "candidate_key row = (dr_revision_id (cr_directive row), dr_directive_id (cr_directive row))"

fun governing_loop ::
    "candidate_row list \<Rightarrow> ((uuid \<times> uuid) \<times> candidate_row) list \<Rightarrow> arc_error + ((uuid \<times> uuid) \<times> candidate_row) list" where
  "governing_loop [] governing = Inr governing"
| "governing_loop (row # rows) governing =
     (case map_of governing (candidate_key row) of
        None \<Rightarrow> governing_loop rows (AList.update (candidate_key row) row governing)
      | Some incumbent \<Rightarrow>
          result_bind (governing_rank row) (\<lambda>a.
          result_bind (governing_rank incumbent) (\<lambda>b.
          governing_loop rows (if a < b then AList.update (candidate_key row) row governing else governing))))"

definition candidate_of_row :: "candidate_row \<Rightarrow> arc_error + directive \<times> applicability_rule \<times> moment" where
  "candidate_of_row row =
     result_bind (directive_from_row (cr_directive row)) (\<lambda>d.
     result_bind (rule_from_row (cr_rule row)) (\<lambda>r. Inr (d, r, cr_revision_effective_from row)))"

definition read_candidates ::
    "corpus_db \<Rightarrow> uuid \<Rightarrow> moment \<Rightarrow> arc_error + (directive \<times> applicability_rule \<times> moment) list" where
  "read_candidates db tenant_id m =
     result_bind (governing_loop (candidates_sql db tenant_id m) []) (\<lambda>governing.
     traverse candidate_of_row (map (\<lambda>k. the (map_of governing k)) (sort (map fst governing))))"

definition drop_integrity_failed ::
    "(uuid \<Rightarrow> string option) \<Rightarrow> (directive \<times> applicability_rule \<times> moment) list \<Rightarrow>
     (directive \<times> applicability_rule \<times> moment) list" where
  "drop_integrity_failed assess cs =
     (if cs = [] then cs
      else let revision_ids = sorted_list_of_fset (fset_of_list (map (\<lambda>(d, r, e). d_revision_id d) cs));
               valid_ids = filter (\<lambda>v. assess v = None) revision_ids
           in filter (\<lambda>(d, r, e). d_revision_id d \<in> set valid_ids) cs)"

definition decode_column :: "(string \<Rightarrow> arc_error + json) \<Rightarrow> json \<Rightarrow> arc_error + json" where
  "decode_column json_loads v = (case v of JStr s \<Rightarrow> json_loads s | _ \<Rightarrow> Inr v)"

definition exception_of_row ::
    "(string \<Rightarrow> arc_error + json) \<Rightarrow> intent_manifest \<Rightarrow> exception_row \<Rightarrow> arc_error + approved_exception option" where
  "exception_of_row json_loads man row =
     (if \<not> exception_in_scope row man then Inr None
      else result_map
        (\<lambda>descriptor.
           case replacement_constraint_of descriptor of
             None \<Rightarrow> None
           | Some replacement \<Rightarrow>
               Some \<lparr>exception_id = xr_exception_id row,
                     higher_scope_directive_id = xr_higher_scope_directive_id row,
                     higher_scope_revision_id = xr_higher_scope_revision_id row,
                     lower_scope_tenant_id = xr_lower_scope_tenant_id row,
                     replacement_constraint = replacement,
                     e_effective_from = Some (xr_effective_from row),
                     e_effective_until = xr_effective_until row,
                     e_revoked_at = xr_revoked_at row\<rparr>)
        (decode_column json_loads (xr_replacement_conflict_descriptor row)))"

definition read_exceptions ::
    "(string \<Rightarrow> arc_error + json) \<Rightarrow> corpus_db \<Rightarrow> uuid \<Rightarrow> intent_manifest \<Rightarrow> moment \<Rightarrow> arc_error + approved_exception list" where
  "read_exceptions json_loads db tenant_id man m =
     result_map (List.map_filter id) (traverse (exception_of_row json_loads man) (exceptions_sql db tenant_id m))"

definition obligation_of_row ::
    "(string \<Rightarrow> arc_error + json) \<Rightarrow> uuid \<Rightarrow> intent_manifest \<Rightarrow> moment \<Rightarrow> obligation_row \<Rightarrow>
     arc_error + mandatory_obligation option" where
  "obligation_of_row json_loads tenant_id man m row =
     result_map
       (\<lambda>snapshot.
          if (case obligation_rule snapshot (or_obligation_id row) of
                None \<Rightarrow> True | Some rule \<Rightarrow> rule_applies rule man tenant_id m)
          then Some \<lparr>obligation_id = or_obligation_id row, o_directive_id = or_directive_id row,
                     obligation_state = or_obligation_state row,
                     applicability_digest = or_applicability_digest row\<rparr>
          else None)
       (decode_column json_loads (or_applicability_snapshot row))"

definition read_obligations ::
    "(string \<Rightarrow> arc_error + json) \<Rightarrow> corpus_db \<Rightarrow> uuid \<Rightarrow> intent_manifest \<Rightarrow> moment \<Rightarrow> arc_error + mandatory_obligation list" where
  "read_obligations json_loads db tenant_id man m =
     result_map (List.map_filter id) (traverse (obligation_of_row json_loads tenant_id man m) (obligations_sql db tenant_id m))"

definition assemble ::
    "(string \<Rightarrow> arc_error + json) \<Rightarrow> (uuid \<Rightarrow> string option) \<Rightarrow> corpus_db \<Rightarrow> uuid \<Rightarrow> intent_manifest \<Rightarrow> moment \<Rightarrow>
     arc_error + selection_input" where
  "assemble json_loads assess db tenant_id man m =
     result_bind (read_candidates db tenant_id m) (\<lambda>cs.
     result_bind (read_exceptions json_loads db tenant_id man m) (\<lambda>es.
     result_bind (read_obligations json_loads db tenant_id man m) (\<lambda>obs.
     Inr \<lparr>manifest = man, si_tenant_id = tenant_id, as_of = m,
          candidates = drop_integrity_failed assess cs, exceptions = es, obligations = obs,
          si_engine_version = SELECTION_ENGINE_VERSION, si_config_digest = []\<rparr>)))"

subsection \<open>A small database for the witnesses\<close>

definition sample_revision :: revision_row where
  "sample_revision =
     \<lparr>rv_revision_id = ''v'', rv_tenant_id = None, rv_lifecycle_state = ''active'', rv_effective_from = 1,
      rv_effective_until = None\<rparr>"

definition sample_directive_row :: directive_row where
  "sample_directive_row =
     \<lparr>dr_directive_id = ''d'', dr_revision_id = ''v'', dr_directive_type = ''require'', dr_source_anchor = ''a'',
      dr_conflict_subject_digest = Some ''x'', dr_subject = sample_subject, dr_modality = Some ''require'',
      dr_constraint_operator = Some ''equals'', dr_constraint_value = Some ''on'', dr_satisfaction_mode = None,
      dr_verification_max_age_seconds = None, dr_accepted_verifier_classes = None,
      dr_required_evidence_type = None, dr_delegable_exception = False\<rparr>"

definition sample_rule_row :: "uuid \<Rightarrow> bool \<Rightarrow> string \<Rightarrow> string list \<Rightarrow> string list \<Rightarrow> rule_row" where
  "sample_rule_row i mand sc domains kinds =
     \<lparr>rr_rule_id = i, rr_revision_id = ''v'', rr_scope = sc, rr_is_mandatory = mand, rr_target_tenant_id = None,
      rr_entity_ids = None, rr_domain_ids = Some domains, rr_intent_kinds = Some kinds, rr_action_classes = None,
      rr_environments = None, rr_data_sensitivity_tiers = None, rr_effective_from = 1, rr_effective_until = None\<rparr>"

definition sample_exception_row :: "json \<Rightarrow> exception_row" where
  "sample_exception_row descriptor =
     \<lparr>xr_exception_id = ''x'', xr_higher_scope_directive_id = ''d'', xr_higher_scope_revision_id = ''v'',
      xr_lower_scope_tenant_id = ''t'', xr_replacement_conflict_descriptor = descriptor,
      xr_lower_scope_domain_id = Some ''pay'', xr_lower_scope_entity_id = None, xr_lower_scope_intent_kind = None,
      xr_lower_scope_action_class = None, xr_lower_scope_environment = None,
      xr_lower_scope_data_sensitivity = None, xr_effective_from = 1, xr_effective_until = None, xr_revoked_at = None\<rparr>"

definition sample_obligation_row :: obligation_row where
  "sample_obligation_row =
     \<lparr>or_obligation_id = ''o'', or_artifact_id = ''a'', or_directive_id = ''d'',
      or_obligation_state = ''missing_revoked'', or_applicability_digest = ''g'',
      or_applicability_snapshot = JObj [(''scope'', JStr ''tenant'')], or_effective_from = 1, or_effective_until = None\<rparr>"

definition sample_db :: "rule_row list \<Rightarrow> exception_row list \<Rightarrow> obligation_row list \<Rightarrow> corpus_db" where
  "sample_db rrs xrs obs =
     \<lparr>arc_revisions = [sample_revision], arc_directives = [sample_directive_row], arc_applicability_rules = rrs,
      arc_approved_exceptions = xrs, arc_mandatory_obligations = obs,
      arc_artifacts = [\<lparr>ar_artifact_id = ''a'', ar_tenant_id = None\<rparr>]\<rparr>"

definition sample_change :: intent_manifest where
  "sample_change = sample_manifest\<lparr>m_intent_kind := CODE_CHANGE, m_domain_ids := {|''pay''|}\<rparr>"

definition no_text :: "string \<Rightarrow> arc_error + json" where
  "no_text s = Inl PyValueError"

subsection \<open>The queries\<close>

lemma set_candidates_sql:
  "row \<in> set (candidates_sql db t m) \<longleftrightarrow>
     (\<exists>r \<in> set (arc_revisions db). selectable_revision t m r \<and>
        cr_revision_effective_from row = rv_effective_from r \<and>
        cr_directive row \<in> set (arc_directives db) \<and> dr_revision_id (cr_directive row) = rv_revision_id r \<and>
        cr_rule row \<in> set (arc_applicability_rules db) \<and> rr_revision_id (cr_rule row) = rv_revision_id r)"
  by (cases row) (auto simp: candidates_sql_def)

lemma set_exceptions_sql:
  "row \<in> set (exceptions_sql db t m) \<longleftrightarrow>
     row \<in> set (arc_approved_exceptions db) \<and> xr_lower_scope_tenant_id row = t \<and> until_after (xr_revoked_at row) m"
  by (simp add: exceptions_sql_def)

lemma set_obligations_sql:
  "row \<in> set (obligations_sql db t m) \<longleftrightarrow>
     row \<in> set (arc_mandatory_obligations db) \<and> or_effective_from row \<le> m \<and> until_after (or_effective_until row) m \<and>
     (\<exists>a \<in> set (arc_artifacts db). ar_artifact_id a = or_artifact_id row \<and> visible_to (ar_tenant_id a) t)"
  by (auto simp: obligations_sql_def)

lemma mset_concat_map_cong:
  assumes "mset xs = mset ys" "\<And>x. x \<in> set xs \<Longrightarrow> mset (f x) = mset (g x)"
  shows "mset (concat (map f xs)) = mset (concat (map g ys))"
proof -
  have sum: "mset (concat (map h zs)) = (\<Sum>x \<in># mset zs. mset (h x))" for h :: "'a \<Rightarrow> 'b list" and zs
    by (induction zs) simp_all
  have "mset (concat (map f xs)) = (\<Sum>x \<in># mset xs. mset (f x))" by (rule sum)
  also have "\<dots> = (\<Sum>x \<in># mset xs. mset (g x))"
    by (intro arg_cong [where f = sum_mset] image_mset_cong) (simp add: assms(2))
  also have "\<dots> = mset (concat (map g ys))" using assms(1) by (simp add: sum)
  finally show ?thesis .
qed

subsection \<open>One governing rule per directive\<close>

definition rank_of :: "candidate_row \<Rightarrow> nat \<times> nat \<times> uuid" where
  "rank_of row = (case governing_rank row of Inr r \<Rightarrow> r | Inl _ \<Rightarrow> (2, 0, []))"

definition governs :: "candidate_row \<Rightarrow> candidate_row \<Rightarrow> bool" where
  "governs a b \<longleftrightarrow> rank_of a < rank_of b"

interpretation governing: keyed_preference candidate_key governs
  by unfold_locales (auto simp: governs_def)

lemma governing_loop_fold:
  "governing_loop rows g = Inr h \<Longrightarrow> h = fold (keep_better candidate_key governs) rows g"
proof (induction rows arbitrary: g)
  case Nil
  then show ?case by simp
next
  case (Cons row rows)
  then show ?case
    by (cases "map_of g (candidate_key row)")
      (auto simp: keep_better_def governs_def rank_of_def result_bind_eq_Inr split: if_splits)
qed

lemma read_candidates_Inr:
  assumes "read_candidates db t m = Inr cs"
  obtains rows where
    "traverse candidate_of_row rows = Inr cs"
    "\<And>row. row \<in> set rows \<longleftrightarrow>
       map_of (best_per_key candidate_key governs (candidates_sql db t m)) (candidate_key row) = Some row"
proof -
  let ?b = "best_per_key candidate_key governs (candidates_sql db t m)"
  from assms have tr: "traverse candidate_of_row (map (\<lambda>k. the (map_of ?b k)) (sort (map fst ?b))) = Inr cs"
    by (auto simp: read_candidates_def result_bind_eq_Inr best_per_key_def dest!: governing_loop_fold)
  have "(\<exists>k. map_of ?b k = Some row) \<longleftrightarrow> map_of ?b (candidate_key row) = Some row" for row
    using best_per_key_Some [of candidate_key governs "candidates_sql db t m"] by metis
  then show thesis
    using that [OF tr] unfolding set_lookup_sorted_keys by blast
qed

lemma directive_from_row_ids:
  "directive_from_row row = Inr d \<Longrightarrow> directive_id d = dr_directive_id row \<and> d_revision_id d = dr_revision_id row"
  by (auto simp: directive_from_row_def result_bind_eq_Inr directive_post_init_def Let_def split: if_splits)

lemma rule_from_row_fields:
  "rule_from_row row = Inr r \<Longrightarrow> rule_id r = rr_rule_id row \<and> is_mandatory r = rr_is_mandatory row \<and>
     enum_of authority_scope_table (rr_scope row) = Inr (scope r)"
  by (auto simp: rule_from_row_def result_bind_eq_Inr rule_post_init_def split: if_splits)

lemma candidate_of_row_ids:
  "candidate_of_row row = Inr (d, r, e) \<Longrightarrow>
     directive_id d = dr_directive_id (cr_directive row) \<and> d_revision_id d = dr_revision_id (cr_directive row) \<and>
     is_mandatory r = rr_is_mandatory (cr_rule row) \<and> rule_id r = rr_rule_id (cr_rule row) \<and>
     e = cr_revision_effective_from row"
  by (auto simp: candidate_of_row_def result_bind_eq_Inr dest!: directive_from_row_ids rule_from_row_fields)

lemma set_drop_integrity_failed:
  "set (drop_integrity_failed assess cs) = {(d, r, e) \<in> set cs. assess (d_revision_id d) = None}"
  by (auto simp: drop_integrity_failed_def Let_def sorted_list_of_fset.rep_eq fset_of_list.rep_eq image_iff) force

lemma assemble_Inr:
  "assemble jl assess db t man m = Inr inp \<longleftrightarrow>
     (\<exists>cs es obs. read_candidates db t m = Inr cs \<and> read_exceptions jl db t man m = Inr es \<and>
        read_obligations jl db t man m = Inr obs \<and>
        inp = \<lparr>manifest = man, si_tenant_id = t, as_of = m, candidates = drop_integrity_failed assess cs,
               exceptions = es, obligations = obs, si_engine_version = SELECTION_ENGINE_VERSION, si_config_digest = []\<rparr>)"
  by (auto simp: assemble_def result_bind_eq_Inr)

lemma candidate_from_tables:
  assumes "read_candidates db t m = Inr cs" "(d, r, e) \<in> set cs"
  obtains row where "row \<in> set (candidates_sql db t m)" "candidate_of_row row = Inr (d, r, e)"
proof -
  obtain rows where rows: "traverse candidate_of_row rows = Inr cs"
      "\<And>row. row \<in> set rows \<longleftrightarrow>
         map_of (best_per_key candidate_key governs (candidates_sql db t m)) (candidate_key row) = Some row"
    using read_candidates_Inr [OF assms(1)] by metis
  from traverse_Inr_set [OF rows(1) assms(2)] obtain row where "row \<in> set rows" "candidate_of_row row = Inr (d, r, e)"
    by blast
  moreover from this rows(2) best_per_key_Some have "row \<in> set (candidates_sql db t m)" by fast
  ultimately show thesis using that by blast
qed

lemma map_filter_id_set: "x \<in> set (List.map_filter id ys) \<longleftrightarrow> Some x \<in> set ys"
  by (force simp: List.map_filter_def)

text \<open>An exception that reaches selection is built from a row the query returns, and every such row in scope with a readable descriptor builds one.\<close>

lemma exception_of_row_Some:
  "exception_of_row jl man row = Inr (Some x) \<longleftrightarrow> exception_in_scope row man \<and>
     (\<exists>descriptor c. decode_column jl (xr_replacement_conflict_descriptor row) = Inr descriptor \<and> replacement_constraint_of descriptor = Some c \<and>
        x = \<lparr>exception_id = xr_exception_id row, higher_scope_directive_id = xr_higher_scope_directive_id row,
             higher_scope_revision_id = xr_higher_scope_revision_id row, lower_scope_tenant_id = xr_lower_scope_tenant_id row,
             replacement_constraint = c, e_effective_from = Some (xr_effective_from row), e_effective_until = xr_effective_until row,
             e_revoked_at = xr_revoked_at row\<rparr>)"
  by (auto simp: exception_of_row_def result_map_eq_Inr split: option.splits)

lemma read_exceptions_set:
  assumes "read_exceptions jl db t man m = Inr es"
  shows "x \<in> set es \<longleftrightarrow> (\<exists>row \<in> set (exceptions_sql db t m). exception_of_row jl man row = Inr (Some x))"
proof -
  from assms obtain ys where ys: "traverse (exception_of_row jl man) (exceptions_sql db t m) = Inr ys" "es = List.map_filter id ys"
    by (auto simp: read_exceptions_def result_map_eq_Inr)
  show ?thesis unfolding ys(2) map_filter_id_set
    using traverse_Inr_set [OF ys(1)] traverse_Inr_set_rev [OF ys(1)] by fastforce
qed

lemma exception_from_row:
  assumes "read_exceptions jl db t man m = Inr es" "x \<in> set es"
  obtains row where "row \<in> set (exceptions_sql db t m)" "exception_id x = xr_exception_id row" "lower_scope_tenant_id x = xr_lower_scope_tenant_id row"
  using assms by (auto simp: read_exceptions_set exception_of_row_Some)



text \<open>
  A directive that any mandatory rule of its revision names is a mandatory candidate: among the
  rules joined to one directive of one revision the reader never lets an optional one govern.
\<close>

theorem mandatory_rule_governs:
  assumes "read_candidates db t m = Inr cs" "row \<in> set (candidates_sql db t m)" "rr_is_mandatory (cr_rule row)"
    and "\<forall>ar \<in> set (arc_applicability_rules db). rr_scope ar \<in> fst ` set authority_scope_table"
  shows "\<exists>(d, r, e) \<in> set cs. (d_revision_id d, directive_id d) = candidate_key row \<and> is_mandatory r"
proof -
  obtain rows where rows: "traverse candidate_of_row rows = Inr cs"
      "\<And>row. row \<in> set rows \<longleftrightarrow>
         map_of (best_per_key candidate_key governs (candidates_sql db t m)) (candidate_key row) = Some row"
    using read_candidates_Inr [OF assms(1)] by metis
  obtain w where w: "map_of (best_per_key candidate_key governs (candidates_sql db t m)) (candidate_key row) = Some w"
    using assms(2) best_per_key_None_iff [of candidate_key governs] by fastforce
  then have wk: "w \<in> set (candidates_sql db t m)" "candidate_key w = candidate_key row"
    using best_per_key_Some by fast+
  have "\<not> governs row w" using governing.winner_maximal [OF w assms(2)] by simp
  moreover have "\<exists>s. enum_of authority_scope_table (rr_scope (cr_rule x)) = Inr s" if "x \<in> set (candidates_sql db t m)" for x
    using assms(4) that by (auto simp: set_candidates_sql enum_of_def of_option_eq_Inr weak_map_of_SomeI)
  then obtain a b where "enum_of authority_scope_table (rr_scope (cr_rule row)) = Inr a"
      "enum_of authority_scope_table (rr_scope (cr_rule w)) = Inr b"
    using assms(2) wk(1) by blast
  ultimately have "rr_is_mandatory (cr_rule w)"
    using assms(3) by (auto simp: governs_def rank_of_def governing_rank_def split: if_splits)
  moreover obtain d r e where "(d, r, e) \<in> set cs" "candidate_of_row w = Inr (d, r, e)"
    using traverse_Inr_set_rev [OF rows(1), of w] rows(2) [of w] w wk(2) by (metis prod_cases3)
  ultimately show ?thesis using wk(2) candidate_of_row_ids [of w d r e] by (auto simp: candidate_key_def)
qed

theorem mandatory_rule_governs_witness:
  "\<exists>cs. read_candidates (sample_db [sample_rule_row ''q'' False ''global'' [] [],
      sample_rule_row ''r'' True ''domain'' [''pay''] []] [] []) ''t'' 5 = Inr cs \<and>
     (\<exists>(d, r, e) \<in> set cs. directive_id d = ''d'' \<and> is_mandatory r)"
proof -
  let ?rules = "[sample_rule_row ''q'' False ''global'' [] [], sample_rule_row ''r'' True ''domain'' [''pay''] []]"
  let ?db = "sample_db ?rules [] []"
  let ?row = "\<lparr>cr_revision_effective_from = 1, cr_directive = sample_directive_row,
      cr_rule = sample_rule_row ''r'' True ''domain'' [''pay''] []\<rparr>"
  have "\<not> isl (read_candidates ?db ''t'' 5)" by code_simp
  then obtain cs where cs: "read_candidates ?db ''t'' 5 = Inr cs" by (cases "read_candidates ?db ''t'' 5") auto
  have row: "?row \<in> set (candidates_sql ?db ''t'' 5)"
    by (simp add: set_candidates_sql sample_db_def sample_revision_def selectable_revision_def
        SELECTABLE_LIFECYCLE_def until_after_def visible_to_def sample_directive_row_def sample_rule_row_def)
  have scopes: "\<forall>ar \<in> set (arc_applicability_rules ?db). rr_scope ar \<in> fst ` set authority_scope_table"
    by (simp add: sample_db_def sample_rule_row_def authority_scope_table_def)
  have "rr_is_mandatory (cr_rule ?row)" by (simp add: sample_rule_row_def)
  from mandatory_rule_governs [OF cs row this scopes] cs show ?thesis
    by (auto simp: candidate_key_def sample_directive_row_def)
qed

lemma unsatisfied_row_blocks:
  assumes "assemble jl assess db t man m = Inr inp" "row \<in> set (obligations_sql db t m)"
    and "or_obligation_state row \<noteq> ''satisfied''"
    and "decode_column jl (or_applicability_snapshot row) = Inr snapshot"
    and "case obligation_rule snapshot (or_obligation_id row) of None \<Rightarrow> True | Some rule \<Rightarrow> rule_applies rule man t m"
  shows "status (select inp) = BLOCKED"
proof -
  obtain obs where obs: "traverse (obligation_of_row jl t man m) (obligations_sql db t m) = Inr obs"
      "obligations inp = List.map_filter id obs"
    using assms(1) by (auto simp: assemble_Inr read_obligations_def result_map_def split: sum.splits)
  from traverse_Inr_set_rev [OF obs(1) assms(2)] obtain y where y: "y \<in> set obs" "obligation_of_row jl t man m row = Inr y"
    by blast
  then obtain ob where "y = Some ob" "obligation_state ob = or_obligation_state row"
    using assms(4,5) by (auto simp: obligation_of_row_def)
  with y(1) obs(2) assms(3) have "ob \<in> set (obligations inp)" "is_missing ob"
    by (simp_all add: map_filter_id_set is_missing_def)
  then show ?thesis by (auto simp: select_status)
qed

text \<open>
  C8. An obligation in force that is not satisfied blocks, whether its snapshot applies to the
  manifest or cannot be read at all.
\<close>

theorem unsatisfied_obligation_blocks:
  assumes "assemble jl assess db t man m = Inr inp" "row \<in> set (obligations_sql db t m)"
    and "or_obligation_state row \<noteq> ''satisfied''"
    and "decode_column jl (or_applicability_snapshot row) = Inr snapshot"
    and "case obligation_rule snapshot (or_obligation_id row) of None \<Rightarrow> True | Some rule \<Rightarrow> rule_applies rule man t m"
  shows "status (select inp) = BLOCKED"
  by (rule unsatisfied_row_blocks [OF assms])

theorem unsatisfied_obligation_blocks_witness:
  "obligation_rule (JObj [(''scope'', JStr ''tenant'')]) ''o'' = None \<and>
   (\<exists>inp. assemble no_text (\<lambda>_. None) (sample_db [] [] [sample_obligation_row]) ''t'' sample_change 5 = Inr inp \<and>
      status (select inp) = BLOCKED)"
proof -
  let ?db = "sample_db [] [] [sample_obligation_row]"
  have unreadable: "obligation_rule (JObj [(''scope'', JStr ''tenant'')]) ''o'' = None" by code_simp
  have "\<not> isl (assemble no_text (\<lambda>_. None) ?db ''t'' sample_change 5)" by code_simp
  then obtain inp where inp: "assemble no_text (\<lambda>_. None) ?db ''t'' sample_change 5 = Inr inp"
    by (cases "assemble no_text (\<lambda>_. None) ?db ''t'' sample_change 5") auto
  have "status (select inp) = BLOCKED"
  proof (rule unsatisfied_obligation_blocks [OF inp])
    show "sample_obligation_row \<in> set (obligations_sql ?db ''t'' 5)"
      by (simp add: set_obligations_sql sample_db_def sample_obligation_row_def until_after_def visible_to_def)
    show "or_obligation_state sample_obligation_row \<noteq> ''satisfied''" by (simp add: sample_obligation_row_def)
    show "decode_column no_text (or_applicability_snapshot sample_obligation_row) = Inr (JObj [(''scope'', JStr ''tenant'')])"
      by (simp add: decode_column_def sample_obligation_row_def)
  qed (use unreadable in \<open>simp add: sample_obligation_row_def\<close>)
  with unreadable inp show ?thesis by blast
qed

text \<open>
  C12. The exceptions that reach selection are exactly those of the rows of the requesting tenant that are not revoked at the evaluation moment, of which every declared
  selector (domain, entity, intent kind, action class, environment, sensitivity) covers the manifest, and whose descriptor names a readable constraint, which is the
  one substituted; a row with an unreadable descriptor contributes nothing.
\<close>

theorem assemble_exceptions_scoped:
  assumes "assemble jl assess db t man m = Inr inp"
  shows "x \<in> set (exceptions inp) \<longleftrightarrow> (\<exists>row \<in> set (arc_approved_exceptions db).
     xr_lower_scope_tenant_id row = t \<and> (\<forall>u. xr_revoked_at row = Some u \<longrightarrow> m < u) \<and>
     (\<forall>d. xr_lower_scope_domain_id row = Some d \<longrightarrow> d |\<in>| m_domain_ids man) \<and>
     (\<forall>e. xr_lower_scope_entity_id row = Some e \<longrightarrow> e |\<in>| m_entity_ids man) \<and>
     (\<forall>k. xr_lower_scope_intent_kind row = Some k \<longrightarrow> k = enum_str intent_kinds_table (m_intent_kind man)) \<and>
     (\<forall>c. xr_lower_scope_action_class row = Some c \<longrightarrow> (\<exists>a. a |\<in>| requested_action_classes man \<and> c = enum_str action_class_table a)) \<and>
     (\<forall>e. xr_lower_scope_environment row = Some e \<longrightarrow> m_environment man = Some e) \<and>
     (\<forall>y. xr_lower_scope_data_sensitivity row = Some y \<longrightarrow> data_sensitivity man = Some y) \<and>
     (\<exists>descriptor c. decode_column jl (xr_replacement_conflict_descriptor row) = Inr descriptor \<and> replacement_constraint_of descriptor = Some c \<and>
        x = \<lparr>exception_id = xr_exception_id row, higher_scope_directive_id = xr_higher_scope_directive_id row,
             higher_scope_revision_id = xr_higher_scope_revision_id row, lower_scope_tenant_id = t,
             replacement_constraint = c, e_effective_from = Some (xr_effective_from row), e_effective_until = xr_effective_until row,
             e_revoked_at = xr_revoked_at row\<rparr>))"
proof -
  from assms have es: "read_exceptions jl db t man m = Inr (exceptions inp)" by (auto simp: assemble_Inr)
  have until: "until_after u m \<longleftrightarrow> (\<forall>v. u = Some v \<longrightarrow> m < v)" for u
    by (auto simp: until_after_def split: option.splits)
  have scope: "exception_in_scope row man \<longleftrightarrow>
     (\<forall>d. xr_lower_scope_domain_id row = Some d \<longrightarrow> d |\<in>| m_domain_ids man) \<and>
     (\<forall>e. xr_lower_scope_entity_id row = Some e \<longrightarrow> e |\<in>| m_entity_ids man) \<and>
     (\<forall>k. xr_lower_scope_intent_kind row = Some k \<longrightarrow> k = enum_str intent_kinds_table (m_intent_kind man)) \<and>
     (\<forall>c. xr_lower_scope_action_class row = Some c \<longrightarrow> (\<exists>a. a |\<in>| requested_action_classes man \<and> c = enum_str action_class_table a)) \<and>
     (\<forall>e. xr_lower_scope_environment row = Some e \<longrightarrow> m_environment man = Some e) \<and>
     (\<forall>y. xr_lower_scope_data_sensitivity row = Some y \<longrightarrow> data_sensitivity man = Some y)" for row
    by (auto simp: exception_in_scope_def split: option.splits)
  show ?thesis
    unfolding read_exceptions_set [OF es] Bex_def set_exceptions_sql exception_of_row_Some until scope by blast
qed

theorem assemble_exceptions_scoped_witness:
  "let good = JObj [(''modality'', JStr ''prohibit''), (''constraint_operator'', JStr ''present'')];
       run = (\<lambda>descriptor. assemble no_text (\<lambda>_. None) (sample_db [] [sample_exception_row descriptor] []) ''t'' sample_change 5)
   in (\<exists>inp. run good = Inr inp \<and> exceptions inp \<noteq> []) \<and> (\<exists>inp. run (JInt 3) = Inr inp \<and> exceptions inp = [])"
proof -
  let ?good = "JObj [(''modality'', JStr ''prohibit''), (''constraint_operator'', JStr ''present'')]"
  let ?run = "\<lambda>descriptor. assemble no_text (\<lambda>_. None) (sample_db [] [sample_exception_row descriptor] []) ''t'' sample_change 5"
  have "case ?run ?good of Inl _ \<Rightarrow> False | Inr inp \<Rightarrow> exceptions inp \<noteq> []" by code_simp
  then have good: "\<exists>inp. ?run ?good = Inr inp \<and> exceptions inp \<noteq> []" by (auto split: sum.splits)
  have "\<not> isl (?run (JInt 3))" by code_simp
  then obtain inp where inp: "?run (JInt 3) = Inr inp" by (cases "?run (JInt 3)") auto
  have "exceptions inp = []"
    using assemble_exceptions_scoped [OF inp]
    by (cases "exceptions inp")
      (auto simp: sample_db_def sample_exception_row_def decode_column_def replacement_constraint_of_def)
  with good inp show ?thesis by (auto simp: Let_def)
qed

subsection \<open>The order of the rows does not matter\<close>

text \<open>The primary keys of the tables.\<close>

definition keys_ok :: "corpus_db \<Rightarrow> bool" where
  "keys_ok db \<longleftrightarrow>
     inj_on rv_revision_id (set (arc_revisions db)) \<and>
     inj_on (\<lambda>d. (dr_revision_id d, dr_directive_id d)) (set (arc_directives db)) \<and>
     inj_on rr_rule_id (set (arc_applicability_rules db)) \<and>
     inj_on xr_exception_id (set (arc_approved_exceptions db)) \<and>
     inj_on or_obligation_id (set (arc_mandatory_obligations db))"

definition same_rows :: "corpus_db \<Rightarrow> corpus_db \<Rightarrow> bool" where
  "same_rows a b \<longleftrightarrow>
     mset (arc_revisions a) = mset (arc_revisions b) \<and> mset (arc_directives a) = mset (arc_directives b) \<and>
     mset (arc_applicability_rules a) = mset (arc_applicability_rules b) \<and>
     mset (arc_approved_exceptions a) = mset (arc_approved_exceptions b) \<and>
     mset (arc_mandatory_obligations a) = mset (arc_mandatory_obligations b) \<and>
     mset (arc_artifacts a) = mset (arc_artifacts b)"

lemma candidates_sql_rows:
  assumes "keys_ok a" "same_rows a b"
  shows "candidates_sql a t m = candidates_sql b t m"
proof -
  note rows = assms(2) [unfolded same_rows_def]
  have inj: "inj_on candidate_order (set (candidates_sql a t m))"
  proof (rule inj_onI)
    fix x y assume "x \<in> set (candidates_sql a t m)" "y \<in> set (candidates_sql a t m)" "candidate_order x = candidate_order y"
    then have "cr_directive x = cr_directive y" "cr_rule x = cr_rule y" "cr_revision_effective_from x = cr_revision_effective_from y"
      using assms(1) unfolding keys_ok_def set_candidates_sql candidate_order_def by (auto dest: inj_onD)
    then show "x = y" by (cases x; cases y) simp
  qed
  show ?thesis
    unfolding candidates_sql_def
  proof (rule sort_key_determined, goal_cases)
    case 1
    show ?case
      using rows by (intro mset_concat_map_cong) (auto intro!: mset_concat_map_cong)
  next
    case 2
    show ?case using inj unfolding candidates_sql_def by simp
  qed
qed

lemma exceptions_sql_rows:
  assumes "keys_ok a" "same_rows a b"
  shows "exceptions_sql a t m = exceptions_sql b t m"
  unfolding exceptions_sql_def
  using assms by (intro sort_key_determined) (auto simp: same_rows_def keys_ok_def mset_filter intro: inj_on_subset)

lemma obligations_sql_rows:
  assumes "keys_ok a" "same_rows a b"
  shows "obligations_sql a t m = obligations_sql b t m"
  unfolding obligations_sql_def
proof (rule sort_key_determined, goal_cases)
  case 1
  show ?case
    using assms(2) unfolding same_rows_def by (intro mset_concat_map_cong) (auto intro!: mset_concat_map_cong)
next
  case 2
  show ?case using assms(1) by (auto simp: keys_ok_def intro: inj_on_subset)
qed

text \<open>
  Assembling is deterministic: as long as the primary keys of the tables hold, the order in
  which the database stores the rows has no influence on the input of selection, nor on whether
  and how the read fails.
\<close>

theorem assemble_row_order_independent:
  assumes "keys_ok a" "same_rows a b"
  shows "assemble jl assess a t man m = assemble jl assess b t man m"
  by (simp only: assemble_def read_candidates_def read_exceptions_def read_obligations_def
      candidates_sql_rows [OF assms] exceptions_sql_rows [OF assms] obligations_sql_rows [OF assms])

theorem assemble_row_order_independent_witness:
  "let q = sample_rule_row ''q'' False ''global'' [] []; r = sample_rule_row ''r'' True ''domain'' [''pay''] []
   in assemble no_text (\<lambda>_. None) (sample_db [q, r] [] [sample_obligation_row]) ''t'' sample_change 5 =
      assemble no_text (\<lambda>_. None) (sample_db [r, q] [] [sample_obligation_row]) ''t'' sample_change 5"
  unfolding Let_def
  by (rule assemble_row_order_independent)
    (simp_all add: keys_ok_def same_rows_def sample_db_def sample_rule_row_def)

subsection \<open>A governing rule that does not apply hides one that does\<close>

text \<open>
  The governing rule of a directive is chosen before any rule is matched against the manifest.
  A revision may carry two mandatory rules, one global for deployments and one for the domain
  \<open>pay\<close>: for a code change in \<open>pay\<close> the second applies, but the first governs, does not match,
  and the directive is not served; the resolution is ready with nothing in it.
\<close>

theorem governing_rule_hides_applicable_rule:
  "let db = sample_db [sample_rule_row ''q'' True ''global'' [] [''deployment''],
                       sample_rule_row ''r'' True ''domain'' [''pay''] []] [] []
   in (\<exists>row \<in> set (candidates_sql db ''t'' 5). rr_is_mandatory (cr_rule row) \<and>
         (\<exists>rule. rule_from_row (cr_rule row) = Inr rule \<and> rule_applies rule sample_change ''t'' 5)) \<and>
      (\<exists>inp. assemble no_text (\<lambda>_. None) db ''t'' sample_change 5 = Inr inp \<and>
         served (select inp) = [] \<and> status (select inp) = READY)"
proof -
  let ?db = "sample_db [sample_rule_row ''q'' True ''global'' [] [''deployment''],
                        sample_rule_row ''r'' True ''domain'' [''pay''] []] [] []"
  let ?row = "\<lparr>cr_revision_effective_from = 1, cr_directive = sample_directive_row,
      cr_rule = sample_rule_row ''r'' True ''domain'' [''pay''] []\<rparr>"
  have row: "?row \<in> set (candidates_sql ?db ''t'' 5)"
    by (simp add: set_candidates_sql sample_db_def sample_revision_def selectable_revision_def
        SELECTABLE_LIFECYCLE_def until_after_def visible_to_def sample_directive_row_def sample_rule_row_def)
  have "case rule_from_row (sample_rule_row ''r'' True ''domain'' [''pay''] []) of Inl _ \<Rightarrow> False
      | Inr rule \<Rightarrow> rule_applies rule sample_change ''t'' 5" by code_simp
  moreover have "case assemble no_text (\<lambda>_. None) ?db ''t'' sample_change 5 of Inl _ \<Rightarrow> False
      | Inr inp \<Rightarrow> served (select inp) = [] \<and> status (select inp) = READY" by code_simp
  ultimately show ?thesis
    unfolding Let_def
    by (intro conjI bexI [OF _ row]) (auto simp: sample_rule_row_def split: sum.splits)
qed

end
