(* ===== verification/Webhook_Delivery.thy ===== *)
theory Webhook_Delivery
  imports Py_Strings
begin

section \<open>Webhook delivery\<close>

text \<open>
  The model of \<open>contextplane/workers/webhook_delivery.py\<close>: signing, the backoff schedule, the
  classification of a response, one delivery, and a drain pass (claim, fan out, record) over
  the table \<open>notification_deliveries\<close>. The table is a list of rows; \<open>FOR UPDATE SKIP LOCKED\<close>
  skips the rows another worker holds, given by a predicate. The HMAC (as the hexadecimal text of
  its digest), the JSON printer, the ISO printer of instants, the HTTP client and the clock are
  parameters: the client answers with a status, raises an \<open>httpx.HTTPError\<close>, or raises something
  else (\<open>httpx.InvalidURL\<close> is not an \<open>HTTPError\<close>). Deliveries of one pass are independent, so their
  concurrency is not visible in the outcomes; the semaphores and metrics are left out. Instants
  are microseconds.
\<close>

subsection \<open>Constants and data\<close>

definition SIGNATURE_PREFIX :: string where "SIGNATURE_PREFIX = ''sha256=''"
definition RETRY_BASE_SECONDS :: int where "RETRY_BASE_SECONDS = 60"
definition RETRY_CAP_SECONDS :: int where "RETRY_CAP_SECONDS = 24 * 60 * 60"
definition MAX_ATTEMPTS :: int where "MAX_ATTEMPTS = 12"
definition RETRYABLE_4XX :: "int list" where "RETRYABLE_4XX = [408, 425, 429]"

definition seconds :: "int \<Rightarrow> moment" where
  "seconds n = n * 1000000"

record delivery_result =
  dr_status :: string
  dr_http_status :: "int option"
  dr_next_retry_at :: "moment option"
  dr_error_text :: "string option"

datatype worker_error = NoSecret | ClientRaised string

datatype http_reply = Response int | TransportError string | OtherException string

record registry_event =
  ev_notification_id :: uuid
  ev_tenant_id :: uuid
  ev_subscription_id :: "uuid option"
  ev_capability_id :: uuid
  ev_capability_slug :: string
  ev_event_kind :: string
  ev_change_classification :: "string option"
  ev_version_before :: "string option"
  ev_version_after :: "string option"
  ev_occurred_at :: moment
  ev_fetch_url :: string

record delivery_row =
  delivery_id :: uuid
  notification_id :: uuid
  tenant_id :: uuid
  webhook_url :: string
  attempt_number :: int
  delivery_status :: string
  http_status :: "int option"
  attempted_at :: moment
  next_retry_at :: "moment option"
  error_text :: "string option"

text \<open>A notification is the event it carries; a subscription has its secret, if any.\<close>

record delivery_db =
  deliveries :: "delivery_row list"
  notifications :: "registry_event list"
  subscriptions :: "(uuid \<times> string option) list"

record claimed_row =
  c_delivery_id :: uuid
  c_tenant_id :: uuid
  c_webhook_url :: string
  c_attempt_number :: int
  c_hmac_secret :: string
  c_event :: registry_event

subsection \<open>Signing and backoff\<close>

definition sign_payload :: "(string \<Rightarrow> string \<Rightarrow> string) \<Rightarrow> string \<Rightarrow> string \<Rightarrow> worker_error + string" where
  "sign_payload hmac_sha256 payload hmac_secret =
     (if hmac_secret = [] then Inl NoSecret
      else Inr (SIGNATURE_PREFIX @ hmac_sha256 hmac_secret payload))"

definition verify_signature ::
    "(string \<Rightarrow> string \<Rightarrow> string) \<Rightarrow> string \<Rightarrow> string \<Rightarrow> string \<Rightarrow> worker_error + bool" where
  "verify_signature hmac_sha256 payload secret header_value =
     result_map (\<lambda>expected. expected = header_value) (sign_payload hmac_sha256 payload secret)"

definition compute_next_retry :: "int \<Rightarrow> moment \<Rightarrow> moment" where
  "compute_next_retry attempt now =
     (let n = (if attempt < 1 then 1 else attempt);
          delay = RETRY_BASE_SECONDS * 2 ^ nat (n - 1);
          capped = (if delay > RETRY_CAP_SECONDS then RETRY_CAP_SECONDS else delay)
      in now + seconds capped)"

subsection \<open>Payloads\<close>

definition opt_str :: "string option \<Rightarrow> json" where
  "opt_str v = (case v of None \<Rightarrow> JNull | Some s \<Rightarrow> JStr s)"

definition event_to_dict :: "(moment \<Rightarrow> string) \<Rightarrow> registry_event \<Rightarrow> json" where
  "event_to_dict fmt e =
     JObj [(''notification_id'', JStr (ev_notification_id e)),
           (''tenant_id'', JStr (ev_tenant_id e)),
           (''subscription_id'', opt_str (ev_subscription_id e)),
           (''capability_id'', JStr (ev_capability_id e)),
           (''capability_slug'', JStr (ev_capability_slug e)),
           (''event_kind'', JStr (ev_event_kind e)),
           (''change_classification'', opt_str (ev_change_classification e)),
           (''version_before'', opt_str (ev_version_before e)),
           (''version_after'', opt_str (ev_version_after e)),
           (''occurred_at'', JStr (fmt (ev_occurred_at e))),
           (''fetch_url'', JStr (ev_fetch_url e))]"

definition make_digest_envelope ::
    "(moment \<Rightarrow> string) \<Rightarrow> uuid \<Rightarrow> registry_event list \<Rightarrow> string \<Rightarrow> moment \<Rightarrow> json" where
  "make_digest_envelope fmt tenant events window now =
     JObj [(''envelope_type'', JStr ''CapabilityRegistry.Digest''), (''version'', JStr ''v1''),
           (''tenant_id'', JStr tenant), (''window'', JStr window), (''delivered_at'', JStr (fmt now)),
           (''item_count'', JInt (int (length events))),
           (''items'', JArr (map (event_to_dict fmt) events))]"

subsection \<open>One delivery\<close>

definition classify_response :: "int \<Rightarrow> int \<Rightarrow> moment \<Rightarrow> delivery_result" where
  "classify_response code attempt now =
     (if 200 \<le> code \<and> code < 300
      then \<lparr>dr_status = ''success'', dr_http_status = Some code, dr_next_retry_at = None, dr_error_text = None\<rparr>
      else let transient = (500 \<le> code \<and> code < 600) \<or> code \<in> set RETRYABLE_4XX in
      if transient \<and> attempt < MAX_ATTEMPTS
      then \<lparr>dr_status = ''pending'', dr_http_status = Some code,
            dr_next_retry_at = Some (compute_next_retry attempt now), dr_error_text = Some (''http '' @ show_int code)\<rparr>
      else \<lparr>dr_status = ''failed'', dr_http_status = Some code, dr_next_retry_at = None,
            dr_error_text = Some (''http '' @ show_int code)\<rparr>)"

text \<open>
  What a pass needs from its surroundings: the printers of JSON and of instants, the HMAC, the client
  (URL, body and signature in, reply out) and the clock when the delivery of a row starts.
\<close>

record env =
  json_dumps :: "json \<Rightarrow> string"
  isoformat :: "moment \<Rightarrow> string"
  hmac_sha256 :: "string \<Rightarrow> string \<Rightarrow> string"
  post :: "string \<Rightarrow> string \<Rightarrow> string \<Rightarrow> http_reply"
  clock :: "uuid \<Rightarrow> moment"
  locked :: "uuid \<Rightarrow> bool"

definition deliver :: "env \<Rightarrow> moment \<Rightarrow> registry_event \<Rightarrow> string \<Rightarrow> string \<Rightarrow> int \<Rightarrow> worker_error + delivery_result" where
  "deliver E now event url secret attempt =
     (let body = json_dumps E (event_to_dict (isoformat E) event) in
      result_bind (sign_payload (hmac_sha256 E) body secret) (\<lambda>sig.
        (case post E url body sig of
           TransportError exc \<Rightarrow>
             Inr \<lparr>dr_status = ''pending'', dr_http_status = None,
                  dr_next_retry_at = Some (compute_next_retry attempt now), dr_error_text = Some (''transport: '' @ exc)\<rparr>
         | OtherException exc \<Rightarrow> Inl (ClientRaised exc)
         | Response code \<Rightarrow> Inr (classify_response code attempt now))))"

subsection \<open>A drain pass\<close>

definition due :: "moment \<Rightarrow> delivery_row \<Rightarrow> bool" where
  "due now d \<longleftrightarrow> delivery_status d = ''pending'' \<and>
     (case next_retry_at d of None \<Rightarrow> True | Some t \<Rightarrow> t \<le> now)"

text \<open>\<open>ORDER BY next_retry_at NULLS FIRST, attempted_at\<close>.\<close>

definition claim_order :: "delivery_row \<Rightarrow> bool \<times> moment \<times> moment" where
  "claim_order d = (next_retry_at d \<noteq> None, (case next_retry_at d of None \<Rightarrow> 0 | Some t \<Rightarrow> t), attempted_at d)"

definition claimed_ids :: "env \<Rightarrow> delivery_row list \<Rightarrow> moment \<Rightarrow> nat \<Rightarrow> uuid list" where
  "claimed_ids E ds now lim =
     map delivery_id (take lim (filter (\<lambda>d. \<not> locked E (delivery_id d)) (sort_key claim_order (filter (due now) ds))))"

definition claim_update :: "uuid list \<Rightarrow> moment \<Rightarrow> delivery_row \<Rightarrow> delivery_row" where
  "claim_update ids now d =
     (if delivery_id d \<in> set ids then d\<lparr>attempt_number := attempt_number d + 1, attempted_at := now\<rparr> else d)"

definition hmac_secret_of :: "delivery_db \<Rightarrow> registry_event \<Rightarrow> string" where
  "hmac_secret_of db n =
     (case ev_subscription_id n of
        None \<Rightarrow> []
      | Some s \<Rightarrow> (case map_of (subscriptions db) s of Some (Some secret) \<Rightarrow> secret | _ \<Rightarrow> []))"

definition notification_of :: "delivery_db \<Rightarrow> uuid \<Rightarrow> registry_event option" where
  "notification_of db nid = map_of (rev (map (\<lambda>n. (ev_notification_id n, n)) (notifications db))) nid"

text \<open>The event posted names the tenant of the delivery row.\<close>

definition splice :: "delivery_db \<Rightarrow> delivery_row \<Rightarrow> claimed_row option" where
  "splice db d =
     (case notification_of db (notification_id d) of
        None \<Rightarrow> None
      | Some n \<Rightarrow>
          Some \<lparr>c_delivery_id = delivery_id d, c_tenant_id = tenant_id d, c_webhook_url = webhook_url d,
                c_attempt_number = attempt_number d, c_hmac_secret = hmac_secret_of db n,
                c_event = n\<lparr>ev_tenant_id := tenant_id d\<rparr>\<rparr>)"

definition claim_pending :: "env \<Rightarrow> delivery_db \<Rightarrow> moment \<Rightarrow> nat \<Rightarrow> delivery_db \<times> claimed_row list" where
  "claim_pending E db now lim =
     (let ids = claimed_ids E (deliveries db) now lim;
          db' = db\<lparr>deliveries := map (claim_update ids now) (deliveries db)\<rparr>;
          claimed = filter (\<lambda>d. delivery_id d \<in> set ids) (deliveries db')
      in (db', List.map_filter (splice db') claimed))"

definition deliver_row :: "env \<Rightarrow> claimed_row \<Rightarrow> worker_error + uuid \<times> delivery_result" where
  "deliver_row E row =
     result_map (Pair (c_delivery_id row))
       (deliver E (clock E (c_delivery_id row)) (c_event row) (c_webhook_url row) (c_hmac_secret row) (c_attempt_number row))"

definition record_outcome :: "uuid \<times> delivery_result \<Rightarrow> delivery_row list \<Rightarrow> delivery_row list" where
  "record_outcome o' ds =
     map (\<lambda>d. if delivery_id d = fst o'
              then d\<lparr>delivery_status := dr_status (snd o'), http_status := dr_http_status (snd o'),
                     next_retry_at := dr_next_retry_at (snd o'), error_text := dr_error_text (snd o')\<rparr>
              else d) ds"

definition record_outcomes_bulk :: "(uuid \<times> delivery_result) list \<Rightarrow> delivery_db \<Rightarrow> delivery_db" where
  "record_outcomes_bulk outcomes db = db\<lparr>deliveries := fold record_outcome outcomes (deliveries db)\<rparr>"

definition right_of :: "'e + 'a \<Rightarrow> 'a option" where
  "right_of r = (case r of Inl _ \<Rightarrow> None | Inr x \<Rightarrow> Some x)"

definition run_once :: "env \<Rightarrow> delivery_db \<Rightarrow> moment \<Rightarrow> nat \<Rightarrow> delivery_db \<times> nat" where
  "run_once E db now batch_size =
     (let (db', rows) = claim_pending E db now batch_size in
      if rows = [] then (db', 0)
      else let outcomes = List.map_filter (\<lambda>row. right_of (deliver_row E row)) rows in
        (if outcomes \<noteq> [] then record_outcomes_bulk outcomes db' else db', length rows))"

subsection \<open>A pass, row by row\<close>

definition apply_result :: "delivery_result \<Rightarrow> delivery_row \<Rightarrow> delivery_row" where
  "apply_result r d =
     d\<lparr>delivery_status := dr_status r, http_status := dr_http_status r, next_retry_at := dr_next_retry_at r,
       error_text := dr_error_text r\<rparr>"

definition outcome_of :: "env \<Rightarrow> delivery_db \<Rightarrow> delivery_row \<Rightarrow> delivery_result option" where
  "outcome_of E db d =
     Option.bind (splice db d) (\<lambda>c. right_of
       (deliver E (clock E (delivery_id d)) (c_event c) (webhook_url d) (c_hmac_secret c) (attempt_number d)))"

definition pass_row :: "env \<Rightarrow> delivery_db \<Rightarrow> moment \<Rightarrow> delivery_row \<Rightarrow> delivery_row" where
  "pass_row E db now d =
     (let d' = d\<lparr>attempt_number := attempt_number d + 1, attempted_at := now\<rparr> in
      case outcome_of E db d' of None \<Rightarrow> d' | Some r \<Rightarrow> apply_result r d')"

lemma apply_result_id [simp]: "delivery_id (apply_result r d) = delivery_id d"
  by (simp add: apply_result_def)

lemma claim_update_id [simp]: "delivery_id (claim_update ids now d) = delivery_id d"
  by (simp add: claim_update_def)

lemma key_in_domain: "(a, b) \<in> S \<Longrightarrow> a \<in> fst ` S"
  by force

lemma fold_record_outcome:
  assumes "distinct (map fst outcomes)"
  shows "fold record_outcome outcomes ds =
     map (\<lambda>d. case map_of outcomes (delivery_id d) of None \<Rightarrow> d | Some r \<Rightarrow> apply_result r d) ds"
  using assms
proof (induction outcomes arbitrary: ds)
  case Nil
  then show ?case by simp
next
  case (Cons o' outcomes)
  then show ?case
    by (cases o') (auto simp: record_outcome_def apply_result_def map_of_eq_None_iff dest: key_in_domain split: option.splits)
qed

lemma map_filter_compose:
  "List.map_filter f (List.map_filter g xs) = List.map_filter (\<lambda>x. Option.bind (g x) f) xs"
  by (induction xs) (auto simp: List.map_filter_simps split: option.splits)

lemma keys_map_filter: "map fst (List.map_filter (\<lambda>d. map_option (Pair (k d)) (f d)) xs) = map k (filter (\<lambda>d. f d \<noteq> None) xs)"
  by (induction xs) (auto simp: List.map_filter_simps split: option.splits)

lemma map_of_map_filter:
  assumes "distinct (map k xs)" "x \<in> set xs"
  shows "map_of (List.map_filter (\<lambda>d. map_option (Pair (k d)) (f d)) xs) (k x) = f x"
  using assms
proof (induction xs)
  case Nil
  then show ?case by simp
next
  case (Cons y ys)
  have absent: "map_of (List.map_filter (\<lambda>d. map_option (Pair (k d)) (f d)) ys) (k y) = None"
    using Cons.prems(1) unfolding map_of_eq_None_iff set_map [symmetric] keys_map_filter by auto
  show ?case
  proof (cases "x = y")
    case True
    with absent show ?thesis by (cases "f y") (simp_all add: List.map_filter_simps)
  next
    case False
    with Cons.prems have "k x \<in> k ` set ys" by simp
    with Cons.prems(1) have "k x \<noteq> k y" by auto
    with Cons False show ?thesis by (cases "f y") (simp_all add: List.map_filter_simps)
  qed
qed

lemma hmac_secret_of_deliveries [simp]: "hmac_secret_of (db\<lparr>deliveries := ds\<rparr>) = hmac_secret_of db"
  by (rule ext) (simp add: hmac_secret_of_def split: option.splits)

lemma splice_deliveries [simp]: "splice (db\<lparr>deliveries := ds\<rparr>) d = splice db d"
  by (simp add: splice_def notification_of_def split: option.splits)

lemma spliced_outcome:
  "Option.bind (splice db d) (\<lambda>row. right_of (deliver_row E row)) = map_option (Pair (delivery_id d)) (outcome_of E db d)"
  by (auto simp: splice_def outcome_of_def deliver_row_def right_of_def result_map_def
      split: option.splits sum.splits)

lemma run_once_db:
  "fst (run_once E db now lim) =
     (let ids = claimed_ids E (deliveries db) now lim; ds = map (claim_update ids now) (deliveries db) in
      db\<lparr>deliveries := fold record_outcome
        (List.map_filter (\<lambda>d. map_option (Pair (delivery_id d)) (outcome_of E db d))
          (filter (\<lambda>d. delivery_id d \<in> set ids) ds)) ds\<rparr>)"
proof -
  let ?ids = "claimed_ids E (deliveries db) now lim"
  let ?ds = "map (claim_update ?ids now) (deliveries db)"
  let ?claimed = "filter (\<lambda>d. delivery_id d \<in> set ?ids) ?ds"
  let ?out = "List.map_filter (\<lambda>d. map_option (Pair (delivery_id d)) (outcome_of E db d)) ?claimed"
  have "List.map_filter (\<lambda>row. right_of (deliver_row E row)) (List.map_filter (splice db) ?claimed) = ?out"
    unfolding map_filter_compose spliced_outcome ..
  moreover have "splice (db\<lparr>deliveries := ?ds\<rparr>) = splice db" by (rule ext) simp
  moreover have "?out = []" if "List.map_filter (splice db) ?claimed = []"
    using calculation(1) that by (simp add: List.map_filter_simps)
  ultimately show ?thesis
    by (auto simp: run_once_def claim_pending_def Let_def record_outcomes_bulk_def)
qed

lemma run_once_rows:
  assumes "distinct (map delivery_id (deliveries db))"
  shows "deliveries (fst (run_once E db now lim)) =
     map (\<lambda>d. if delivery_id d \<in> set (claimed_ids E (deliveries db) now lim) then pass_row E db now d else d)
       (deliveries db)"
proof -
  let ?ids = "claimed_ids E (deliveries db) now lim"
  let ?ds = "map (claim_update ?ids now) (deliveries db)"
  let ?claimed = "filter (\<lambda>d. delivery_id d \<in> set ?ids) ?ds"
  let ?f = "outcome_of E db"
  let ?out = "List.map_filter (\<lambda>d. map_option (Pair (delivery_id d)) (?f d)) ?claimed"
  have "map delivery_id ?ds = map delivery_id (deliveries db)" by simp
  with assms have dist: "distinct (map delivery_id ?claimed)" by (metis distinct_map_filter)
  then have "distinct (map fst ?out)" unfolding keys_map_filter by (rule distinct_map_filter)
  moreover have "map_of ?out (delivery_id d) = (if delivery_id d \<in> set ?ids then ?f d else None)" if "d \<in> set ?ds" for d
  proof (cases "delivery_id d \<in> set ?ids")
    case True
    with that dist show ?thesis using map_of_map_filter [of delivery_id ?claimed d ?f] by simp
  next
    case False
    then have "delivery_id d \<notin> set (map fst ?out)" unfolding keys_map_filter by auto
    then have "map_of ?out (delivery_id d) = None" by (simp only: map_of_eq_None_iff set_map not_False_eq_True)
    with False show ?thesis by simp
  qed
  ultimately have "deliveries (fst (run_once E db now lim)) =
      map (\<lambda>d. case (if delivery_id d \<in> set ?ids then ?f d else None) of None \<Rightarrow> d | Some r \<Rightarrow> apply_result r d) ?ds"
    unfolding run_once_db Let_def by (simp add: fold_record_outcome del: map_map)
  then show ?thesis by (auto simp: claim_update_def pass_row_def Let_def split: option.splits)
qed

lemma run_once_other_tables:
  "notifications (fst (run_once E db now lim)) = notifications db"
  "subscriptions (fst (run_once E db now lim)) = subscriptions db"
  by (simp_all add: run_once_db Let_def)

subsection \<open>The backoff schedule\<close>

lemma compute_next_retry_eq:
  "compute_next_retry n now = now + seconds (min 86400 (60 * 2 ^ nat (max 1 n - 1)))"
  by (auto simp: compute_next_retry_def RETRY_BASE_SECONDS_def RETRY_CAP_SECONDS_def Let_def min_def max_def)

text \<open>
  Retries back off within bounds: the next attempt is at least one minute and at most 24 hours
  away, never sooner for a later attempt, and the 24-hour cap is reached exactly from the
  twelfth attempt on.
\<close>

theorem backoff_bounds:
  "now + seconds 60 \<le> compute_next_retry n now \<and> compute_next_retry n now \<le> now + seconds 86400 \<and>
   (compute_next_retry n now = now + seconds 86400 \<longleftrightarrow> 12 \<le> n) \<and>
   mono (\<lambda>k. compute_next_retry k now)"
proof (intro conjI)
  have one: "(1 :: int) \<le> 2 ^ k" for k by simp
  show "now + seconds 60 \<le> compute_next_retry n now"
    using one [of "nat (max 1 n - 1)"] by (simp add: compute_next_retry_eq seconds_def)
  show "compute_next_retry n now \<le> now + seconds 86400"
    by (simp add: compute_next_retry_eq seconds_def)
  have cap: "86400 \<le> 60 * (2 :: int) ^ k \<longleftrightarrow> 11 \<le> k" for k :: nat
  proof (cases "11 \<le> k")
    case True
    then have "(2 :: int) ^ 11 \<le> 2 ^ k" by (rule power_increasing) simp
    with True show ?thesis by simp
  next
    case False
    then have "(2 :: int) ^ k \<le> 2 ^ 10" by (intro power_increasing) auto
    with False show ?thesis by simp
  qed
  have "min 86400 x = 86400 \<longleftrightarrow> 86400 \<le> x" for x :: int by auto
  from this [of "60 * 2 ^ nat (max 1 n - 1)"]
  have "min 86400 (60 * (2 :: int) ^ nat (max 1 n - 1)) = 86400 \<longleftrightarrow> 11 \<le> nat (max 1 n - 1)"
    by (simp only: cap)
  then show "compute_next_retry n now = now + seconds 86400 \<longleftrightarrow> 12 \<le> n"
    by (auto simp: compute_next_retry_eq seconds_def)
  show "mono (\<lambda>k. compute_next_retry k now)"
  proof (rule monoI)
    fix a b :: int assume "a \<le> b"
    then have "(2 :: int) ^ nat (max 1 a - 1) \<le> 2 ^ nat (max 1 b - 1)" by (intro power_increasing) auto
    then have "min 86400 (60 * (2 :: int) ^ nat (max 1 a - 1)) \<le> min 86400 (60 * 2 ^ nat (max 1 b - 1))"
      by (intro min.mono mult_left_mono) simp_all
    then show "compute_next_retry a now \<le> compute_next_retry b now"
      unfolding compute_next_retry_eq seconds_def by linarith
  qed
qed

subsection \<open>Runs of the worker\<close>

text \<open>The states of the tables that passes in surroundings satisfying \<open>P\<close> lead to.\<close>

inductive drained :: "(env \<Rightarrow> bool) \<Rightarrow> nat \<Rightarrow> delivery_db \<Rightarrow> delivery_db \<Rightarrow> bool" for P lim a where
  start: "drained P lim a a"
| pass: "drained P lim a b \<Longrightarrow> P E \<Longrightarrow> drained P lim a (fst (run_once E b now lim))"

inductive_cases drainedE: "drained P lim a b"

lemma claimed_ids_due:
  "i \<in> set (claimed_ids E ds now lim) \<Longrightarrow> \<exists>d \<in> set ds. delivery_id d = i \<and> due now d"
  unfolding claimed_ids_def by (auto dest!: in_set_takeD)

lemma unique_row:
  "distinct (map delivery_id ds) \<Longrightarrow> d \<in> set ds \<Longrightarrow> d' \<in> set ds \<Longrightarrow> delivery_id d = delivery_id d' \<Longrightarrow> d = d'"
  by (auto simp: distinct_map dest: inj_onD)

lemma pass_row_id [simp]: "delivery_id (pass_row E db now d) = delivery_id d"
  by (simp add: pass_row_def Let_def split: option.splits)

lemma pass_row_notification [simp]: "notification_id (pass_row E db now d) = notification_id d"
  by (simp add: pass_row_def Let_def apply_result_def split: option.splits)

lemma pass_row_attempt [simp]: "attempt_number (pass_row E db now d) = attempt_number d + 1"
  by (simp add: pass_row_def Let_def apply_result_def split: option.splits)

lemma distinct_run_once:
  "distinct (map delivery_id (deliveries db)) \<Longrightarrow> distinct (map delivery_id (deliveries (fst (run_once E db now lim))))"
proof -
  assume dist: "distinct (map delivery_id (deliveries db))"
  have "map delivery_id (deliveries (fst (run_once E db now lim))) = map delivery_id (deliveries db)"
    by (simp add: run_once_rows [OF dist])
  with dist show ?thesis by simp
qed

lemma drained_frame:
  assumes "drained P lim a b" "distinct (map delivery_id (deliveries a))"
  shows "distinct (map delivery_id (deliveries b))" "notifications b = notifications a" "subscriptions b = subscriptions a"
  using assms by (induction) (simp_all add: distinct_run_once run_once_other_tables)

lemma run_once_row_cases:
  assumes "distinct (map delivery_id (deliveries db))" "r \<in> set (deliveries (fst (run_once E db now lim)))"
  obtains (kept) "r \<in> set (deliveries db)"
    | (passed) d where "d \<in> set (deliveries db)" "due now d" "r = pass_row E db now d"
proof -
  from assms(2) obtain d where d: "d \<in> set (deliveries db)"
      "r = (if delivery_id d \<in> set (claimed_ids E (deliveries db) now lim) then pass_row E db now d else d)"
    unfolding run_once_rows [OF assms(1)] by auto
  show thesis
  proof (cases "delivery_id d \<in> set (claimed_ids E (deliveries db) now lim)")
    case True
    then have "due now d" using claimed_ids_due unique_row [OF assms(1)] d(1) by metis
    with True d show thesis using passed by simp
  next
    case False
    with d show thesis using kept by simp
  qed
qed

text \<open>
  A delivery that succeeded or was given up is final: no run of the worker, whatever the
  client answers, claims its row again or changes it, so a delivered notification is not
  posted a second time.
\<close>

theorem settled_delivery_final:
  assumes "drained P lim a b" "distinct (map delivery_id (deliveries a))"
    and "d \<in> set (deliveries a)" "delivery_status d \<noteq> ''pending''"
  shows "d \<in> set (deliveries b)"
  using assms(1)
proof induction
  case start
  show ?case by (rule assms(3))
next
  case (pass b E now)
  note dist = drained_frame(1) [OF pass.hyps(1) assms(2)]
  have "delivery_id d \<notin> set (claimed_ids E (deliveries b) now lim)"
    using claimed_ids_due unique_row [OF dist] pass.IH assms(4) unfolding due_def by metis
  with pass.IH show ?case unfolding run_once_rows [OF dist] by force
qed

subsection \<open>Attempts answered over HTTP are bounded\<close>

definition answers :: "env \<Rightarrow> bool" where
  "answers E \<longleftrightarrow> (\<forall>u body s. \<exists>code. post E u body s = Response code)"

definition sendable :: "delivery_db \<Rightarrow> delivery_row \<Rightarrow> bool" where
  "sendable db d = (case notification_of db (notification_id d) of None \<Rightarrow> False | Some n \<Rightarrow> hmac_secret_of db n \<noteq> [])"

lemma classify_response_cases:
  "dr_status (classify_response code attempt now) = ''pending'' \<Longrightarrow> attempt < MAX_ATTEMPTS"
  by (auto simp: classify_response_def Let_def split: if_splits)

lemma pass_row_answered:
  assumes "answers E" "sendable db d" "delivery_status (pass_row E db now d) = ''pending''"
  shows "attempt_number d + 1 < MAX_ATTEMPTS"
proof -
  let ?d = "d\<lparr>attempt_number := attempt_number d + 1, attempted_at := now\<rparr>"
  obtain n where n: "notification_of db (notification_id d) = Some n" "hmac_secret_of db n \<noteq> []"
    using assms(2) by (auto simp: sendable_def split: option.splits)
  let ?body = "json_dumps E (event_to_dict (isoformat E) (n\<lparr>ev_tenant_id := tenant_id d\<rparr>))" and ?t = "clock E (delivery_id d)"
  obtain code where "post E (webhook_url d) ?body (SIGNATURE_PREFIX @ hmac_sha256 E (hmac_secret_of db n) ?body) = Response code"
    using assms(1) unfolding answers_def by blast
  with n have "outcome_of E db ?d = Some (classify_response code (attempt_number d + 1) ?t)"
    by (simp add: outcome_of_def splice_def deliver_def sign_payload_def right_of_def)
  then have "pass_row E db now d = apply_result (classify_response code (attempt_number d + 1) ?t) ?d"
    by (simp add: pass_row_def Let_def)
  with assms(3) show ?thesis
    using classify_response_cases [of code "attempt_number d + 1" ?t] by (simp add: apply_result_def)
qed

lemma sendable_frame:
  "notifications b = notifications a \<Longrightarrow> subscriptions b = subscriptions a \<Longrightarrow> sendable b d = sendable a d"
  by (simp add: sendable_def notification_of_def hmac_secret_of_def cong: option.case_cong)

lemma answered_invariant:
  assumes "drained answers lim a b" "distinct (map delivery_id (deliveries a))"
    and "\<forall>d \<in> set (deliveries a). sendable a d"
    and "\<forall>d \<in> set (deliveries a). attempt_number d = 0"
  shows "\<forall>d \<in> set (deliveries b). sendable a d \<and> attempt_number d \<le> MAX_ATTEMPTS \<and>
           (delivery_status d = ''pending'' \<longrightarrow> attempt_number d < MAX_ATTEMPTS)"
  using assms(1)
proof induction
  case start
  show ?case using assms(3,4) by (auto simp: MAX_ATTEMPTS_def)
next
  case (pass b E now)
  note frame = drained_frame [OF pass.hyps(1) assms(2)]
  show ?case
  proof
    fix r assume "r \<in> set (deliveries (fst (run_once E b now lim)))"
    then show "sendable a r \<and> attempt_number r \<le> MAX_ATTEMPTS \<and>
        (delivery_status r = ''pending'' \<longrightarrow> attempt_number r < MAX_ATTEMPTS)"
    proof (cases rule: run_once_row_cases [OF frame(1), consumes 1, case_names kept passed])
      case kept
      with pass.IH show ?thesis by blast
    next
      case (passed d)
      then have d: "sendable a d" "attempt_number d < MAX_ATTEMPTS" using pass.IH by (auto simp: due_def)
      moreover have "sendable b d" using d(1) sendable_frame [OF frame(2,3)] by simp
      ultimately show ?thesis
        using passed(3) pass_row_answered [OF pass.hyps(2)] by (auto simp: sendable_def)
    qed
  qed
qed

text \<open>
  When the endpoint always answers, no notification is posted more than twelve times: in every
  state the worker can reach from freshly queued rows, a row was attempted at most
  \<open>MAX_ATTEMPTS\<close> times, and a row attempted that often is no longer pending.
\<close>

theorem http_attempts_bounded:
  assumes "drained answers lim a b" "distinct (map delivery_id (deliveries a))"
    and "\<forall>d \<in> set (deliveries a). sendable a d \<and> attempt_number d = 0"
    and "d \<in> set (deliveries b)"
  shows "attempt_number d \<le> 12 \<and> (attempt_number d = 12 \<longrightarrow> delivery_status d \<noteq> ''pending'')"
  using answered_invariant [OF assms(1,2)] assms(3,4) by (fastforce simp: MAX_ATTEMPTS_def)

subsection \<open>Rows that are retried without end\<close>

definition sample_event :: registry_event where
  "sample_event =
     \<lparr>ev_notification_id = ''n'', ev_tenant_id = ''t'', ev_subscription_id = Some ''s'', ev_capability_id = ''c'',
      ev_capability_slug = ''slug'', ev_event_kind = ''updated'', ev_change_classification = None,
      ev_version_before = None, ev_version_after = None, ev_occurred_at = 0, ev_fetch_url = ''/c''\<rparr>"

definition sample_delivery :: "uuid \<Rightarrow> uuid \<Rightarrow> moment \<Rightarrow> delivery_row" where
  "sample_delivery i n retry =
     \<lparr>delivery_id = i, notification_id = n, tenant_id = ''t'', webhook_url = ''https://h'', attempt_number = 0,
      delivery_status = ''pending'', http_status = None, attempted_at = 0, next_retry_at = Some retry, error_text = None\<rparr>"

definition sample_queue :: "delivery_row list \<Rightarrow> delivery_db" where
  "sample_queue ds =
     \<lparr>deliveries = ds,
      notifications = [sample_event, sample_event\<lparr>ev_notification_id := ''m'', ev_subscription_id := Some ''unsigned''\<rparr>],
      subscriptions = [(''s'', Some ''key''), (''unsigned'', None)]\<rparr>"

definition sample_env :: "http_reply \<Rightarrow> moment \<Rightarrow> env" where
  "sample_env reply t =
     \<lparr>json_dumps = (\<lambda>_. ''{}''), isoformat = (\<lambda>_. []), hmac_sha256 = (\<lambda>k b. k @ b), post = (\<lambda>_ _ _. reply), clock = (\<lambda>_. t),
      locked = (\<lambda>_. False)\<rparr>"

lemmas sample_queue_defs = sample_event_def sample_delivery_def sample_queue_def sample_env_def

theorem settled_delivery_final_witness:
  "let d = (sample_delivery ''d'' ''n'' 0)\<lparr>delivery_status := ''success''\<rparr>
   in d \<in> set (deliveries (fst (run_once (sample_env (Response 503) 7) (sample_queue [d]) 7 50)))"
  unfolding Let_def
  by (rule settled_delivery_final [where P = "\<lambda>_. True" and lim = 50, OF drained.pass [OF drained.start]])
    (simp_all add: sample_queue_defs)

theorem http_attempts_bounded_witness:
  "let b = fst (run_once (sample_env (Response 503) 7) (sample_queue [sample_delivery ''d'' ''n'' 0]) 7 50)
   in drained answers 50 (sample_queue [sample_delivery ''d'' ''n'' 0]) b \<and>
      map attempt_number (deliveries b) = [1] \<and> (\<exists>d \<in> set (deliveries b). attempt_number d \<le> 12)"
proof -
  let ?a = "sample_queue [sample_delivery ''d'' ''n'' 0]"
  let ?b = "fst (run_once (sample_env (Response 503) 7) ?a 7 50)"
  have dr: "drained answers 50 ?a ?b"
    by (rule drained.pass [OF drained.start]) (simp add: answers_def sample_env_def)
  have one: "map attempt_number (deliveries ?b) = [1]" by code_simp
  then obtain d where "d \<in> set (deliveries ?b)" by (cases "deliveries ?b") auto
  moreover from this have "attempt_number d \<le> 12"
    using http_attempts_bounded [OF dr _ _ \<open>d \<in> set (deliveries ?b)\<close>]
    by (simp add: sample_queue_defs sendable_def notification_of_def hmac_secret_of_def)
  ultimately show ?thesis using dr one by (auto simp: Let_def)
qed

definition unreachable :: "env \<Rightarrow> bool" where
  "unreachable E \<longleftrightarrow> (\<forall>u body s. \<exists>exc. post E u body s = TransportError exc)"

lemma claimed_single: "due now d \<Longrightarrow> claimed_ids (sample_env r t) [d] now 50 = [delivery_id d]"
  by (simp add: claimed_ids_def sample_env_def)

text \<open>
  The limit of twelve attempts does not hold for an endpoint that cannot be reached: a transport
  error leaves the row pending without looking at the number of attempts, so for every \<open>k\<close> there
  is a run in which one notification has been attempted \<open>k\<close> times and is still pending.
\<close>

theorem transport_errors_retry_forever:
  "\<exists>b d. drained unreachable 50 (sample_queue [sample_delivery ''d'' ''n'' 0]) b \<and> deliveries b = [d] \<and>
     attempt_number d = int k \<and> delivery_status d = ''pending''"
proof (induction k)
  case 0
  show ?case
    by (intro exI [of _ "sample_queue [sample_delivery ''d'' ''n'' 0]"] exI [of _ "sample_delivery ''d'' ''n'' 0"]
        conjI drained.start) (simp_all add: sample_queue_defs)
next
  case (Suc k)
  let ?a = "sample_queue [sample_delivery ''d'' ''n'' 0]"
  from Suc obtain b d where b: "drained unreachable 50 ?a b" "deliveries b = [d]" "attempt_number d = int k"
      "delivery_status d = ''pending''" by blast
  have frame: "notifications b = notifications ?a" "subscriptions b = subscriptions ?a"
    using drained_frame [OF b(1)] by (simp_all add: sample_queue_def)
  have "notification_id d = ''n''"
  proof -
    have "\<forall>r \<in> set (deliveries b). notification_id r = ''n''"
      using b(1)
    proof induction
      case start
      show ?case by (simp add: sample_queue_def sample_delivery_def)
    next
      case (pass c E now)
      have "distinct (map delivery_id (deliveries c))"
        using drained_frame(1) [OF pass.hyps(1)] by (simp add: sample_queue_def)
      with pass.IH show ?case by (auto simp: run_once_rows)
    qed
    with b(2) show ?thesis by simp
  qed
  define now where "now = (case next_retry_at d of None \<Rightarrow> 0 | Some t \<Rightarrow> t)"
  let ?E = "sample_env (TransportError ''down'') now"
  have "due now d" using b(4) by (simp add: due_def now_def split: option.splits)
  then have rows: "deliveries (fst (run_once ?E b now 50)) = [pass_row ?E b now d]"
    using b(2) by (simp add: run_once_rows claimed_single)
  have "delivery_status (pass_row ?E b now d) = ''pending''"
    using \<open>notification_id d = ''n''\<close> frame
    by (simp add: pass_row_def outcome_of_def splice_def notification_of_def hmac_secret_of_def deliver_def
        sign_payload_def right_of_def apply_result_def Let_def sample_queue_defs)
  moreover have "drained unreachable 50 ?a (fst (run_once ?E b now 50))"
    by (rule drained.pass [OF b(1)]) (simp add: unreachable_def sample_env_def)
  ultimately show ?case using rows b(3) by (intro exI conjI) simp_all
qed

lemma unsendable_outcome: "\<not> sendable db d \<Longrightarrow> outcome_of E db d = None"
  by (auto simp: sendable_def outcome_of_def splice_def deliver_def sign_payload_def right_of_def Let_def
      split: option.splits)

lemma unsendable_pass_row:
  assumes "\<not> sendable db d"
  shows "pass_row E db now d = d\<lparr>attempt_number := attempt_number d + 1, attempted_at := now\<rparr>"
  using assms unsendable_outcome [of db "d\<lparr>attempt_number := attempt_number d + 1, attempted_at := now\<rparr>" E]
  by (simp add: pass_row_def Let_def sendable_def)

text \<open>The row is claimed before the retry time \<open>t\<close> and can never be sent.\<close>

definition poison :: "delivery_db \<Rightarrow> moment \<Rightarrow> delivery_row \<Rightarrow> bool" where
  "poison db t d \<longleftrightarrow> delivery_status d = ''pending'' \<and> \<not> sendable db d \<and>
     (case next_retry_at d of None \<Rightarrow> True | Some u \<Rightarrow> u < t)"

lemma poison_pass_row: "poison db t d \<Longrightarrow> sendable b d = sendable db d \<Longrightarrow> poison db t (pass_row E b now d)"
  by (auto simp: poison_def unsendable_pass_row sendable_def)

lemma starved_step:
  assumes "distinct (map delivery_id (deliveries b))" "h \<in> set (deliveries b)" "next_retry_at h = Some t"
    and "lim \<le> length (filter (poison b t) (deliveries b))" "\<not> (\<exists>i. locked E i)"
  shows "delivery_id h \<notin> set (claimed_ids E (deliveries b) now lim)"
proof
  let ?due = "filter (due now) (deliveries b)"
  assume "delivery_id h \<in> set (claimed_ids E (deliveries b) now lim)"
  then obtain d where d: "d \<in> set (take lim (sort_key claim_order ?due))" "delivery_id d = delivery_id h"
    using assms(5) by (auto simp: claimed_ids_def)
  then have "d \<in> set (deliveries b)" using in_set_takeD by fastforce
  with d assms(1,2) have "d = h" using unique_row by blast
  with d(1) have count: "length (filter (\<lambda>x. claim_order x < claim_order h) ?due) < lim" "due now h"
    using take_sort_key_count in_set_takeD by fastforce+
  have "due now x \<and> claim_order x < claim_order h" if "poison b t x" for x
    using that count(2) assms(3) by (auto simp: poison_def due_def claim_order_def split: option.splits)
  then have "filter (poison b t) (deliveries b) =
      filter (poison b t) (filter (\<lambda>x. claim_order x < claim_order h) ?due)"
    unfolding filter_filter by (intro filter_cong) auto
  then have "length (filter (poison b t) (deliveries b)) \<le> length (filter (\<lambda>x. claim_order x < claim_order h) ?due)"
    by (metis length_filter_le)
  with count(1) assms(4) show False by simp
qed

text \<open>
  Unsendable rows starve the queue. A row whose subscription has no secret (or whose notification
  is missing) raises or is skipped after being claimed; its outcome is never recorded, so it
  stays pending at its old retry time and is claimed first again. Once a batch full of such rows
  is due before a healthy delivery, no run of the worker ever attempts that delivery.
\<close>

theorem unsendable_rows_starve_queue:
  assumes "drained (\<lambda>E. \<not> (\<exists>i. locked E i)) lim a b" "distinct (map delivery_id (deliveries a))"
    and "h \<in> set (deliveries a)" "next_retry_at h = Some t"
    and "lim \<le> length (filter (poison a t) (deliveries a))"
  shows "h \<in> set (deliveries b)"
proof -
  have "h \<in> set (deliveries b) \<and> lim \<le> length (filter (poison a t) (deliveries b))"
    using assms(1)
  proof induction
    case start
    show ?case using assms(3,5) by blast
  next
    case (pass b E now)
    note frame = drained_frame [OF pass.hyps(1) assms(2)]
    have same: "sendable b d = sendable a d" for d by (rule sendable_frame [OF frame(2,3)])
    then have "poison b t = poison a t" by (intro ext) (simp add: poison_def)
    then have "delivery_id h \<notin> set (claimed_ids E (deliveries b) now lim)"
      using starved_step [OF frame(1) _ assms(4), of lim E now] pass.IH pass.hyps(2) by simp
    then have "h \<in> set (deliveries (fst (run_once E b now lim)))"
      unfolding run_once_rows [OF frame(1)] using pass.IH by force
    moreover have "length (filter (poison a t) (deliveries b)) \<le>
        length (filter (poison a t) (deliveries (fst (run_once E b now lim))))"
      unfolding run_once_rows [OF frame(1)]
      by (rule length_filter_map_mono) (simp add: poison_pass_row [OF _ same])
    ultimately show ?case using pass.IH by linarith
  qed
  then show ?thesis ..
qed

theorem unsendable_rows_starve_queue_witness:
  "sample_delivery ''h'' ''n'' 5 \<in> set (deliveries (fst (run_once (sample_env (Response 200) 9)
     (sample_queue [sample_delivery ''h'' ''n'' 5, sample_delivery ''p'' ''m'' 3]) 9 1)))"
proof (rule unsendable_rows_starve_queue [where t = 5 and lim = 1])
  let ?a = "sample_queue [sample_delivery ''h'' ''n'' 5, sample_delivery ''p'' ''m'' 3]"
  show "drained (\<lambda>E. \<not> (\<exists>i. locked E i)) 1 ?a (fst (run_once (sample_env (Response 200) 9) ?a 9 1))"
    by (rule drained.pass [OF drained.start]) (simp add: sample_env_def)
qed (simp_all add: sample_queue_defs poison_def sendable_def notification_of_def hmac_secret_of_def)

end
