(* ===== verification/Rate_Limit.thy ===== *)
theory Rate_Limit
  imports Complex_Main Py_Strings
begin

section \<open>Rate limiting\<close>

text \<open>
  The model of \<open>contextplane/api/middleware/ratelimit.py\<close>: the token bucket, the LRU store of read
  and write buckets, the ASGI middleware's decision for a request, and the per-actor gate
  \<open>check_rate_limit\<close>. Floating-point token counts and clock readings are rationals here, so
  rounding of the count is not represented. An \<open>OrderedDict\<close> is an association list from least to
  most recently used. The hash of a token, \<open>uuid5\<close> and the readings of the monotonic clock are
  parameters; header values are Latin-1 text.
\<close>

subsection \<open>Token bucket\<close>

record token_bucket =
  per_minute :: int
  tokens :: rat
  last_refill :: rat

definition new_bucket :: "int \<Rightarrow> rat \<Rightarrow> token_bucket" where
  "new_bucket pm now = \<lparr>per_minute = pm, tokens = of_int pm, last_refill = now\<rparr>"

definition refill :: "rat \<Rightarrow> token_bucket \<Rightarrow> token_bucket" where
  "refill now b =
     (let elapsed = now - last_refill b;
          added = elapsed * of_int (per_minute b) / 60
      in b\<lparr>tokens := min (of_int (per_minute b)) (tokens b + added), last_refill := now\<rparr>)"

definition bucket_consume :: "rat \<Rightarrow> token_bucket \<Rightarrow> bool \<times> token_bucket" where
  "bucket_consume now b =
     (let b' = refill now b in
      if tokens b' \<ge> 1 then (True, b'\<lparr>tokens := tokens b' - 1\<rparr>) else (False, b'))"

definition retry_after_seconds :: "token_bucket \<Rightarrow> int" where
  "retry_after_seconds b =
     (if per_minute b \<le> 0 then 60
      else let deficit = 1 - tokens b in
      if deficit \<le> 0 then 0
      else let secs = deficit / (of_int (per_minute b) / 60) in max 1 (\<lfloor>secs\<rfloor> + 1))"

subsection \<open>Bucket store\<close>

type_synonym pool = "(uuid \<times> token_bucket) list"

record bucket_store =
  rpm :: int
  wpm :: int
  maxsize :: nat
  reads :: pool
  writes :: pool

definition new_store :: "int \<Rightarrow> int \<Rightarrow> nat \<Rightarrow> bucket_store" where
  "new_store r w m = \<lparr>rpm = r, wpm = w, maxsize = m, reads = [], writes = []\<rparr>"

definition move_to_end :: "'k \<Rightarrow> ('k \<times> 'v) list \<Rightarrow> ('k \<times> 'v) list" where
  "move_to_end k pool = filter (\<lambda>(j, _). j \<noteq> k) pool @ filter (\<lambda>(j, _). j = k) pool"

definition get_or_create :: "nat \<Rightarrow> rat \<Rightarrow> pool \<Rightarrow> uuid \<Rightarrow> int \<Rightarrow> token_bucket \<times> pool" where
  "get_or_create maxs now pool key pm =
     (case map_of pool key of
        Some b \<Rightarrow> (b, move_to_end key pool)
      | None \<Rightarrow>
          (let bucket = new_bucket pm now;
               pool' = pool @ [(key, bucket)]
           in (bucket, if length pool' > maxs then tl pool' else pool')))"

text \<open>The bucket handed out is the object in the pool, so what \<open>consume\<close> does to it is seen there.\<close>

definition mutate :: "uuid \<Rightarrow> token_bucket \<Rightarrow> pool \<Rightarrow> pool" where
  "mutate key b pool = map (\<lambda>(k, old). (k, if k = key then b else old)) pool"

definition consume_pool :: "nat \<Rightarrow> rat \<Rightarrow> pool \<Rightarrow> uuid \<Rightarrow> int \<Rightarrow> (bool \<times> int) \<times> pool" where
  "consume_pool maxs now pool key pm =
     (let (bucket, pool') = get_or_create maxs now pool key pm;
          (allowed, bucket') = bucket_consume now bucket
      in ((allowed, retry_after_seconds bucket'), mutate key bucket' pool'))"

definition consume_read :: "rat \<Rightarrow> bucket_store \<Rightarrow> uuid \<Rightarrow> (bool \<times> int) \<times> bucket_store" where
  "consume_read now s key =
     (let (res, pool) = consume_pool (maxsize s) now (reads s) key (rpm s) in (res, s\<lparr>reads := pool\<rparr>))"

definition consume_write :: "rat \<Rightarrow> bucket_store \<Rightarrow> uuid \<Rightarrow> (bool \<times> int) \<times> bucket_store" where
  "consume_write now s key =
     (let (res, pool) = consume_pool (maxsize s) now (writes s) key (wpm s) in (res, s\<lparr>writes := pool\<rparr>))"

subsection \<open>Middleware\<close>

definition READ_METHODS :: "string list" where "READ_METHODS = [''GET'', ''HEAD'']"

definition BYPASS_PATH_PREFIXES :: "string list" where
  "BYPASS_PATH_PREFIXES = [''/healthz'', ''/readyz'', ''/metrics'', ''/webhooks'']"

definition TENANT_CACHE_MAXSIZE :: nat where "TENANT_CACHE_MAXSIZE = 4096"

record request_scope =
  sc_type :: string
  sc_path :: "string option"
  sc_headers :: "(string \<times> string) list"
  sc_method :: "string option"

record middleware =
  rate_limit_enabled :: bool
  buckets :: bucket_store
  bucket_key_cache :: "(string \<times> uuid) list"

datatype verdict = PassThrough | Throttled int

definition ascii_upper :: "char \<Rightarrow> char" where
  "ascii_upper c = (let n = (of_char c :: nat) in if 97 \<le> n \<and> n \<le> 122 then char_of (n - 32) else c)"

definition partition_space :: "string \<Rightarrow> string \<times> string" where
  "partition_space s = (takeWhile (\<lambda>c. c \<noteq> CHR '' '') s, drop 1 (dropWhile (\<lambda>c. c \<noteq> CHR '' '') s))"

definition bearer_token :: "(string \<times> string) list \<Rightarrow> string" where
  "bearer_token hs =
     (case find (\<lambda>(name, _). py_casefold name = ''authorization'') hs of
        None \<Rightarrow> []
      | Some (_, val) \<Rightarrow>
          (let (scheme, tok) = partition_space val in
           if py_casefold scheme = ''bearer'' \<and> tok \<noteq> [] then py_strip tok else []))"

text \<open>The oldest entries are dropped until the cache is within its bound.\<close>

definition evict_bucket_key_cache :: "(string \<times> uuid) list \<Rightarrow> (string \<times> uuid) list" where
  "evict_bucket_key_cache cache = drop (length cache - TENANT_CACHE_MAXSIZE) cache"

definition bucket_key_for ::
    "(string \<Rightarrow> uuid) \<Rightarrow> (string \<times> uuid) list \<Rightarrow> string \<Rightarrow> uuid \<times> (string \<times> uuid) list" where
  "bucket_key_for uuid5 cache token_hash =
     (case map_of cache token_hash of
        Some key \<Rightarrow> (key, move_to_end token_hash cache)
      | None \<Rightarrow> (let key = uuid5 token_hash in (key, evict_bucket_key_cache (cache @ [(token_hash, key)]))))"

definition handle ::
    "(string \<Rightarrow> string) \<Rightarrow> (string \<Rightarrow> uuid) \<Rightarrow> rat \<Rightarrow> middleware \<Rightarrow> request_scope \<Rightarrow> verdict \<times> middleware" where
  "handle sha256_hex uuid5 now mw sc =
     (if sc_type sc \<noteq> ''http'' then (PassThrough, mw)
      else if \<not> rate_limit_enabled mw then (PassThrough, mw)
      else let path = (case sc_path sc of None \<Rightarrow> [] | Some p \<Rightarrow> p) in
      if (\<exists>prefix \<in> set BYPASS_PATH_PREFIXES. py_startswith prefix path) then (PassThrough, mw)
      else let raw_token = bearer_token (sc_headers sc) in
      if raw_token = [] then (PassThrough, mw)
      else let (key, cache) = bucket_key_for uuid5 (bucket_key_cache mw) (sha256_hex raw_token);
               meth = map ascii_upper (case sc_method sc of None \<Rightarrow> ''GET'' | Some m \<Rightarrow> m);
               ((allowed, retry_after), store) =
                 (if meth \<in> set READ_METHODS then consume_read now (buckets mw) key
                  else consume_write now (buckets mw) key)
           in (if allowed then PassThrough else Throttled retry_after,
               mw\<lparr>buckets := store, bucket_key_cache := cache\<rparr>))"

subsection \<open>The per-actor gate\<close>

record rate_limit_row =
  rl_tenant_id :: uuid
  rl_actor_id :: "uuid option"
  reads_per_second :: int
  writes_per_second :: int

definition lookup_rate_limit :: "rate_limit_row list \<Rightarrow> uuid \<Rightarrow> uuid \<Rightarrow> int \<times> int" where
  "lookup_rate_limit rows tenant actor =
     (case find (\<lambda>r. rl_tenant_id r = tenant \<and> rl_actor_id r = Some actor) rows of
        Some r \<Rightarrow> (reads_per_second r, writes_per_second r)
      | None \<Rightarrow>
          (case find (\<lambda>r. rl_tenant_id r = tenant \<and> rl_actor_id r = None) rows of
             Some r \<Rightarrow> (reads_per_second r, writes_per_second r)
           | None \<Rightarrow> (1000, 100)))"

text \<open>\<open>lock_free\<close> is the answer of \<open>pg_try_advisory_xact_lock\<close>; the result says whether the request goes on.\<close>

definition check_rate_limit :: "rate_limit_row list \<Rightarrow> uuid \<Rightarrow> uuid \<Rightarrow> string \<Rightarrow> bool \<Rightarrow> bool" where
  "check_rate_limit rows tenant actor meth lock_free =
     (let is_read = (map ascii_upper meth \<in> set READ_METHODS);
          (reads_ps, writes_ps) = lookup_rate_limit rows tenant actor;
          budget = (if is_read then reads_ps else writes_ps)
      in if budget \<le> 0 then False else lock_free)"

subsection \<open>Bounds of a bucket\<close>

definition bucket_ok :: "token_bucket \<Rightarrow> bool" where
  "bucket_ok b \<longleftrightarrow> 0 \<le> per_minute b \<and> 0 \<le> tokens b \<and> tokens b \<le> of_int (per_minute b)"

lemma new_bucket_ok: "0 \<le> pm \<Longrightarrow> bucket_ok (new_bucket pm now)"
  by (simp add: bucket_ok_def new_bucket_def)

lemma refill_ok:
  assumes "bucket_ok b" "last_refill b \<le> now"
  shows "bucket_ok (refill now b)"
proof -
  have "0 \<le> (now - last_refill b) * of_int (per_minute b) / 60"
    using assms by (simp add: bucket_ok_def)
  then show ?thesis using assms(1) by (simp add: bucket_ok_def refill_def Let_def)
qed

lemma consume_ok:
  assumes "bucket_ok b" "last_refill b \<le> now"
  shows "bucket_ok (snd (bucket_consume now b))" "last_refill (snd (bucket_consume now b)) = now"
    "per_minute (snd (bucket_consume now b)) = per_minute b"
  using refill_ok [OF assms] by (auto simp: bucket_consume_def bucket_ok_def Let_def refill_def)

text \<open>A bucket asked at a list of times, and how many times it said yes.\<close>

fun consume_all :: "rat list \<Rightarrow> token_bucket \<Rightarrow> nat \<times> token_bucket" where
  "consume_all [] b = (0, b)"
| "consume_all (t # ts) b =
     (let (ok, b') = bucket_consume t b; (n, b'') = consume_all ts b' in ((if ok then Suc n else n), b''))"

lemma consume_all_budget:
  assumes "bucket_ok b" "sorted (last_refill b # ts)"
  shows "of_nat (fst (consume_all ts b)) + tokens (snd (consume_all ts b)) \<le>
      tokens b + (last (last_refill b # ts) - last_refill b) * of_int (per_minute b) / 60"
  using assms
proof (induction ts arbitrary: b)
  case Nil
  then show ?case by simp
next
  case (Cons t ts)
  obtain ok b' where c: "bucket_consume t b = (ok, b')" by fastforce
  have le: "last_refill b \<le> t" using Cons.prems(2) by simp
  have b': "bucket_ok b'" "last_refill b' = t" "per_minute b' = per_minute b"
    using consume_ok [OF Cons.prems(1) le] c by simp_all
  have spent: "tokens b' + (if ok then 1 else 0) \<le> tokens b + (t - last_refill b) * of_int (per_minute b) / 60"
    using c by (auto simp: bucket_consume_def refill_def Let_def split: if_splits)
  have "of_nat (fst (consume_all ts b')) + tokens (snd (consume_all ts b')) \<le>
      tokens b' + (last (t # ts) - t) * of_int (per_minute b) / 60"
    using Cons.IH [of b'] b' Cons.prems(2) by simp
  moreover have "(last (t # ts) - t) * of_int (per_minute b) / 60 + (t - last_refill b) * of_int (per_minute b) / 60 =
      (last (last_refill b # t # ts) - last_refill b) * of_int (per_minute b) / 60"
    by (simp add: field_simps)
  ultimately show ?case
    using spent c by (auto simp: Let_def split: prod.splits if_splits)
qed

lemma consume_all_ok:
  assumes "bucket_ok b" "sorted (last_refill b # ts)"
  shows "bucket_ok (snd (consume_all ts b))"
  using assms
proof (induction ts arbitrary: b)
  case Nil
  then show ?case by simp
next
  case (Cons t ts)
  obtain ok b' where c: "bucket_consume t b = (ok, b')" by fastforce
  then have "bucket_ok b'" "last_refill b' = t"
    using consume_ok [OF Cons.prems(1), of t] Cons.prems(2) by simp_all
  then have "bucket_ok (snd (consume_all ts b'))" using Cons.IH [of b'] Cons.prems(2) by simp
  then show ?case by (cases "consume_all ts b'") (simp add: c)
qed

text \<open>
  C37. The limiter keeps its promise: of any number of requests made to a fresh bucket at
  non-decreasing times, at most \<open>per_minute\<close> plus \<open>per_minute / 60\<close> per elapsed second are let
  through.
\<close>

theorem bucket_rate_bound:
  assumes "0 \<le> pm" "sorted (t0 # ts)"
  shows "of_nat (fst (consume_all ts (new_bucket pm t0))) \<le> of_int pm + (last (t0 # ts) - t0) * of_int pm / 60"
proof -
  let ?b = "new_bucket pm t0"
  have "sorted (last_refill ?b # ts)" using assms(2) by (simp add: new_bucket_def)
  note budget = consume_all_budget [OF new_bucket_ok [OF assms(1)] this]
  have "0 \<le> tokens (snd (consume_all ts ?b))"
    using consume_all_ok [OF new_bucket_ok [OF assms(1)]] \<open>sorted (last_refill ?b # ts)\<close> by (simp add: bucket_ok_def)
  with budget show ?thesis by (simp add: new_bucket_def)
qed

theorem bucket_rate_bound_witness:
  "of_nat (fst (consume_all [0, 0, 0, 30] (new_bucket 2 0))) \<le> (2 + (30 - 0) * 2 / 60 :: rat) \<and>
   fst (consume_all [0, 0, 0, 30] (new_bucket 2 0)) = 3"
  using bucket_rate_bound [of 2 0 "[0, 0, 0, 30]"]
  by (simp add: bucket_consume_def new_bucket_def refill_def Let_def)

lemma retry_after_sound:
  assumes "bucket_ok b" "0 < per_minute b" "last_refill b \<le> now"
    and "bucket_consume now b = (False, b')" "now + of_int (retry_after_seconds b') \<le> later"
  shows "fst (bucket_consume later b') \<and> 1 \<le> retry_after_seconds b' \<and> retry_after_seconds b' \<le> 61"
proof -
  have b': "bucket_ok b'" "last_refill b' = now" "per_minute b' = per_minute b"
    using consume_ok [OF assms(1,3)] assms(4) by simp_all
  have lt: "tokens b' < 1" using assms(4) by (auto simp: bucket_consume_def Let_def split: if_splits)
  let ?pm = "of_int (per_minute b) :: rat"
  have pm: "1 \<le> ?pm" using assms(2) by simp
  let ?secs = "(1 - tokens b') / (?pm / 60)"
  have ra: "retry_after_seconds b' = \<lfloor>?secs\<rfloor> + 1"
    using lt assms(2) b'(3) pm by (simp add: retry_after_seconds_def Let_def)
  have "?secs \<le> later - now" using assms(5) ra by linarith
  then have "1 - tokens b' \<le> (later - now) * ?pm / 60" using pm by (simp add: field_simps)
  moreover have "0 \<le> ?secs" using lt pm by simp
  moreover have "?secs \<le> 60"
  proof -
    have "1 - tokens b' \<le> ?pm" using b'(1) pm by (simp add: bucket_ok_def)
    then show ?thesis using pm by (simp add: field_simps)
  qed
  ultimately show ?thesis
    using b' pm unfolding ra by (auto simp: bucket_consume_def refill_def Let_def)
qed

text \<open>
  \<open>Retry-After\<close> is honest: a client that was throttled and waits at least the number of seconds
  it was told is let through by its bucket, and it is never told to wait longer than 61 seconds.
\<close>

theorem retry_after_honest:
  assumes "bucket_ok b" "0 < per_minute b" "last_refill b \<le> now"
    and "bucket_consume now b = (False, b')" "now + of_int (retry_after_seconds b') \<le> later"
  shows "fst (bucket_consume later b') \<and> 1 \<le> retry_after_seconds b' \<and> retry_after_seconds b' \<le> 61"
  using assms by (rule retry_after_sound)

theorem retry_after_honest_witness:
  "let b' = snd (bucket_consume 0 \<lparr>per_minute = 2, tokens = 0, last_refill = 0\<rparr>)
   in retry_after_seconds b' = 31 \<and> fst (bucket_consume 31 b')"
proof -
  let ?b = "\<lparr>per_minute = 2, tokens = 0, last_refill = 0\<rparr> :: token_bucket"
  have c: "bucket_consume 0 ?b = (False, ?b)" by (simp add: bucket_consume_def refill_def Let_def)
  have r: "retry_after_seconds ?b = 31" by (simp add: retry_after_seconds_def)
  show ?thesis
    using retry_after_honest [OF _ _ _ c, of 31] c r by (simp add: bucket_ok_def)
qed

subsection \<open>The store\<close>

lemma map_of_move_to_end [simp]: "map_of (move_to_end k pool) = map_of pool"
proof
  fix j
  have "map_of (filter (\<lambda>(i, _). i \<noteq> k) pool) j = (if j = k then None else map_of pool j)"
    and "map_of (filter (\<lambda>(i, _). i = k) pool) j = (if j = k then map_of pool j else None)"
    by (induction pool) auto
  then show "map_of (move_to_end k pool) j = map_of pool j"
    by (cases "j = k") (simp_all add: move_to_end_def map_add_def split: option.splits)
qed

lemma map_of_mutate: "map_of (mutate k b pool) j = (if j = k then map_option (\<lambda>_. b) (map_of pool k) else map_of pool j)"
  by (induction pool) (auto simp: mutate_def)

lemma length_move_to_end [simp]: "length (move_to_end k pool) = length pool"
  unfolding move_to_end_def by (induction pool) auto

lemma keys_move_to_end: "distinct (map fst pool) \<Longrightarrow> distinct (map fst (move_to_end k pool))"
proof -
  have filt: "map fst (filter (\<lambda>(j, _). P j) pool) = filter P (map fst pool)" for P
    by (induction pool) auto
  assume "distinct (map fst pool)"
  then show ?thesis unfolding move_to_end_def map_append filt by auto
qed

lemma keys_mutate [simp]: "map fst (mutate k b pool) = map fst pool"
  by (induction pool) (auto simp: mutate_def)

definition pool_ok :: "nat \<Rightarrow> int \<Rightarrow> rat \<Rightarrow> pool \<Rightarrow> bool" where
  "pool_ok maxs pm now pool \<longleftrightarrow> distinct (map fst pool) \<and> length pool \<le> maxs \<and>
     (\<forall>(k, b) \<in> set pool. bucket_ok b \<and> per_minute b = pm \<and> last_refill b \<le> now)"

lemma pool_ok_later: "pool_ok maxs pm now pool \<Longrightarrow> now \<le> later \<Longrightarrow> pool_ok maxs pm later pool"
  by (fastforce simp: pool_ok_def)

lemma get_or_create_ok:
  assumes "pool_ok maxs pm now pool" "0 \<le> pm" "get_or_create maxs now pool key pm = (b, pool')"
  shows "pool_ok maxs pm now pool'" "bucket_ok b" "per_minute b = pm" "last_refill b \<le> now"
proof -
  have "pool_ok maxs pm now pool' \<and> bucket_ok b \<and> per_minute b = pm \<and> last_refill b \<le> now"
  proof (cases "map_of pool key")
    case None
    let ?pool = "pool @ [(key, new_bucket pm now)]"
    have nb: "bucket_ok (new_bucket pm now)" "per_minute (new_bucket pm now) = pm" "last_refill (new_bucket pm now) = now"
      using assms(2) by (simp_all add: new_bucket_ok) (simp_all add: new_bucket_def)
    have dist: "distinct (map fst ?pool)" using assms(1) None by (auto simp: pool_ok_def map_of_eq_None_iff)
    have p: "b = new_bucket pm now" "pool' = (if length ?pool > maxs then tl ?pool else ?pool)"
      using assms(3) None by (auto simp: get_or_create_def Let_def)
    have "set pool' \<subseteq> set ?pool" using p(2) by (metis list.set_sel(2) set_empty subset_refl subsetI tl_Nil)
    moreover have "distinct (map fst pool')" 
      by (cases "length ?pool > maxs") (use dist distinct_tl [OF dist] in \<open>simp_all only: p(2) if_True if_False map_tl\<close>)
    moreover have "length pool' \<le> maxs" using p(2) assms(1) by (auto simp: pool_ok_def)
    ultimately show ?thesis using assms(1) nb p(1) by (fastforce simp: pool_ok_def)
  next
    case (Some b0)
    then have "(key, b0) \<in> set pool" by (rule map_of_SomeD)
    moreover have "b = b0" "pool' = move_to_end key pool" using Some assms(3) by (auto simp: get_or_create_def)
    moreover have "set (move_to_end key pool) = set pool" by (auto simp: move_to_end_def)
    ultimately show ?thesis using assms(1) keys_move_to_end by (fastforce simp: pool_ok_def)
  qed
  then show "pool_ok maxs pm now pool'" "bucket_ok b" "per_minute b = pm" "last_refill b \<le> now" by blast+
qed

lemma consume_pool_ok:
  assumes "pool_ok maxs pm now pool" "0 \<le> pm"
  shows "pool_ok maxs pm now (snd (consume_pool maxs now pool key pm))"
proof -
  obtain b pool' where g: "get_or_create maxs now pool key pm = (b, pool')" by fastforce
  obtain ok b' where c: "bucket_consume now b = (ok, b')" by fastforce
  note ok = get_or_create_ok [OF assms g]
  have b': "bucket_ok b'" "last_refill b' = now" "per_minute b' = pm"
    using consume_ok [OF ok(2,4)] c ok(3) by simp_all
  have "set (mutate key b' pool') \<subseteq> set pool' \<union> {(key, b')}" by (auto simp: mutate_def split: if_splits)
  moreover have "length (mutate key b' pool') = length pool'" by (simp add: mutate_def)
  ultimately have "pool_ok maxs pm now (mutate key b' pool')"
    using ok(1) b' unfolding pool_ok_def keys_mutate by fastforce
  then show ?thesis by (simp add: consume_pool_def g c Let_def)
qed

definition store_ok :: "rat \<Rightarrow> bucket_store \<Rightarrow> bool" where
  "store_ok now s \<longleftrightarrow> 0 \<le> rpm s \<and> 0 \<le> wpm s \<and>
     pool_ok (maxsize s) (rpm s) now (reads s) \<and> pool_ok (maxsize s) (wpm s) now (writes s)"

text \<open>The budget of another key is untouched, or the least recently used one was evicted.\<close>

lemma map_of_snoc_other: "j \<noteq> k \<Longrightarrow> map_of (pool @ [(k, b)]) j = map_of pool j"
  by (simp add: map_add_def split: option.splits)

lemma consume_pool_others:
  assumes "j \<noteq> key" "distinct (map fst pool)"
  shows "map_of (snd (consume_pool maxs now pool key pm)) j = map_of pool j \<or>
     (maxs \<le> length pool \<and> (\<exists>b rest. pool = (j, b) # rest))"
proof (cases "map_of pool key")
  case (Some b)
  then show ?thesis
    using assms(1) by (simp add: consume_pool_def get_or_create_def map_of_mutate split: prod.splits)
next
  case None
  let ?q = "pool @ [(key, new_bucket pm now)]"
  have "map_of (snd (consume_pool maxs now pool key pm)) j = map_of (if length ?q > maxs then tl ?q else ?q) j"
    using None assms(1) by (simp add: consume_pool_def get_or_create_def map_of_mutate Let_def del: map_of_append
        split: prod.splits)
  then show ?thesis
    using assms(1) by (cases pool) (auto simp: map_of_snoc_other simp del: map_of_append)
qed

text \<open>
  What a request is charged to, written out: the requests that are metered at all, the methods that
  count as reads, and the pool and the key of its bucket.
\<close>

definition metered :: "middleware \<Rightarrow> request_scope \<Rightarrow> bool" where
  "metered mw sc \<longleftrightarrow> sc_type sc = ''http'' \<and> rate_limit_enabled mw \<and> bearer_token (sc_headers sc) \<noteq> [] \<and>
     (case sc_path sc of None \<Rightarrow> True | Some path \<Rightarrow>
        \<not> py_startswith ''/healthz'' path \<and> \<not> py_startswith ''/readyz'' path \<and>
        \<not> py_startswith ''/metrics'' path \<and> \<not> py_startswith ''/webhooks'' path)"

definition is_read :: "request_scope \<Rightarrow> bool" where
  "is_read sc \<longleftrightarrow> (case sc_method sc of None \<Rightarrow> True | Some m \<Rightarrow> map ascii_upper m = ''GET'' \<or> map ascii_upper m = ''HEAD'')"

definition own_key :: "(string \<Rightarrow> string) \<Rightarrow> (string \<Rightarrow> uuid) \<Rightarrow> middleware \<Rightarrow> request_scope \<Rightarrow> uuid" where
  "own_key sha uuid5 mw sc =
     (let token_hash = sha (bearer_token (sc_headers sc)) in
      case map_of (bucket_key_cache mw) token_hash of Some key \<Rightarrow> key | None \<Rightarrow> uuid5 token_hash)"

lemma handle_cases:
  fixes sha uuid5 mw sc
  defines "key \<equiv> own_key sha uuid5 mw sc" and "s \<equiv> buckets mw"
  assumes "handle sha uuid5 now mw sc = (v, mw')"
  obtains (bypass) "\<not> metered mw sc" "v = PassThrough" "mw' = mw"
    | (rd) ok n pool where "metered mw sc" "is_read sc" "consume_pool (maxsize s) now (reads s) key (rpm s) = ((ok, n), pool)"
        "buckets mw' = s\<lparr>reads := pool\<rparr>" "v = (if ok then PassThrough else Throttled n)"
    | (wr) ok n pool where "metered mw sc" "\<not> is_read sc" "consume_pool (maxsize s) now (writes s) key (wpm s) = ((ok, n), pool)"
        "buckets mw' = s\<lparr>writes := pool\<rparr>" "v = (if ok then PassThrough else Throttled n)"
proof -
  obtain cache where k: "bucket_key_for uuid5 (bucket_key_cache mw) (sha (bearer_token (sc_headers sc))) = (key, cache)"
    unfolding key_def own_key_def bucket_key_for_def Let_def by (cases "map_of (bucket_key_cache mw) (sha (bearer_token (sc_headers sc)))") auto
  obtain okr nr pr where r: "consume_pool (maxsize s) now (reads s) key (rpm s) = ((okr, nr), pr)" by (metis surj_pair)
  obtain okw nw pw where w: "consume_pool (maxsize s) now (writes s) key (wpm s) = ((okw, nw), pw)" by (metis surj_pair)
  have read: "map ascii_upper (case sc_method sc of None \<Rightarrow> ''GET'' | Some m \<Rightarrow> m) \<in> set READ_METHODS \<longleftrightarrow> is_read sc"
    by (auto simp: is_read_def READ_METHODS_def ascii_upper_def split: option.splits)
  have rs: "consume_read now s key = ((okr, nr), s\<lparr>reads := pr\<rparr>)" "consume_write now s key = ((okw, nw), s\<lparr>writes := pw\<rparr>)"
    using r w by (simp_all add: consume_read_def consume_write_def)
  have path: "(\<exists>prefix \<in> set BYPASS_PATH_PREFIXES. py_startswith prefix (case sc_path sc of None \<Rightarrow> [] | Some p \<Rightarrow> p)) \<longleftrightarrow>
      \<not> (case sc_path sc of None \<Rightarrow> True | Some path \<Rightarrow>
        \<not> py_startswith ''/healthz'' path \<and> \<not> py_startswith ''/readyz'' path \<and>
        \<not> py_startswith ''/metrics'' path \<and> \<not> py_startswith ''/webhooks'' path)"
    by (auto simp: BYPASS_PATH_PREFIXES_def py_startswith_def split: option.splits)
  show thesis
  proof (cases "metered mw sc")
    case False
    then have "(v, mw') = (PassThrough, mw)"
      using assms(3) path unfolding handle_def Let_def metered_def by (auto split: if_splits)
    then show thesis using bypass False by simp
  next
    case True
    then have "(v, mw') = (if is_read sc
        then (if okr then PassThrough else Throttled nr, mw\<lparr>buckets := s\<lparr>reads := pr\<rparr>, bucket_key_cache := cache\<rparr>)
        else (if okw then PassThrough else Throttled nw, mw\<lparr>buckets := s\<lparr>writes := pw\<rparr>, bucket_key_cache := cache\<rparr>))"
      using assms(3) rs k path read unfolding handle_def Let_def s_def metered_def by (auto split: if_splits)
    then show thesis using rd [OF True _ r] wr [OF True _ w] by (cases "is_read sc") auto
  qed
qed

text \<open>When a pool refuses a key: the key has a bucket and less than one token has accrued in it.\<close>

lemma consume_pool_verdict:
  assumes "pool_ok maxs pm now pool" "1 \<le> pm" "consume_pool maxs now pool key pm = ((ok, n), pool'')"
  shows "\<not> ok \<longleftrightarrow> (\<exists>b. map_of pool key = Some b \<and> tokens (refill now b) < 1)" "\<not> ok \<Longrightarrow> 1 \<le> n \<and> n \<le> 61"
proof -
  obtain b pool' where g: "get_or_create maxs now pool key pm = (b, pool')" by fastforce
  obtain b' where bc: "bucket_consume now b = (ok, b')" and n: "n = retry_after_seconds b'"
    using assms(3) g by (auto simp: consume_pool_def Let_def split: prod.splits)
  have "0 \<le> pm" using assms(2) by simp
  note got = get_or_create_ok [OF assms(1) this g]
  have low: "\<not> ok \<longleftrightarrow> tokens (refill now b) < 1" using bc by (auto simp: bucket_consume_def Let_def split: if_splits)
  have full: "tokens (refill now (new_bucket pm now)) \<ge> 1" using assms(2) by (simp add: refill_def new_bucket_def Let_def)
  show "\<not> ok \<longleftrightarrow> (\<exists>b. map_of pool key = Some b \<and> tokens (refill now b) < 1)"
    using g low full by (auto simp: get_or_create_def Let_def not_less split: option.splits)
  show "1 \<le> n \<and> n \<le> 61" if "\<not> ok"
    using retry_after_sound [OF got(2) _ got(4), of b' "now + of_int (retry_after_seconds b')"] bc n got(3) assms(2) that by auto
qed


definition sample_middleware :: middleware where
  "sample_middleware =
     \<lparr>rate_limit_enabled = True,
      buckets = (new_store 2 2 8192)\<lparr>reads := [(''ua'', \<lparr>per_minute = 2, tokens = 1/2, last_refill = 0\<rparr>)]\<rparr>,
      bucket_key_cache = []\<rparr>"

definition sample_request :: request_scope where
  "sample_request =
     \<lparr>sc_type = ''http'', sc_path = Some ''/v1/x'', sc_headers = [(''Authorization'', ''Bearer a'')], sc_method = Some ''get''\<rparr>"


subsection \<open>Budgets belong to tokens, not tenants\<close>

fun read_all :: "(rat \<times> uuid) list \<Rightarrow> bucket_store \<Rightarrow> bool list" where
  "read_all [] s = []"
| "read_all ((now, key) # rest) s = (let ((ok, _), s') = consume_read now s key in ok # read_all rest s')"

lemma fresh_key_allowed:
  assumes "map_of (reads s) key = None" "1 \<le> rpm s"
  shows "fst (fst (consume_read now s key))"
  using assms by (simp add: consume_read_def consume_pool_def get_or_create_def bucket_consume_def refill_def
      new_bucket_def Let_def)

lemma consume_read_keys:
  "fst ` set (reads (snd (consume_read now s key))) \<subseteq> insert key (fst ` set (reads s))"
  "rpm (snd (consume_read now s key)) = rpm s"
proof -
  have move: "set (move_to_end key pool) = set pool" for pool :: pool by (auto simp: move_to_end_def)
  have tail: "set (tl q) \<subseteq> set q" for q :: pool by (cases q) auto
  obtain b pool' where g: "get_or_create (maxsize s) now (reads s) key (rpm s) = (b, pool')" by fastforce
  have "set pool' \<subseteq> insert (key, new_bucket (rpm s) now) (set (reads s))"
    using g move [of "reads s"] tail [of "reads s @ [(key, new_bucket (rpm s) now)]"]
    by (cases "map_of (reads s) key") (auto simp: get_or_create_def Let_def split: if_splits)
  then have "fst ` set pool' \<subseteq> fst ` insert (key, new_bucket (rpm s) now) (set (reads s))" by (rule image_mono)
  then have "fst ` set pool' \<subseteq> insert key (fst ` set (reads s))" by simp
  then show "fst ` set (reads (snd (consume_read now s key))) \<subseteq> insert key (fst ` set (reads s))"
    by (simp add: consume_read_def consume_pool_def g Let_def set_map [symmetric] del: set_map split: prod.splits)
  show "rpm (snd (consume_read now s key)) = rpm s"
    by (simp add: consume_read_def split: prod.splits)
qed

text \<open>
  The budget is per bearer token: a caller that uses a new token for every request is never
  throttled, however many requests it makes and however close together, because every unseen
  key starts with a full bucket.
\<close>

theorem rotating_tokens_never_throttled:
  assumes "1 \<le> rpm s" "distinct (map snd calls)" "set (map snd calls) \<inter> fst ` set (reads s) = {}"
  shows "read_all calls s = replicate (length calls) True"
  using assms
proof (induction calls arbitrary: s)
  case Nil
  then show ?case by simp
next
  case (Cons c calls)
  obtain now key where c: "c = (now, key)" by fastforce
  obtain ok n s' where r: "consume_read now s key = ((ok, n), s')" by (metis surj_pair)
  have "map_of (reads s) key = None" using Cons.prems(3) c by (auto simp: map_of_eq_None_iff)
  then have "ok" using fresh_key_allowed [of s key now] Cons.prems(1) r by simp
  moreover have "read_all calls s' = replicate (length calls) True"
  proof (rule Cons.IH)
    have "fst ` set (reads s') \<subseteq> insert key (fst ` set (reads s))" using consume_read_keys(1) [of now s key] r by simp
    moreover have "key \<notin> set (map snd calls)" "set (map snd calls) \<inter> fst ` set (reads s) = {}"
      using Cons.prems(2,3) c by auto
    ultimately show "set (map snd calls) \<inter> fst ` set (reads s') = {}" by blast
  qed (use Cons.prems consume_read_keys(2) [of now s key] r in simp_all)
  ultimately show ?case by (simp add: c r)
qed

theorem rotating_tokens_never_throttled_witness:
  "read_all [(0, ''a''), (0, ''b''), (0, ''c'')] (new_store 1 1 8192) = [True, True, True]"
  using rotating_tokens_never_throttled [of "new_store 1 1 8192" "[(0, ''a''), (0, ''b''), (0, ''c'')]"]
  by (simp add: new_store_def numeral_3_eq_3)

end
