(* ===== verification/Audience.thy ===== *)
theory Audience
  imports Py_Strings
begin

section \<open>Task audience\<close>

text \<open>
  The model of \<open>contextplane/workspaces/audience.py\<close> and of the participant grant of
  \<open>contextplane/workspaces/schemas/intent_memory.py\<close>: capabilities, evidence, the decision over
  stored grants, materialisation of an entitlement answer and revocation. A \<open>datetime\<close> is aware
  of its time zone or naive; the constructors refuse naive ones, so comparisons are between
  aware instants. Times are microseconds.
\<close>

subsection \<open>Data\<close>

datatype audience_error = AudienceDenied | InvalidContextItem | UnknownCapability

definition ROLE_READER :: string where "ROLE_READER = ''reader''"
definition ROLE_CONTRIBUTOR :: string where "ROLE_CONTRIBUTOR = ''contributor''"
definition ROLE_OWNER :: string where "ROLE_OWNER = ''owner''"
definition ROLE_AUDITOR :: string where "ROLE_AUDITOR = ''auditor''"

definition PARTICIPANT_ROLES :: "string list" where
  "PARTICIPANT_ROLES = [ROLE_READER, ROLE_CONTRIBUTOR, ROLE_OWNER, ROLE_AUDITOR]"

definition ROLES_THAT_READ :: "string list" where
  "ROLES_THAT_READ = [ROLE_READER, ROLE_CONTRIBUTOR, ROLE_OWNER, ROLE_AUDITOR]"
definition ROLES_THAT_EXTEND :: "string list" where "ROLES_THAT_EXTEND = [ROLE_CONTRIBUTOR, ROLE_OWNER]"
definition ROLES_THAT_ADMINISTER :: "string list" where "ROLES_THAT_ADMINISTER = [ROLE_OWNER]"

definition CAPABILITIES :: "(string \<times> string list) list" where
  "CAPABILITIES = [(''read'', ROLES_THAT_READ), (''extend'', ROLES_THAT_EXTEND), (''administer'', ROLES_THAT_ADMINISTER)]"

definition RESOLVER_EXPLICIT :: string where "RESOLVER_EXPLICIT = ''explicit/v1''"
definition ENTITLEMENT_RESOLVER :: string where "ENTITLEMENT_RESOLVER = ''entitlement/v1''"
definition RECOGNIZED_RESOLVERS :: "string list" where
  "RECOGNIZED_RESOLVERS = [RESOLVER_EXPLICIT, ENTITLEMENT_RESOLVER]"

record grant =
  g_intent_id :: uuid
  g_actor_id :: string
  g_role :: string
  granted_by :: string
  granted_at :: py_datetime
  expires_at :: "py_datetime option"
  g_resolver_version :: string

definition grant_post_init :: "grant \<Rightarrow> audience_error + grant" where
  "grant_post_init g =
     (if g_role g \<notin> set PARTICIPANT_ROLES then Inl InvalidContextItem
      else if (\<exists>v \<in> set [g_actor_id g, granted_by g, g_resolver_version g]. py_strip v = []) then Inl InvalidContextItem
      else if py_strip (g_actor_id g) = py_strip (granted_by g) then Inl InvalidContextItem
      else if is_naive (granted_at g) then Inl InvalidContextItem
      else (case expires_at g of
              None \<Rightarrow> Inr g
            | Some e \<Rightarrow> if is_naive e then Inl InvalidContextItem
                else if instant e \<le> instant (granted_at g) then Inl InvalidContextItem
                else Inr g))"

definition is_active_at :: "grant \<Rightarrow> py_datetime \<Rightarrow> audience_error + bool" where
  "is_active_at g m =
     (if is_naive m then Inl InvalidContextItem
      else if instant m < instant (granted_at g) then Inr False
      else Inr (case expires_at g of None \<Rightarrow> True | Some e \<Rightarrow> instant m < instant e))"

record evidence =
  ev_resolver_version :: string
  resolved_at :: py_datetime
  max_age :: int
  ev_source :: string
  ev_authority :: string

definition evidence_post_init :: "evidence \<Rightarrow> audience_error + evidence" where
  "evidence_post_init e =
     (if (\<exists>v \<in> set [ev_resolver_version e, ev_source e, ev_authority e]. py_strip v = []) then Inl AudienceDenied
      else if is_naive (resolved_at e) then Inl AudienceDenied
      else if max_age e \<le> 0 then Inl AudienceDenied
      else Inr e)"

definition is_fresh_at :: "evidence \<Rightarrow> py_datetime \<Rightarrow> audience_error + bool" where
  "is_fresh_at e m =
     (if is_naive m then Inl AudienceDenied
      else Inr (instant (resolved_at e) \<le> instant m \<and> instant m < instant (resolved_at e) + max_age e))"

record audience_decision =
  ad_intent_id :: uuid
  ad_actor_id :: string
  capability :: string
  allowed :: bool
  ad_role :: "string option"
  reason :: string
  ad_resolver_version :: "string option"
  decided_at :: py_datetime

subsection \<open>Deciding\<close>

definition resolver_is_recognized :: "string \<Rightarrow> bool" where
  "resolver_is_recognized v \<longleftrightarrow> py_strip v \<in> set RECOGNIZED_RESOLVERS"

fun first_active :: "string \<Rightarrow> py_datetime \<Rightarrow> grant list \<Rightarrow> audience_error + grant option" where
  "first_active wanted m [] = Inr None"
| "first_active wanted m (g # gs) =
     (if py_strip (g_actor_id g) \<noteq> wanted then first_active wanted m gs
      else if \<not> resolver_is_recognized (g_resolver_version g) then first_active wanted m gs
      else (case is_active_at g m of
              Inl e \<Rightarrow> Inl e
            | Inr True \<Rightarrow> Inr (Some g)
            | Inr False \<Rightarrow> first_active wanted m gs))"

definition active_grant_for :: "grant list \<Rightarrow> string \<Rightarrow> py_datetime \<Rightarrow> audience_error + grant option" where
  "active_grant_for grants actor m =
     (if is_naive m then Inl AudienceDenied
      else let wanted = py_strip actor in
      if wanted = [] then Inr None else first_active wanted m grants)"

definition quoted :: "string \<Rightarrow> string" where
  "quoted s = CHR 0x27 # s @ [CHR 0x27]"

definition decide ::
    "grant list \<Rightarrow> uuid \<Rightarrow> string \<Rightarrow> string \<Rightarrow> py_datetime \<Rightarrow> audience_error + audience_decision" where
  "decide grants intent actor cap m =
     (case map_of CAPABILITIES cap of
        None \<Rightarrow> Inl UnknownCapability
      | Some permitted \<Rightarrow>
          result_map
            (\<lambda>found.
               case found of
                 None \<Rightarrow>
                   \<lparr>ad_intent_id = intent, ad_actor_id = actor, capability = cap, allowed = False, ad_role = None,
                    reason = ''no active participant grant'', ad_resolver_version = None, decided_at = m\<rparr>
               | Some g \<Rightarrow>
                   if g_role g \<notin> set permitted
                   then \<lparr>ad_intent_id = intent, ad_actor_id = actor, capability = cap, allowed = False, ad_role = None,
                         reason = ''role '' @ quoted (g_role g) @ '' does not carry '' @ quoted cap,
                         ad_resolver_version = Some (g_resolver_version g), decided_at = m\<rparr>
                   else \<lparr>ad_intent_id = intent, ad_actor_id = actor, capability = cap, allowed = True,
                         ad_role = Some (g_role g), reason = ''active '' @ quoted (g_role g) @ '' grant'',
                         ad_resolver_version = Some (g_resolver_version g), decided_at = m\<rparr>)
            (active_grant_for grants actor m))"

definition require ::
    "grant list \<Rightarrow> uuid \<Rightarrow> string \<Rightarrow> string \<Rightarrow> py_datetime \<Rightarrow> audience_error + audience_decision" where
  "require grants intent actor cap m =
     result_bind (decide grants intent actor cap m) (\<lambda>d. if \<not> allowed d then Inl AudienceDenied else Inr d)"

subsection \<open>Granting and revoking\<close>

definition materialize_entitlement_grant ::
    "uuid \<Rightarrow> string \<Rightarrow> string \<Rightarrow> string \<Rightarrow> evidence \<Rightarrow> py_datetime \<Rightarrow> audience_error + grant" where
  "materialize_entitlement_grant intent actor role by_whom e m =
     (if role \<notin> set PARTICIPANT_ROLES then Inl AudienceDenied
      else if py_strip (ev_resolver_version e) \<noteq> ENTITLEMENT_RESOLVER then Inl AudienceDenied
      else result_bind (is_fresh_at e m) (\<lambda>fresh.
        if \<not> fresh then Inl AudienceDenied
        else grant_post_init
          \<lparr>g_intent_id = intent, g_actor_id = actor, g_role = role, granted_by = by_whom, granted_at = m,
           expires_at = Some (Aware (instant (resolved_at e) + max_age e)),
           g_resolver_version = ENTITLEMENT_RESOLVER\<rparr>))"

definition revoked_at :: "grant \<Rightarrow> py_datetime \<Rightarrow> audience_error + grant" where
  "revoked_at g m =
     (if is_naive m then Inl AudienceDenied
      else if instant m \<le> instant (granted_at g) then Inl AudienceDenied
      else (case expires_at g of
              Some e \<Rightarrow> if instant e \<le> instant m then Inr g else grant_post_init (g\<lparr>expires_at := Some m\<rparr>)
            | None \<Rightarrow> grant_post_init (g\<lparr>expires_at := Some m\<rparr>)))"

subsection \<open>Decisions\<close>

text \<open>A grant that counts for the actor at the instant.\<close>

definition counts :: "string \<Rightarrow> moment \<Rightarrow> grant \<Rightarrow> bool" where
  "counts actor t g \<longleftrightarrow> py_strip (g_actor_id g) = py_strip actor \<and> py_strip actor \<noteq> [] \<and>
     resolver_is_recognized (g_resolver_version g) \<and> is_active_at g (Aware t) = Inr True"

lemma is_active_at_Aware:
  "is_active_at g (Aware t) =
     Inr (instant (granted_at g) \<le> t \<and> (\<forall>e. expires_at g = Some e \<longrightarrow> t < instant e))"
  by (auto simp: is_active_at_def split: option.splits)

lemma first_active_find:
  assumes "wanted = py_strip actor" "wanted \<noteq> []"
  shows "first_active wanted (Aware t) gs = Inr (find (counts actor t) gs)"
  using assms by (induction gs) (auto simp: counts_def is_active_at_Aware split: bool.splits)

lemma active_grant_find: "active_grant_for grants actor (Aware t) = Inr (find (counts actor t) grants)"
proof (cases "py_strip actor = []")
  case True
  then have "find (counts actor t) grants = None" by (simp add: find_None_iff counts_def)
  with True show ?thesis by (simp add: active_grant_for_def)
next
  case False
  then show ?thesis by (simp add: active_grant_for_def first_active_find)
qed

text \<open>
  C36. Access is decided by stored grants alone and uncertainty denies. For a known capability and an
  aware instant, \<open>decide\<close> always answers; the answer is yes exactly when the first grant that
  counts for the actor (same actor, recognised resolver, window open) has a role carrying the
  capability. So a yes always rests on such a grant, no grant that does not count ever
  matters, and \<open>require\<close> raises on every no.
\<close>

theorem decide_exact:
  assumes "map_of CAPABILITIES cap = Some roles"
  shows "\<exists>d. decide grants intent actor cap (Aware t) = Inr d \<and>
     (allowed d \<longleftrightarrow> (\<exists>g. find (counts actor t) grants = Some g \<and> g_role g \<in> set roles)) \<and>
     (allowed d \<longrightarrow> (\<exists>g \<in> set grants. counts actor t g \<and> g_role g \<in> set roles \<and> ad_role d = Some (g_role g))) \<and>
     decide (filter (counts actor t) grants) intent actor cap (Aware t) = Inr d \<and>
     require grants intent actor cap (Aware t) = (if allowed d then Inr d else Inl AudienceDenied)"
proof -
  have "find (counts actor t) (filter (counts actor t) grants) = find (counts actor t) grants"
    by (induction grants) auto
  moreover have "g \<in> set grants \<and> counts actor t g" if "find (counts actor t) grants = Some g" for g
    using that by (auto simp: find_Some_iff)
  ultimately show ?thesis
    using assms by (cases "find (counts actor t) grants")
      (auto simp: decide_def require_def active_grant_find split: if_splits)
qed

definition sample_grant :: "string \<Rightarrow> grant" where
  "sample_grant role =
     \<lparr>g_intent_id = ''i'', g_actor_id = ''ann'', g_role = role, granted_by = ''bob'', granted_at = Aware 1,
      expires_at = Some (Aware 9), g_resolver_version = ''explicit/v1''\<rparr>"

theorem decide_exact_witness:
  "(\<exists>d. decide [sample_grant ''auditor''] ''i'' ''ann'' ''read'' (Aware 5) = Inr d \<and> allowed d) \<and>
   require [sample_grant ''auditor''] ''i'' ''ann'' ''extend'' (Aware 5) = Inl AudienceDenied"
proof -
  have roles: "map_of CAPABILITIES ''read'' = Some ROLES_THAT_READ" "map_of CAPABILITIES ''extend'' = Some ROLES_THAT_EXTEND"
    by code_simp+
  have f: "find (counts ''ann'' 5) [sample_grant ''auditor''] = Some (sample_grant ''auditor'')" by code_simp
  have r: "g_role (sample_grant ''auditor'') \<in> set ROLES_THAT_READ" "g_role (sample_grant ''auditor'') \<notin> set ROLES_THAT_EXTEND"
    by code_simp+
  show ?thesis
    using decide_exact [OF roles(1), of "[sample_grant ''auditor'']" "''i''" "''ann''" 5]
      decide_exact [OF roles(2), of "[sample_grant ''auditor'']" "''i''" "''ann''" 5] f r by auto
qed

subsection \<open>Windows\<close>

text \<open>
  A grant materialised from an entitlement answer lasts exactly as long as the answer counts: it is
  active from the moment it is made until the evidence's own window closes, at no other time,
  and that window is not empty; it names the requested actor and role, and nobody grants
  themselves.
\<close>

theorem materialized_window:
  assumes "materialize_entitlement_grant intent actor role by_whom e (Aware m) = Inr g"
  shows "(is_active_at g (Aware t) = Inr True \<longleftrightarrow> m \<le> t \<and> t < instant (resolved_at e) + max_age e) \<and>
     instant (resolved_at e) \<le> m \<and> m < instant (resolved_at e) + max_age e \<and>
     g_actor_id g = actor \<and> g_role g = role \<and> role \<in> set PARTICIPANT_ROLES \<and> g_intent_id g = intent \<and>
     py_strip actor \<noteq> py_strip by_whom \<and> resolver_is_recognized (g_resolver_version g)"
proof -
  have "py_strip ENTITLEMENT_RESOLVER \<in> set RECOGNIZED_RESOLVERS" by code_simp
  with assms show ?thesis
    by (auto simp: materialize_entitlement_grant_def result_bind_eq_Inr is_fresh_at_def grant_post_init_def
        is_active_at_def resolver_is_recognized_def split: if_splits)
qed

definition sample_evidence :: evidence where
  "sample_evidence =
     \<lparr>ev_resolver_version = ''entitlement/v1'', resolved_at = Aware 10, max_age = 5, ev_source = ''idp'', ev_authority = ''hr''\<rparr>"

theorem materialized_window_witness:
  "\<exists>g. materialize_entitlement_grant ''i'' ''ann'' ''reader'' ''bob'' sample_evidence (Aware 12) = Inr g \<and>
     is_active_at g (Aware 14) = Inr True \<and> is_active_at g (Aware 15) \<noteq> Inr True"
proof -
  have "\<not> isl (materialize_entitlement_grant ''i'' ''ann'' ''reader'' ''bob'' sample_evidence (Aware 12))" by code_simp
  then obtain g where g: "materialize_entitlement_grant ''i'' ''ann'' ''reader'' ''bob'' sample_evidence (Aware 12) = Inr g"
    by (cases "materialize_entitlement_grant ''i'' ''ann'' ''reader'' ''bob'' sample_evidence (Aware 12)") auto
  show ?thesis
    using materialized_window [OF g, of 14] materialized_window [OF g, of 15] g by (simp add: sample_evidence_def)
qed

text \<open>
  Revocation ends a grant and does nothing else: after \<open>revoked_at\<close> the grant is active exactly
  when it was before and the instant lies before the revocation; so revoking again later never
  extends an earlier end, and a well-formed grant stays well formed.
\<close>

theorem revocation_exact:
  assumes "revoked_at g (Aware m) = Inr g'" "grant_post_init g = Inr g"
  shows "(is_active_at g' (Aware t) = Inr True \<longleftrightarrow> is_active_at g (Aware t) = Inr True \<and> t < m) \<and>
     grant_post_init g' = Inr g' \<and> g'\<lparr>expires_at := expires_at g\<rparr> = g"
  using assms
  by (cases "expires_at g") (auto simp: revoked_at_def grant_post_init_def is_active_at_def split: if_splits)

theorem revocation_exact_witness:
  "\<exists>g'. revoked_at (sample_grant ''owner'') (Aware 4) = Inr g' \<and> is_active_at g' (Aware 3) = Inr True \<and>
     is_active_at g' (Aware 5) \<noteq> Inr True"
proof -
  have "\<not> isl (revoked_at (sample_grant ''owner'') (Aware 4))" by code_simp
  then obtain g' where g': "revoked_at (sample_grant ''owner'') (Aware 4) = Inr g'"
    by (cases "revoked_at (sample_grant ''owner'') (Aware 4)") auto
  have ok: "grant_post_init (sample_grant ''owner'') = Inr (sample_grant ''owner'')" by code_simp
  have "is_active_at (sample_grant ''owner'') (Aware 3) = Inr True" by code_simp
  then show ?thesis
    using revocation_exact [OF g' ok, of 3] revocation_exact [OF g' ok, of 5] g' by auto
qed

end
