(* ===== verification/Authority.thy ===== *)
theory Authority
  imports CP_Prelude
begin

section \<open>Source authority\<close>

text \<open>
  The model of \<open>contextplane/service/governance/authority.py\<close>: the ladder of authority tiers,
  strongest first, with ownership before derivation.
\<close>

definition AUTHORITY_OWNER_HUMAN :: string where "AUTHORITY_OWNER_HUMAN = ''owner_human''"
definition AUTHORITY_OWNER_EXTRACTION :: string where "AUTHORITY_OWNER_EXTRACTION = ''owner_extraction''"
definition AUTHORITY_OWNER_INFERENCE :: string where "AUTHORITY_OWNER_INFERENCE = ''owner_inference''"
definition AUTHORITY_OBSERVER_HUMAN :: string where "AUTHORITY_OBSERVER_HUMAN = ''observer_human''"
definition AUTHORITY_OBSERVER_EXTRACTION :: string where "AUTHORITY_OBSERVER_EXTRACTION = ''observer_extraction''"
definition AUTHORITY_OBSERVER_INFERENCE :: string where "AUTHORITY_OBSERVER_INFERENCE = ''observer_inference''"
definition AUTHORITY_UNATTRIBUTED :: string where "AUTHORITY_UNATTRIBUTED = ''unattributed''"

definition SOURCE_AUTHORITY_ORDER :: "string list" where
  "SOURCE_AUTHORITY_ORDER =
     [AUTHORITY_OWNER_HUMAN, AUTHORITY_OWNER_EXTRACTION, AUTHORITY_OWNER_INFERENCE, AUTHORITY_OBSERVER_HUMAN,
      AUTHORITY_OBSERVER_EXTRACTION, AUTHORITY_OBSERVER_INFERENCE, AUTHORITY_UNATTRIBUTED]"

definition SOURCE_AUTHORITY_RANK :: "(string \<times> int) list" where
  "SOURCE_AUTHORITY_RANK = zip SOURCE_AUTHORITY_ORDER (map int [0..<length SOURCE_AUTHORITY_ORDER])"

definition DERIVATION_RANK :: "(string \<times> int) list" where
  "DERIVATION_RANK = [(''human'', 0), (''extraction'', 1), (''inference'', 2)]"

definition AUTHORITY_BY_AXES :: "((bool \<times> string) \<times> string) list" where
  "AUTHORITY_BY_AXES =
     [((True, ''human''), AUTHORITY_OWNER_HUMAN), ((True, ''extraction''), AUTHORITY_OWNER_EXTRACTION),
      ((True, ''inference''), AUTHORITY_OWNER_INFERENCE), ((False, ''human''), AUTHORITY_OBSERVER_HUMAN),
      ((False, ''extraction''), AUTHORITY_OBSERVER_EXTRACTION), ((False, ''inference''), AUTHORITY_OBSERVER_INFERENCE)]"

definition authority_rank_of :: "string \<Rightarrow> int option" where
  "authority_rank_of tier = map_of SOURCE_AUTHORITY_RANK tier"

lemmas authority_defs = AUTHORITY_OWNER_HUMAN_def AUTHORITY_OWNER_EXTRACTION_def AUTHORITY_OWNER_INFERENCE_def
  AUTHORITY_OBSERVER_HUMAN_def AUTHORITY_OBSERVER_EXTRACTION_def AUTHORITY_OBSERVER_INFERENCE_def
  AUTHORITY_UNATTRIBUTED_def SOURCE_AUTHORITY_ORDER_def SOURCE_AUTHORITY_RANK_def DERIVATION_RANK_def
  AUTHORITY_BY_AXES_def

text \<open>An owner's claim outranks an observer's, at every derivation tier.\<close>

lemma owner_outranks_observer:
  assumes "map_of AUTHORITY_BY_AXES (True, d) = Some a" "map_of AUTHORITY_BY_AXES (False, e) = Some b"
  shows "\<exists>i j. authority_rank_of a = Some i \<and> authority_rank_of b = Some j \<and> i < j"
  using assms by (auto simp: authority_rank_of_def authority_defs split: if_splits)

end
