(* ===== verification/Confidence.thy ===== *)
theory Confidence
  imports Complex_Main Authority
begin

section \<open>Confidence of a claim\<close>

text \<open>
  The model of \<open>contextplane/service/memory/confidence.py\<close>: the published buckets, the policy and
  its check, corroboration as a noisy OR over independent evidence, the score and its
  re-derivation. Floating-point numbers are the rationals their literals denote, and \<open>round(x, 3)\<close>
  rounds to the nearest thousandth, ties to even. The floor comes from the ranking registry
  (\<open>confidence-decay-floor@1\<close>).
\<close>

subsection \<open>The published scale\<close>

definition SCORER_VERSION :: string where "SCORER_VERSION = ''confidence-v2''"
definition DECAY_FLOOR :: rat where "DECAY_FLOOR = 1/10"
definition MAX_CONFIDENCE :: rat where "MAX_CONFIDENCE = 98/100"

definition BUCKET_LOWER_BOUNDS :: "(string \<times> rat) list" where
  "BUCKET_LOWER_BOUNDS =
     [(''confirmed'', 85/100), (''strong'', 70/100), (''moderate'', 45/100), (''weak'', 20/100), (''unreliable'', 0)]"

definition BASE_CONFIDENCE_BY_AUTHORITY :: "(string \<times> rat) list" where
  "BASE_CONFIDENCE_BY_AUTHORITY =
     [(AUTHORITY_OWNER_HUMAN, 80/100), (AUTHORITY_OWNER_EXTRACTION, 62/100), (AUTHORITY_OWNER_INFERENCE, 45/100),
      (AUTHORITY_OBSERVER_HUMAN, 42/100), (AUTHORITY_OBSERVER_EXTRACTION, 32/100), (AUTHORITY_OBSERVER_INFERENCE, 23/100)]"

definition CONFIRMED_CONFIDENCE :: rat where "CONFIRMED_CONFIDENCE = 92/100"
definition CONTRADICTION_PENALTY :: rat where "CONTRADICTION_PENALTY = 25/100"
definition MAX_CLASSES_PER_ACTOR :: nat where "MAX_CLASSES_PER_ACTOR = 2"

definition py_round3 :: "rat \<Rightarrow> rat" where
  "py_round3 x =
     (let n = \<lfloor>x * 1000\<rfloor>; r = x * 1000 - of_int n in
      of_int (if r < 1/2 then n else if r > 1/2 then n + 1 else if even n then n else n + 1) / 1000)"

definition CORROBORATION_CEILING :: rat where
  "CORROBORATION_CEILING = py_round3 (the (map_of BUCKET_LOWER_BOUNDS ''confirmed'') - 1/1000)"

definition bucket_for :: "rat \<Rightarrow> string" where
  "bucket_for c = (case find (\<lambda>(_, lower). c \<ge> lower) BUCKET_LOWER_BOUNDS of
     Some (name, _) \<Rightarrow> name | None \<Rightarrow> ''unreliable'')"

subsection \<open>Policy\<close>

record confidence_policy =
  base_by_authority :: "(string \<times> rat) list"
  contradiction_penalty :: rat
  confirmed_confidence :: rat
  policy_hold_days :: int
  decay_multiplier :: rat

definition default_policy :: confidence_policy where
  "default_policy =
     \<lparr>base_by_authority = BASE_CONFIDENCE_BY_AUTHORITY, contradiction_penalty = CONTRADICTION_PENALTY,
      confirmed_confidence = CONFIRMED_CONFIDENCE, policy_hold_days = 180, decay_multiplier = 1\<rparr>"

datatype confidence_error = KeyError | ValueError

definition policy_post_init :: "confidence_policy \<Rightarrow> confidence_error + confidence_policy" where
  "policy_post_init p =
     result_bind (traverse (\<lambda>(tier, v). of_option KeyError (map_option (\<lambda>r. (r, v)) (authority_rank_of tier)))
                   (base_by_authority p)) (\<lambda>ranked.
       let ordered = map snd (sort_key fst ranked) in
       if ordered \<noteq> rev (sort ordered) \<or> card (set ordered) \<noteq> length ordered then Inl ValueError
       else if ranked = [] then Inl ValueError
       else Inr p)"

definition probabilities_from :: "(string \<times> rat) list \<Rightarrow> int \<rightharpoonup> rat" where
  "probabilities_from base =
     (map_of (rev (map (\<lambda>(tier, v). (the (authority_rank_of tier), v)) base)))
       (the (authority_rank_of AUTHORITY_UNATTRIBUTED) \<mapsto> 0)"

subsection \<open>Corroboration\<close>

record evidence_class =
  ec_key :: string
  ec_group :: string
  authority_rank :: int

definition stronger :: "evidence_class \<Rightarrow> evidence_class \<Rightarrow> bool" where
  "stronger item current \<longleftrightarrow> authority_rank item < authority_rank current"

definition strongest_by_key :: "evidence_class list \<Rightarrow> (string \<times> evidence_class) list" where
  "strongest_by_key classes = best_per_key ec_key stronger classes"

definition per_group :: "evidence_class list \<Rightarrow> (string \<times> int list) list" where
  "per_group classes =
     fold (\<lambda>item. group_append (ec_group item) (authority_rank item)) (map snd (strongest_by_key classes)) []"

definition counted_ranks :: "evidence_class list \<Rightarrow> nat \<Rightarrow> int list" where
  "counted_ranks classes cap = concat (map (\<lambda>(_, ranks). take cap (sort ranks)) (per_group classes))"

definition corroboration_probability :: "(int \<rightharpoonup> rat) \<Rightarrow> nat \<Rightarrow> evidence_class list \<Rightarrow> rat \<times> nat" where
  "corroboration_probability probs cap classes =
     (let ranks = counted_ranks classes cap;
          all_wrong = foldl (\<lambda>acc r. acc * (1 - (case probs r of Some p \<Rightarrow> p | None \<Rightarrow> 0))) 1 ranks
      in (1 - all_wrong, length ranks))"

definition corroborated :: "rat \<Rightarrow> rat \<Rightarrow> rat" where
  "corroborated base agreement = base + max 0 (CORROBORATION_CEILING - base) * agreement"

subsection \<open>Scoring\<close>

record confidence_inputs =
  ci_authority :: string
  ci_base :: rat
  corroborating_classes :: nat
  ci_probability :: rat
  ci_contested :: bool
  ci_confirmed :: bool
  provider_confidence :: "rat option"
  provider_applied :: bool
  scorer_version :: string

record scored_confidence =
  sc_value :: rat
  sc_bucket :: string
  sc_inputs :: confidence_inputs

definition clamped :: "confidence_policy \<Rightarrow> rat \<Rightarrow> rat \<Rightarrow> bool \<Rightarrow> bool \<Rightarrow> rat" where
  "clamped p base agreement contested confirmed =
     (let v = corroborated base agreement;
          v = (if confirmed then confirmed_confidence p else v);
          v = (if contested then DECAY_FLOOR + (v - DECAY_FLOOR) * (1 - contradiction_penalty p) else v)
      in min MAX_CONFIDENCE (max DECAY_FLOOR v))"

text \<open>\<open>mapping\<close> says whether the caller passed a provider mapping.\<close>

definition score ::
    "confidence_policy \<Rightarrow> string \<Rightarrow> evidence_class list \<Rightarrow> bool \<Rightarrow> bool \<Rightarrow> rat option \<Rightarrow> bool \<Rightarrow> scored_confidence option" where
  "score p authority corroborators contested confirmed provider mapping =
     (case map_of (base_by_authority p) authority of
        None \<Rightarrow> None
      | Some base \<Rightarrow>
          (let (agreement, n) =
                 corroboration_probability (probabilities_from (base_by_authority p)) MAX_CLASSES_PER_ACTOR corroborators;
               v = clamped p base agreement contested confirmed
           in Some \<lparr>sc_value = py_round3 v, sc_bucket = bucket_for v,
                    sc_inputs = \<lparr>ci_authority = authority, ci_base = base, corroborating_classes = n,
                      ci_probability = agreement, ci_contested = contested, ci_confirmed = confirmed,
                      provider_confidence = provider, provider_applied = (mapping \<and> provider \<noteq> None),
                      scorer_version = SCORER_VERSION\<rparr>\<rparr>))"

definition recompute :: "confidence_policy \<Rightarrow> confidence_inputs \<Rightarrow> confidence_error + rat" where
  "recompute p inp =
     (if scorer_version inp \<noteq> SCORER_VERSION then Inl ValueError
      else Inr (py_round3 (clamped p (ci_base inp) (ci_probability inp) (ci_contested inp) (ci_confirmed inp))))"

subsection \<open>Rounding\<close>

lemma py_round3_bounds:
  "of_int \<lfloor>x * 1000\<rfloor> / 1000 \<le> py_round3 x \<and> py_round3 x \<le> of_int (\<lfloor>x * 1000\<rfloor> + 1) / 1000"
  by (auto simp: py_round3_def Let_def divide_right_mono)

lemma py_round3_mono:
  assumes "x \<le> y"
  shows "py_round3 x \<le> py_round3 y"
proof -
  have le: "\<lfloor>x * 1000\<rfloor> \<le> \<lfloor>y * 1000\<rfloor>" using assms by (intro floor_mono) simp
  show ?thesis
  proof (cases "\<lfloor>x * 1000\<rfloor> = \<lfloor>y * 1000\<rfloor>")
    case True
    then show ?thesis using assms by (auto simp: py_round3_def Let_def divide_right_mono)
  next
    case False
    with le have "\<lfloor>x * 1000\<rfloor> + 1 \<le> \<lfloor>y * 1000\<rfloor>" by linarith
    then have "rat_of_int (\<lfloor>x * 1000\<rfloor> + 1) \<le> rat_of_int \<lfloor>y * 1000\<rfloor>" by (simp only: of_int_le_iff)
    then have "of_int (\<lfloor>x * 1000\<rfloor> + 1) / 1000 \<le> (of_int \<lfloor>y * 1000\<rfloor> / 1000 :: rat)"
      by (rule divide_right_mono) simp
    then show ?thesis using py_round3_bounds [of x] py_round3_bounds [of y] by linarith
  qed
qed

lemma py_round3_thousandth: "py_round3 (of_int k / 1000) = of_int k / 1000"
  by (simp add: py_round3_def)

lemma ceiling_value: "CORROBORATION_CEILING = 849/1000"
  by code_simp

subsection \<open>Agreement is a probability\<close>

lemma foldl_product_unit:
  assumes "\<forall>r \<in> set rs. 0 \<le> f r \<and> f r \<le> (1 :: rat)" "0 \<le> acc" "acc \<le> 1"
  shows "0 \<le> foldl (\<lambda>a r. a * f r) acc rs \<and> foldl (\<lambda>a r. a * f r) acc rs \<le> 1"
  using assms
proof (induction rs arbitrary: acc)
  case (Cons r rs)
  then have "0 \<le> acc * f r" "acc * f r \<le> 1" by (auto intro: mult_le_one)
  with Cons show ?case by simp
qed simp

lemma probabilities_range:
  assumes "\<forall>v \<in> snd ` set base. 0 \<le> v \<and> v \<le> 1" "probabilities_from base r = Some p"
  shows "0 \<le> p \<and> p \<le> 1"
  using assms by (force simp: probabilities_from_def split: if_splits dest!: map_of_SomeD)

lemma agreement_range:
  assumes "\<forall>v \<in> snd ` set base. 0 \<le> v \<and> v \<le> 1"
  shows "0 \<le> fst (corroboration_probability (probabilities_from base) cap cs) \<and>
    fst (corroboration_probability (probabilities_from base) cap cs) \<le> 1"
proof -
  let ?f = "\<lambda>r. 1 - (case probabilities_from base r of Some p \<Rightarrow> p | None \<Rightarrow> 0)"
  have "0 \<le> ?f r \<and> ?f r \<le> 1" for r
    using probabilities_range [OF assms, of r] by (auto split: option.splits)
  then show ?thesis
    using foldl_product_unit [of "counted_ranks cs cap" ?f 1]
    by (simp add: corroboration_probability_def Let_def)
qed

lemma corroborated_bound:
  assumes "0 \<le> agreement" "agreement \<le> 1" "base \<le> CORROBORATION_CEILING"
  shows "base \<le> corroborated base agreement \<and> corroborated base agreement \<le> CORROBORATION_CEILING"
proof -
  have "(CORROBORATION_CEILING - base) * agreement \<le> CORROBORATION_CEILING - base"
    using assms by (simp add: mult_left_le)
  then show ?thesis using assms by (simp add: corroborated_def)
qed

lemma score_Some:
  "score p a cs contested confirmed prov mapping = Some s \<longleftrightarrow>
     (\<exists>base. map_of (base_by_authority p) a = Some base \<and>
        (let (agreement, n) = corroboration_probability (probabilities_from (base_by_authority p)) MAX_CLASSES_PER_ACTOR cs;
             v = clamped p base agreement contested confirmed
         in s = \<lparr>sc_value = py_round3 v, sc_bucket = bucket_for v,
                 sc_inputs = \<lparr>ci_authority = a, ci_base = base, corroborating_classes = n, ci_probability = agreement,
                   ci_contested = contested, ci_confirmed = confirmed, provider_confidence = prov,
                   provider_applied = (mapping \<and> prov \<noteq> None), scorer_version = SCORER_VERSION\<rparr>\<rparr>))"
  by (auto simp: score_def Let_def split: option.splits prod.splits)

lemma clamped_range: "1/10 \<le> clamped p b ag x y \<and> clamped p b ag x y \<le> 98/100"
  by (simp add: clamped_def Let_def DECAY_FLOOR_def MAX_CONFIDENCE_def)

lemma contested_bound:
  fixes v pen floor :: rat
  assumes "0 \<le> pen" "pen \<le> 1"
  shows "floor + (v - floor) * (1 - pen) \<le> max floor v"
proof (cases "floor \<le> v")
  case True
  then have "(v - floor) * (1 - pen) \<le> v - floor" using assms by (simp add: mult_left_le)
  then show ?thesis by simp
next
  case False
  then have "(v - floor) * (1 - pen) \<le> 0" using assms by (simp add: mult_nonpos_nonneg)
  then show ?thesis by simp
qed

lemma unconfirmed_score_bound:
  assumes "score p a cs contested False prov mapping = Some s"
    and "\<forall>v \<in> snd ` set (base_by_authority p). 0 \<le> v \<and> v \<le> 849/1000"
    and "0 \<le> contradiction_penalty p" "contradiction_penalty p \<le> 1"
  shows "1/10 \<le> sc_value s \<and> sc_value s \<le> 849/1000 \<and> sc_bucket s \<noteq> ''confirmed''"
proof -
  obtain base where base: "map_of (base_by_authority p) a = Some base"
    using assms(1) by (auto simp: score_Some)
  define ag where "ag = fst (corroboration_probability (probabilities_from (base_by_authority p)) MAX_CLASSES_PER_ACTOR cs)"
  define v where "v = clamped p base ag contested False"
  have s: "sc_value s = py_round3 v" "sc_bucket s = bucket_for v"
    using assms(1) base by (auto simp: score_Some v_def ag_def Let_def split: prod.splits)
  have "0 \<le> ag" "ag \<le> 1"
    using agreement_range [of "base_by_authority p"] assms(2) by (force simp: ag_def)+
  moreover have "base \<le> 849/1000" using assms(2) base by (force dest: map_of_SomeD)
  ultimately have "corroborated base ag \<le> 849/1000"
    using corroborated_bound [of ag base] by (simp add: ceiling_value)
  moreover define w where "w = (if contested
      then 1/10 + (corroborated base ag - 1/10) * (1 - contradiction_penalty p) else corroborated base ag)"
  moreover have "w \<le> max (1/10) (corroborated base ag)"
    unfolding w_def using contested_bound [OF assms(3,4), of "1/10" "corroborated base ag"] by simp
  ultimately have "w \<le> 849/1000" by linarith
  moreover have "v = min (98/100) (max (1/10) w)"
    by (simp add: v_def w_def clamped_def Let_def DECAY_FLOOR_def MAX_CONFIDENCE_def)
  ultimately have hi: "v \<le> 849/1000" by simp
  have "py_round3 v \<le> 849/1000" using py_round3_mono [OF hi] py_round3_thousandth [of 849] by simp
  moreover have "1/10 \<le> py_round3 v"
    using py_round3_mono [of "1/10" v] clamped_range py_round3_thousandth [of 100] by (simp add: v_def)
  moreover have "bucket_for v \<noteq> ''confirmed''" using hi by (simp add: bucket_for_def BUCKET_LOWER_BOUNDS_def)
  ultimately show ?thesis using s by simp
qed

lemma score_range:
  assumes "score p a cs contested confirmed prov mapping = Some s"
  shows "1/10 \<le> sc_value s \<and> sc_value s \<le> 98/100"
proof -
  obtain b ag n where v: "sc_value s = py_round3 (clamped p b ag contested confirmed)"
    using assms by (auto simp: score_def Let_def split: option.splits prod.splits)
  then show ?thesis
    using py_round3_mono [of "1/10" "clamped p b ag contested confirmed"] py_round3_thousandth [of 100]
      py_round3_mono [of "clamped p b ag contested confirmed" "98/100"] py_round3_thousandth [of 980]
      clamped_range [of p b ag contested confirmed] by simp
qed

lemma confirmed_value:
  assumes "score p a cs False True prov mapping = Some s"
  shows "sc_value s = py_round3 (min (98/100) (max (1/10) (confirmed_confidence p)))"
  using assms by (auto simp: score_def clamped_def Let_def MAX_CONFIDENCE_def DECAY_FLOOR_def split: option.splits prod.splits)

text \<open>
  C39. Every score, under every policy, of a confirmed claim or not and contested or not, lies between 0.10
  and 0.98. Machines agreeing never make a claim look confirmed by a human: under a policy whose base
  values lie between 0 and 0.849 and whose contradiction penalty is between 0 and 1, a claim that is not
  confirmed scores at most 0.849, outside the confirmed bucket, whatever corroborates it. And a
  confirmation replaces the machine's estimate: the score of a confirmed claim that nobody contests
  is the policy's value for it, clamped and rounded, whatever the source and the corroboration.
\<close>

theorem agreement_never_confirms:
  assumes "score p a cs contested confirmed prov mapping = Some s"
  shows "1/10 \<le> sc_value s \<and> sc_value s \<le> 98/100 \<and>
    (\<not> confirmed \<and> (\<forall>v \<in> snd ` set (base_by_authority p). 0 \<le> v \<and> v \<le> 849/1000) \<and>
       0 \<le> contradiction_penalty p \<and> contradiction_penalty p \<le> 1 \<longrightarrow>
     sc_value s \<le> 849/1000 \<and> sc_bucket s \<noteq> ''confirmed'') \<and>
    (confirmed \<and> \<not> contested \<longrightarrow> sc_value s = py_round3 (min (98/100) (max (1/10) (confirmed_confidence p))))"
proof -
  have "sc_value s \<le> 849/1000 \<and> sc_bucket s \<noteq> ''confirmed''"
    if "\<not> confirmed" "\<forall>v \<in> snd ` set (base_by_authority p). 0 \<le> v \<and> v \<le> 849/1000"
      "0 \<le> contradiction_penalty p" "contradiction_penalty p \<le> 1"
    using unconfirmed_score_bound [of p a cs contested prov mapping s] assms that by simp
  moreover have "sc_value s = py_round3 (min (98/100) (max (1/10) (confirmed_confidence p)))" if "confirmed" "\<not> contested"
    using confirmed_value assms that by simp
  ultimately show ?thesis using score_range [OF assms] by blast
qed

theorem agreement_never_confirms_witness:
  "\<exists>s c. score default_policy AUTHORITY_OWNER_HUMAN
      [\<lparr>ec_key = ''k1'', ec_group = ''g1'', authority_rank = 0\<rparr>, \<lparr>ec_key = ''k2'', ec_group = ''g2'', authority_rank = 0\<rparr>]
      False False None False = Some s \<and> sc_value s \<le> 849/1000 \<and>
    score (default_policy\<lparr>confirmed_confidence := 1\<rparr>) AUTHORITY_OWNER_HUMAN [] False True None False = Some c \<and>
    sc_value c = 98/100"
proof -
  let ?cs = "[\<lparr>ec_key = ''k1'', ec_group = ''g1'', authority_rank = 0\<rparr>, \<lparr>ec_key = ''k2'', ec_group = ''g2'', authority_rank = 0\<rparr>]"
  let ?p = "default_policy\<lparr>confirmed_confidence := 1\<rparr>"
  have "score default_policy AUTHORITY_OWNER_HUMAN ?cs False False None False \<noteq> None"
    "score ?p AUTHORITY_OWNER_HUMAN [] False True None False \<noteq> None" by code_simp+
  then obtain s c where s: "score default_policy AUTHORITY_OWNER_HUMAN ?cs False False None False = Some s"
      and c: "score ?p AUTHORITY_OWNER_HUMAN [] False True None False = Some c" by blast
  have "\<forall>v \<in> snd ` set (base_by_authority default_policy). 0 \<le> v \<and> v \<le> 849/1000"
    by (simp add: default_policy_def BASE_CONFIDENCE_BY_AUTHORITY_def)
  with agreement_never_confirms [OF s] have "sc_value s \<le> 849/1000"
    by (simp add: default_policy_def CONTRADICTION_PENALTY_def)
  moreover have "sc_value c = 98/100"
    using agreement_never_confirms [OF c] py_round3_thousandth [of 980] by (simp add: default_policy_def)
  ultimately show ?thesis using s c by blast
qed

text \<open>
  A score is auditable: the inputs stored beside it re-derive exactly the stored value under the
  same policy, and inputs of another scorer version are refused.
\<close>

theorem recompute_score:
  assumes "score p a cs contested confirmed prov mapping = Some s"
  shows "recompute p (sc_inputs s) = Inr (sc_value s) \<and>
    (ver \<noteq> SCORER_VERSION \<longrightarrow> recompute p ((sc_inputs s)\<lparr>scorer_version := ver\<rparr>) = Inl ValueError)"
  using assms
  by (cases "corroboration_probability (probabilities_from (base_by_authority p)) MAX_CLASSES_PER_ACTOR cs")
    (auto simp: score_Some recompute_def Let_def)

theorem recompute_score_witness:
  "\<exists>s. score default_policy AUTHORITY_OWNER_HUMAN [] True False None False = Some s \<and>
     recompute default_policy (sc_inputs s) = Inr (625/1000)"
proof -
  have "map_option sc_value (score default_policy AUTHORITY_OWNER_HUMAN [] True False None False) = Some (625/1000)" by code_simp
  then obtain s where "score default_policy AUTHORITY_OWNER_HUMAN [] True False None False = Some s" "sc_value s = 625/1000"
    by blast
  then show ?thesis using recompute_score by fastforce
qed

subsection \<open>Repetition is not independence\<close>

interpretation strongest: keyed_preference ec_key stronger
  by unfold_locales (auto simp: stronger_def)

lemma strongest_by_key_repeat:
  assumes "c \<in> set cs"
  shows "strongest_by_key (cs @ [c]) = strongest_by_key cs"
proof -
  obtain w where w: "map_of (best_per_key ec_key stronger cs) (ec_key c) = Some w"
    using best_per_key_None_iff [of ec_key stronger cs "ec_key c"] assms by fastforce
  have "\<not> stronger c w" by (rule strongest.winner_maximal [OF w assms]) simp
  with w show ?thesis by (simp add: strongest_by_key_def best_per_key_snoc keep_better_def)
qed

lemma group_append_keys:
  "distinct (map fst g) \<Longrightarrow> distinct (map fst (group_append k x g)) \<and> fst ` set (group_append k x g) = insert k (fst ` set g)"
  by (simp add: group_append_def distinct_update dom_update)

lemma fold_group_append_keys:
  assumes "distinct (map fst g)"
  shows "distinct (map fst (fold (\<lambda>i. group_append (k i) (v i)) xs g)) \<and>
    fst ` set (fold (\<lambda>i. group_append (k i) (v i)) xs g) = k ` set xs \<union> fst ` set g"
  using assms
proof (induction xs arbitrary: g)
  case (Cons x xs)
  then show ?case using group_append_keys [OF Cons.prems, of "k x" "v x"] by auto
qed simp

lemma counted_bound: "length (counted_ranks cs cap) \<le> cap * card (ec_group ` set cs)"
proof -
  let ?g = "per_group cs"
  have g: "distinct (map fst ?g)" "fst ` set ?g = ec_group ` set (map snd (strongest_by_key cs))"
    using fold_group_append_keys [of "[]" ec_group authority_rank "map snd (strongest_by_key cs)"]
    by (simp_all add: per_group_def)
  have "set (map snd (strongest_by_key cs)) \<subseteq> set cs"
  proof
    fix x assume "x \<in> set (map snd (strongest_by_key cs))"
    then obtain k where "(k, x) \<in> set (best_per_key ec_key stronger cs)" by (auto simp: strongest_by_key_def)
    then have "map_of (best_per_key ec_key stronger cs) k = Some x"
      by (simp add: distinct_keys_best_per_key)
    then show "x \<in> set cs" using best_per_key_Some by fast
  qed
  then have "fst ` set ?g \<subseteq> ec_group ` set cs" unfolding g(2) by (rule image_mono)
  then have "length ?g \<le> card (ec_group ` set cs)"
    using g(1) by (metis card_mono distinct_card finite_imageI length_map list.set_map finite_set)
  moreover have "length (concat (map (\<lambda>(_, ranks). take cap (sort ranks)) xs)) \<le> cap * length xs" for xs :: "(string \<times> int list) list"
    by (induction xs) (auto simp: min_def)
  ultimately show ?thesis unfolding counted_ranks_def by (meson le_trans mult_le_mono2)
qed

text \<open>
  Repeating oneself does not corroborate: evidence already among the corroborators changes nothing
  when it is counted again, and one actor or connector source contributes at most two classes,
  however many sessions it observed the claim in.
\<close>

theorem repetition_adds_nothing:
  "(c \<in> set cs \<longrightarrow> corroboration_probability probs cap (cs @ [c]) = corroboration_probability probs cap cs) \<and>
   snd (corroboration_probability probs MAX_CLASSES_PER_ACTOR cs) \<le> 2 * card (ec_group ` set cs)"
proof
  show "c \<in> set cs \<longrightarrow> corroboration_probability probs cap (cs @ [c]) = corroboration_probability probs cap cs"
    by (simp add: corroboration_probability_def counted_ranks_def per_group_def strongest_by_key_repeat)
  show "snd (corroboration_probability probs MAX_CLASSES_PER_ACTOR cs) \<le> 2 * card (ec_group ` set cs)"
    using counted_bound [of cs 2] by (simp add: corroboration_probability_def MAX_CLASSES_PER_ACTOR_def Let_def)
qed

theorem repetition_adds_nothing_witness:
  "let c = \<lparr>ec_key = ''k'', ec_group = ''ann'', authority_rank = 3\<rparr>; probs = probabilities_from BASE_CONFIDENCE_BY_AUTHORITY
   in corroboration_probability probs 2 ([c] @ [c]) = (42/100, 1)"
proof -
  let ?c = "\<lparr>ec_key = ''k'', ec_group = ''ann'', authority_rank = 3\<rparr>"
  let ?p = "probabilities_from BASE_CONFIDENCE_BY_AUTHORITY"
  have "corroboration_probability ?p 2 [?c] = (42/100, 1)" by code_simp
  moreover have "corroboration_probability ?p 2 ([?c] @ [?c]) = corroboration_probability ?p 2 [?c]"
    using repetition_adds_nothing [of ?c "[?c]" ?p 2] by simp
  ultimately show ?thesis by (simp add: Let_def)
qed

subsection \<open>The label and the number\<close>

text \<open>
  The bucket is read off the score before it is rounded, so the label beside a stored value can
  contradict it: an owner's model inference corroborated by another one and by an observer's
  extraction is stored as 0.7 with the label moderate, while 0.7 is the lower bound of strong.
\<close>

theorem bucket_label_disagrees:
  "\<exists>s. score default_policy AUTHORITY_OWNER_INFERENCE
      [\<lparr>ec_key = ''k1'', ec_group = ''g1'', authority_rank = 2\<rparr>, \<lparr>ec_key = ''k2'', ec_group = ''g2'', authority_rank = 4\<rparr>]
      False False None False = Some s \<and>
    sc_value s = 70/100 \<and> sc_bucket s = ''moderate'' \<and> bucket_for (sc_value s) = ''strong''"
proof -
  let ?s = "score default_policy AUTHORITY_OWNER_INFERENCE
      [\<lparr>ec_key = ''k1'', ec_group = ''g1'', authority_rank = 2\<rparr>, \<lparr>ec_key = ''k2'', ec_group = ''g2'', authority_rank = 4\<rparr>]
      False False None False"
  have "case ?s of None \<Rightarrow> False | Some s \<Rightarrow>
      sc_value s = 70/100 \<and> sc_bucket s = ''moderate'' \<and> bucket_for (sc_value s) = ''strong''" by code_simp
  then show ?thesis by (auto split: option.splits)
qed

end
