(* ===== verification/Confidence_Decay.thy ===== *)
theory Confidence_Decay
  imports Confidence
begin

section \<open>Decay of confidence\<close>

text \<open>
  The model of \<open>contextplane/service/memory/confidence_decay.py\<close>: how long a claim of a category
  takes to lose half its value, how long a confirmation holds decay off, and what a stored
  score is worth at a later moment. The powers of two with a fractional exponent are real
  numbers here; instants are microseconds.
\<close>

definition CATEGORY_HALF_LIFE_DAYS :: "(string \<times> real) list" where
  "CATEGORY_HALF_LIFE_DAYS =
     [(''interface_contract'', 90), (''operational_lifecycle'', 120), (''dependency'', 180),
      (''ownership_stewardship'', 270), (''decision_rationale'', 730), (''session_summary'', 3650),
      (''incident_history'', 3650)]"

definition FLOOR :: real where "FLOOR = of_rat DECAY_FLOOR"
definition SUBJECT_VOLATILITY_BASELINE_DAYS :: real where "SUBJECT_VOLATILITY_BASELINE_DAYS = 30"
definition SUBJECT_VOLATILITY_MIN_FACTOR :: real where "SUBJECT_VOLATILITY_MIN_FACTOR = 1/2"
definition SUBJECT_VOLATILITY_MAX_FACTOR :: real where "SUBJECT_VOLATILITY_MAX_FACTOR = 2"
definition MIN_CHANGE_OBSERVATIONS :: int where "MIN_CHANGE_OBSERVATIONS = 3"
definition MAX_CONFIRMATION_HOLD_DAYS :: real where "MAX_CONFIRMATION_HOLD_DAYS = 180"
definition NON_DECAYING_VALUE_TYPES :: "string list" where "NON_DECAYING_VALUE_TYPES = [''prose'']"

definition fitted_base :: "string option \<Rightarrow> (string \<rightharpoonup> real) \<Rightarrow> real option" where
  "fitted_base predicate fitted =
     (case predicate of
        None \<Rightarrow> None
      | Some p \<Rightarrow> (case fitted p of None \<Rightarrow> None | Some m \<Rightarrow> if m \<le> 0 then None else Some m))"

definition subject_factor :: "real option \<Rightarrow> int \<Rightarrow> real" where
  "subject_factor median observations =
     (case median of
        None \<Rightarrow> 1
      | Some d \<Rightarrow>
          if observations < MIN_CHANGE_OBSERVATIONS \<or> d \<le> 0 then 1
          else min SUBJECT_VOLATILITY_MAX_FACTOR
                 (max SUBJECT_VOLATILITY_MIN_FACTOR (d / SUBJECT_VOLATILITY_BASELINE_DAYS)))"

definition tenant_scale :: "real \<Rightarrow> real" where
  "tenant_scale multiplier = max (1/100) multiplier"

definition half_life_days ::
    "string \<Rightarrow> string option \<Rightarrow> (string \<rightharpoonup> real) \<Rightarrow> real option \<Rightarrow> int \<Rightarrow> real \<Rightarrow> real" where
  "half_life_days category predicate fitted median observations multiplier =
     (case fitted_base predicate fitted of
        Some base \<Rightarrow> base * subject_factor median observations * tenant_scale multiplier
      | None \<Rightarrow>
          (let base = (case map_of CATEGORY_HALF_LIFE_DAYS category of
                         Some b \<Rightarrow> b | None \<Rightarrow> Max (set (map snd CATEGORY_HALF_LIFE_DAYS)))
           in base * subject_factor median observations * tenant_scale multiplier))"

definition confirmation_hold_days :: "string \<Rightarrow> real option \<Rightarrow> real" where
  "confirmation_hold_days category configured =
     (let ceiling = (case map_of CATEGORY_HALF_LIFE_DAYS category of Some b \<Rightarrow> b | None \<Rightarrow> MAX_CONFIRMATION_HOLD_DAYS);
          limit = (case configured of Some c \<Rightarrow> c | None \<Rightarrow> MAX_CONFIRMATION_HOLD_DAYS)
      in min limit ceiling)"

definition days_between :: "moment \<Rightarrow> moment \<Rightarrow> real" where
  "days_between start now = real_of_int (now - start) / 1000000 / 86400"

definition effective_confidence ::
    "real \<Rightarrow> moment \<Rightarrow> real \<Rightarrow> moment \<Rightarrow> moment option \<Rightarrow> string option \<Rightarrow> real" where
  "effective_confidence stored scored_at half_life now hold_until value_type =
     (if (case value_type of Some v \<Rightarrow> v \<in> set NON_DECAYING_VALUE_TYPES | None \<Rightarrow> False) then stored
      else if half_life \<le> 0 then stored
      else if (case hold_until of Some h \<Rightarrow> now < h | None \<Rightarrow> False) then stored
      else let start = (case hold_until of Some h \<Rightarrow> h | None \<Rightarrow> scored_at);
               age_days = max 0 (days_between start now)
           in FLOOR + (stored - FLOOR) * 2 powr (- age_days / half_life))"

subsection \<open>The shape of the decay\<close>

lemma half_life_positive: "0 < half_life_days category predicate fitted median observations multiplier"
proof -
  have "0 < subject_factor median observations" "0 < tenant_scale multiplier"
    by (auto simp: subject_factor_def tenant_scale_def SUBJECT_VOLATILITY_MIN_FACTOR_def
        SUBJECT_VOLATILITY_MAX_FACTOR_def split: option.splits)
  moreover have "0 < b" if "map_of CATEGORY_HALF_LIFE_DAYS category = Some b" for b
    using that by (auto simp: CATEGORY_HALF_LIFE_DAYS_def split: if_splits)
  moreover have "0 < Max (set (map snd CATEGORY_HALF_LIFE_DAYS))" by (simp add: CATEGORY_HALF_LIFE_DAYS_def)
  moreover have "0 < b" if "fitted_base predicate fitted = Some b" for b
    using that by (auto simp: fitted_base_def split: option.splits if_splits)
  ultimately show ?thesis
    by (auto simp: half_life_days_def Let_def split: option.splits)
qed

text \<open>The half-life stays within a factor of two of the base it modifies, up to the tenant's own scale.\<close>

lemma subject_factor_range: "1/2 \<le> subject_factor m n \<and> subject_factor m n \<le> 2"
  by (auto simp: subject_factor_def SUBJECT_VOLATILITY_MIN_FACTOR_def SUBJECT_VOLATILITY_MAX_FACTOR_def
      min_def max_def split: option.splits)

definition ageing :: "real \<Rightarrow> real \<Rightarrow> real \<Rightarrow> real" where
  "ageing h stored days = FLOOR + (stored - FLOOR) * 2 powr (- days / h)"

lemma effective_ageing:
  assumes "0 < h" "hold_until = None \<or> (\<exists>u. hold_until = Some u \<and> u \<le> now)" "value_type \<noteq> Some ''prose''"
  shows "effective_confidence stored scored_at h now hold_until value_type =
    ageing h stored (max 0 (days_between (case hold_until of Some u \<Rightarrow> u | None \<Rightarrow> scored_at) now))"
  using assms by (auto simp: effective_confidence_def ageing_def NON_DECAYING_VALUE_TYPES_def Let_def split: option.splits)

lemma ageing_range:
  assumes "0 < h" "FLOOR \<le> stored" "0 \<le> d"
  shows "FLOOR \<le> ageing h stored d \<and> ageing h stored d \<le> stored"
proof -
  have "2 powr (- d / h) \<le> 2 powr 0" using assms by (intro powr_mono) (simp_all add: divide_nonneg_pos)
  then have "(stored - FLOOR) * 2 powr (- d / h) \<le> stored - FLOOR" using assms(2) by (simp add: mult_left_le)
  then show ?thesis using assms(2) by (simp add: ageing_def)
qed

lemma ageing_compose: "ageing h (ageing h stored d) e = ageing h stored (d + e)"
proof -
  have "- (d + e) / h = - d / h + - e / h" by (simp add: diff_divide_distrib)
  then have "2 powr (- (d + e) / h) = 2 powr (- d / h) * 2 powr (- e / h)" by (simp only: powr_add)
  then show ?thesis by (simp add: ageing_def)
qed

lemma days_between_split: "days_between a c = days_between a b + days_between b c"
  by (simp add: days_between_def field_simps)

lemma days_between_nonneg: "a \<le> b \<Longrightarrow> 0 \<le> days_between a b"
  by (simp add: days_between_def)

text \<open>
  Ageing only ever lowers a score, never below the floor, and it composes: for a score at or above
  the floor and any half-life the module computes, the value at a later moment lies between the
  floor and the value at an earlier one, and ageing first to one moment and from there to a
  later one gives the value the direct computation gives; while a confirmation holds, and for
  prose, the score is unchanged.
\<close>

theorem decay_law:
  assumes "FLOOR \<le> stored" "scored_at \<le> t1" "t1 \<le> t2" "value_type \<noteq> Some ''prose''"
    and "h = half_life_days category predicate fitted median observations multiplier"
  shows "FLOOR \<le> effective_confidence stored scored_at h t2 None value_type \<and>
    effective_confidence stored scored_at h t2 None value_type \<le> effective_confidence stored scored_at h t1 None value_type \<and>
    effective_confidence stored scored_at h t1 None value_type \<le> stored \<and>
    effective_confidence (effective_confidence stored scored_at h t1 None value_type) t1 h t2 None value_type =
      effective_confidence stored scored_at h t2 None value_type \<and>
    effective_confidence stored scored_at h t1 (Some t2) value_type =
      (if t1 < t2 then stored else effective_confidence stored t2 h t1 None value_type) \<and>
    effective_confidence stored scored_at h t2 None (Some ''prose'') = stored"
proof -
  have h: "0 < h" using assms(5) half_life_positive by simp
  let ?e = "\<lambda>s a t. effective_confidence s a h t None value_type"
  have eq: "?e s a t = ageing h s (max 0 (days_between a t))" for s a t
    using effective_ageing [OF h, of None] assms(4) by simp
  have d: "0 \<le> days_between scored_at t1" "0 \<le> days_between t1 t2" "0 \<le> days_between scored_at t2"
    using assms(2,3) by (auto intro: days_between_nonneg)
  have comp: "?e (?e stored scored_at t1) t1 t2 = ?e stored scored_at t2"
    using d days_between_split [of scored_at t2 t1] by (simp add: eq ageing_compose)
  have r1: "FLOOR \<le> ?e stored scored_at t1 \<and> ?e stored scored_at t1 \<le> stored"
    unfolding eq by (rule ageing_range [OF h assms(1)]) simp
  have r2: "FLOOR \<le> ?e (?e stored scored_at t1) t1 t2 \<and> ?e (?e stored scored_at t1) t1 t2 \<le> ?e stored scored_at t1"
    unfolding eq [of "?e stored scored_at t1"] by (rule ageing_range [OF h]) (use r1 in simp_all)
  have hold: "effective_confidence stored scored_at h t1 (Some t2) value_type =
      (if t1 < t2 then stored else ?e stored t2 t1)"
    using h assms(4) by (auto simp: effective_confidence_def NON_DECAYING_VALUE_TYPES_def Let_def split: option.splits)
  have prose: "effective_confidence stored scored_at h t2 None (Some ''prose'') = stored"
    by (simp add: effective_confidence_def NON_DECAYING_VALUE_TYPES_def)
  show ?thesis using r1 r2 comp hold prose by simp
qed

theorem decay_law_witness:
  "effective_confidence (9/10) 0 90 (90 * 86400 * 1000000) None None = 1/2 \<and>
   effective_confidence (9/10) 0 90 (90 * 86400 * 1000000) None None \<le> 9/10"
proof -
  have h: "half_life_days ''interface_contract'' None Map.empty None 0 1 = 90"
    by (simp add: half_life_days_def fitted_base_def CATEGORY_HALF_LIFE_DAYS_def subject_factor_def tenant_scale_def)
  have "FLOOR \<le> 9/10" by (simp add: FLOOR_def DECAY_FLOOR_def of_rat_divide)
  then have "effective_confidence (9/10) 0 90 (90 * 86400 * 1000000) None None \<le> 9/10"
    using decay_law [of "9/10" 0 "90 * 86400 * 1000000" "90 * 86400 * 1000000" None 90 "''interface_contract''" None Map.empty None 0 1] h
    by simp
  moreover have "effective_confidence (9/10) 0 90 (90 * 86400 * 1000000) None None = 1/2"
    by (simp add: effective_confidence_def days_between_def FLOOR_def DECAY_FLOOR_def of_rat_divide powr_minus)
  ultimately show ?thesis by simp
qed

end
