(* ===== verification/Claim_Compare.thy ===== *)
theory Claim_Compare
  imports Complex_Main Version_Predicates
begin

section \<open>Comparing the values of claims\<close>

text \<open>
  The model of \<open>contextplane/service/memory/claim_compare.py\<close>: whether two values of one predicate
  can both hold, the interval reading of version predicates, near-duplicate names, and overlap of
  effective intervals. A stored value is a JSON value. Text is ASCII, where Unicode
  normalisation is the identity and case folding is lower case. Comparison of decimals, parsing of
  instants and splitting of URLs are parameters (\<open>None\<close> when the library call raises or gives
  nothing), as is the parser of versions. The tolerance \<open>floor(0.02 * n)\<close> is \<open>n div 50\<close>.
\<close>

subsection \<open>Data and parameters\<close>

datatype verdict = COMPATIBLE | INCOMPATIBLE | UNDECIDABLE

definition DURATION_MINIMUM_TOLERANCE_SECONDS :: int where "DURATION_MINIMUM_TOLERANCE_SECONDS = 1"

definition DEFAULT_PORTS :: "(string \<times> int) list" where "DEFAULT_PORTS = [(''http'', 80), (''https'', 443)]"

record url_parts =
  u_scheme :: string
  u_hostname :: "string option"
  u_port :: "int option option"
  u_path :: string
  u_query :: string

record 'v lib =
  decimal_eq :: "json \<Rightarrow> json \<Rightarrow> bool option"
  iso_instant :: "string \<Rightarrow> (bool \<times> moment) option"
  urlsplit :: "string \<Rightarrow> url_parts option"
  semver_parse :: "string \<Rightarrow> 'v option"

subsection \<open>Version ranges as intervals\<close>

record 'v bounds =
  lower :: "'v option"
  lower_inclusive :: bool
  upper :: "'v option"
  upper_inclusive :: bool

definition no_bounds :: "'v bounds" where
  "no_bounds = \<lparr>lower = None, lower_inclusive = True, upper = None, upper_inclusive = False\<rparr>"

definition split_atomic :: "string \<Rightarrow> string option \<times> string" where
  "split_atomic atomic =
     (case find (\<lambda>op. py_startswith op atomic) [''>='', ''<='', ''=='', ''!='', ''>'', ''<''] of
        Some op \<Rightarrow> (Some op, drop (length op) atomic)
      | None \<Rightarrow> (None, atomic))"

definition raise_lower :: "'v::linorder bounds \<Rightarrow> 'v \<Rightarrow> bool \<Rightarrow> 'v bounds" where
  "raise_lower b v inclusive =
     (case lower b of
        None \<Rightarrow> b\<lparr>lower := Some v, lower_inclusive := inclusive\<rparr>
      | Some l \<Rightarrow> if v > l then b\<lparr>lower := Some v, lower_inclusive := inclusive\<rparr>
          else if v = l \<and> \<not> inclusive then b\<lparr>lower_inclusive := False\<rparr> else b)"

definition lower_upper :: "'v::linorder bounds \<Rightarrow> 'v \<Rightarrow> bool \<Rightarrow> 'v bounds" where
  "lower_upper b v inclusive =
     (case upper b of
        None \<Rightarrow> b\<lparr>upper := Some v, upper_inclusive := inclusive\<rparr>
      | Some u \<Rightarrow> if v < u then b\<lparr>upper := Some v, upper_inclusive := inclusive\<rparr>
          else if v = u \<and> \<not> inclusive then b\<lparr>upper_inclusive := False\<rparr> else b)"

definition narrow :: "string \<Rightarrow> 'v::linorder \<Rightarrow> 'v bounds \<Rightarrow> 'v bounds option" where
  "narrow op v b =
     (if op = ''=='' then Some (lower_upper (raise_lower b v True) v True)
      else if op = ''>='' then Some (raise_lower b v True)
      else if op = ''>'' then Some (raise_lower b v False)
      else if op = ''<='' then Some (lower_upper b v True)
      else if op = ''<'' then Some (lower_upper b v False)
      else if op = ''!='' then Some b
      else None)"

fun narrow_all :: "(string \<Rightarrow> 'v::linorder option) \<Rightarrow> string list \<Rightarrow> 'v bounds \<Rightarrow> 'v bounds option" where
  "narrow_all parse [] b = Some b"
| "narrow_all parse (atomic # rest) b =
     (case split_atomic atomic of
        (None, _) \<Rightarrow> None
      | (Some op, raw) \<Rightarrow>
          (case parse_version parse raw of
             None \<Rightarrow> None
           | Some v \<Rightarrow> (case narrow op v b of None \<Rightarrow> None | Some b' \<Rightarrow> narrow_all parse rest b')))"

definition bounds_of :: "(string \<Rightarrow> 'v::linorder option) \<Rightarrow> string \<Rightarrow> 'v bounds option" where
  "bounds_of parse predicate =
     (case predicate_to_atomics parse predicate of
        None \<Rightarrow> None
      | Some atomics \<Rightarrow> if atomics = [] then Some no_bounds else narrow_all parse atomics no_bounds)"

definition tighter_lower :: "'v::linorder bounds \<Rightarrow> 'v bounds \<Rightarrow> 'v option \<times> bool" where
  "tighter_lower lhs rhs =
     (case (lower lhs, lower rhs) of
        (None, _) \<Rightarrow> (lower rhs, lower_inclusive rhs)
      | (_, None) \<Rightarrow> (lower lhs, lower_inclusive lhs)
      | (Some a, Some b) \<Rightarrow>
          if a > b then (Some a, lower_inclusive lhs)
          else if b > a then (Some b, lower_inclusive rhs)
          else (Some a, lower_inclusive lhs \<and> lower_inclusive rhs))"

definition tighter_upper :: "'v::linorder bounds \<Rightarrow> 'v bounds \<Rightarrow> 'v option \<times> bool" where
  "tighter_upper lhs rhs =
     (case (upper lhs, upper rhs) of
        (None, _) \<Rightarrow> (upper rhs, upper_inclusive rhs)
      | (_, None) \<Rightarrow> (upper lhs, upper_inclusive lhs)
      | (Some a, Some b) \<Rightarrow>
          if a < b then (Some a, upper_inclusive lhs)
          else if b < a then (Some b, upper_inclusive rhs)
          else (Some a, upper_inclusive lhs \<and> upper_inclusive rhs))"

definition compare_version_ranges :: "(string \<Rightarrow> 'v::linorder option) \<Rightarrow> json \<Rightarrow> json \<Rightarrow> verdict" where
  "compare_version_ranges parse left right =
     (case (left, right) of
        (JStr l, JStr r) \<Rightarrow>
          (case (bounds_of parse l, bounds_of parse r) of
             (Some lhs, Some rhs) \<Rightarrow>
               (case (tighter_lower lhs rhs, tighter_upper lhs rhs) of
                  ((Some lo, lo_inclusive), (Some hi, hi_inclusive)) \<Rightarrow>
                    if lo > hi then INCOMPATIBLE
                    else if lo = hi \<and> \<not> (lo_inclusive \<and> hi_inclusive) then INCOMPATIBLE
                    else COMPATIBLE
                | _ \<Rightarrow> COMPATIBLE)
           | _ \<Rightarrow> UNDECIDABLE)
      | _ \<Rightarrow> UNDECIDABLE)"

subsection \<open>The other value types\<close>

definition fold_text :: "string \<Rightarrow> string" where
  "fold_text text = py_casefold (py_join '' '' (py_words text))"

text \<open>A parsed instant says whether it is aware of its zone; an aware one never equals a naive one.\<close>

definition parse_instant :: "'v lib \<Rightarrow> json \<Rightarrow> (bool \<times> moment) option" where
  "parse_instant L v =
     (case v of
        JStr s \<Rightarrow> iso_instant L (concat (map (\<lambda>c. if c = CHR ''Z'' then ''+00:00'' else [c]) s))
      | _ \<Rightarrow> None)"

text \<open>A port is absent (\<open>Some None\<close>), a number, or refused by the library (\<open>None\<close>).\<close>

definition normalize_url :: "'v lib \<Rightarrow> json \<Rightarrow> (string \<times> string \<times> string \<times> string) option" where
  "normalize_url L v =
     (case v of
        JStr s \<Rightarrow>
          if py_strip s = [] then None
          else (case urlsplit L (py_strip s) of
                  None \<Rightarrow> None
                | Some parts \<Rightarrow>
                    (case u_hostname parts of
                       None \<Rightarrow> None
                     | Some hostname \<Rightarrow>
                         if u_scheme parts = [] \<or> hostname = [] then None
                         else let scheme = py_casefold (u_scheme parts); host = py_casefold hostname in
                           (case u_port parts of
                              None \<Rightarrow> None
                            | Some port \<Rightarrow>
                                let netloc = (case port of
                                      None \<Rightarrow> host
                                    | Some n \<Rightarrow> if map_of DEFAULT_PORTS scheme = Some n then host
                                        else host @ '':'' @ show_int n);
                                    path = u_path parts;
                                    path' = (if length path > 1 \<and> py_endswith ''/'' path then butlast path else path)
                                in Some (scheme, netloc, path', u_query parts))))
      | _ \<Rightarrow> None)"

definition compare_entity_ref :: "json \<Rightarrow> json \<Rightarrow> string option \<Rightarrow> string option \<Rightarrow> verdict" where
  "compare_entity_ref left right left_id right_id =
     (case (left_id, right_id) of
        (Some a, Some b) \<Rightarrow> if a = b then COMPATIBLE else INCOMPATIBLE
      | (None, None) \<Rightarrow>
          (case (left, right) of
             (JStr l, JStr r) \<Rightarrow> if py_strip l = py_strip r then COMPATIBLE else UNDECIDABLE
           | _ \<Rightarrow> UNDECIDABLE)
      | _ \<Rightarrow> UNDECIDABLE)"

definition by_equality :: "'a option \<Rightarrow> 'a option \<Rightarrow> verdict" where
  "by_equality l r =
     (case (l, r) of (Some a, Some b) \<Rightarrow> if a = b then COMPATIBLE else INCOMPATIBLE | _ \<Rightarrow> UNDECIDABLE)"

definition as_bool :: "json \<Rightarrow> bool option" where
  "as_bool v = (case v of JBool b \<Rightarrow> Some b | _ \<Rightarrow> None)"

definition as_int :: "json \<Rightarrow> int option" where
  "as_int v = (case v of JInt i \<Rightarrow> Some i | _ \<Rightarrow> None)"

definition as_folded :: "json \<Rightarrow> string option" where
  "as_folded v = (case v of JStr s \<Rightarrow> Some (fold_text s) | _ \<Rightarrow> None)"

definition values_compatible ::
    "'v::linorder lib \<Rightarrow> string \<Rightarrow> json \<Rightarrow> json \<Rightarrow> string option \<Rightarrow> string option \<Rightarrow> verdict" where
  "values_compatible L value_type left right left_id right_id =
     (if value_type = ''prose'' then UNDECIDABLE
      else if value_type = ''boolean'' then by_equality (as_bool left) (as_bool right)
      else if value_type = ''integer'' \<or> value_type = ''bytes'' then by_equality (as_int left) (as_int right)
      else if value_type = ''duration_seconds''
      then (case (as_int left, as_int right) of
              (Some l, Some r) \<Rightarrow>
                (let tolerance = max DURATION_MINIMUM_TOLERANCE_SECONDS (max \<bar>l\<bar> \<bar>r\<bar> div 50) in
                 if \<bar>l - r\<bar> \<le> tolerance then COMPATIBLE else INCOMPATIBLE)
            | _ \<Rightarrow> UNDECIDABLE)
      else if value_type = ''decimal''
      then (case decimal_eq L left right of
              None \<Rightarrow> UNDECIDABLE | Some e \<Rightarrow> if e then COMPATIBLE else INCOMPATIBLE)
      else if value_type = ''timestamp_utc'' then by_equality (parse_instant L left) (parse_instant L right)
      else if value_type = ''string'' \<or> value_type = ''enum'' then by_equality (as_folded left) (as_folded right)
      else if value_type = ''url'' then by_equality (normalize_url L left) (normalize_url L right)
      else if value_type = ''entity_ref'' then compare_entity_ref left right left_id right_id
      else if value_type = ''version_predicate'' then compare_version_ranges (semver_parse L) left right
      else UNDECIDABLE)"

subsection \<open>Near duplicates and intervals\<close>

definition NOISE_TOKENS :: "string list" where
  "NOISE_TOKENS = [''the'', ''a'', ''an'', ''of'', ''team'', ''group'', ''squad'']"

definition token_char :: "char \<Rightarrow> bool" where
  "token_char c \<longleftrightarrow> is_digit c \<or> (let n = (of_char c :: nat) in 97 \<le> n \<and> n \<le> 122)"

text \<open>The maximal runs of token characters: what splitting at the others leaves, empty pieces dropped.\<close>

fun token_runs :: "string \<Rightarrow> string \<Rightarrow> string list" where
  "token_runs cur [] = (if cur = [] then [] else [rev cur])"
| "token_runs cur (c # cs) =
     (if token_char c then token_runs (c # cur) cs
      else if cur = [] then token_runs [] cs else rev cur # token_runs [] cs)"

definition value_tokens :: "json \<Rightarrow> string fset" where
  "value_tokens v =
     (case v of
        JStr s \<Rightarrow>
          (let tokens = fset_of_list (token_runs [] (py_casefold s));
               identity = tokens |-| fset_of_list NOISE_TOKENS
           in if identity \<noteq> {||} then identity else tokens)
      | _ \<Rightarrow> {||})"

definition token_similarity :: "json \<Rightarrow> json \<Rightarrow> rat" where
  "token_similarity left right =
     (let a = value_tokens left; b = value_tokens right in
      if a = {||} \<and> b = {||} then 1
      else if a = {||} \<or> b = {||} then 0
      else of_nat (fcard (a |\<inter>| b)) / of_nat (fcard (a |\<union>| b)))"

definition is_near_duplicate :: "string \<Rightarrow> json \<Rightarrow> json \<Rightarrow> bool \<times> rat" where
  "is_near_duplicate value_type left right =
     (if value_type \<noteq> ''string'' \<and> value_type \<noteq> ''enum'' then (False, 0)
      else let similarity = token_similarity left right in (similarity = 1, similarity))"

definition intervals_overlap :: "moment \<Rightarrow> moment option \<Rightarrow> moment \<Rightarrow> moment option \<Rightarrow> bool" where
  "intervals_overlap from_a to_a from_b to_b =
     (if (case to_a of Some t \<Rightarrow> t \<le> from_b | None \<Rightarrow> False) then False
      else if (case to_b of Some t \<Rightarrow> t \<le> from_a | None \<Rightarrow> False) then False
      else True)"

subsection \<open>Conflicting version ranges are disjoint\<close>

text \<open>
  What is relied on of \<open>semver\<close>: when \<open>match\<close> answers yes for an operator and a text, the
  comparison with the version that text denotes holds.
\<close>

definition semver_match_sound :: "(string \<Rightarrow> 'v::linorder option) \<Rightarrow> ('v \<Rightarrow> string \<Rightarrow> bool option) \<Rightarrow> bool" where
  "semver_match_sound parse vmatch \<longleftrightarrow>
     (\<forall>op raw w v. op \<in> set valid_ops \<longrightarrow> parse_version parse raw = Some w \<longrightarrow> vmatch v (op @ raw) = Some True \<longrightarrow>
        cmp_holds op v w)"

definition in_range :: "'v::linorder bounds \<Rightarrow> 'v \<Rightarrow> bool" where
  "in_range b v \<longleftrightarrow>
     (\<forall>l. lower b = Some l \<longrightarrow> l \<le> v \<and> (l = v \<longrightarrow> lower_inclusive b)) \<and>
     (\<forall>u. upper b = Some u \<longrightarrow> v \<le> u \<and> (u = v \<longrightarrow> upper_inclusive b))"

lemma in_range_raise_lower:
  "in_range b v \<Longrightarrow> w \<le> v \<Longrightarrow> (w = v \<longrightarrow> inclusive) \<Longrightarrow> in_range (raise_lower b w inclusive) v"
  by (auto simp: in_range_def raise_lower_def split: option.splits)

lemma in_range_lower_upper:
  "in_range b v \<Longrightarrow> v \<le> w \<Longrightarrow> (w = v \<longrightarrow> inclusive) \<Longrightarrow> in_range (lower_upper b w inclusive) v"
  by (auto simp: in_range_def lower_upper_def split: option.splits)

lemma narrow_sound:
  assumes "narrow op w b = Some b'" "cmp_holds op v w" "in_range b v"
  shows "in_range b' v"
  using assms
  by (auto simp: narrow_def cmp_holds_def split: if_splits
      intro!: in_range_raise_lower in_range_lower_upper)

lemma split_atomic_Some:
  "split_atomic atomic = (Some op, raw) \<Longrightarrow> atomic = op @ raw \<and> op \<in> set valid_ops"
  by (auto simp: split_atomic_def valid_ops_def py_startswith_def split: if_splits option.splits)

lemma narrow_all_sound:
  assumes "semver_match_sound parse vmatch" "narrow_all parse atomics b = Some b'"
    and "\<forall>atomic \<in> set atomics. vmatch v atomic = Some True" "in_range b v"
  shows "in_range b' v"
  using assms(2-)
proof (induction atomics arbitrary: b)
  case Nil
  then show ?case by simp
next
  case (Cons atomic rest)
  then obtain op raw w b1 where step: "split_atomic atomic = (Some op, raw)" "parse_version parse raw = Some w"
      "narrow op w b = Some b1" "narrow_all parse rest b1 = Some b'"
    by (auto split: prod.splits option.splits)
  from split_atomic_Some [OF step(1)] have "cmp_holds op v w"
    using assms(1) step(2) Cons.prems(2) by (auto simp: semver_match_sound_def)
  then have "in_range b1 v" using narrow_sound [OF step(3)] Cons.prems(3) by blast
  with Cons step(4) show ?case by simp
qed

lemma bounds_of_sound:
  assumes "semver_match_sound parse vmatch" "bounds_of parse p = Some b"
    and "evaluate_version_predicate parse vmatch version p"
    and "parse_version parse (py_strip version) = Some v"
  shows "in_range b v"
proof -
  have "in_range no_bounds v" by (simp add: in_range_def no_bounds_def)
  then show ?thesis
    using assms(2-4) narrow_all_sound [OF assms(1)]
    by (auto simp: bounds_of_def evaluate_version_predicate_def parse_version_def split: option.splits if_splits)
qed

lemma tighter_conflict:
  assumes "in_range lhs v" "in_range rhs v" "tighter_lower lhs rhs = (Some lo, li)" "tighter_upper lhs rhs = (Some hi, ui)"
  shows "lo \<le> v \<and> v \<le> hi \<and> (lo = v \<longrightarrow> li) \<and> (hi = v \<longrightarrow> ui)"
  using assms
  by (auto simp: in_range_def tighter_lower_def tighter_upper_def split: option.splits if_splits)

text \<open>
  C40. Two version ranges reported as contradictory really are: when \<open>_compare_version_ranges\<close> answers
  incompatible, no version satisfies both predicates, whatever carets, tildes, operators and
  conjunctions they use.
\<close>

theorem version_conflict_sound:
  assumes "semver_match_sound parse vmatch"
    and "compare_version_ranges parse (JStr p) (JStr q) = INCOMPATIBLE"
  shows "\<not> (evaluate_version_predicate parse vmatch version p \<and> evaluate_version_predicate parse vmatch version q)"
proof
  assume sat: "evaluate_version_predicate parse vmatch version p \<and> evaluate_version_predicate parse vmatch version q"
  obtain lhs rhs where b: "bounds_of parse p = Some lhs" "bounds_of parse q = Some rhs"
    using assms(2) by (auto simp: compare_version_ranges_def split: option.splits)
  obtain v where v: "parse_version parse (py_strip version) = Some v"
    using sat by (auto simp: evaluate_version_predicate_def parse_version_def split: option.splits)
  have w: "in_range lhs v" "in_range rhs v"
    using bounds_of_sound [OF assms(1)] b sat v by blast+
  obtain lo li hi ui where t: "tighter_lower lhs rhs = (Some lo, li)" "tighter_upper lhs rhs = (Some hi, ui)"
      "lo > hi \<or> (lo = hi \<and> \<not> (li \<and> ui))"
    using assms(2) b by (auto simp: compare_version_ranges_def split: option.splits prod.splits if_splits)
  from tighter_conflict [OF w t(1,2)] t(3) show False by auto
qed

lemma strip_keeps_head:
  assumes "\<not> py_isspace c"
  shows "\<exists>t. py_strip (c # x) = c # t"
  using assms by (simp add: py_strip_def dropWhile_append3)

lemma split_head: "c \<noteq> sep \<Longrightarrow> \<exists>p ps. py_split sep (c # t) = (c # p) # ps"
  by (cases "py_split sep t") auto

lemma coerce_equals_sign: "coerce_version (CHR ''='' # x) = Some s \<Longrightarrow> \<exists>t. s = CHR ''='' # t"
proof -
  assume s: "coerce_version (CHR ''='' # x) = Some s"
  obtain t where t: "py_strip (CHR ''='' # x) = CHR ''='' # t"
    using strip_keeps_head [of "CHR ''=''" x] by (auto simp: py_isspace_def)
  obtain p ps where ps: "py_split CHR ''.'' (CHR ''='' # t) = (CHR ''='' # p) # ps"
    using split_head [of "CHR ''=''" "CHR ''.''" t] by auto
  have "s = CHR ''='' # t \<or> s = (CHR ''='' # p) @ ''.0.0'' \<or> (\<exists>q. s = (CHR ''='' # p) @ q)"
    using s unfolding coerce_version_def t
    by (auto simp: py_lstrip_chars_def Let_def ps simp del: py_split.simps split: list.splits option.splits)
  then show ?thesis by auto
qed

lemma release_parse_coerced:
  assumes "release_parse raw = Some w"
  shows "coerce_version raw = Some raw"
proof -
  obtain a b d where split: "py_split CHR ''.'' raw = [a, b, d]"
      and parts: "release_part a \<noteq> None" "release_part b \<noteq> None" "release_part d \<noteq> None"
    using assms by (auto simp: release_parse_def split: list.splits option.splits)
  have raw: "raw = a @ ''.'' @ b @ ''.'' @ d"
    using concat_py_split [of "CHR ''.''" raw] split by (simp add: py_join_def)
  have "is_digit c \<or> c = CHR ''.''" if "c \<in> set raw" for c
    using that parts unfolding raw by (auto simp: release_part_def split: if_splits)
  then have "\<not> py_isspace c \<and> c \<noteq> CHR ''v''" if "c \<in> set raw" for c
    using that by (fastforce simp: is_digit_def digit_val_def py_isspace_def Let_def split: if_splits)
  then have "py_strip raw = raw" "py_lstrip_chars ''v'' raw = raw"
    by (auto simp: py_strip_no_space py_lstrip_chars_def intro: dropWhile_id dest: hd_in_set)
  then show ?thesis using split by (simp add: coerce_version_def)
qed

lemma release_match_sound: "semver_match_sound release_parse release_match"
proof -
  have "cmp_holds op v w"
    if op: "op \<in> set valid_ops" and w: "parse_version release_parse raw = Some w"
      and yes: "release_match v (op @ raw) = Some True" for op raw w v
  proof (cases "release_parse raw")
    case (Some w')
    then have "w = w'" using w release_parse_coerced by (simp add: parse_version_def)
    moreover have "release_match v (op @ raw) = Some (cmp_holds op v w')"
      using release_match_law op Some unfolding semver_match_law_def by blast
    ultimately show ?thesis using yes by simp
  next
    case None
    have none: "release_parse (CHR ''='' # x) = None" for x
      using release_parse_hd_digit [of "CHR ''='' # x"] by (cases "release_parse (CHR ''='' # x)") (auto simp: is_digit_def digit_val_def)
    have no_equals: "\<not> (\<exists>x. raw = CHR ''='' # x)"
    proof
      assume "\<exists>x. raw = CHR ''='' # x"
      then obtain s where "coerce_version raw = Some s" "release_parse s = Some w" "\<exists>t. s = CHR ''='' # t"
        using w coerce_equals_sign by (auto simp: parse_version_def split: option.splits)
      then show False using none by auto
    qed
    with none None op no_equals have "release_match v (op @ raw) = None"
      by (cases raw) (auto simp: release_match_def valid_ops_def py_startswith_def)
    with yes show ?thesis by simp
  qed
  then show ?thesis by (simp add: semver_match_sound_def)
qed

theorem version_conflict_sound_witness:
  "compare_version_ranges release_parse (JStr ''^1.2.0'') (JStr ''>=2.0.0,<3.0.0'') = INCOMPATIBLE \<and>
   \<not> (evaluate_version_predicate release_parse release_match ''1.5.0'' ''^1.2.0'' \<and>
      evaluate_version_predicate release_parse release_match ''1.5.0'' ''>=2.0.0,<3.0.0'')"
proof -
  have "compare_version_ranges release_parse (JStr ''^1.2.0'') (JStr ''>=2.0.0,<3.0.0'') = INCOMPATIBLE" by code_simp
  then show ?thesis
    using version_conflict_sound [OF release_match_sound, of "''^1.2.0''" "''>=2.0.0,<3.0.0''" "''1.5.0''"] by blast
qed

subsection \<open>Verdicts do not depend on who is asked first\<close>

lemma by_equality_sym: "by_equality l r = by_equality r l"
  by (auto simp: by_equality_def split: option.splits)

lemma tighter_lower_sym: "tighter_lower a b = (Some l, i) \<longleftrightarrow> tighter_lower b a = (Some l, i)"
  by (auto simp: tighter_lower_def split: option.splits if_splits)

lemma tighter_upper_sym: "tighter_upper a b = (Some u, i) \<longleftrightarrow> tighter_upper b a = (Some u, i)"
  by (auto simp: tighter_upper_def split: option.splits if_splits)

definition ranges_conflict :: "'v::linorder bounds \<Rightarrow> 'v bounds \<Rightarrow> bool" where
  "ranges_conflict a b \<longleftrightarrow>
     (\<exists>lo li hi ui. tighter_lower a b = (Some lo, li) \<and> tighter_upper a b = (Some hi, ui) \<and>
        (lo > hi \<or> lo = hi \<and> \<not> (li \<and> ui)))"

lemma ranges_conflict_sym: "ranges_conflict a b = ranges_conflict b a"
  unfolding ranges_conflict_def tighter_lower_sym [of a b] tighter_upper_sym [of a b] by (rule refl)

lemma compare_version_ranges_alt:
  "compare_version_ranges parse (JStr l) (JStr r) =
     (case (bounds_of parse l, bounds_of parse r) of
        (Some a, Some b) \<Rightarrow> if ranges_conflict a b then INCOMPATIBLE else COMPATIBLE
      | _ \<Rightarrow> UNDECIDABLE)"
  by (auto simp: compare_version_ranges_def ranges_conflict_def split: option.splits prod.splits)

lemma compare_version_ranges_sym: "compare_version_ranges parse l r = compare_version_ranges parse r l"
proof (cases "\<exists>a b. l = JStr a \<and> r = JStr b")
  case True
  then obtain a b where "l = JStr a" "r = JStr b" by blast
  then show ?thesis
    using ranges_conflict_sym by (auto simp: compare_version_ranges_alt split: option.splits)
next
  case False
  then show ?thesis by (auto simp: compare_version_ranges_def split: json.splits)
qed

text \<open>
  The verdict is symmetric for every value type: which of two claims is compared with the other
  makes no difference, provided equality of decimals is symmetric.
\<close>

theorem values_compatible_sym:
  assumes "\<forall>l r. decimal_eq L l r = decimal_eq L r l"
  shows "values_compatible L t left right lid rid = values_compatible L t right left rid lid"
proof -
  have e: "decimal_eq L left right = decimal_eq L right left" using assms by blast
  have ref: "compare_entity_ref left right lid rid = compare_entity_ref right left rid lid"
    by (auto simp: compare_entity_ref_def split: option.splits json.splits)
  show ?thesis
    unfolding values_compatible_def e ref
    by (simp add: by_equality_sym [of _ "as_bool left"] by_equality_sym [of _ "as_int left"]
        by_equality_sym [of _ "parse_instant L left"] by_equality_sym [of _ "as_folded left"]
        by_equality_sym [of _ "normalize_url L left"] compare_version_ranges_sym [of _ left right]
        abs_minus_commute max.commute split: option.splits)
qed

definition sample_lib :: "(nat \<times> nat \<times> nat) lib" where
  "sample_lib = \<lparr>decimal_eq = (\<lambda>l r. case (l, r) of (JInt a, JInt b) \<Rightarrow> Some (a = b) | _ \<Rightarrow> None),
     iso_instant = (\<lambda>_. None), urlsplit = (\<lambda>_. None), semver_parse = release_parse\<rparr>"

theorem values_compatible_sym_witness:
  "values_compatible sample_lib ''version_predicate'' (JStr ''^1.2.0'') (JStr ''~2.1.0'') None None = INCOMPATIBLE \<and>
   values_compatible sample_lib ''version_predicate'' (JStr ''~2.1.0'') (JStr ''^1.2.0'') None None = INCOMPATIBLE"
proof -
  have sym: "\<forall>l r. decimal_eq sample_lib l r = decimal_eq sample_lib r l"
    by (auto simp: sample_lib_def split: json.splits)
  have "values_compatible sample_lib ''version_predicate'' (JStr ''^1.2.0'') (JStr ''~2.1.0'') None None = INCOMPATIBLE"
    by code_simp
  then show ?thesis
    using values_compatible_sym [OF sym, of "''version_predicate''" "JStr ''^1.2.0''" "JStr ''~2.1.0''" None None] by simp
qed

subsection \<open>Near duplicates\<close>

lemma fcard_inter_union: "fcard (a |\<inter>| b) = fcard (a |\<union>| b) \<longleftrightarrow> a = b"
proof
  assume "fcard (a |\<inter>| b) = fcard (a |\<union>| b)"
  moreover have "a |\<inter>| b |\<subseteq>| a |\<union>| b" by blast
  ultimately have "a |\<inter>| b = a |\<union>| b" by (metis fcard_seteq order_refl)
  then show "a = b" by blast
qed simp

lemma similarity_one: "token_similarity l r = 1 \<longleftrightarrow> value_tokens l = value_tokens r"
proof (cases "value_tokens l = {||} \<or> value_tokens r = {||}")
  case True
  then show ?thesis by (auto simp: token_similarity_def Let_def)
next
  case False
  then have "fcard (value_tokens l |\<union>| value_tokens r) \<noteq> 0" by simp
  then show ?thesis
    using False fcard_inter_union [of "value_tokens l" "value_tokens r", symmetric]
    by (auto simp: token_similarity_def Let_def)
qed

lemma token_runs_free: "(\<forall>c \<in> set s. \<not> token_char c) \<Longrightarrow> token_runs [] s = []"
  by (induction s) auto

text \<open>
  Two values are near duplicates exactly when the type is textual and their identity tokens are
  the same set: overlap that is only partial never collapses two claims.
\<close>

lemma near_duplicate_exact:
  "fst (is_near_duplicate t l r) \<longleftrightarrow> (t = ''string'' \<or> t = ''enum'') \<and> value_tokens l = value_tokens r"
  by (simp add: is_near_duplicate_def Let_def similarity_one)

text \<open>
  Two names without a single ASCII letter or digit have no tokens at all, so they are near
  duplicates of each other with similarity 1, however different they are, although the exact
  comparison calls them incompatible.
\<close>

theorem token_free_names_collapse:
  assumes "\<forall>c \<in> set (py_casefold x @ py_casefold y). \<not> token_char c"
    and "fold_text x \<noteq> fold_text y"
  shows "is_near_duplicate ''string'' (JStr x) (JStr y) = (True, 1) \<and>
    values_compatible L ''string'' (JStr x) (JStr y) None None = INCOMPATIBLE"
proof -
  have "token_runs [] (py_casefold x) = []" "token_runs [] (py_casefold y) = []"
    using assms(1) by (simp_all add: token_runs_free)
  then have "value_tokens (JStr x) = {||}" "value_tokens (JStr y) = {||}"
    by (simp_all add: value_tokens_def Let_def)
  then show ?thesis
    using assms(2)
    by (simp add: is_near_duplicate_def token_similarity_def values_compatible_def by_equality_def as_folded_def)
qed

theorem token_free_names_collapse_witness:
  "is_near_duplicate ''string'' (JStr ''???'') (JStr ''---'') = (True, 1) \<and>
   values_compatible sample_lib ''string'' (JStr ''???'') (JStr ''---'') None None = INCOMPATIBLE"
proof (rule token_free_names_collapse)
  show "\<forall>c \<in> set (py_casefold ''???'' @ py_casefold ''---''). \<not> token_char c" by code_simp
  show "fold_text ''???'' \<noteq> fold_text ''---''" by code_simp
qed

subsection \<open>What near duplicates are\<close>

text \<open>Two values are near duplicates exactly when they are names with the same distinguishing words.\<close>

lemma jaccard_one_iff:
  assumes "a |\<union>| b \<noteq> {||}"
  shows "(of_nat (fcard (a |\<inter>| b)) / of_nat (fcard (a |\<union>| b)) = (1::rat)) \<longleftrightarrow> a = b"
proof
  assume e: "of_nat (fcard (a |\<inter>| b)) / of_nat (fcard (a |\<union>| b)) = (1::rat)"
  have "fcard (a |\<inter>| b) = fcard (a |\<union>| b)" using e by (simp add: divide_eq_1_iff)
  moreover have "a |\<inter>| b |\<subseteq>| a |\<union>| b" by blast
  ultimately have "a |\<inter>| b = a |\<union>| b" using pfsubset_fcard_mono [of "a |\<inter>| b" "a |\<union>| b"] by fastforce
  then show "a = b" by blast
next
  assume "a = b"
  moreover have "fcard (a |\<union>| b) \<noteq> 0" using assms by simp
  ultimately show "of_nat (fcard (a |\<inter>| b)) / of_nat (fcard (a |\<union>| b)) = (1::rat)" by simp
qed

lemma near_duplicate_iff:
  "fst (is_near_duplicate ty l r) \<longleftrightarrow> (ty = ''string'' \<or> ty = ''enum'') \<and> value_tokens l = value_tokens r"
proof -
  have "token_similarity l r = 1 \<longleftrightarrow> value_tokens l = value_tokens r"
    using jaccard_one_iff [of "value_tokens l" "value_tokens r"] by (auto simp: token_similarity_def Let_def)
  then show ?thesis by (auto simp: is_near_duplicate_def Let_def)
qed

subsection \<open>Effective intervals\<close>

definition holds_at :: "moment \<Rightarrow> moment option \<Rightarrow> moment \<Rightarrow> bool" where
  "holds_at from to t \<longleftrightarrow> from \<le> t \<and> (case to of None \<Rightarrow> True | Some u \<Rightarrow> t < u)"

text \<open>
  For intervals that are not empty, \<open>intervals_overlap\<close> answers exactly whether they share an instant;
  an interval that ends when the other begins shares none.
\<close>

theorem intervals_overlap_exact:
  assumes "holds_at from_a to_a from_a" "holds_at from_b to_b from_b"
  shows "intervals_overlap from_a to_a from_b to_b \<longleftrightarrow> (\<exists>t. holds_at from_a to_a t \<and> holds_at from_b to_b t)"
proof
  assume "intervals_overlap from_a to_a from_b to_b"
  with assms have "holds_at from_a to_a (max from_a from_b) \<and> holds_at from_b to_b (max from_a from_b)"
    by (auto simp: intervals_overlap_def holds_at_def max_def split: option.splits if_splits)
  then show "\<exists>t. holds_at from_a to_a t \<and> holds_at from_b to_b t" by blast
next
  assume "\<exists>t. holds_at from_a to_a t \<and> holds_at from_b to_b t"
  then show "intervals_overlap from_a to_a from_b to_b"
    by (auto simp: intervals_overlap_def holds_at_def split: option.splits)
qed

theorem intervals_overlap_exact_witness:
  "intervals_overlap 1 (Some 5) 3 None = (\<exists>t. holds_at 1 (Some 5) t \<and> holds_at 3 None t)"
  by (rule intervals_overlap_exact) (simp_all add: holds_at_def)

end
