(* ===== verification/Claim_Store.thy ===== *)
theory Claim_Store
  imports Confidence_Decay Claim_Compare
begin

section \<open>The claim tables\<close>

text \<open>
  The rows that the services under \<open>contextplane/service/memory/\<close> read and write: claims, recorded
  disagreements, provenance, collapsed clusters and the audit log. What a claim asserts is a
  record of its own, since no operation on a stored claim may change it. Columns no modelled
  statement reads (sizes, namespaces, salience) and the vectors of the embedding index are left out; a
  JSON column written from canonical text is the value itself. The locale \<open>claim_operation\<close> is the contract
  every statement sequence on stored claims keeps.
\<close>

subsection \<open>Rows\<close>

record assertion =
  owning_tenant :: "uuid option"
  subject :: "uuid option"
  subject_reference :: string
  pred :: string
  val :: json
  val_type :: string
  category :: string
  cardinality :: string
  val_entity :: "uuid option"
  valid_from :: moment
  valid_to :: "moment option"
  visibility :: string

record claim_row =
  claim_id :: uuid
  author_tenant :: uuid
  author_actor :: "uuid option"
  asserted :: assertion
  source_authority :: string
  created_at :: moment
  claim_status :: string
  superseded_by :: "uuid option"
  superseded_reason :: "string option"
  invalidated_at :: "moment option"
  consolidated_at :: "moment option"
  is_contested :: bool
  confidence :: "rat option"
  scored_at :: "moment option"
  score_inputs :: "confidence_inputs option"
  row_scorer :: "string option"
  hold_until :: "moment option"
  confirms :: "uuid option"
  confirmed_by :: "uuid option"
  confirmed_at :: "moment option"
  promotion_state :: "string option"

record contest_row =
  contest_id :: uuid
  lower_claim_id :: uuid
  upper_claim_id :: uuid
  contest_subject :: uuid
  contest_predicate :: string
  contest_lower_value :: json
  contest_upper_value :: json
  detected_at :: moment
  resolved_at :: "moment option"
  resolution :: "string option"

record provenance_row =
  pv_claim_id :: uuid
  evidence_kind :: string
  evidence_ref :: string
  evidence_excerpt :: "string option"
  derivation :: string
  independence_key :: "string option"
  independence_group :: "string option"
  recorded_at :: moment

record cluster_row =
  survivor_id :: uuid
  collapsed_id :: uuid
  cluster_similarity :: rat
  cluster_matched_by :: string
  collapsed_at :: moment

text \<open>The identifier of an audit row, a fresh random one, is left out.\<close>

record audit_row =
  au_tenant :: "uuid option"
  au_actor :: "uuid option"
  au_action :: string
  au_target :: uuid
  au_after :: json
  au_ts :: moment

record claim_db =
  claims :: "claim_row list"
  contests :: "contest_row list"
  provenance :: "provenance_row list"
  clusters :: "cluster_row list"
  audit_log :: "audit_row list"

datatype store_error =
  ValidationError | RankKeyError | StateError | ClaimNotFound | ClaimConflict | NotPermitted

definition update_claims :: "(claim_row \<Rightarrow> bool) \<Rightarrow> (claim_row \<Rightarrow> claim_row) \<Rightarrow> claim_db \<Rightarrow> claim_db" where
  "update_claims P f db = db\<lparr>claims := map (\<lambda>c. if P c then f c else c) (claims db)\<rparr>"

definition claim_with_id :: "claim_db \<Rightarrow> uuid \<Rightarrow> claim_row option" where
  "claim_with_id db cid = find (\<lambda>c. claim_id c = cid) (claims db)"

definition staged :: "claim_row \<Rightarrow> bool" where
  "staged c \<longleftrightarrow> claim_status c = ''staged''"

definition involves :: "uuid \<Rightarrow> contest_row \<Rightarrow> bool" where
  "involves cid k \<longleftrightarrow> lower_claim_id k = cid \<or> upper_claim_id k = cid"

definition open_contest :: "contest_row \<Rightarrow> bool" where
  "open_contest k \<longleftrightarrow> resolved_at k = None"

definition has_open_contest :: "claim_db \<Rightarrow> uuid \<Rightarrow> bool" where
  "has_open_contest db cid \<longleftrightarrow> (\<exists>k \<in> set (contests db). open_contest k \<and> involves cid k)"

lemma update_claims_simps [simp]:
  "claims (update_claims P f db) = map (\<lambda>c. if P c then f c else c) (claims db)"
  "contests (update_claims P f db) = contests db"
  "provenance (update_claims P f db) = provenance db"
  "clusters (update_claims P f db) = clusters db"
  "audit_log (update_claims P f db) = audit_log db"
  by (simp_all add: update_claims_def)

lemma has_open_contest_claims [simp]: "has_open_contest (update_claims P f db) = has_open_contest db"
  by (simp add: has_open_contest_def fun_eq_iff)

lemma find_distinct_id:
  assumes "distinct (map claim_id cs)" "c \<in> set cs"
  shows "find (\<lambda>x. claim_id x = claim_id c) cs = Some c"
  using assms by (induction cs) auto

lemma find_id_Some: "find (\<lambda>x. claim_id x = cid) cs = Some c \<Longrightarrow> c \<in> set cs \<and> claim_id c = cid"
  by (auto simp: find_Some_iff)

subsection \<open>What an operation may do to stored claims\<close>

text \<open>
  A stored claim keeps its identity, its author, its authority and everything it asserts; its
  status can only go from staged to superseded, and then it names its successor.
\<close>

definition row_evolves :: "claim_row \<Rightarrow> claim_row \<Rightarrow> bool" where
  "row_evolves c c' \<longleftrightarrow>
     claim_id c' = claim_id c \<and> author_tenant c' = author_tenant c \<and> author_actor c' = author_actor c \<and>
     asserted c' = asserted c \<and> source_authority c' = source_authority c \<and> created_at c' = created_at c \<and>
     hold_until c' = hold_until c \<and> confirms c' = confirms c \<and>
     (claim_status c' = claim_status c \<and> superseded_by c' = superseded_by c \<or>
      staged c \<and> claim_status c' = ''superseded'' \<and> superseded_by c' \<noteq> None)"

definition evolves :: "claim_db \<Rightarrow> claim_db \<Rightarrow> bool" where
  "evolves db db' \<longleftrightarrow> list_all2 row_evolves (claims db) (claims db')"

text \<open>The flag on a claim is a cached answer to whether an open disagreement names it.\<close>

definition flags_exact :: "claim_db \<Rightarrow> bool" where
  "flags_exact db \<longleftrightarrow> (\<forall>c \<in> set (claims db). is_contested c \<longleftrightarrow> has_open_contest db (claim_id c))"

lemma row_evolves_refl [simp, intro]: "row_evolves c c"
  by (simp add: row_evolves_def)

lemma row_evolves_trans: "row_evolves a b \<Longrightarrow> row_evolves b c \<Longrightarrow> row_evolves a c"
  by (auto simp: row_evolves_def staged_def)

lemma evolves_refl [simp, intro]: "evolves db db"
  by (simp add: evolves_def list_all2_refl)

lemma evolves_trans: "evolves a b \<Longrightarrow> evolves b c \<Longrightarrow> evolves a c"
  unfolding evolves_def by (rule list_all2_trans [of row_evolves row_evolves]) (blast intro: row_evolves_trans)+

lemma evolves_same_claims: "claims db' = claims db \<Longrightarrow> evolves db db'"
  by (simp add: evolves_def list_all2_refl)

lemma evolves_update:
  assumes "\<And>c. c \<in> set (claims db) \<Longrightarrow> P c \<Longrightarrow> row_evolves c (f c)"
  shows "evolves db (update_claims P f db)"
  using assms by (auto simp: evolves_def list_all2_conv_all_nth)

lemma evolves_ids: "evolves db db' \<Longrightarrow> map claim_id (claims db') = map claim_id (claims db)"
  unfolding evolves_def by (induction rule: list_all2_induct) (auto simp: row_evolves_def)

lemma evolves_member:
  assumes "evolves db db'" "c' \<in> set (claims db')"
  obtains c where "c \<in> set (claims db)" "row_evolves c c'"
  using assms unfolding evolves_def by (metis list_all2_conv_all_nth in_set_conv_nth)

lemma evolves_member_rev:
  assumes "evolves db db'" "c \<in> set (claims db)"
  obtains c' where "c' \<in> set (claims db')" "row_evolves c c'"
  using assms unfolding evolves_def by (metis list_all2_conv_all_nth in_set_conv_nth)

lemma flags_exact_same:
  assumes "flags_exact db" "contests db' = contests db" "evolves db db'"
    and "map is_contested (claims db') = map is_contested (claims db)"
  shows "flags_exact db'"
proof -
  have "is_contested c' \<longleftrightarrow> has_open_contest db' (claim_id c')" if c': "c' \<in> set (claims db')" for c'
  proof -
    obtain i where i: "i < length (claims db')" "c' = claims db' ! i" using c' by (auto simp: in_set_conv_nth)
    have len: "length (claims db') = length (claims db)" using arg_cong [OF assms(4), of length] by simp
    have "is_contested c' = is_contested (claims db ! i)" using assms(4) i len by (metis nth_map)
    moreover have "claim_id c' = claim_id (claims db ! i)" using evolves_ids [OF assms(3)] i len by (metis nth_map)
    moreover have "has_open_contest db' = has_open_contest db" using assms(2) by (simp add: has_open_contest_def fun_eq_iff)
    ultimately show ?thesis using assms(1) i len by (simp add: flags_exact_def)
  qed
  then show ?thesis by (simp add: flags_exact_def)
qed

locale claim_operation =
  fixes run :: "'a \<Rightarrow> claim_db \<Rightarrow> store_error + claim_db"
  assumes run_evolves: "run x db = Inr db' \<Longrightarrow> evolves db db'"
    and run_flags: "run x db = Inr db' \<Longrightarrow> flags_exact db \<Longrightarrow> flags_exact db'"
begin

lemma loop_evolves: "fold_result run xs db = Inr db' \<Longrightarrow> evolves db db'"
  by (erule fold_result_preserves) (auto intro: evolves_trans run_evolves)

lemma loop_flags:
  assumes "fold_result run xs db = Inr db'" "flags_exact db"
  shows "flags_exact db'"
  using fold_result_preserves [of run xs db db' "\<lambda>a b. flags_exact a \<longrightarrow> flags_exact b"] assms run_flags by blast

end

end
