(* ===== verification/Contest.thy ===== *)
theory Contest
  imports Claim_Store
begin

section \<open>Disagreements between claims\<close>

text \<open>
  The model of \<open>contextplane/service/memory/contest.py\<close>: detection of the claims that disagree with a
  new one, the groups a reviewer sees, and the resolution of disagreements. The identifier the database
  generates for a disagreement is a function of its pair. The theorems say what detection
  reports, that the cached flag on a claim stays exact, and that a reviewer sees no claim of
  another tenant.
\<close>

subsection \<open>Vocabulary and results\<close>

definition CARDINALITY_SINGLE :: string where "CARDINALITY_SINGLE = ''single''"

definition RESOLUTION_SUPERSEDED :: string where "RESOLUTION_SUPERSEDED = ''superseded''"

definition RESOLUTIONS :: "string list" where
  "RESOLUTIONS = [RESOLUTION_SUPERSEDED, ''both_retained'', ''dismissed'', ''claim_withdrawn'']"

definition CONTEST_NEIGHBOURHOOD :: nat where "CONTEST_NEIGHBOURHOOD = 50"

record disagreement =
  dg_lower :: uuid
  dg_upper :: uuid
  dg_predicate :: string
  dg_lower_value :: json
  dg_upper_value :: json

record contest_outcome =
  detected :: "disagreement list"
  neighbourhood_size :: nat
  truncated :: bool

definition counterparties :: "contest_outcome \<Rightarrow> uuid \<Rightarrow> uuid list" where
  "counterparties res cid =
     sorted_list_of_set
       (set (map (\<lambda>p. if dg_lower p = cid then dg_upper p else dg_lower p) (detected res)) - {cid})"

record contradiction_group =
  cg_subject :: uuid
  cg_reference :: string
  cg_predicate :: string
  cg_claim_ids :: "uuid list"
  cg_contest_ids :: "uuid list"
  cg_first_detected_at :: moment

definition member_count :: "contradiction_group \<Rightarrow> nat" where
  "member_count g = length (cg_claim_ids g)"

subsection \<open>Groups for a reviewer\<close>

definition tenant_of :: "claim_row \<Rightarrow> uuid" where
  "tenant_of c = (case owning_tenant (asserted c) of Some t \<Rightarrow> t | None \<Rightarrow> author_tenant c)"

text \<open>The rows of the query: a disagreement with the reference of its lower claim.\<close>

definition group_rows :: "claim_db \<Rightarrow> uuid \<Rightarrow> uuid option \<Rightarrow> string option \<Rightarrow> (contest_row \<times> string) list" where
  "group_rows db tenant subj pr =
     sort_key (\<lambda>(k, _). (detected_at k, contest_id k))
       [(k, subject_reference (asserted lo)).
          k \<leftarrow> contests db, lo \<leftarrow> claims db, claim_id lo = lower_claim_id k,
          up \<leftarrow> claims db, claim_id up = upper_claim_id k,
          open_contest k \<and> tenant_of lo = tenant \<and> tenant_of up = tenant \<and>
          (case subj of None \<Rightarrow> True | Some e \<Rightarrow> contest_subject k = e) \<and>
          (case pr of None \<Rightarrow> True | Some p \<Rightarrow> contest_predicate k = p)]"

definition add_key :: "'k \<Rightarrow> 'k list \<Rightarrow> 'k list" where
  "add_key k ks = (if k \<in> set ks then ks else ks @ [k])"

definition add_to_group :: "contest_row \<times> string \<Rightarrow> ((uuid \<times> string) \<times> contradiction_group) list \<Rightarrow>
    ((uuid \<times> string) \<times> contradiction_group) list" where
  "add_to_group row grouped =
     (let k = fst row; key = (contest_subject k, contest_predicate k);
          bucket = (case map_of grouped key of
             Some b \<Rightarrow> b
           | None \<Rightarrow> \<lparr>cg_subject = contest_subject k, cg_reference = snd row, cg_predicate = contest_predicate k,
                       cg_claim_ids = [], cg_contest_ids = [], cg_first_detected_at = detected_at k\<rparr>)
      in AList.update key
           (bucket\<lparr>cg_claim_ids := add_key (upper_claim_id k) (add_key (lower_claim_id k) (cg_claim_ids bucket)),
                   cg_contest_ids := cg_contest_ids bucket @ [contest_id k]\<rparr>) grouped)"

definition groups_for :: "claim_db \<Rightarrow> uuid \<Rightarrow> uuid option \<Rightarrow> string option \<Rightarrow> contradiction_group list" where
  "groups_for db tenant subj pr = map snd (fold add_to_group (group_rows db tenant subj pr) [])"

subsection \<open>Detection\<close>

definition contest_neighbour :: "claim_row \<Rightarrow> uuid \<Rightarrow> claim_row \<Rightarrow> bool" where
  "contest_neighbour c subj n \<longleftrightarrow>
     subject (asserted n) = Some subj \<and> pred (asserted n) = pred (asserted c) \<and> staged n \<and>
     cardinality (asserted n) = ''single'' \<and> claim_id n \<noteq> claim_id c"

definition disagreement_with :: "'v::linorder lib \<Rightarrow> claim_row \<Rightarrow> claim_row \<Rightarrow> disagreement option" where
  "disagreement_with L c other =
     (let s = asserted c; n = asserted other in
      if val_type n \<noteq> val_type s then None
      else if \<not> intervals_overlap (valid_from s) (valid_to s) (valid_from n) (valid_to n) then None
      else if values_compatible L (val_type s) (val s) (val n) (val_entity s) (val_entity n) \<noteq> INCOMPATIBLE then None
      else if fst (is_near_duplicate (val_type s) (val s) (val n)) then None
      else let lo = min (claim_id c) (claim_id other); up = max (claim_id c) (claim_id other) in
        Some \<lparr>dg_lower = lo, dg_upper = up, dg_predicate = pred s,
              dg_lower_value = (if lo = claim_id c then val s else val n),
              dg_upper_value = (if lo = claim_id c then val n else val s)\<rparr>)"

definition same_pair :: "disagreement \<Rightarrow> contest_row \<Rightarrow> bool" where
  "same_pair p k \<longleftrightarrow> lower_claim_id k = dg_lower p \<and> upper_claim_id k = dg_upper p"

definition record_pair :: "(uuid \<Rightarrow> uuid \<Rightarrow> uuid) \<Rightarrow> uuid \<Rightarrow> moment \<Rightarrow> disagreement \<Rightarrow> claim_db \<Rightarrow> claim_db" where
  "record_pair gen_id subj now p db =
     (if (\<exists>k \<in> set (contests db). same_pair p k) then db
      else db\<lparr>contests := contests db @
             [\<lparr>contest_id = gen_id (dg_lower p) (dg_upper p), lower_claim_id = dg_lower p, upper_claim_id = dg_upper p,
               contest_subject = subj, contest_predicate = dg_predicate p, contest_lower_value = dg_lower_value p,
               contest_upper_value = dg_upper_value p, detected_at = now, resolved_at = None, resolution = None\<rparr>]\<rparr>)"

definition pair_ids :: "disagreement list \<Rightarrow> uuid set" where
  "pair_ids found = set (map dg_lower found) \<union> set (map dg_upper found)"

definition no_outcome :: contest_outcome where
  "no_outcome = \<lparr>detected = [], neighbourhood_size = 0, truncated = False\<rparr>"

definition detect_for_claim ::
    "'v::linorder lib \<Rightarrow> (uuid \<Rightarrow> uuid \<Rightarrow> uuid) \<Rightarrow> uuid \<Rightarrow> moment \<Rightarrow> claim_db \<Rightarrow> contest_outcome \<times> claim_db" where
  "detect_for_claim L gen_id cid now db =
     (case find (\<lambda>c. claim_id c = cid \<and> staged c) (claims db) of
        None \<Rightarrow> (no_outcome, db)
      | Some c \<Rightarrow>
          (case subject (asserted c) of
             None \<Rightarrow> (no_outcome, db)
           | Some subj \<Rightarrow>
               if cardinality (asserted c) \<noteq> CARDINALITY_SINGLE then (no_outcome, db)
               else let rows = take (CONTEST_NEIGHBOURHOOD + 1)
                          (sort_key (\<lambda>n. - valid_from (asserted n)) (filter (contest_neighbour c subj) (claims db)));
                        neighbours = take CONTEST_NEIGHBOURHOOD rows;
                        found = List.map_filter (disagreement_with L c) neighbours;
                        db' = fold (record_pair gen_id subj now) found db
                    in (\<lparr>detected = found, neighbourhood_size = length neighbours,
                         truncated = length rows > CONTEST_NEIGHBOURHOOD\<rparr>,
                        if found = [] then db'
                        else update_claims (\<lambda>r. claim_id r \<in> pair_ids found) (\<lambda>r. r\<lparr>is_contested := True\<rparr>) db')))"

subsection \<open>Resolution\<close>

definition settle :: "moment \<Rightarrow> string \<Rightarrow> (contest_row \<Rightarrow> bool) \<Rightarrow> claim_db \<Rightarrow> claim_db" where
  "settle now res P db =
     db\<lparr>contests := map (\<lambda>k. if open_contest k \<and> P k then k\<lparr>resolved_at := Some now, resolution := Some res\<rparr> else k)
                       (contests db)\<rparr>"

text \<open>The two columns returned by the update.\<close>

definition settled_ids :: "(contest_row \<Rightarrow> bool) \<Rightarrow> claim_db \<Rightarrow> uuid set" where
  "settled_ids P db =
     (let rows = filter (\<lambda>k. open_contest k \<and> P k) (contests db)
      in set (map lower_claim_id rows) \<union> set (map upper_claim_id rows))"

definition clear_flags :: "uuid set \<Rightarrow> claim_db \<Rightarrow> claim_db" where
  "clear_flags ids db =
     update_claims (\<lambda>c. claim_id c \<in> ids \<and> \<not> has_open_contest db (claim_id c)) (\<lambda>c. c\<lparr>is_contested := False\<rparr>) db"

definition resolve :: "uuid \<Rightarrow> string \<Rightarrow> moment \<Rightarrow> claim_db \<Rightarrow> store_error + claim_db" where
  "resolve kid res now db =
     (if res \<notin> set RESOLUTIONS then Inl ValidationError
      else let P = (\<lambda>k. contest_id k = kid) in
        if settled_ids P db = {} then Inr db
        else Inr (clear_flags (settled_ids P db) (settle now res P db)))"

definition resolve_contests_for :: "uuid \<Rightarrow> moment \<Rightarrow> string \<Rightarrow> claim_db \<Rightarrow> nat \<times> claim_db" where
  "resolve_contests_for cid now res db =
     (let rows = filter (\<lambda>k. open_contest k \<and> involves cid k) (contests db) in
      if rows = [] then (0, db)
      else (length rows, clear_flags (settled_ids (involves cid) db) (settle now res (involves cid) db)))"

subsection \<open>Sample data\<close>

definition sample_claim :: "uuid \<Rightarrow> uuid \<Rightarrow> string \<Rightarrow> string \<Rightarrow> moment \<Rightarrow> claim_row" where
  "sample_claim cid tenant auth v t =
     \<lparr>claim_id = cid, author_tenant = tenant, author_actor = None,
      asserted = \<lparr>owning_tenant = Some ''t1'', subject = Some ''svc'', subject_reference = ''svc'', pred = ''owned_by'',
        val = JStr v, val_type = ''string'', category = ''ownership'', cardinality = ''single'', val_entity = None,
        valid_from = 0, valid_to = None, visibility = ''private''\<rparr>,
      source_authority = auth, created_at = t, claim_status = ''staged'', superseded_by = None, superseded_reason = None,
      invalidated_at = None, consolidated_at = None, is_contested = False, confidence = None, scored_at = None,
      score_inputs = None, row_scorer = None, hold_until = None, confirms = None, confirmed_by = None,
      confirmed_at = None, promotion_state = None\<rparr>"

definition sample_db :: "claim_row list \<Rightarrow> claim_db" where
  "sample_db cs = \<lparr>claims = cs, contests = [], provenance = [], clusters = [], audit_log = []\<rparr>"

definition sample_pair :: claim_db where
  "sample_pair = sample_db [sample_claim ''c1'' ''t1'' ''owner_human'' ''platform'' 1,
     sample_claim ''c2'' ''t1'' ''observer_inference'' ''billing'' 2]"

definition contested_pair :: claim_db where
  "contested_pair = snd (detect_for_claim sample_lib (\<lambda>l u. l @ u) ''c2'' 3 sample_pair)"

subsection \<open>The flag stays exact\<close>

lemma settle_simps [simp]:
  "claims (settle now res P db) = claims db"
  "provenance (settle now res P db) = provenance db"
  "clusters (settle now res P db) = clusters db"
  "audit_log (settle now res P db) = audit_log db"
  by (simp_all add: settle_def)

lemma open_after_settle:
  "has_open_contest (settle now res P db) cid \<longleftrightarrow>
     (\<exists>k \<in> set (contests db). open_contest k \<and> involves cid k \<and> \<not> P k)"
  by (auto simp: has_open_contest_def settle_def open_contest_def involves_def split: if_splits)

lemma settled_ids_iff: "cid \<in> settled_ids P db \<longleftrightarrow> (\<exists>k \<in> set (contests db). open_contest k \<and> P k \<and> involves cid k)"
  by (auto simp: settled_ids_def Let_def involves_def)

lemma clear_flags_evolves: "evolves db (clear_flags ids db)"
  unfolding clear_flags_def by (rule evolves_update) (simp add: row_evolves_def)

lemma clear_settled_flags:
  assumes "flags_exact db"
  shows "flags_exact (clear_flags (settled_ids P db) (settle now res P db))"
proof -
  let ?db = "settle now res P db"
  have "(is_contested c \<and> \<not> (claim_id c \<in> settled_ids P db \<and> \<not> has_open_contest ?db (claim_id c))) \<longleftrightarrow>
      has_open_contest ?db (claim_id c)" if "c \<in> set (claims db)" for c
    using that assms unfolding flags_exact_def open_after_settle settled_ids_iff
    by (auto simp: has_open_contest_def)
  then show ?thesis
    by (auto simp: flags_exact_def clear_flags_def)
qed

lemma resolve_evolves: "resolve kid res now db = Inr db' \<Longrightarrow> evolves db db'"
  using clear_flags_evolves [of "settle now res (\<lambda>k. contest_id k = kid) db"]
  by (auto simp: resolve_def Let_def evolves_def list_all2_refl split: if_splits)

lemma resolve_flags: "resolve kid res now db = Inr db' \<Longrightarrow> flags_exact db \<Longrightarrow> flags_exact db'"
  by (auto simp: resolve_def Let_def clear_settled_flags split: if_splits)

interpretation resolving: claim_operation "\<lambda>kid. resolve kid res now" for res now
  by unfold_locales (auto intro: resolve_evolves resolve_flags)

lemma resolve_contests_for_evolves: "evolves db (snd (resolve_contests_for cid now res db))"
  using clear_flags_evolves [of "settle now res (involves cid) db"]
  by (auto simp: resolve_contests_for_def Let_def evolves_def list_all2_refl)

lemma resolve_contests_for_flags: "flags_exact db \<Longrightarrow> flags_exact (snd (resolve_contests_for cid now res db))"
  by (simp add: resolve_contests_for_def Let_def clear_settled_flags)

lemma resolve_contests_for_open:
  "has_open_contest (snd (resolve_contests_for cid now res db)) x \<longleftrightarrow>
     (\<exists>k \<in> set (contests db). open_contest k \<and> involves x k \<and> \<not> involves cid k)"
proof (cases "filter (\<lambda>k. open_contest k \<and> involves cid k) (contests db) = []")
  case True
  then show ?thesis by (auto simp: resolve_contests_for_def has_open_contest_def filter_empty_conv)
next
  case False
  then show ?thesis by (simp add: resolve_contests_for_def clear_flags_def open_after_settle)
qed

lemma record_pair_simps [simp]:
  "claims (record_pair gen subj now p db) = claims db"
  "provenance (record_pair gen subj now p db) = provenance db"
  "clusters (record_pair gen subj now p db) = clusters db"
  "audit_log (record_pair gen subj now p db) = audit_log db"
  by (simp_all add: record_pair_def)

lemma fold_record_pair_claims [simp]: "claims (fold (record_pair gen subj now) ps db) = claims db"
  by (induction ps arbitrary: db) simp_all

lemma fold_record_pair_open:
  assumes "\<forall>p \<in> set ps. \<forall>k \<in> set (contests db). same_pair p k \<longrightarrow> open_contest k"
  shows "has_open_contest (fold (record_pair gen subj now) ps db) x \<longleftrightarrow> has_open_contest db x \<or> x \<in> pair_ids ps"
  using assms
proof (induction ps arbitrary: db)
  case Nil
  then show ?case by (simp add: pair_ids_def)
next
  case (Cons p ps)
  have one: "has_open_contest (record_pair gen subj now p db) x \<longleftrightarrow> has_open_contest db x \<or> x = dg_lower p \<or> x = dg_upper p"
    using Cons.prems
    by (auto simp: record_pair_def has_open_contest_def same_pair_def involves_def open_contest_def)
  have "\<forall>q \<in> set ps. \<forall>k \<in> set (contests (record_pair gen subj now p db)). same_pair q k \<longrightarrow> open_contest k"
    using Cons.prems by (auto simp: record_pair_def open_contest_def)
  from Cons.IH [OF this] one show ?case by (auto simp: pair_ids_def)
qed

lemma disagreement_ids:
  assumes "disagreement_with L c n = Some p"
  shows "(dg_lower p = claim_id c \<and> dg_upper p = claim_id n) \<or> (dg_lower p = claim_id n \<and> dg_upper p = claim_id c)"
  using assms by (auto simp: disagreement_with_def Let_def min_def max_def split: if_splits)

lemma detect_unchanged:
  "detected (fst (detect_for_claim L gen cid now db)) = [] \<Longrightarrow> snd (detect_for_claim L gen cid now db) = db"
  by (auto simp: detect_for_claim_def no_outcome_def Let_def split: option.splits if_splits)

text \<open>
  The schema's check that an interval ends after it begins, and what it is for two claims to be
  rivals, in terms that do not mention how the code looks for them: there is an instant at
  which both are asserted to hold, their values cannot both be right, and they are not two phrasings
  of one name.
\<close>

definition proper_intervals :: "claim_db \<Rightarrow> bool" where
  "proper_intervals db \<longleftrightarrow>
     (\<forall>c \<in> set (claims db). case valid_to (asserted c) of None \<Rightarrow> True | Some u \<Rightarrow> valid_from (asserted c) < u)"

definition share_instant :: "claim_row \<Rightarrow> claim_row \<Rightarrow> bool" where
  "share_instant c n \<longleftrightarrow>
     (\<exists>t. holds_at (valid_from (asserted c)) (valid_to (asserted c)) t \<and>
          holds_at (valid_from (asserted n)) (valid_to (asserted n)) t)"

definition same_name :: "claim_row \<Rightarrow> claim_row \<Rightarrow> bool" where
  "same_name c n \<longleftrightarrow>
     val_type (asserted c) \<in> {''string'', ''enum''} \<and> value_tokens (val (asserted c)) = value_tokens (val (asserted n))"

definition rivals :: "'v::linorder lib \<Rightarrow> claim_db \<Rightarrow> claim_row \<Rightarrow> claim_row set" where
  "rivals L db c =
     {n \<in> set (claims db).
        claim_id n \<noteq> claim_id c \<and> staged n \<and>
        subject (asserted c) \<noteq> None \<and> subject (asserted n) = subject (asserted c) \<and>
        pred (asserted n) = pred (asserted c) \<and> val_type (asserted n) = val_type (asserted c) \<and>
        cardinality (asserted c) = ''single'' \<and> cardinality (asserted n) = ''single'' \<and>
        share_instant c n \<and>
        values_compatible L (val_type (asserted c)) (val (asserted c)) (val (asserted n))
          (val_entity (asserted c)) (val_entity (asserted n)) = INCOMPATIBLE \<and>
        \<not> same_name c n}"

lemma overlap_share_instant:
  assumes "proper_intervals db" "c \<in> set (claims db)" "n \<in> set (claims db)"
  shows "intervals_overlap (valid_from (asserted c)) (valid_to (asserted c)) (valid_from (asserted n)) (valid_to (asserted n))
     \<longleftrightarrow> share_instant c n"
proof -
  have "holds_at (valid_from (asserted x)) (valid_to (asserted x)) (valid_from (asserted x))" if "x \<in> set (claims db)" for x
    using assms(1) that by (auto simp: proper_intervals_def holds_at_def split: option.splits)
  with assms(2,3) show ?thesis unfolding share_instant_def by (intro intervals_overlap_exact)
qed

lemma rivals_found:
  assumes "proper_intervals db" "c \<in> set (claims db)"
  shows "rivals L db c =
    {n \<in> set (claims db). \<exists>subj. subject (asserted c) = Some subj \<and> cardinality (asserted c) = ''single'' \<and>
        contest_neighbour c subj n \<and> disagreement_with L c n \<noteq> None}"
proof -
  have "disagreement_with L c n \<noteq> None \<longleftrightarrow>
      val_type (asserted n) = val_type (asserted c) \<and> share_instant c n \<and>
      values_compatible L (val_type (asserted c)) (val (asserted c)) (val (asserted n))
        (val_entity (asserted c)) (val_entity (asserted n)) = INCOMPATIBLE \<and> \<not> same_name c n" if "n \<in> set (claims db)" for n
    using overlap_share_instant [OF assms that]
    by (auto simp: disagreement_with_def Let_def near_duplicate_iff same_name_def)
  then show ?thesis by (auto simp: rivals_def contest_neighbour_def)
qed

lemma detected_rivals:
  assumes c: "find (\<lambda>c. claim_id c = cid \<and> staged c) (claims db) = Some c"
    and proper: "proper_intervals db"
    and whole: "\<not> truncated (fst (detect_for_claim L gen cid now db))"
  shows "set (detected (fst (detect_for_claim L gen cid now db))) = (\<lambda>n. the (disagreement_with L c n)) ` rivals L db c"
proof -
  have "c \<in> set (claims db)" using c by (auto simp: find_Some_iff)
  note found = rivals_found [OF proper this]
  show ?thesis
proof (cases "\<exists>subj. subject (asserted c) = Some subj \<and> cardinality (asserted c) = ''single''")
  case False
  then show ?thesis
    using c by (auto simp: detect_for_claim_def no_outcome_def found CARDINALITY_SINGLE_def split: option.splits)
next
  case True
  then obtain subj where s: "subject (asserted c) = Some subj" "cardinality (asserted c) = ''single''" by blast
  let ?rows = "sort_key (\<lambda>n. - valid_from (asserted n)) (filter (contest_neighbour c subj) (claims db))"
  have "length ?rows \<le> CONTEST_NEIGHBOURHOOD"
    using whole c s by (auto simp: detect_for_claim_def Let_def CARDINALITY_SINGLE_def split: if_splits)
  then have "detected (fst (detect_for_claim L gen cid now db)) = List.map_filter (disagreement_with L c) ?rows"
    using c s by (simp add: detect_for_claim_def Let_def CARDINALITY_SINGLE_def)
  then show ?thesis
    using s by (force simp: map_filter_def found)
qed
qed

lemma detected_member:
  assumes "p \<in> set (detected (fst (detect_for_claim L gen cid now db)))"
  shows "\<exists>c n. find (\<lambda>c. claim_id c = cid \<and> staged c) (claims db) = Some c \<and> claim_id n \<noteq> claim_id c \<and>
     disagreement_with L c n = Some p"
proof -
  obtain c subj where c: "find (\<lambda>c. claim_id c = cid \<and> staged c) (claims db) = Some c"
      "subject (asserted c) = Some subj" "cardinality (asserted c) = ''single''"
      and p: "p \<in> set (List.map_filter (disagreement_with L c) (take CONTEST_NEIGHBOURHOOD
        (sort_key (\<lambda>n. - valid_from (asserted n)) (filter (contest_neighbour c subj) (claims db)))))"
    using assms
    by (auto simp: detect_for_claim_def no_outcome_def Let_def CARDINALITY_SINGLE_def min_def split: option.splits if_splits)
  from p obtain n where "n \<in> set (filter (contest_neighbour c subj) (claims db))" "disagreement_with L c n = Some p"
    by (auto simp: map_filter_def dest: in_set_takeD)
  with c show ?thesis by (auto simp: contest_neighbour_def)
qed

lemma detect_open:
  assumes "\<forall>k \<in> set (contests db). \<not> involves cid k"
  shows "has_open_contest (snd (detect_for_claim L gen cid now db)) x \<longleftrightarrow>
     has_open_contest db x \<or> x \<in> pair_ids (detected (fst (detect_for_claim L gen cid now db)))"
proof -
  let ?found = "detected (fst (detect_for_claim L gen cid now db))"
  have "\<forall>p \<in> set ?found. \<forall>k \<in> set (contests db). same_pair p k \<longrightarrow> open_contest k"
  proof (intro ballI impI)
    fix p k
    assume p: "p \<in> set ?found" and k: "k \<in> set (contests db)" "same_pair p k"
    from detected_member [OF p] obtain c n where "claim_id c = cid" "disagreement_with L c n = Some p"
      by (auto simp: find_Some_iff)
    with disagreement_ids [of L c n p] k assms show "open_contest k" by (auto simp: same_pair_def involves_def)
  qed
  note fold = fold_record_pair_open [OF this]
  show ?thesis
    using fold by (auto simp: detect_for_claim_def no_outcome_def Let_def pair_ids_def split: option.splits if_splits)
qed

lemma detect_claims:
  "claims (snd (detect_for_claim L gen cid now db)) =
     map (\<lambda>r. if claim_id r \<in> pair_ids (detected (fst (detect_for_claim L gen cid now db))) then r\<lparr>is_contested := True\<rparr> else r)
       (claims db)"
  by (auto simp: detect_for_claim_def no_outcome_def Let_def pair_ids_def split: option.splits)

lemma find_staged:
  assumes "distinct (map claim_id cs)" "c \<in> set cs" "staged c"
  shows "find (\<lambda>x. claim_id x = claim_id c \<and> staged x) cs = Some c"
  using assms by (induction cs) auto

text \<open>
  C16. Detection reports exactly the rivals of a claim and keeps the cached flag exact. For a stored,
  staged claim that no recorded disagreement names yet (the only kind the code calls it on), the
  counterparties are exactly its rivals: the other live single-valued claims of the same subject,
  predicate and value type that are asserted to hold at some common instant, whose value is
  incompatible and which do not name the same thing in other words. This holds as long as the
  neighbourhood is not truncated (at most fifty candidates are looked at) and every stored interval
  ends after it begins, as the schema checks. Afterwards a claim is flagged exactly when an open
  disagreement names it.
\<close>

theorem detection_exact:
  assumes "distinct (map claim_id (claims db))" "proper_intervals db" "c \<in> set (claims db)" "staged c"
    and "flags_exact db" "\<forall>k \<in> set (contests db). \<not> involves (claim_id c) k"
    and "detect_for_claim L gen (claim_id c) now db = (res, db')"
  shows "flags_exact db' \<and> (\<not> truncated res \<longrightarrow> set (counterparties res (claim_id c)) = claim_id ` rivals L db c)"
proof -
  have res: "fst (detect_for_claim L gen (claim_id c) now db) = res" "snd (detect_for_claim L gen (claim_id c) now db) = db'"
    using assms(7) by simp_all
  have f: "find (\<lambda>x. claim_id x = claim_id c \<and> staged x) (claims db) = Some c"
    using assms(1,3,4) by (rule find_staged)
  have "flags_exact db'"
    using assms(5) detect_open [OF assms(6), of L gen now] detect_claims [of L gen "claim_id c" now db]
    unfolding res by (auto simp: flags_exact_def)
  moreover have "set (counterparties res (claim_id c)) = claim_id ` rivals L db c" if "\<not> truncated res"
  proof -
    note found = rivals_found [OF assms(2,3)]
    have d: "set (detected res) = (\<lambda>n. the (disagreement_with L c n)) ` rivals L db c"
      using detected_rivals [OF f assms(2), of L gen now] that unfolding res by blast
    have other: "(if dg_lower (the (disagreement_with L c n)) = claim_id c then dg_upper (the (disagreement_with L c n))
        else dg_lower (the (disagreement_with L c n))) = claim_id n" if "n \<in> rivals L db c" for n
      using that disagreement_ids [of L c n] by (auto simp: found contest_neighbour_def)
    have "(\<lambda>p. if dg_lower p = claim_id c then dg_upper p else dg_lower p) ` set (detected res) = claim_id ` rivals L db c"
      unfolding d image_image by (rule image_cong [OF refl]) (rule other)
    then have "set (counterparties res (claim_id c)) = claim_id ` rivals L db c - {claim_id c}"
      unfolding counterparties_def set_map by (metis List.finite_set finite_Diff finite_imageI set_sorted_list_of_set)
    then show ?thesis by (auto simp: rivals_def)
  qed
  ultimately show ?thesis by blast
qed

theorem detection_exact_witness:
  "counterparties (fst (detect_for_claim sample_lib (\<lambda>l u. l @ u) ''c2'' 3 sample_pair)) ''c2'' = [''c1''] \<and>
   flags_exact contested_pair \<and>
   set (counterparties (fst (detect_for_claim sample_lib (\<lambda>l u. l @ u) ''c2'' 3 sample_pair)) ''c2'') =
     claim_id ` rivals sample_lib sample_pair (claims sample_pair ! 1)"
proof -
  let ?c = "claims sample_pair ! 1" and ?r = "detect_for_claim sample_lib (\<lambda>l u. l @ u) ''c2'' 3 sample_pair"
  have c: "?c = sample_claim ''c2'' ''t1'' ''observer_inference'' ''billing'' 2" "claim_id ?c = ''c2''"
    by (simp_all add: sample_pair_def sample_db_def sample_claim_def)
  have pre: "distinct (map claim_id (claims sample_pair))" "proper_intervals sample_pair" "?c \<in> set (claims sample_pair)" "staged ?c" "flags_exact sample_pair"
      "\<forall>k \<in> set (contests sample_pair). \<not> involves (claim_id ?c) k"
    by (simp_all add: sample_pair_def sample_db_def sample_claim_def staged_def flags_exact_def has_open_contest_def proper_intervals_def)
  have whole: "\<not> truncated (fst ?r)" and cp: "counterparties (fst ?r) ''c2'' = [''c1'']" by code_simp+
  have "detect_for_claim sample_lib (\<lambda>l u. l @ u) (claim_id ?c) 3 sample_pair = (fst ?r, snd ?r)" by (simp only: c(2) prod.collapse)
  from detection_exact [OF pre this, unfolded c(2)] whole cp show ?thesis unfolding contested_pair_def by blast
qed

subsection \<open>Closing a claim settles its disagreements\<close>

text \<open>
  C17. Settling the disagreements of a closed claim leaves no open disagreement that names it, leaves open
  every disagreement between two other claims, keeps the cached flags exact (so a counterparty
  with other disagreements stays flagged), changes nothing a claim asserts, and reports how
  many were settled.
\<close>

theorem closing_settles_disagreements:
  assumes "flags_exact db"
  shows "flags_exact (snd (resolve_contests_for cid now res db)) \<and>
    evolves db (snd (resolve_contests_for cid now res db)) \<and>
    \<not> has_open_contest (snd (resolve_contests_for cid now res db)) cid \<and>
    (has_open_contest (snd (resolve_contests_for cid now res db)) x \<longleftrightarrow>
       (\<exists>k \<in> set (contests db). open_contest k \<and> involves x k \<and> \<not> involves cid k)) \<and>
    fst (resolve_contests_for cid now res db) =
      length (filter (\<lambda>k. open_contest k \<and> involves cid k) (contests db))"
proof -
  have "\<not> has_open_contest (snd (resolve_contests_for cid now res db)) cid"
    by (auto simp: resolve_contests_for_open)
  moreover have "fst (resolve_contests_for cid now res db) =
      length (filter (\<lambda>k. open_contest k \<and> involves cid k) (contests db))"
    by (simp add: resolve_contests_for_def Let_def)
  ultimately show ?thesis
    using assms resolve_contests_for_flags resolve_contests_for_evolves resolve_contests_for_open by blast
qed

theorem closing_settles_disagreements_witness:
  "fst (resolve_contests_for ''c1'' 9 ''superseded'' contested_pair) = 1 \<and>
   \<not> has_open_contest (snd (resolve_contests_for ''c1'' 9 ''superseded'' contested_pair)) ''c1'' \<and>
   flags_exact (snd (resolve_contests_for ''c1'' 9 ''superseded'' contested_pair))"
proof -
  have "flags_exact contested_pair" "fst (resolve_contests_for ''c1'' 9 ''superseded'' contested_pair) = 1" by code_simp+
  then show ?thesis using closing_settles_disagreements [of contested_pair "''c1''" 9 "''superseded''" "''c1''"] by blast
qed

subsection \<open>A reviewer sees only their own tenant\<close>

lemma group_rows_member:
  "(k, ref) \<in> set (group_rows db tenant subj pr) \<longleftrightarrow>
     k \<in> set (contests db) \<and> open_contest k \<and>
     (\<exists>lo \<in> set (claims db). claim_id lo = lower_claim_id k \<and> tenant_of lo = tenant \<and> ref = subject_reference (asserted lo)) \<and>
     (\<exists>up \<in> set (claims db). claim_id up = upper_claim_id k \<and> tenant_of up = tenant) \<and>
     (case subj of None \<Rightarrow> True | Some e \<Rightarrow> contest_subject k = e) \<and>
     (case pr of None \<Rightarrow> True | Some p \<Rightarrow> contest_predicate k = p)"
  by (auto simp: group_rows_def)

lemma add_key_set [simp]: "set (add_key k ks) = insert k (set ks)"
  by (auto simp: add_key_def)

lemma add_key_distinct [simp]: "distinct (add_key k ks) = distinct ks"
  by (simp add: add_key_def)

definition grouped_ok :: "(contest_row \<times> string) list \<Rightarrow> ((uuid \<times> string) \<times> contradiction_group) list \<Rightarrow> bool" where
  "grouped_ok rows grouped \<longleftrightarrow>
     distinct (map fst grouped) \<and>
     (\<forall>key g. map_of grouped key = Some g \<longrightarrow>
        key = (cg_subject g, cg_predicate g) \<and> distinct (cg_claim_ids g) \<and>
        set (cg_claim_ids g) = (\<Union>(k, _) \<in> {r \<in> set rows. (contest_subject (fst r), contest_predicate (fst r)) = key}.
           {lower_claim_id k, upper_claim_id k}) \<and>
        cg_contest_ids g = map (contest_id \<circ> fst) (filter (\<lambda>r. (contest_subject (fst r), contest_predicate (fst r)) = key) rows)) \<and>
     (\<forall>key. map_of grouped key = None \<longleftrightarrow> (\<forall>r \<in> set rows. (contest_subject (fst r), contest_predicate (fst r)) \<noteq> key))"

lemma grouped_ok_Nil: "grouped_ok [] []"
  by (simp add: grouped_ok_def)

lemma grouped_ok_add:
  assumes "grouped_ok rows grouped"
  shows "grouped_ok (rows @ [row]) (add_to_group row grouped)"
  using assms unfolding grouped_ok_def add_to_group_def Let_def
  by (auto simp: update_conv' distinct_update split: option.splits)

lemma grouped_ok_fold:
  assumes "grouped_ok done grouped"
  shows "grouped_ok (done @ rows) (fold add_to_group rows grouped)"
  using assms
proof (induction rows arbitrary: "done" grouped)
  case Nil
  then show ?case by simp
next
  case (Cons row rows)
  from Cons.IH [OF grouped_ok_add [OF Cons.prems, of row]] show ?case by simp
qed

lemma groups_for_ok: "grouped_ok (group_rows db tenant subj pr) (fold add_to_group (group_rows db tenant subj pr) [])"
  using grouped_ok_fold [OF grouped_ok_Nil] by simp

lemma group_members:
  assumes "map_of (fold add_to_group (group_rows db tenant subj pr) []) key = Some g"
  shows "x \<in> set (cg_claim_ids g) \<longleftrightarrow>
    (\<exists>k ref. (k, ref) \<in> set (group_rows db tenant subj pr) \<and> (contest_subject k, contest_predicate k) = key \<and> involves x k)"
proof -
  have "set (cg_claim_ids g) =
      (\<Union>(k, _) \<in> {r \<in> set (group_rows db tenant subj pr). (contest_subject (fst r), contest_predicate (fst r)) = key}.
         {lower_claim_id k, upper_claim_id k})"
    using groups_for_ok [of db tenant subj pr] assms unfolding grouped_ok_def by blast
  then show ?thesis by (auto simp: involves_def)
qed

lemma group_key:
  assumes "map_of (fold add_to_group (group_rows db tenant subj pr) []) key = Some g"
  shows "key = (cg_subject g, cg_predicate g)"
  using groups_for_ok [of db tenant subj pr] assms unfolding grouped_ok_def by blast

lemma group_exists:
  assumes "(k, ref) \<in> set (group_rows db tenant subj pr)"
  shows "\<exists>g. map_of (fold add_to_group (group_rows db tenant subj pr) []) (contest_subject k, contest_predicate k) = Some g"
proof -
  have "map_of (fold add_to_group (group_rows db tenant subj pr) []) key = None \<longleftrightarrow>
      (\<forall>r \<in> set (group_rows db tenant subj pr). (contest_subject (fst r), contest_predicate (fst r)) \<noteq> key)" for key
    using groups_for_ok [of db tenant subj pr] unfolding grouped_ok_def by blast
  from this [of "(contest_subject k, contest_predicate k)"] assms show ?thesis by (metis fst_conv option.exhaust)
qed

lemma groups_for_group:
  assumes "g \<in> set (groups_for db tenant subj pr)"
  shows "map_of (fold add_to_group (group_rows db tenant subj pr) []) (cg_subject g, cg_predicate g) = Some g"
proof -
  let ?d = "fold add_to_group (group_rows db tenant subj pr) []"
  obtain key where "(key, g) \<in> set ?d" using assms by (auto simp: groups_for_def)
  then have "map_of ?d key = Some g" using groups_for_ok by (auto simp: grouped_ok_def)
  moreover from this have "key = (cg_subject g, cg_predicate g)"
    using groups_for_ok [of db tenant subj pr] unfolding grouped_ok_def by blast
  ultimately show ?thesis by simp
qed

text \<open>
  The groups a reviewer sees are complete and stay inside the tenant: there is one group per subject
  and predicate, its members are listed once each and are all claims of the requesting tenant, so
  a disagreement that straddles two tenants is never shown, and every open disagreement between
  two claims of the tenant puts both of them in its group.
\<close>

theorem groups_isolated:
  assumes "distinct (map claim_id (claims db))"
  shows "distinct (map (\<lambda>g. (cg_subject g, cg_predicate g)) (groups_for db tenant None None)) \<and>
    (\<forall>g \<in> set (groups_for db tenant None None). distinct (cg_claim_ids g) \<and>
       (\<forall>c \<in> set (claims db). claim_id c \<in> set (cg_claim_ids g) \<longrightarrow> tenant_of c = tenant)) \<and>
    (\<forall>k \<in> set (contests db). \<forall>lo \<in> set (claims db). \<forall>up \<in> set (claims db).
       open_contest k \<and> claim_id lo = lower_claim_id k \<and> claim_id up = upper_claim_id k \<and>
       tenant_of lo = tenant \<and> tenant_of up = tenant \<longrightarrow>
       (\<exists>g \<in> set (groups_for db tenant None None). cg_subject g = contest_subject k \<and> cg_predicate g = contest_predicate k \<and>
          {lower_claim_id k, upper_claim_id k} \<subseteq> set (cg_claim_ids g)))"
proof (intro conjI ballI impI)
  let ?rows = "group_rows db tenant None None" and ?d = "fold add_to_group (group_rows db tenant None None) []"
  note ok = groups_for_ok [of db tenant None None, unfolded grouped_ok_def]
  have "map (\<lambda>g. (cg_subject g, cg_predicate g)) (groups_for db tenant None None) = map fst ?d"
  proof -
    have "(cg_subject g, cg_predicate g) = key" if "(key, g) \<in> set ?d" for key g
      using that ok by (metis map_of_is_SomeI)
    then show ?thesis by (auto simp: groups_for_def)
  qed
  then show "distinct (map (\<lambda>g. (cg_subject g, cg_predicate g)) (groups_for db tenant None None))" using ok by simp
  fix g
  assume "g \<in> set (groups_for db tenant None None)"
  note g = groups_for_group [OF this]
  show "distinct (cg_claim_ids g)" using ok g by blast
  fix c
  assume c: "c \<in> set (claims db)" "claim_id c \<in> set (cg_claim_ids g)"
  from c(2) obtain k ref where k: "(k, ref) \<in> set ?rows" "claim_id c = lower_claim_id k \<or> claim_id c = upper_claim_id k"
    unfolding group_members [OF g] involves_def by metis
  then obtain c' where "c' \<in> set (claims db)" "claim_id c' = claim_id c" "tenant_of c' = tenant"
    by (auto simp: group_rows_member)
  then show "tenant_of c = tenant" using assms c(1) by (metis find_distinct_id option.inject)
next
  let ?rows = "group_rows db tenant None None" and ?d = "fold add_to_group (group_rows db tenant None None) []"
  note ok = groups_for_ok [of db tenant None None, unfolded grouped_ok_def]
  fix k lo up
  assume "k \<in> set (contests db)" "lo \<in> set (claims db)" "up \<in> set (claims db)"
    and "open_contest k \<and> claim_id lo = lower_claim_id k \<and> claim_id up = upper_claim_id k \<and>
       tenant_of lo = tenant \<and> tenant_of up = tenant"
  then have row: "(k, subject_reference (asserted lo)) \<in> set ?rows" by (force simp: group_rows_member)
  then obtain g where g: "map_of ?d (contest_subject k, contest_predicate k) = Some g"
    using group_exists by blast
  moreover have "g \<in> set (groups_for db tenant None None)" using map_of_SomeD [OF g] by (force simp: groups_for_def)
  moreover have "cg_subject g = contest_subject k" "cg_predicate g = contest_predicate k"
    using group_key [OF g] by simp_all
  moreover have "{lower_claim_id k, upper_claim_id k} \<subseteq> set (cg_claim_ids g)"
    using row by (auto simp: group_members [OF g] involves_def)
  ultimately show "\<exists>g \<in> set (groups_for db tenant None None). cg_subject g = contest_subject k \<and>
      cg_predicate g = contest_predicate k \<and> {lower_claim_id k, upper_claim_id k} \<subseteq> set (cg_claim_ids g)" by metis
qed

theorem groups_isolated_witness:
  "map cg_claim_ids (groups_for contested_pair ''t1'' None None) = [[''c1'', ''c2'']] \<and>
   distinct (map (\<lambda>g. (cg_subject g, cg_predicate g)) (groups_for contested_pair ''t1'' None None))"
proof
  show "map cg_claim_ids (groups_for contested_pair ''t1'' None None) = [[''c1'', ''c2'']]" by code_simp
  have "distinct (map claim_id (claims contested_pair))" by code_simp
  from groups_isolated [OF this, of "''t1''", THEN conjunct1]
  show "distinct (map (\<lambda>g. (cg_subject g, cg_predicate g)) (groups_for contested_pair ''t1'' None None))" .
qed

end
