(* ===== verification/Claim_Writer.thy ===== *)
theory Claim_Writer
  imports Contest
begin

section \<open>Writing to stored claims\<close>

text \<open>
  The statements of \<open>contextplane/service/memory/claim_writer.py\<close> on claims that already exist (rescoring,
  closing, marking, merging provenance, staging a confirmation), the human confirmation of
  \<open>confirmation.py\<close> and the discarding of a claim of \<open>claim_curator_actions.py\<close>. Fresh identifiers are arguments,
  as is the kind of the authenticated actor. Resolution of a new claim's subject, predicate and authority
  (\<open>stage_claim\<close>) is not part of this theory. The embedding index is updated by every closure and is not modelled.
\<close>

subsection \<open>Scores\<close>

definition class_of_row :: "string \<Rightarrow> provenance_row \<Rightarrow> store_error + evidence_class" where
  "class_of_row auth p =
     result_map
       (\<lambda>r. \<lparr>ec_key = the (independence_key p),
             ec_group = (case independence_group p of Some g \<Rightarrow> g | None \<Rightarrow> []), authority_rank = r\<rparr>)
       (of_option RankKeyError (authority_rank_of auth))"

definition keyed_rows :: "claim_db \<Rightarrow> uuid \<Rightarrow> provenance_row list" where
  "keyed_rows db cid = filter (\<lambda>p. pv_claim_id p = cid \<and> independence_key p \<noteq> None) (provenance db)"

text \<open>One class per key, the first row of a key standing for it.\<close>

definition distinct_classes :: "evidence_class list \<Rightarrow> evidence_class list" where
  "distinct_classes classes = map snd (best_per_key ec_key (\<lambda>_ _. False) classes)"

definition store_score :: "uuid \<Rightarrow> scored_confidence \<Rightarrow> moment \<Rightarrow> claim_db \<Rightarrow> claim_db" where
  "store_score cid s now db =
     update_claims (\<lambda>c. claim_id c = cid)
       (\<lambda>c. c\<lparr>confidence := Some (sc_value s), scored_at := Some now, score_inputs := Some (sc_inputs s),
              row_scorer := Some SCORER_VERSION\<rparr>) db"

definition rescore ::
    "uuid \<Rightarrow> string \<Rightarrow> string \<Rightarrow> bool \<Rightarrow> confidence_policy \<Rightarrow> moment \<Rightarrow> claim_db \<Rightarrow> store_error + claim_db" where
  "rescore cid st auth contested p now db =
     (if st = ''unlinked'' then Inr db
      else result_map
        (\<lambda>classes.
           case score p auth (drop 1 (distinct_classes classes)) contested False None False of
             None \<Rightarrow> db
           | Some s \<Rightarrow> store_score cid s now db)
        (traverse (class_of_row auth) (keyed_rows db cid)))"

definition rescore_existing :: "uuid \<Rightarrow> confidence_policy \<Rightarrow> moment \<Rightarrow> claim_db \<Rightarrow> store_error + claim_db" where
  "rescore_existing cid p now db =
     (case claim_with_id db cid of
        None \<Rightarrow> Inr db
      | Some c \<Rightarrow>
          if claim_status c = ''unlinked'' then Inr db
          else rescore cid (claim_status c) (source_authority c) (is_contested c) p now db)"

subsection \<open>Lifecycle\<close>

definition SUPERSEDED_REASONS :: "string list" where
  "SUPERSEDED_REASONS = [''lost_conflict'', ''cluster_collapsed'', ''human_confirmed'', ''curator_replaced'']"

definition close_superseded :: "uuid \<Rightarrow> uuid \<Rightarrow> string \<Rightarrow> moment \<Rightarrow> claim_db \<Rightarrow> store_error + claim_db" where
  "close_superseded cid survivor reason now db =
     (if reason \<notin> set SUPERSEDED_REASONS then Inl ValidationError
      else Inr (update_claims (\<lambda>c. claim_id c = cid \<and> staged c)
        (\<lambda>c. c\<lparr>claim_status := ''superseded'', invalidated_at := Some now, superseded_by := Some survivor,
               superseded_reason := Some reason\<rparr>) db))"

definition mark_consolidated :: "uuid \<Rightarrow> moment \<Rightarrow> claim_db \<Rightarrow> claim_db" where
  "mark_consolidated cid now db = update_claims (\<lambda>c. claim_id c = cid) (\<lambda>c. c\<lparr>consolidated_at := Some now\<rparr>) db"

definition set_promotion_state :: "uuid \<Rightarrow> string \<Rightarrow> claim_db \<Rightarrow> store_error + claim_db" where
  "set_promotion_state cid st db =
     (if st \<notin> set [''proposed'', ''promoted'', ''rejected'', ''reversed''] then Inl StateError
      else Inr (update_claims (\<lambda>c. claim_id c = cid) (\<lambda>c. c\<lparr>promotion_state := Some st\<rparr>) db))"

definition same_evidence :: "provenance_row \<Rightarrow> provenance_row \<Rightarrow> bool" where
  "same_evidence p q \<longleftrightarrow> pv_claim_id p = pv_claim_id q \<and> evidence_kind p = evidence_kind q \<and> evidence_ref p = evidence_ref q"

definition add_provenance :: "provenance_row \<Rightarrow> claim_db \<Rightarrow> claim_db" where
  "add_provenance p db = (if (\<exists>q \<in> set (provenance db). same_evidence p q) then db
     else db\<lparr>provenance := provenance db @ [p]\<rparr>)"

definition merge_provenance :: "uuid \<Rightarrow> uuid \<Rightarrow> claim_db \<Rightarrow> claim_db" where
  "merge_provenance survivor collapsed db =
     fold add_provenance
       (map (\<lambda>p. p\<lparr>pv_claim_id := survivor\<rparr>) (filter (\<lambda>p. pv_claim_id p = collapsed) (provenance db))) db"

subsection \<open>Human confirmation\<close>

text \<open>The row of the confirmation: what is asserted and the status are copied, nothing else.\<close>

definition confirmation_row ::
    "uuid \<Rightarrow> uuid \<Rightarrow> string \<Rightarrow> rat \<Rightarrow> confidence_inputs \<Rightarrow> moment \<Rightarrow> uuid \<Rightarrow> uuid option \<Rightarrow> moment \<Rightarrow> claim_row \<Rightarrow> claim_row" where
  "confirmation_row new_id cid auth conf inputs hold tenant actor now c =
     \<lparr>claim_id = new_id, author_tenant = tenant, author_actor = actor, asserted = asserted c,
      source_authority = auth, created_at = now, claim_status = claim_status c, superseded_by = None,
      superseded_reason = None, invalidated_at = None, consolidated_at = None, is_contested = False,
      confidence = Some conf, scored_at = Some now, score_inputs = Some inputs, row_scorer = Some SCORER_VERSION,
      hold_until = Some hold, confirms = Some cid, confirmed_by = actor, confirmed_at = Some now,
      promotion_state = None\<rparr>"

definition stage_confirmation ::
    "uuid \<Rightarrow> uuid \<Rightarrow> string \<Rightarrow> rat \<Rightarrow> confidence_inputs \<Rightarrow> moment \<Rightarrow> uuid \<Rightarrow> uuid option \<Rightarrow> moment \<Rightarrow> claim_db \<Rightarrow> store_error + claim_db" where
  "stage_confirmation new_id cid auth conf inputs hold tenant actor now db =
     (let rows = map (confirmation_row new_id cid auth conf inputs hold tenant actor now)
                   (filter (\<lambda>c. claim_id c = cid) (claims db));
          db1 = db\<lparr>claims := claims db @ rows\<rparr>;
          db2 = merge_provenance new_id cid db1;
          db3 = (case actor of
                   None \<Rightarrow> db2
                 | Some a \<Rightarrow> add_provenance \<lparr>pv_claim_id = new_id, evidence_kind = ''curator'', evidence_ref = a,
                     evidence_excerpt = None, derivation = ''human'', independence_key = None,
                     independence_group = None, recorded_at = now\<rparr> db2)
      in close_superseded cid new_id ''human_confirmed'' now db3)"

record confirmation =
  cf_claim_id :: uuid
  cf_confirms :: uuid
  cf_authority :: string
  cf_confidence :: rat
  cf_bucket :: string
  cf_hold_until :: moment

definition write_audit :: "string \<Rightarrow> uuid option \<Rightarrow> uuid option \<Rightarrow> uuid \<Rightarrow> json \<Rightarrow> moment \<Rightarrow> claim_db \<Rightarrow> claim_db" where
  "write_audit action tenant actor target payload now db =
     db\<lparr>audit_log := audit_log db @
       [\<lparr>au_tenant = tenant, au_actor = actor, au_action = action, au_target = target, au_after = payload, au_ts = now\<rparr>]\<rparr>"

text \<open>The hold is a number of days, to the nearest microsecond.\<close>

definition hold_end :: "string \<Rightarrow> confidence_policy \<Rightarrow> moment \<Rightarrow> moment" where
  "hold_end cat p now = now + round (confirmation_hold_days cat (Some (real_of_int (policy_hold_days p))) * 86400000000)"

text \<open>A missing base value for the tier is a key error. A tenant has a row in the audit log only as its identifier.\<close>

definition confirm ::
    "bool \<Rightarrow> uuid \<Rightarrow> uuid option \<Rightarrow> uuid \<Rightarrow> uuid \<Rightarrow> confidence_policy \<Rightarrow> moment \<Rightarrow> claim_db \<Rightarrow> store_error + confirmation \<times> claim_db" where
  "confirm human tenant actor new_id cid p now db =
     (if \<not> human then Inl NotPermitted
      else case claim_with_id db cid of
        None \<Rightarrow> Inl ClaimNotFound
      | Some c \<Rightarrow>
          if superseded_by c \<noteq> None then Inl ClaimConflict
          else if subject (asserted c) = None then Inl ClaimConflict
          else let auth = (if owning_tenant (asserted c) = Some tenant then AUTHORITY_OWNER_HUMAN else AUTHORITY_OBSERVER_HUMAN);
                   hold = hold_end (category (asserted c)) p now in
            result_bind (of_option RankKeyError (map_of (base_by_authority p) auth)) (\<lambda>base.
            let inputs = \<lparr>ci_authority = auth, ci_base = base, corroborating_classes = 0, ci_probability = 0,
                  ci_contested = False, ci_confirmed = True, provider_confidence = None, provider_applied = False,
                  scorer_version = SCORER_VERSION\<rparr>;
                conf = confirmed_confidence p in
            result_map
              (\<lambda>db'. (\<lparr>cf_claim_id = new_id, cf_confirms = cid, cf_authority = auth, cf_confidence = conf,
                       cf_bucket = bucket_for conf, cf_hold_until = hold\<rparr>,
                 write_audit ''claim.superseded'' (owning_tenant (asserted c)) actor cid
                   (JObj [(''superseded_by'', JStr new_id)]) now
                 (write_audit ''claim.confirmed'' (owning_tenant (asserted c)) actor new_id
                   (JObj [(''bucket'', JStr (bucket_for conf)), (''confirms_claim_id'', JStr cid),
                          (''source_authority'', JStr auth)]) now db')))
              (stage_confirmation new_id cid auth conf inputs hold tenant actor now db)))"

definition can_supersede :: "string \<Rightarrow> string \<Rightarrow> bool" where
  "can_supersede candidate incumbent =
     (case (authority_rank_of candidate, authority_rank_of incumbent) of
        (Some c, Some i) \<Rightarrow> c \<le> i | _ \<Rightarrow> False)"

subsection \<open>Discarding\<close>

definition CURATOR_ROLES :: "string list" where "CURATOR_ROLES = [''producer'', ''admin'']"

definition discard :: "string list \<Rightarrow> uuid \<Rightarrow> uuid option \<Rightarrow> uuid \<Rightarrow> string \<Rightarrow> moment \<Rightarrow> claim_db \<Rightarrow> store_error + claim_db" where
  "discard roles tenant actor cid reason now db =
     (if set roles \<inter> set CURATOR_ROLES = {} then Inl NotPermitted
      else case claim_with_id db cid of
        None \<Rightarrow> Inl ClaimNotFound
      | Some c \<Rightarrow>
          if tenant_of c \<noteq> tenant then Inl NotPermitted
          else if claim_status c \<notin> set [''staged'', ''unlinked''] then Inl ClaimConflict
          else Inr (write_audit ''claim.discarded'' (Some (tenant_of c)) actor cid (JObj [(''reason'', JStr reason)]) now
            (update_claims (\<lambda>c. claim_id c = cid \<and> claim_status c \<in> set [''staged'', ''unlinked''])
              (\<lambda>c. c\<lparr>claim_status := ''rejected''\<rparr>) db)))"

subsection \<open>What the statements keep\<close>

text \<open>A claim is live when a staged row has its identifier.\<close>

definition live :: "claim_db \<Rightarrow> uuid \<Rightarrow> bool" where
  "live db x \<longleftrightarrow> (\<exists>c \<in> set (claims db). claim_id c = x \<and> staged c)"

text \<open>A statement is neutral when it touches neither disagreements, flags nor lifecycle.\<close>

definition neutral :: "claim_db \<Rightarrow> claim_db \<Rightarrow> bool" where
  "neutral db db' \<longleftrightarrow>
     contests db' = contests db \<and> evolves db db' \<and>
     map (\<lambda>c. (is_contested c, claim_status c)) (claims db') = map (\<lambda>c. (is_contested c, claim_status c)) (claims db)"

lemma neutral_refl [simp, intro]: "neutral db db"
  by (simp add: neutral_def)

lemma neutral_trans: "neutral a b \<Longrightarrow> neutral b c \<Longrightarrow> neutral a c"
  unfolding neutral_def by (auto intro: evolves_trans)

lemma neutral_same_claims: "claims db' = claims db \<Longrightarrow> contests db' = contests db \<Longrightarrow> neutral db db'"
  by (simp add: neutral_def evolves_same_claims)

lemma neutral_flags:
  assumes "neutral db db'" "flags_exact db"
  shows "flags_exact db'"
proof (rule flags_exact_same [OF assms(2)])
  show "contests db' = contests db" "evolves db db'" using assms(1) by (simp_all add: neutral_def)
  show "map is_contested (claims db') = map is_contested (claims db)"
    using arg_cong [of _ _ "map fst", OF assms(1) [unfolded neutral_def, THEN conjunct2, THEN conjunct2]]
    by (simp add: comp_def)
qed

lemma neutral_live:
  assumes "neutral db db'"
  shows "live db' x = live db x"
proof -
  have "map (\<lambda>c. (claim_id c, claim_status c)) (claims db') = map (\<lambda>c. (claim_id c, claim_status c)) (claims db)"
  proof (rule nth_equalityI)
    show "length (map (\<lambda>c. (claim_id c, claim_status c)) (claims db')) =
        length (map (\<lambda>c. (claim_id c, claim_status c)) (claims db))"
      using assms unfolding neutral_def evolves_def by (metis length_map list_all2_lengthD)
    fix i
    assume i: "i < length (map (\<lambda>c. (claim_id c, claim_status c)) (claims db'))"
    have "length (claims db') = length (claims db)" using assms unfolding neutral_def evolves_def by (metis list_all2_lengthD)
    with i have "claim_id (claims db' ! i) = claim_id (claims db ! i)" "claim_status (claims db' ! i) = claim_status (claims db ! i)"
      using assms evolves_ids [of db db'] unfolding neutral_def by (auto simp: list_eq_iff_nth_eq)
    then show "map (\<lambda>c. (claim_id c, claim_status c)) (claims db') ! i = map (\<lambda>c. (claim_id c, claim_status c)) (claims db) ! i"
      using i \<open>length (claims db') = length (claims db)\<close> by simp
  qed
  from arg_cong [OF this, of set] have "(\<lambda>c. (claim_id c, claim_status c)) ` set (claims db') = (\<lambda>c. (claim_id c, claim_status c)) ` set (claims db)"
    by simp
  moreover have "live d x \<longleftrightarrow> (x, ''staged'') \<in> (\<lambda>c. (claim_id c, claim_status c)) ` set (claims d)" for d
    by (auto simp: live_def staged_def)
  ultimately show ?thesis by simp
qed

lemma live_update:
  assumes "\<And>c. claim_id (f c) = claim_id c \<and> claim_status (f c) = claim_status c"
  shows "live (update_claims P f db) x = live db x"
  unfolding live_def update_claims_simps set_map Set.bex_simps(7)
  by (rule bex_cong [OF refl]) (simp add: staged_def assms)

lemma neutral_update:
  assumes "\<And>c. P c \<Longrightarrow> row_evolves c (f c) \<and> is_contested (f c) = is_contested c \<and> claim_status (f c) = claim_status c"
  shows "neutral db (update_claims P f db)"
  using assms by (auto simp: neutral_def intro!: evolves_update)

lemma add_provenance_simps [simp]:
  "claims (add_provenance p db) = claims db" "contests (add_provenance p db) = contests db"
  by (simp_all add: add_provenance_def)

lemma merge_provenance_simps [simp]:
  "claims (merge_provenance s c db) = claims db" "contests (merge_provenance s c db) = contests db"
proof -
  have "claims (fold add_provenance ps d) = claims d \<and> contests (fold add_provenance ps d) = contests d" for ps d
    by (induction ps arbitrary: d) simp_all
  then show "claims (merge_provenance s c db) = claims db" "contests (merge_provenance s c db) = contests db"
    by (simp_all add: merge_provenance_def)
qed

lemma store_score_neutral: "neutral db (store_score cid s now db)"
  unfolding store_score_def by (rule neutral_update) (simp add: row_evolves_def)

lemma rescore_neutral: "rescore cid st auth contested p now db = Inr db' \<Longrightarrow> neutral db db'"
  by (auto simp: rescore_def result_map_def store_score_neutral split: if_splits sum.splits option.splits)

lemma rescore_existing_neutral: "rescore_existing cid p now db = Inr db' \<Longrightarrow> neutral db db'"
  by (auto simp: rescore_existing_def rescore_neutral split: if_splits option.splits)

lemma mark_consolidated_neutral: "neutral db (mark_consolidated cid now db)"
  unfolding mark_consolidated_def by (rule neutral_update) (simp add: row_evolves_def)

lemma set_promotion_state_neutral: "set_promotion_state cid st db = Inr db' \<Longrightarrow> neutral db db'"
  by (auto simp: set_promotion_state_def row_evolves_def split: if_splits intro!: neutral_update)

lemma write_audit_simps [simp]:
  "claims (write_audit a t ac tg pl now db) = claims db" "contests (write_audit a t ac tg pl now db) = contests db"
  by (simp_all add: write_audit_def)

end
