(* ===== verification/Consolidation.thy ===== *)
theory Consolidation
  imports Claim_Writer
begin

section \<open>Consolidation of claims\<close>

text \<open>
  The model of \<open>contextplane/service/memory/consolidation.py\<close> and of the sweep that drives it
  (\<open>contextplane/workers/consolidation_sweep.py\<close>): a staged claim is compared with the live claims of its subject
  and predicate and added, collapsed into an equal one, routed to the owner, recorded as
  contested, or allowed to supersede weaker ones. A transaction that raises leaves the tables as they
  were. The theorems say which claims a consolidation can close, that it keeps the invariants of
  the tables, and that it is idempotent; and they exhibit three defects.
\<close>

subsection \<open>Decisions\<close>

datatype decision = ADD | UPDATE | NOOP | CONTESTED | PROPOSAL

definition decision_text :: "decision \<Rightarrow> string" where
  "decision_text d =
     (case d of ADD \<Rightarrow> ''add'' | UPDATE \<Rightarrow> ''update'' | NOOP \<Rightarrow> ''noop'' | CONTESTED \<Rightarrow> ''contested'' | PROPOSAL \<Rightarrow> ''proposal'')"

definition audit_action :: "decision \<Rightarrow> string" where
  "audit_action d =
     (case d of ADD \<Rightarrow> ''claim.consolidated_add'' | UPDATE \<Rightarrow> ''claim.consolidated_update''
      | NOOP \<Rightarrow> ''claim.consolidated_noop'' | CONTESTED \<Rightarrow> ''claim.contested'' | PROPOSAL \<Rightarrow> ''claim.proposal_routed'')"

definition REASON_LOST_CONFLICT :: string where "REASON_LOST_CONFLICT = ''lost_conflict''"
definition REASON_CLUSTER_COLLAPSED :: string where "REASON_CLUSTER_COLLAPSED = ''cluster_collapsed''"
definition MATCHED_EXACT :: string where "MATCHED_EXACT = ''exact_value''"
definition MATCHED_SEMANTIC :: string where "MATCHED_SEMANTIC = ''semantic''"
definition MAX_NEIGHBOURHOOD :: nat where "MAX_NEIGHBOURHOOD = 50"

text \<open>The rank of a tier the ladder does not know is below all others.\<close>

definition claim_rank :: "claim_row \<Rightarrow> int" where
  "claim_rank c = (case authority_rank_of (source_authority c) of
     Some r \<Rightarrow> r | None \<Rightarrow> int (length SOURCE_AUTHORITY_RANK))"

record outcome =
  oc_claim_id :: uuid
  oc_decision :: decision
  oc_reason :: string
  oc_superseded :: "uuid list"
  oc_collapsed :: "uuid list"
  oc_contested_with :: "uuid list"
  oc_already_settled :: bool
  oc_similarity :: rat
  oc_matched_by :: string

definition plain_outcome :: "uuid \<Rightarrow> decision \<Rightarrow> string \<Rightarrow> outcome" where
  "plain_outcome cid d reason =
     \<lparr>oc_claim_id = cid, oc_decision = d, oc_reason = reason, oc_superseded = [], oc_collapsed = [],
      oc_contested_with = [], oc_already_settled = False, oc_similarity = 1, oc_matched_by = MATCHED_EXACT\<rparr>"

text \<open>\<open>f"{x:.2f}"\<close> of a ratio.\<close>

definition fmt2 :: "rat \<Rightarrow> string" where
  "fmt2 x =
     (let y = x * 100; n = \<lfloor>y\<rfloor>; r = y - of_int n;
          m = (if r < 1/2 then n else if r > 1/2 then n + 1 else if even n then n else n + 1)
      in show_int (m div 100) @ ''.'' @ (if m mod 100 < 10 then ''0'' else []) @ show_int (m mod 100))"

definition competes :: "claim_row \<Rightarrow> claim_row \<Rightarrow> bool" where
  "competes c other =
     (if cardinality (asserted c) \<noteq> CARDINALITY_SINGLE then False
      else if cardinality (asserted other) \<noteq> CARDINALITY_SINGLE then False
      else intervals_overlap (valid_from (asserted c)) (valid_to (asserted c)) (valid_from (asserted other)) (valid_to (asserted other)))"

definition compare_with :: "'v::linorder lib \<Rightarrow> claim_row \<Rightarrow> claim_row \<Rightarrow> verdict" where
  "compare_with L c other =
     values_compatible L (val_type (asserted c)) (val (asserted c)) (val (asserted other))
       (val_entity (asserted c)) (val_entity (asserted other))"

text \<open>How a neighbour is equivalent to the candidate, and whether it conflicts with it.\<close>

definition equivalence_of :: "'v::linorder lib \<Rightarrow> claim_row \<Rightarrow> claim_row \<Rightarrow> (claim_row \<times> rat \<times> string) option" where
  "equivalence_of L c other =
     (if compare_with L c other = COMPATIBLE then Some (other, 1, MATCHED_EXACT)
      else let (near, similarity) = is_near_duplicate (val_type (asserted c)) (val (asserted c)) (val (asserted other)) in
        if near then Some (other, similarity, MATCHED_SEMANTIC) else None)"

definition conflicts_with :: "'v::linorder lib \<Rightarrow> claim_row \<Rightarrow> claim_row \<Rightarrow> bool" where
  "conflicts_with L c other \<longleftrightarrow>
     equivalence_of L c other = None \<and> compare_with L c other = INCOMPATIBLE \<and> competes c other"

definition supersedes :: "claim_row \<Rightarrow> claim_row \<Rightarrow> bool" where
  "supersedes c other \<longleftrightarrow>
     claim_rank c < claim_rank other \<or> (claim_rank c = claim_rank other \<and> created_at c > created_at other)"

text \<open>\<open>min\<close> with a key: the first of the least ones.\<close>

fun min_by_rank :: "claim_row \<Rightarrow> claim_row list \<Rightarrow> claim_row" where
  "min_by_rank best [] = best"
| "min_by_rank best (c # cs) = min_by_rank (if claim_rank c < claim_rank best then c else best) cs"

definition decide_claim :: "'v::linorder lib \<Rightarrow> claim_row \<Rightarrow> claim_row list \<Rightarrow> outcome" where
  "decide_claim L c neighbours =
     (let cid = claim_id c;
          equivalent = List.map_filter (equivalence_of L c) neighbours;
          conflicting = filter (conflicts_with L c) neighbours in
      if neighbours = []
      then plain_outcome cid ADD ''no comparable claim exists for this subject and predicate''
      else (case sort_key (\<lambda>(_, similarity, matched). (matched \<noteq> MATCHED_EXACT, - similarity)) equivalent of
        (best, similarity, matched) # rest \<Rightarrow>
          (plain_outcome cid NOOP
             (''an equivalent claim is already present ('' @ show_int (int (length equivalent)) @ '' match(es), closest by '' @
              matched @ '' at '' @ fmt2 similarity @ ''); collapsed into it rather than stored again''))
          \<lparr>oc_collapsed := claim_id best # map (\<lambda>(n, _, _). claim_id n) rest,
           oc_similarity := similarity, oc_matched_by := matched\<rparr>
      | [] \<Rightarrow>
        (case conflicting of
           [] \<Rightarrow> plain_outcome cid ADD ''nothing in the neighbourhood is equivalent or in conflict''
         | first # others \<Rightarrow>
             if owning_tenant (asserted c) \<noteq> None \<and> Some (author_tenant c) \<noteq> owning_tenant (asserted c)
             then (plain_outcome cid PROPOSAL
                    (''this claim is about another tenant's capability and conflicts with theirs, '' @
                     ''so it is routed to the owner rather than superseding anything''))
                  \<lparr>oc_contested_with := map claim_id conflicting\<rparr>
             else let supersedable = filter (supersedes c) conflicting in
               if supersedable = []
               then (plain_outcome cid CONTESTED
                      (''a claim of '' @ source_authority (min_by_rank first others) @
                       '' authority holds the field and this one is '' @ source_authority c @
                       ''; recorded as contested rather than superseding, because a weaker source never displaces a stronger one however recent it is''))
                    \<lparr>oc_contested_with := map claim_id conflicting\<rparr>
               else let outranked = map claim_id supersedable;
                        standing = filter (\<lambda>i. i \<notin> set outranked) (map claim_id conflicting) in
                 (plain_outcome cid UPDATE
                   (''supersedes '' @ show_int (int (length outranked)) @ '' claim(s) of lower or equal authority; '' @
                    show_int (int (length standing)) @ '' stronger claim(s) remain and are contested''))
                 \<lparr>oc_superseded := outranked, oc_contested_with := standing\<rparr>)))"

subsection \<open>Reading\<close>

definition load_candidate :: "claim_db \<Rightarrow> uuid \<Rightarrow> claim_row option" where
  "load_candidate db cid = find (\<lambda>c. claim_id c = cid \<and> staged c \<and> subject (asserted c) \<noteq> None) (claims db)"

definition is_neighbour :: "claim_row \<Rightarrow> claim_row \<Rightarrow> bool" where
  "is_neighbour c n \<longleftrightarrow>
     subject (asserted n) = subject (asserted c) \<and> pred (asserted n) = pred (asserted c) \<and> staged n \<and>
     superseded_by n = None \<and> claim_id n \<noteq> claim_id c"

definition neighbourhood :: "claim_db \<Rightarrow> claim_row \<Rightarrow> claim_row list" where
  "neighbourhood db c = take MAX_NEIGHBOURHOOD (sort_key (\<lambda>n. - created_at n) (filter (is_neighbour c) (claims db)))"

definition already_settled :: "claim_row \<Rightarrow> claim_row list \<Rightarrow> bool" where
  "already_settled c neighbours =
     (case consolidated_at c of
        None \<Rightarrow> False
      | Some t \<Rightarrow> neighbours = [] \<or> Max (set (map created_at neighbours)) \<le> t)"

subsection \<open>Applying a decision\<close>

definition close_claim :: "uuid \<Rightarrow> string \<Rightarrow> moment \<Rightarrow> uuid \<Rightarrow> claim_db \<Rightarrow> store_error + claim_db" where
  "close_claim survivor reason now cid db =
     result_map (\<lambda>db'. snd (resolve_contests_for cid now RESOLUTION_SUPERSEDED db'))
       (close_superseded cid survivor reason now db)"

definition record_cluster :: "uuid \<Rightarrow> uuid \<Rightarrow> rat \<Rightarrow> string \<Rightarrow> moment \<Rightarrow> claim_db \<Rightarrow> claim_db" where
  "record_cluster survivor collapsed similarity matched now db =
     (if (\<exists>r \<in> set (clusters db). survivor_id r = survivor \<and> collapsed_id r = collapsed) then db
      else db\<lparr>clusters := clusters db @ [\<lparr>survivor_id = survivor, collapsed_id = collapsed, cluster_similarity = similarity,
             cluster_matched_by = matched, collapsed_at = now\<rparr>]\<rparr>)"

definition audit_metadata :: "claim_row \<Rightarrow> outcome \<Rightarrow> json" where
  "audit_metadata c o' =
     JObj [(''authority'', JStr (source_authority c)), (''collapsed'', JArr (map JStr (oc_collapsed o'))),
           (''contested_with'', JArr (map JStr (oc_contested_with o'))), (''decision'', JStr (decision_text (oc_decision o'))),
           (''predicate'', JStr (pred (asserted c))), (''reason'', JStr (oc_reason o')),
           (''superseded'', JArr (map JStr (oc_superseded o')))]"

definition apply_collapse :: "claim_row \<Rightarrow> outcome \<Rightarrow> moment \<Rightarrow> uuid \<Rightarrow> claim_db \<Rightarrow> store_error + claim_db" where
  "apply_collapse c o' now survivor db =
     result_bind (close_claim survivor REASON_CLUSTER_COLLAPSED now (claim_id c) db) (\<lambda>db1.
       result_map (record_cluster survivor (claim_id c) (oc_similarity o') (oc_matched_by o') now)
         (rescore_existing survivor default_policy now (merge_provenance survivor (claim_id c) db1)))"

definition apply_outcome :: "claim_row \<Rightarrow> outcome \<Rightarrow> moment \<Rightarrow> claim_db \<Rightarrow> store_error + claim_db" where
  "apply_outcome c o' now db =
     result_map (write_audit (audit_action (oc_decision o')) (Some (author_tenant c)) (author_actor c) (claim_id c)
                   (audit_metadata c o') now)
       (result_bind
          (if oc_decision o' = UPDATE
           then fold_result (close_claim (claim_id c) REASON_LOST_CONFLICT now) (oc_superseded o') db else Inr db)
          (\<lambda>db1. case (oc_decision o', oc_collapsed o') of
             (NOOP, survivor # _) \<Rightarrow> apply_collapse c o' now survivor db1
           | _ \<Rightarrow> Inr db1))"

definition consolidate :: "'v::linorder lib \<Rightarrow> uuid \<Rightarrow> moment \<Rightarrow> claim_db \<Rightarrow> store_error + outcome \<times> claim_db" where
  "consolidate L cid now db =
     (case load_candidate db cid of
        None \<Rightarrow> Inr ((plain_outcome cid NOOP ''claim is not live, so there is nothing to reconcile'')\<lparr>oc_already_settled := True\<rparr>, db)
      | Some c \<Rightarrow>
          let neighbours = neighbourhood db c in
          if already_settled c neighbours
          then Inr ((plain_outcome cid NOOP ''already reconciled, and nothing has arrived in the neighbourhood since'')
                      \<lparr>oc_already_settled := True\<rparr>, db)
          else let o' = decide_claim L c neighbours in
            result_map (\<lambda>db'. (o', mark_consolidated cid now db')) (apply_outcome c o' now db))"

subsection \<open>The sweep\<close>

record sweep_report =
  considered :: nat
  decided :: nat
  sw_already_settled :: nat
  sw_failed :: nat

definition needs_consolidation :: "claim_db \<Rightarrow> claim_row \<Rightarrow> bool" where
  "needs_consolidation db c \<longleftrightarrow>
     staged c \<and> superseded_by c = None \<and> subject (asserted c) \<noteq> None \<and>
     (case consolidated_at c of
        None \<Rightarrow> True
      | Some t \<Rightarrow> (\<exists>n \<in> set (claims db). subject (asserted n) = subject (asserted c) \<and> pred (asserted n) = pred (asserted c) \<and>
                    staged n \<and> claim_id n \<noteq> claim_id c \<and> created_at n > t))"

definition sweep_candidates :: "nat \<Rightarrow> claim_db \<Rightarrow> uuid list" where
  "sweep_candidates batch db = map claim_id (take batch (sort_key created_at (filter (needs_consolidation db) (claims db))))"

definition sweep_one :: "'v::linorder lib \<Rightarrow> (uuid \<Rightarrow> moment) \<Rightarrow> uuid \<Rightarrow> sweep_report \<times> claim_db \<Rightarrow> sweep_report \<times> claim_db" where
  "sweep_one L clock cid s =
     (case consolidate L cid (clock cid) (snd s) of
        Inl _ \<Rightarrow> ((fst s)\<lparr>sw_failed := sw_failed (fst s) + 1\<rparr>, snd s)
      | Inr (o', db') \<Rightarrow>
          ((if oc_already_settled o' then (fst s)\<lparr>sw_already_settled := sw_already_settled (fst s) + 1\<rparr>
            else (fst s)\<lparr>decided := decided (fst s) + 1\<rparr>), db'))"

definition sweep_once :: "'v::linorder lib \<Rightarrow> (uuid \<Rightarrow> moment) \<Rightarrow> nat \<Rightarrow> claim_db \<Rightarrow> sweep_report \<times> claim_db" where
  "sweep_once L clock batch db =
     (let ids = sweep_candidates batch db in
      fold (sweep_one L clock) ids
        (\<lparr>considered = length ids, decided = 0, sw_already_settled = 0, sw_failed = 0\<rparr>, db))"

subsection \<open>Closing\<close>

lemma close_superseded_live:
  assumes "close_superseded cid survivor reason now db = Inr db'"
  shows "live db' x \<longleftrightarrow> live db x \<and> x \<noteq> cid"
proof -
  have db': "db' = update_claims (\<lambda>c. claim_id c = cid \<and> staged c) (\<lambda>c. c\<lparr>claim_status := ''superseded'',
      invalidated_at := Some now, superseded_by := Some survivor, superseded_reason := Some reason\<rparr>) db"
    using assms by (simp add: close_superseded_def split: if_splits)
  have "live db' x \<longleftrightarrow> (\<exists>c \<in> set (claims db). claim_id c = x \<and> staged c \<and> x \<noteq> cid)"
    unfolding db' live_def update_claims_simps set_map Set.bex_simps(7)
    by (rule bex_cong [OF refl]) (auto simp: staged_def)
  then show ?thesis by (auto simp: live_def)
qed

lemma close_superseded_evolves: "close_superseded cid survivor reason now db = Inr db' \<Longrightarrow> evolves db db'"
  by (auto simp: close_superseded_def row_evolves_def split: if_splits intro!: evolves_update)

lemma close_superseded_flags:
  assumes "close_superseded cid survivor reason now db = Inr db'" "flags_exact db"
  shows "flags_exact db'"
  using assms by (auto simp: close_superseded_def flags_exact_def split: if_splits)

lemma resolve_contests_for_live [simp]: "live (snd (resolve_contests_for cid now res db)) x = live db x"
proof -
  have "live (settle now res P db) x = live db x" for P by (simp add: live_def)
  then show ?thesis by (simp add: resolve_contests_for_def Let_def clear_flags_def live_update)
qed

lemma close_claim_live:
  "close_claim survivor reason now cid db = Inr db' \<Longrightarrow> live db' x \<longleftrightarrow> live db x \<and> x \<noteq> cid"
  by (auto simp: close_claim_def result_map_eq_Inr close_superseded_live)

lemma close_claim_evolves: "close_claim survivor reason now cid db = Inr db' \<Longrightarrow> evolves db db'"
  by (auto simp: close_claim_def result_map_eq_Inr
      intro: evolves_trans close_superseded_evolves resolve_contests_for_evolves)

lemma close_claim_flags: "close_claim survivor reason now cid db = Inr db' \<Longrightarrow> flags_exact db \<Longrightarrow> flags_exact db'"
  by (auto simp: close_claim_def result_map_eq_Inr intro: close_superseded_flags resolve_contests_for_flags)

lemma close_claim_settles: "close_claim survivor reason now cid db = Inr db' \<Longrightarrow> \<not> has_open_contest db' cid"
  by (auto simp: close_claim_def result_map_eq_Inr resolve_contests_for_open)

interpretation closing: claim_operation "close_claim survivor reason now" for survivor reason now
  by unfold_locales (auto intro: close_claim_evolves close_claim_flags)

lemma close_all_live:
  "fold_result (close_claim survivor reason now) xs db = Inr db' \<Longrightarrow> live db' x \<longleftrightarrow> live db x \<and> x \<notin> set xs"
proof (induction xs arbitrary: db)
  case Nil
  then show ?case by simp
next
  case (Cons y ys)
  then obtain mid where "close_claim survivor reason now y db = Inr mid"
      "fold_result (close_claim survivor reason now) ys mid = Inr db'" by (auto simp: result_bind_eq_Inr)
  with Cons.IH [of mid] close_claim_live [of survivor reason now y db mid x] show ?case by auto
qed

lemma close_claim_total:
  "reason \<in> set SUPERSEDED_REASONS \<Longrightarrow> \<exists>db'. close_claim survivor reason now cid db = Inr db'"
  by (simp add: close_claim_def close_superseded_def)

lemma record_cluster_neutral: "neutral db (record_cluster s c sim m now db)"
  by (rule neutral_same_claims) (simp_all add: record_cluster_def)

lemma apply_collapse_steps:
  assumes "apply_collapse c o' now survivor db = Inr db'"
  obtains db1 where "close_claim survivor REASON_CLUSTER_COLLAPSED now (claim_id c) db = Inr db1" "neutral db1 db'"
proof -
  from assms obtain db1 db2 where steps: "close_claim survivor REASON_CLUSTER_COLLAPSED now (claim_id c) db = Inr db1"
      "rescore_existing survivor default_policy now (merge_provenance survivor (claim_id c) db1) = Inr db2"
      "db' = record_cluster survivor (claim_id c) (oc_similarity o') (oc_matched_by o') now db2"
    by (auto simp: apply_collapse_def result_map_eq_Inr result_bind_eq_Inr)
  have "neutral db1 (merge_provenance survivor (claim_id c) db1)" by (rule neutral_same_claims) simp_all
  then have "neutral db1 db'"
    using rescore_existing_neutral [OF steps(2)] record_cluster_neutral steps(3) by (metis neutral_trans)
  with steps(1) show thesis by (rule that)
qed

lemma apply_outcome_steps:
  assumes "apply_outcome c o' now db = Inr db'"
  obtains db1 db2 where "neutral db2 db'"
    "if oc_decision o' = UPDATE then fold_result (close_claim (claim_id c) REASON_LOST_CONFLICT now) (oc_superseded o') db = Inr db1
     else db1 = db"
    "case (oc_decision o', oc_collapsed o') of
       (NOOP, survivor # _) \<Rightarrow> apply_collapse c o' now survivor db1 = Inr db2 | _ \<Rightarrow> db2 = db1"
proof -
  from assms obtain db1 db2 where s: "db' = write_audit (audit_action (oc_decision o')) (Some (author_tenant c)) (author_actor c) (claim_id c)
        (audit_metadata c o') now db2"
      "(if oc_decision o' = UPDATE
        then fold_result (close_claim (claim_id c) REASON_LOST_CONFLICT now) (oc_superseded o') db else Inr db) = Inr db1"
      "(case (oc_decision o', oc_collapsed o') of
          (NOOP, survivor # _) \<Rightarrow> apply_collapse c o' now survivor db1 | _ \<Rightarrow> Inr db1) = Inr db2"
    unfolding apply_outcome_def result_map_eq_Inr result_bind_eq_Inr by blast
  have "neutral db2 db'" unfolding s(1) by (rule neutral_same_claims) simp_all
  moreover have "if oc_decision o' = UPDATE then fold_result (close_claim (claim_id c) REASON_LOST_CONFLICT now) (oc_superseded o') db = Inr db1
     else db1 = db" using s(2) by (auto split: if_splits)
  moreover have "case (oc_decision o', oc_collapsed o') of
       (NOOP, survivor # _) \<Rightarrow> apply_collapse c o' now survivor db1 = Inr db2 | _ \<Rightarrow> db2 = db1"
    using s(3) by (auto split: list.splits decision.splits)
  ultimately show thesis by (rule that)
qed

text \<open>The three ways a decided consolidation changes the tables.\<close>

lemma apply_outcome_cases:
  assumes "apply_outcome c o' now db = Inr db'"
  obtains (update) db1 where "oc_decision o' = UPDATE" "neutral db1 db'"
      "fold_result (close_claim (claim_id c) REASON_LOST_CONFLICT now) (oc_superseded o') db = Inr db1"
    | (collapse) survivor rest db1 where "oc_decision o' = NOOP" "oc_collapsed o' = survivor # rest" "neutral db1 db'"
      "close_claim survivor REASON_CLUSTER_COLLAPSED now (claim_id c) db = Inr db1"
    | (keep) "neutral db db'" "oc_decision o' \<noteq> UPDATE" "oc_decision o' = NOOP \<longrightarrow> oc_collapsed o' = []"
proof -
  from apply_outcome_steps [OF assms] obtain db1 db2 where s: "neutral db2 db'"
      "if oc_decision o' = UPDATE then fold_result (close_claim (claim_id c) REASON_LOST_CONFLICT now) (oc_superseded o') db = Inr db1
       else db1 = db"
      "case (oc_decision o', oc_collapsed o') of
         (NOOP, survivor # _) \<Rightarrow> apply_collapse c o' now survivor db1 = Inr db2 | _ \<Rightarrow> db2 = db1" by blast
  show thesis
  proof (cases "oc_decision o' = UPDATE")
    case True
    then show thesis using s update by auto
  next
    case False
    show thesis
    proof (cases "oc_decision o' = NOOP \<and> oc_collapsed o' \<noteq> []")
      case True
      then obtain survivor rest where r: "oc_collapsed o' = survivor # rest" by (cases "oc_collapsed o'") auto
      then have "apply_collapse c o' now survivor db = Inr db2" using s True False by simp
      then obtain db3 where "close_claim survivor REASON_CLUSTER_COLLAPSED now (claim_id c) db = Inr db3" "neutral db3 db2"
        by (rule apply_collapse_steps)
      then show thesis using collapse True r s(1) neutral_trans by blast
    next
      case no: False
      then have "db2 = db" using s(2,3) False by (auto split: decision.splits list.splits)
      then show thesis using keep s(1) False no by simp
    qed
  qed
qed

subsection \<open>Which claims a consolidation closes\<close>

definition owns_subject :: "claim_row \<Rightarrow> bool" where
  "owns_subject c \<longleftrightarrow> owning_tenant (asserted c) = None \<or> owning_tenant (asserted c) = Some (author_tenant c)"

text \<open>
  The standing of a tier written out, independently of the ladder the code keeps: an owner stands above
  an observer and an attributed claim above an unattributed one; within each, a human above an
  extraction above an inference; a tier nobody knows stands below all.
\<close>

definition standing :: "string \<Rightarrow> nat" where
  "standing a =
     (if a = ''owner_human'' then 7 else if a = ''owner_extraction'' then 6 else if a = ''owner_inference'' then 5
      else if a = ''observer_human'' then 4 else if a = ''observer_extraction'' then 3
      else if a = ''observer_inference'' then 2 else if a = ''unattributed'' then 1 else 0)"

lemma claim_rank_standing: "claim_rank c = 7 - int (standing (source_authority c))"
  by (auto simp: claim_rank_def authority_rank_of_def standing_def authority_defs eval_nat_numeral)

text \<open>
  That a claim displaces another: both answer a question with one answer, at some common instant, with
  values that cannot both be right and do not name the same thing; and the winner stands
  higher, or as high and is newer.
\<close>

definition displaces :: "'v::linorder lib \<Rightarrow> claim_row \<Rightarrow> claim_row \<Rightarrow> bool" where
  "displaces L c n \<longleftrightarrow>
     cardinality (asserted c) = ''single'' \<and> cardinality (asserted n) = ''single'' \<and> share_instant c n \<and>
     values_compatible L (val_type (asserted c)) (val (asserted c)) (val (asserted n))
       (val_entity (asserted c)) (val_entity (asserted n)) = INCOMPATIBLE \<and> \<not> same_name c n \<and>
     (standing (source_authority n) < standing (source_authority c) \<or>
      standing (source_authority n) = standing (source_authority c) \<and> created_at n < created_at c)"

text \<open>That two claims say the same: the values agree, or name the same thing.\<close>

definition says_same :: "'v::linorder lib \<Rightarrow> claim_row \<Rightarrow> claim_row \<Rightarrow> bool" where
  "says_same L c n \<longleftrightarrow>
     values_compatible L (val_type (asserted c)) (val (asserted c)) (val (asserted n))
       (val_entity (asserted c)) (val_entity (asserted n)) = COMPATIBLE \<or> same_name c n"

lemma equivalent_says_same: "equivalence_of L c n \<noteq> None \<longleftrightarrow> says_same L c n"
  by (auto simp: equivalence_of_def compare_with_def says_same_def same_name_def near_duplicate_iff [symmetric]
    split: prod.splits)

lemma supersedes_displaces:
  assumes "proper_intervals db" "c \<in> set (claims db)" "n \<in> set (claims db)"
    and "conflicts_with L c n" "supersedes c n"
  shows "displaces L c n"
proof -
  have "\<not> says_same L c n" "compare_with L c n = INCOMPATIBLE" "competes c n"
    using assms(4) equivalent_says_same [of L c n] by (auto simp: conflicts_with_def)
  then show ?thesis
    using assms(5) overlap_share_instant [OF assms(1-3)] claim_rank_standing [of c] claim_rank_standing [of n]
    by (auto simp: displaces_def supersedes_def competes_def compare_with_def says_same_def CARDINALITY_SINGLE_def
      split: if_splits)
qed

lemma plain_outcome_simps [simp]:
  "oc_decision (plain_outcome cid d r) = d" "oc_superseded (plain_outcome cid d r) = []"
  "oc_collapsed (plain_outcome cid d r) = []" "oc_contested_with (plain_outcome cid d r) = []"
  "oc_already_settled (plain_outcome cid d r) = False"
  by (simp_all add: plain_outcome_def)

lemma decide_superseded:
  assumes "x \<in> set (oc_superseded (decide_claim L c ns))"
  shows "\<exists>n \<in> set ns. claim_id n = x \<and> conflicts_with L c n \<and> supersedes c n \<and> owns_subject c"
proof -
  let ?cs = "filter (conflicts_with L c) ns"
  have "oc_superseded (decide_claim L c ns) = map claim_id (filter (supersedes c) ?cs) \<and> owns_subject c"
    using assms by (cases ?cs) (auto simp: decide_claim_def Let_def owns_subject_def split: if_splits list.splits prod.splits)
  then show ?thesis using assms by auto
qed

lemma decide_collapsed:
  assumes "oc_collapsed (decide_claim L c ns) = survivor # rest"
  shows "\<exists>n \<in> set ns. claim_id n = survivor \<and> equivalence_of L c n \<noteq> None"
proof -
  let ?eq = "List.map_filter (equivalence_of L c) ns"
  let ?sorted = "sort_key (\<lambda>(_, similarity, matched). (matched \<noteq> MATCHED_EXACT, - similarity)) ?eq"
  obtain best s m r where b: "?sorted = (best, s, m) # r" "claim_id best = survivor"
    using assms by (auto simp: decide_claim_def Let_def split: if_splits list.splits prod.splits)
  then have "(best, s, m) \<in> set ?eq" by (metis list.set_intros(1) set_sort)
  then obtain n where "n \<in> set ns" "equivalence_of L c n = Some (best, s, m)" by (auto simp: map_filter_def)
  then show ?thesis using b(2) by (auto simp: equivalence_of_def split: if_splits prod.splits)
qed

lemma decide_noop_collapses:
  "oc_decision (decide_claim L c ns) = NOOP \<Longrightarrow> oc_collapsed (decide_claim L c ns) \<noteq> []"
  by (auto simp: decide_claim_def Let_def split: if_splits list.splits prod.splits)

lemma neighbourhood_member: "n \<in> set (neighbourhood db c) \<Longrightarrow> n \<in> set (claims db) \<and> is_neighbour c n"
  by (auto simp: neighbourhood_def dest: in_set_takeD)

lemma load_candidate_Some:
  "load_candidate db cid = Some c \<Longrightarrow> c \<in> set (claims db) \<and> claim_id c = cid \<and> staged c \<and> subject (asserted c) \<noteq> None"
  by (auto simp: load_candidate_def find_Some_iff)

lemma consolidate_cases:
  assumes "consolidate L cid now db = Inr (o', db')"
  obtains (gone) "load_candidate db cid = None" "db' = db" "oc_already_settled o'"
    | (settled) c where "load_candidate db cid = Some c" "already_settled c (neighbourhood db c)" "db' = db" "oc_already_settled o'"
    | (decided) c db1 where "load_candidate db cid = Some c" "\<not> already_settled c (neighbourhood db c)"
        "o' = decide_claim L c (neighbourhood db c)" "apply_outcome c o' now db = Inr db1" "db' = mark_consolidated cid now db1"
proof (cases "load_candidate db cid")
  case None
  then have "db' = db" "oc_already_settled o'" using assms by (auto simp: consolidate_def)
  then show thesis by (rule gone [OF None])
next
  case (Some c)
  show thesis
  proof (cases "already_settled c (neighbourhood db c)")
    case True
    then have "db' = db" "oc_already_settled o'" using assms Some by (auto simp: consolidate_def Let_def)
    then show thesis by (rule settled [OF Some True])
  next
    case False
    then obtain db1 where "o' = decide_claim L c (neighbourhood db c)" "apply_outcome c o' now db = Inr db1"
        "db' = mark_consolidated cid now db1"
      using assms Some by (auto simp: consolidate_def Let_def result_map_eq_Inr)
    then show thesis by (rule decided [OF Some False])
  qed
qed

lemma consolidate_evolves: "consolidate L cid now db = Inr (o', db') \<Longrightarrow> evolves db db'"
proof (elim consolidate_cases)
  fix c db1
  assume a: "apply_outcome c o' now db = Inr db1" and m: "db' = mark_consolidated cid now db1"
  have n: "neutral x y \<Longrightarrow> evolves x y" for x y by (simp add: neutral_def)
  from a have "evolves db db1"
  proof (cases rule: apply_outcome_cases)
    case (update db2)
    then show ?thesis using closing.loop_evolves n evolves_trans by blast
  next
    case (collapse survivor rest db2)
    then show ?thesis using close_claim_evolves n evolves_trans by blast
  next
    case keep
    then show ?thesis using n by blast
  qed
  then show "evolves db db'" unfolding m using mark_consolidated_neutral n evolves_trans by blast
qed auto

lemma consolidate_flags: "consolidate L cid now db = Inr (o', db') \<Longrightarrow> flags_exact db \<Longrightarrow> flags_exact db'"
proof (elim consolidate_cases)
  fix c db1
  assume f: "flags_exact db" and a: "apply_outcome c o' now db = Inr db1" and m: "db' = mark_consolidated cid now db1"
  from a have "flags_exact db1"
  proof (cases rule: apply_outcome_cases)
    case (update db2)
    then show ?thesis using closing.loop_flags f neutral_flags by blast
  next
    case (collapse survivor rest db2)
    then show ?thesis using close_claim_flags f neutral_flags by blast
  next
    case keep
    then show ?thesis using f neutral_flags by blast
  qed
  then show "flags_exact db'" unfolding m using mark_consolidated_neutral neutral_flags by blast
qed auto

interpretation consolidating: claim_operation "\<lambda>cid db. result_map snd (consolidate L cid now db)" for L now
  by unfold_locales (auto simp: result_map_eq_Inr intro: consolidate_evolves consolidate_flags)

text \<open>
  C13. A weaker source never displaces a stronger one, and nobody displaces a claim about another tenant's
  capability. When a consolidation closes a claim, either it is the candidate itself, folded
  into a live neighbour that says the same, or it is a live neighbour of the candidate that
  answers the same single-valued question at a common instant with an incompatible value, whose author stands
  lower on the ladder written out in \<open>standing\<close> (or as high and wrote earlier), and the
  candidate's author owns the subject. Every stored interval ends after it begins, as the schema
  checks.
\<close>

theorem consolidation_closes_only_losers:
  assumes "proper_intervals db" "consolidate L cid now db = Inr (o', db')" "live db x" "\<not> live db' x"
  shows "\<exists>c \<in> set (claims db). \<exists>n \<in> set (claims db). claim_id c = cid \<and> is_neighbour c n \<and>
    (x = cid \<and> says_same L c n \<and> live db' (claim_id n) \<or>
     x = claim_id n \<and> displaces L c n \<and> owns_subject c)"
  using assms(2)
proof (cases rule: consolidate_cases)
  case (decided c db1)
  note c = load_candidate_Some [OF decided(1)]
  have live: "live db' y = live db1 y" for y unfolding decided(5) by (rule neutral_live [OF mark_consolidated_neutral])
  from decided(4) show ?thesis
  proof (cases rule: apply_outcome_cases)
    case (update db2)
    have "x \<in> set (oc_superseded o')"
      using close_all_live [OF update(3), of x] neutral_live [OF update(2), of x] assms(3,4) live by blast
    then show ?thesis
      using decide_superseded [of x L c] neighbourhood_member [of _ db c] c decided(3)
        supersedes_displaces [OF assms(1)] by metis
  next
    case (collapse survivor rest db2)
    have l: "live db' y \<longleftrightarrow> live db y \<and> y \<noteq> claim_id c" for y
      using close_claim_live [OF collapse(4), of y] neutral_live [OF collapse(3), of y] live by blast
    obtain n where n: "n \<in> set (neighbourhood db c)" "claim_id n = survivor" "equivalence_of L c n \<noteq> None"
      using decide_collapsed collapse(2) decided(3) by blast
    note n' = neighbourhood_member [OF n(1)]
    have "live db' (claim_id n)" unfolding l using n' by (auto simp: live_def is_neighbour_def)
    then show ?thesis using n n' c l equivalent_says_same assms(3,4) by blast
  next
    case keep
    then show ?thesis using neutral_live [of db db1 x] live assms(3,4) by blast
  qed
qed (use assms in auto)

theorem consolidation_closes_only_losers_witness:
  "\<exists>c \<in> set (claims sample_pair). \<exists>n \<in> set (claims sample_pair). claim_id c = ''c1'' \<and> is_neighbour c n \<and>
    (''c2'' = ''c1'' \<and> says_same sample_lib c n \<and>
       live (snd (projr (consolidate sample_lib ''c1'' 9 sample_pair))) (claim_id n) \<or>
     ''c2'' = claim_id n \<and> displaces sample_lib c n \<and> owns_subject c)"
proof (rule consolidation_closes_only_losers)
  show "consolidate sample_lib ''c1'' 9 sample_pair =
      Inr (fst (projr (consolidate sample_lib ''c1'' 9 sample_pair)), snd (projr (consolidate sample_lib ''c1'' 9 sample_pair)))"
    by code_simp
  show "proper_intervals sample_pair" by code_simp
  show "live sample_pair ''c2''" "\<not> live (snd (projr (consolidate sample_lib ''c1'' 9 sample_pair))) ''c2''" by code_simp+
qed

subsection \<open>Idempotence and the sweep\<close>

lemma mark_consolidated_row:
  "c \<in> set (claims (mark_consolidated cid now db)) \<Longrightarrow> claim_id c = cid \<Longrightarrow> consolidated_at c = Some now"
  unfolding mark_consolidated_def update_claims_simps set_map by (elim imageE) (simp split: if_splits)

lemma settled_after:
  assumes "consolidated_at c = Some now" "\<forall>n \<in> set (claims db). created_at n \<le> now"
  shows "already_settled c (neighbourhood db c)"
proof -
  have "\<forall>n \<in> set (neighbourhood db c). created_at n \<le> now" using assms(2) neighbourhood_member by blast
  then show ?thesis using assms(1) by (cases "neighbourhood db c = []") (auto simp: already_settled_def)
qed

lemma consolidate_settled:
  assumes "load_candidate db cid = None \<or> (\<exists>c. load_candidate db cid = Some c \<and> already_settled c (neighbourhood db c))"
  shows "\<exists>o'. consolidate L cid now db = Inr (o', db) \<and> oc_already_settled o'"
  using assms by (auto simp: consolidate_def)

text \<open>
  C14. Consolidation is idempotent: once a claim has been reconciled at a moment no stored claim is newer than,
  reconciling it again at any time finds it settled and changes nothing, neither rows nor scores
  nor the audit log.
\<close>

theorem consolidate_idempotent:
  assumes "consolidate L cid now db = Inr (o', db')" "\<forall>c \<in> set (claims db). created_at c \<le> now"
  shows "\<exists>o2. consolidate L cid later db' = Inr (o2, db') \<and> oc_already_settled o2"
  using assms(1)
proof (cases rule: consolidate_cases)
  case gone
  then show ?thesis using consolidate_settled by metis
next
  case (settled c)
  then show ?thesis using consolidate_settled by metis
next
  case (decided c db1)
  have now: "\<forall>n \<in> set (claims db'). created_at n \<le> now"
    using evolves_member [OF consolidate_evolves [OF assms(1)]] assms(2) by (metis row_evolves_def)
  have "already_settled c' (neighbourhood db' c')" if "load_candidate db' cid = Some c'" for c'
    using load_candidate_Some [OF that] mark_consolidated_row [of c' cid now db1] decided(5) settled_after [OF _ now] by blast
  then have "load_candidate db' cid = None \<or> (\<exists>c. load_candidate db' cid = Some c \<and> already_settled c (neighbourhood db' c))"
    by (cases "load_candidate db' cid") auto
  then show ?thesis by (rule consolidate_settled)
qed

theorem consolidate_idempotent_witness:
  "\<exists>o2. consolidate sample_lib ''c1'' 30 (snd (projr (consolidate sample_lib ''c1'' 9 sample_pair))) =
     Inr (o2, snd (projr (consolidate sample_lib ''c1'' 9 sample_pair))) \<and> oc_already_settled o2"
proof (rule consolidate_idempotent)
  show "consolidate sample_lib ''c1'' 9 sample_pair =
      Inr (fst (projr (consolidate sample_lib ''c1'' 9 sample_pair)), snd (projr (consolidate sample_lib ''c1'' 9 sample_pair)))"
    by code_simp
  show "\<forall>c \<in> set (claims sample_pair). created_at c \<le> 9" by code_simp
qed

definition known_authorities :: "claim_db \<Rightarrow> bool" where
  "known_authorities db \<longleftrightarrow> (\<forall>c \<in> set (claims db). authority_rank_of (source_authority c) \<noteq> None)"

lemma known_authorities_evolves:
  assumes "evolves db db'" "known_authorities db"
  shows "known_authorities db'"
  unfolding known_authorities_def
proof
  fix c'
  assume "c' \<in> set (claims db')"
  with assms(1) obtain c where "c \<in> set (claims db)" "row_evolves c c'" by (rule evolves_member)
  then show "authority_rank_of (source_authority c') \<noteq> None"
    using assms(2) by (simp add: known_authorities_def row_evolves_def)
qed

lemma rescore_existing_total:
  assumes "known_authorities db"
  shows "\<exists>db'. rescore_existing cid p now db = Inr db'"
proof (cases "claim_with_id db cid")
  case None
  then show ?thesis by (simp add: rescore_existing_def)
next
  case (Some c)
  then have "authority_rank_of (source_authority c) \<noteq> None"
    using assms find_id_Some by (metis known_authorities_def claim_with_id_def)
  then obtain r where r: "authority_rank_of (source_authority c) = Some r" by blast
  have "\<exists>ys. traverse (class_of_row (source_authority c)) ps = Inr ys" for ps
    by (induction ps) (auto simp: class_of_row_def r)
  then show ?thesis using Some by (fastforce simp: rescore_existing_def rescore_def result_map_eq_Inr)
qed

lemma close_all_total:
  assumes "reason \<in> set SUPERSEDED_REASONS"
  shows "\<exists>db'. fold_result (close_claim survivor reason now) xs db = Inr db'"
proof (induction xs arbitrary: db)
  case (Cons x xs)
  obtain mid where "close_claim survivor reason now x db = Inr mid" using close_claim_total [OF assms] by blast
  with Cons.IH [of mid] show ?case by simp
qed simp

lemma apply_collapse_total:
  assumes "known_authorities db"
  shows "\<exists>db'. apply_collapse c o' now survivor db = Inr db'"
proof -
  obtain db1 where c: "close_claim survivor REASON_CLUSTER_COLLAPSED now (claim_id c) db = Inr db1"
    using close_claim_total [of REASON_CLUSTER_COLLAPSED survivor now "claim_id c" db]
    by (auto simp: REASON_CLUSTER_COLLAPSED_def SUPERSEDED_REASONS_def)
  have "known_authorities (merge_provenance survivor (claim_id c) db1)"
    using known_authorities_evolves [OF close_claim_evolves [OF c] assms] by (simp add: known_authorities_def)
  from rescore_existing_total [OF this, of survivor default_policy now] c show ?thesis by (auto simp: apply_collapse_def)
qed

lemma consolidate_total:
  assumes "known_authorities db"
  shows "\<exists>r. consolidate L cid now db = Inr r"
proof -
  have lost: "REASON_LOST_CONFLICT \<in> set SUPERSEDED_REASONS" by (simp add: REASON_LOST_CONFLICT_def SUPERSEDED_REASONS_def)
  have "\<exists>db'. apply_outcome c o' now db = Inr db'" for c o'
  proof (cases "oc_decision o' = UPDATE")
    case True
    then show ?thesis
      using close_all_total [OF lost, of "claim_id c" now "oc_superseded o'" db] by (auto simp: apply_outcome_def)
  next
    case False
    then show ?thesis
      using apply_collapse_total [OF assms, of c o' now "hd (oc_collapsed o')"]
      by (auto simp: apply_outcome_def split: decision.splits list.splits)
  qed
  then show ?thesis by (auto simp: consolidate_def Let_def result_map_eq_Inr split: option.splits)
qed

definition report_sum :: "sweep_report \<Rightarrow> nat" where
  "report_sum r = decided r + sw_already_settled r + sw_failed r"

definition sweep_ok :: "nat \<Rightarrow> claim_db \<Rightarrow> sweep_report \<times> claim_db \<Rightarrow> bool" where
  "sweep_ok n db s \<longleftrightarrow>
     evolves db (snd s) \<and> (flags_exact db \<longrightarrow> flags_exact (snd s)) \<and> report_sum (fst s) = n \<and>
     (known_authorities db \<longrightarrow> sw_failed (fst s) = 0) \<and> (\<forall>x. live (snd s) x \<longrightarrow> live db x)"

lemma evolves_live: "evolves db db' \<Longrightarrow> live db' x \<Longrightarrow> live db x"
proof -
  assume e: "evolves db db'" and "live db' x"
  then obtain c' where c': "c' \<in> set (claims db')" "claim_id c' = x" "staged c'" by (auto simp: live_def)
  from e c'(1) obtain c where "c \<in> set (claims db)" "row_evolves c c'" by (rule evolves_member)
  with c' show "live db x" by (auto simp: live_def row_evolves_def staged_def)
qed

lemma sweep_one_ok:
  assumes "sweep_ok n db s"
  shows "sweep_ok (Suc n) db (sweep_one L clock cid s)"
proof (cases "consolidate L cid (clock cid) (snd s)")
  case (Inl e)
  have "\<not> known_authorities db"
    using Inl consolidate_total known_authorities_evolves assms by (metis sum.distinct(1) sweep_ok_def)
  then show ?thesis using assms Inl by (simp add: sweep_one_def sweep_ok_def report_sum_def)
next
  case (Inr r)
  obtain o' db' where r: "r = (o', db')" by fastforce
  have e: "evolves (snd s) db'" "flags_exact (snd s) \<longrightarrow> flags_exact db'"
    using Inr r consolidate_evolves consolidate_flags by blast+
  have "evolves db db'" "\<forall>x. live db' x \<longrightarrow> live db x"
    using e(1) assms evolves_trans evolves_live unfolding sweep_ok_def by blast+
  then show ?thesis using assms Inr r e(2) by (auto simp: sweep_one_def sweep_ok_def report_sum_def)
qed

lemma sweep_fold_ok: "sweep_ok n db s \<Longrightarrow> sweep_ok (n + length ids) db (fold (sweep_one L clock) ids s)"
proof (induction ids arbitrary: n s)
  case (Cons cid ids)
  from Cons.IH [OF sweep_one_ok [OF Cons.prems]] show ?case by simp
qed simp

lemma considered_sweep_one [simp]: "considered (fst (sweep_one L clock cid s)) = considered (fst s)"
  by (auto simp: sweep_one_def split: sum.splits prod.splits)

lemma considered_fold [simp]: "considered (fst (fold (sweep_one L clock) ids s)) = considered (fst s)"
  by (induction ids arbitrary: s) simp_all

text \<open>
  The run a sweep ought to make, as a list of what became of each claim at its turn: \<open>None\<close> when its
  reconciliation raised, and then the next claim finds the tables as they were.
\<close>

fun turns :: "'v::linorder lib \<Rightarrow> (uuid \<Rightarrow> moment) \<Rightarrow> uuid list \<Rightarrow> claim_db \<Rightarrow> outcome option list \<times> claim_db" where
  "turns L clock [] db = ([], db)"
| "turns L clock (cid # ids) db =
     (case consolidate L cid (clock cid) db of
        Inl _ \<Rightarrow> (case turns L clock ids db of (rs, db') \<Rightarrow> (None # rs, db'))
      | Inr (o', db1) \<Rightarrow> (case turns L clock ids db1 of (rs, db') \<Rightarrow> (Some o' # rs, db')))"

definition tally :: "(outcome option \<Rightarrow> bool) \<Rightarrow> outcome option list \<Rightarrow> nat" where
  "tally P rs = length (filter P rs)"

lemma sweep_is_turns:
  assumes "turns L clock ids db = (rs, db')"
  shows "fold (sweep_one L clock) ids (r, db) =
    (r\<lparr>decided := decided r + tally (\<lambda>x. \<exists>y. x = Some y \<and> \<not> oc_already_settled y) rs,
       sw_already_settled := sw_already_settled r + tally (\<lambda>x. \<exists>y. x = Some y \<and> oc_already_settled y) rs,
       sw_failed := sw_failed r + tally (\<lambda>x. x = None) rs\<rparr>, db')"
  using assms
proof (induction ids arbitrary: r db rs)
  case (Cons cid ids)
  show ?case
  proof (cases "consolidate L cid (clock cid) db")
    case (Inl e)
    then obtain rs1 where "turns L clock ids db = (rs1, db')" "rs = None # rs1"
      using Cons.prems by (auto split: prod.splits)
    then show ?thesis using Inl Cons.IH [of db rs1] by (simp add: sweep_one_def tally_def)
  next
    case (Inr x)
    obtain o' db1 where x: "x = (o', db1)" by fastforce
    then obtain rs1 where "turns L clock ids db1 = (rs1, db')" "rs = Some o' # rs1"
      using Cons.prems Inr by (auto split: prod.splits)
    then show ?thesis using Inr x Cons.IH [of db1 rs1] by (simp add: sweep_one_def tally_def)
  qed
qed (simp add: tally_def)

lemma length_turns: "length (fst (turns L clock ids db)) = length ids"
  by (induction ids arbitrary: db) (auto simp: case_prod_beta split: sum.splits)

lemma tally_split:
  "tally (\<lambda>x. \<exists>y. x = Some y \<and> \<not> oc_already_settled y) rs + tally (\<lambda>x. \<exists>y. x = Some y \<and> oc_already_settled y) rs
     + tally (\<lambda>x. x = None) rs = length rs"
  by (induction rs) (auto simp: tally_def)

text \<open>
  C15. A sweep is accountable and safe whatever it meets. It takes at most a batch of claims and reconciles
  each at its turn; a claim whose reconciliation raises is counted as failed and leaves the tables,
  hence the turns after it, as they were. The report counts exactly the turns that were decided, that
  found the claim settled and that failed, and they add up to the claims considered. Nothing a claim
  asserts changes, no closed claim comes back and the contested flags stay exact, failures or not;
  and where every stored authority is on the ladder nothing fails.
\<close>

theorem sweep_accounts_for_all:
  assumes "flags_exact db" "sweep_once L clock batch db = (r, db')"
    and "turns L clock (sweep_candidates batch db) db = (rs, db2)"
  shows "db' = db2 \<and> considered r = length (sweep_candidates batch db) \<and> considered r \<le> batch \<and>
    sw_failed r = tally (\<lambda>x. x = None) rs \<and>
    sw_already_settled r = tally (\<lambda>x. \<exists>y. x = Some y \<and> oc_already_settled y) rs \<and>
    decided r = tally (\<lambda>x. \<exists>y. x = Some y \<and> \<not> oc_already_settled y) rs \<and>
    considered r = decided r + sw_already_settled r + sw_failed r \<and>
    evolves db db' \<and> flags_exact db' \<and> Collect (live db') \<subseteq> Collect (live db) \<and>
    (known_authorities db \<longrightarrow> sw_failed r = 0)"
proof -
  let ?ids = "sweep_candidates batch db"
  let ?s = "(\<lparr>considered = length ?ids, decided = 0, sw_already_settled = 0, sw_failed = 0\<rparr>, db)"
  have run: "fold (sweep_one L clock) ?ids ?s = (r, db')" using assms(2) by (simp add: sweep_once_def Let_def)
  have "sweep_ok 0 db ?s" by (simp add: sweep_ok_def report_sum_def)
  from sweep_fold_ok [OF this, of ?ids L clock] have ok: "sweep_ok (length ?ids) db (r, db')" by (simp add: run)
  have "length ?ids \<le> batch" by (simp add: sweep_candidates_def)
  moreover have "length rs = length ?ids" using length_turns [of L clock ?ids db] assms(3) by simp
  ultimately show ?thesis
    using ok sweep_is_turns [OF assms(3), of "fst ?s"] run assms(1) tally_split [of rs]
    by (auto simp: sweep_ok_def)
qed

text \<open>
  A sweep that meets a failure: the survivor a duplicate would be folded into has evidence to be
  rescored and an authority the ladder does not know.
\<close>

definition poisoned_pair :: claim_db where
  "poisoned_pair =
     (sample_db [sample_claim ''c1'' ''t1'' ''owner_human'' ''platform'' 1, sample_claim ''c2'' ''t1'' ''wizard'' ''Platform'' 2])
     \<lparr>provenance := [\<lparr>pv_claim_id = ''c2'', evidence_kind = ''doc'', evidence_ref = ''d'', evidence_excerpt = None,
        derivation = ''human'', independence_key = Some ''k'', independence_group = None, recorded_at = 0\<rparr>]\<rparr>"

theorem sweep_accounts_for_all_witness:
  "sw_failed (fst (sweep_once sample_lib (\<lambda>_. 9) 100 poisoned_pair)) = 1 \<and>
   decided (fst (sweep_once sample_lib (\<lambda>_. 9) 100 poisoned_pair)) = 1 \<and>
   considered (fst (sweep_once sample_lib (\<lambda>_. 9) 100 poisoned_pair)) = 2 \<and>
   evolves poisoned_pair (snd (sweep_once sample_lib (\<lambda>_. 9) 100 poisoned_pair)) \<and>
   flags_exact (snd (sweep_once sample_lib (\<lambda>_. 9) 100 poisoned_pair))"
proof -
  let ?s = "sweep_once sample_lib (\<lambda>_. 9) 100 poisoned_pair"
  let ?t = "turns sample_lib (\<lambda>_. 9) (sweep_candidates 100 poisoned_pair) poisoned_pair"
  have pre: "flags_exact poisoned_pair" by code_simp
  have counts: "sw_failed (fst ?s) = 1" "decided (fst ?s) = 1" "considered (fst ?s) = 2" by code_simp+
  have "?s = (fst ?s, snd ?s)" "?t = (fst ?t, snd ?t)" by simp_all
  from sweep_accounts_for_all [OF pre this] counts show ?thesis by blast
qed

subsection \<open>The sweep retires the incumbent\<close>

lemma decide_equivalent:
  assumes "n \<in> set ns" "equivalence_of L c n \<noteq> None"
  shows "oc_decision (decide_claim L c ns) = NOOP"
proof -
  have "List.map_filter (equivalence_of L c) ns \<noteq> []" using assms by (force simp: map_filter_def filter_empty_conv)
  then have "sort_key (\<lambda>(_, similarity, matched). (matched \<noteq> MATCHED_EXACT, - similarity)) (List.map_filter (equivalence_of L c) ns) \<noteq> []"
    by (metis length_0_conv length_sort)
  moreover have "ns \<noteq> []" using assms(1) by auto
  ultimately show ?thesis by (auto simp: decide_claim_def Let_def split: list.splits prod.splits)
qed

lemma consolidate_collapses:
  assumes "load_candidate db cid = Some c" "\<not> already_settled c (neighbourhood db c)"
    and "n \<in> set (neighbourhood db c)" "equivalence_of L c n \<noteq> None"
    and "consolidate L cid now db = Inr (o', db')"
  shows "\<not> live db' cid"
  using assms(5)
proof (cases rule: consolidate_cases)
  case (decided c' db1)
  have c: "c' = c" "claim_id c = cid" using decided(1) assms(1) load_candidate_Some by auto
  have noop: "oc_decision o' = NOOP" using decide_equivalent [OF assms(3,4)] decided(3) c by simp
  from decided(4) show ?thesis
  proof (cases rule: apply_outcome_cases)
    case (collapse survivor rest db2)
    then show ?thesis
      using close_claim_live [OF collapse(4), of cid] neutral_live [OF collapse(3), of cid]
        neutral_live [OF mark_consolidated_neutral, of cid now db1 cid] decided(5) c by simp
  next
    case keep
    then show ?thesis using noop decide_noop_collapses [of L c "neighbourhood db c"] decided(3) c by simp
  qed (simp add: noop)
qed (use assms in auto)

lemma sweep_tail:
  assumes "live (snd (fold (sweep_one L clock) ids s)) x"
  shows "live (snd s) x"
  using assms
proof (induction ids arbitrary: s)
  case (Cons cid ids)
  then have "live (snd (sweep_one L clock cid s)) x" by simp
  then show ?case
    by (auto simp: sweep_one_def split: sum.splits prod.splits intro: evolves_live [OF consolidate_evolves])
qed simp

text \<open>
  The comment on collapsing says that the newcomer is the one closed, because the claim already present is
  the one that has been scored, corroborated and possibly reviewed. The sweep does the
  opposite: it takes the oldest claim first and folds it into the newer one. A claim first in
  line, reconciled before, into whose neighbourhood an equivalent claim arrived since, is closed by
  the next sweep whatever its authority and whether or not a human confirmed it.
\<close>

theorem sweep_retires_incumbent:
  assumes "known_authorities db" "sweep_candidates batch db = cid # rest" "load_candidate db cid = Some c"
    and "consolidated_at c = Some t" "n \<in> set (neighbourhood db c)" "created_at n > t" "equivalence_of L c n \<noteq> None"
  shows "\<not> live (snd (sweep_once L clock batch db)) cid"
proof
  assume "live (snd (sweep_once L clock batch db)) cid"
  then have "live (snd (sweep_one L clock cid (\<lparr>considered = Suc (length rest), decided = 0, sw_already_settled = 0, sw_failed = 0\<rparr>, db))) cid"
    using sweep_tail [of L clock rest "sweep_one L clock cid
        (\<lparr>considered = Suc (length rest), decided = 0, sw_already_settled = 0, sw_failed = 0\<rparr>, db)" cid]
    by (simp add: sweep_once_def assms(2))
  moreover obtain o' db' where r: "consolidate L cid (clock cid) db = Inr (o', db')" using consolidate_total [OF assms(1)] by force
  ultimately have "live db' cid" by (simp add: sweep_one_def)
  moreover have "created_at n \<le> Max (set (map created_at (neighbourhood db c)))" using assms(5) by (intro Max_ge) auto
  then have "t < Max (set (map created_at (neighbourhood db c)))" using assms(6) by linarith
  then have "\<not> already_settled c (neighbourhood db c)" using assms(4,5) by (auto simp: already_settled_def)
  ultimately show False using consolidate_collapses [OF assms(3) _ assms(5,7) r] by blast
qed

definition confirmed_and_echo :: claim_db where
  "confirmed_and_echo =
     sample_db [(sample_claim ''human'' ''t1'' ''owner_human'' ''platform'' 1)
                  \<lparr>consolidated_at := Some 5, confidence := Some (92/100), hold_until := Some 1000, confirms := Some ''c0''\<rparr>,
                sample_claim ''echo'' ''t2'' ''observer_inference'' ''Platform'' 10]"

theorem sweep_retires_incumbent_witness:
  "\<not> live (snd (sweep_once sample_lib (\<lambda>_. 20) 100 confirmed_and_echo)) ''human'' \<and>
   live (snd (sweep_once sample_lib (\<lambda>_. 20) 100 confirmed_and_echo)) ''echo''"
proof
  show "live (snd (sweep_once sample_lib (\<lambda>_. 20) 100 confirmed_and_echo)) ''echo''" by code_simp
  let ?c = "claims confirmed_and_echo ! 0" and ?n = "claims confirmed_and_echo ! 1"
  show "\<not> live (snd (sweep_once sample_lib (\<lambda>_. 20) 100 confirmed_and_echo)) ''human''"
  proof (rule sweep_retires_incumbent)
    show "known_authorities confirmed_and_echo" "sweep_candidates 100 confirmed_and_echo = [''human'', ''echo'']"
      "load_candidate confirmed_and_echo ''human'' = Some ?c" "consolidated_at ?c = Some 5"
      "?n \<in> set (neighbourhood confirmed_and_echo ?c)" "5 < created_at ?n" "equivalence_of sample_lib ?c ?n \<noteq> None"
      by code_simp+
  qed
qed

subsection \<open>Agreement undoes a confirmation\<close>

lemma default_score_bound:
  assumes "score default_policy a cs contested False None False = Some s"
  shows "sc_value s \<le> 849/1000"
  using unconfirmed_score_bound [OF assms]
  by (simp add: default_policy_def BASE_CONFIDENCE_BY_AUTHORITY_def CONTRADICTION_PENALTY_def)

lemma scored_tiers: "map_of (base_by_authority default_policy) a = None \<Longrightarrow> authority_rank_of a = None \<or> a = AUTHORITY_UNATTRIBUTED"
  by (auto simp: default_policy_def BASE_CONFIDENCE_BY_AUTHORITY_def authority_rank_of_def authority_defs split: if_splits)

text \<open>
  Rescoring forgets that a claim was confirmed. \<open>_rescore\<close> never tells the scorer, so as soon as a duplicate is
  folded into a confirmed claim, or a disagreement with it is detected, its score of 0.92 is
  replaced by one of at most 0.849, below the confirmed bucket, although nothing about the
  confirmation changed: a source that agrees lowers the score.
\<close>

theorem rescoring_forgets_confirmation:
  assumes "distinct (map claim_id (claims db))" "c \<in> set (claims db)" "claim_status c \<noteq> ''unlinked''"
    and "authority_rank_of (source_authority c) \<noteq> None" "source_authority c \<noteq> AUTHORITY_UNATTRIBUTED"
    and "rescore_existing (claim_id c) default_policy now db = Inr db'"
  shows "\<exists>c' \<in> set (claims db'). claim_id c' = claim_id c \<and> confirms c' = confirms c \<and> hold_until c' = hold_until c \<and>
    (\<exists>v. confidence c' = Some v \<and> v \<le> 849/1000)"
proof -
  have find: "claim_with_id db (claim_id c) = Some c" unfolding claim_with_id_def using assms(1,2) by (rule find_distinct_id)
  obtain classes where db': "db' = (case score default_policy (source_authority c) (drop 1 (distinct_classes classes)) (is_contested c) False None False of
       None \<Rightarrow> db | Some s \<Rightarrow> store_score (claim_id c) s now db)"
    using assms(3,6) by (auto simp: rescore_existing_def rescore_def find result_map_eq_Inr)
  have "score default_policy (source_authority c) cs con False None False \<noteq> None" for cs con
    using scored_tiers [of "source_authority c"] assms(4,5) by (auto simp: score_def Let_def split: option.splits prod.splits)
  then obtain s where "score default_policy (source_authority c) (drop 1 (distinct_classes classes)) (is_contested c) False None False = Some s"
    by blast
  then have s: "db' = store_score (claim_id c) s now db" "sc_value s \<le> 849/1000"
    using db' default_score_bound by simp_all
  let ?c = "c\<lparr>confidence := Some (sc_value s), scored_at := Some now, score_inputs := Some (sc_inputs s), row_scorer := Some SCORER_VERSION\<rparr>"
  have "?c \<in> set (claims db')" unfolding s(1) store_score_def update_claims_simps set_map using assms(2) by (rule rev_image_eqI) simp
  then show ?thesis using s(2) by (intro bexI [of _ ?c]) auto
qed

theorem rescoring_forgets_confirmation_witness:
  "confidence (claims confirmed_and_echo ! 0) = Some (92/100) \<and>
   (\<exists>c' \<in> set (claims (projr (rescore_existing ''human'' default_policy 20 confirmed_and_echo))).
      claim_id c' = ''human'' \<and> confirms c' = Some ''c0'' \<and> hold_until c' = Some 1000 \<and>
      (\<exists>v. confidence c' = Some v \<and> v \<le> 849/1000))"
proof
  let ?c = "claims confirmed_and_echo ! 0"
  show "confidence ?c = Some (92/100)" by code_simp
  have e: "claim_id ?c = ''human''" "confirms ?c = Some ''c0''" "hold_until ?c = Some 1000" by code_simp+
  have pre: "distinct (map claim_id (claims confirmed_and_echo))" "?c \<in> set (claims confirmed_and_echo)"
      "claim_status ?c \<noteq> ''unlinked''" "authority_rank_of (source_authority ?c) \<noteq> None"
      "source_authority ?c \<noteq> AUTHORITY_UNATTRIBUTED" by code_simp+
  have "rescore_existing (claim_id ?c) default_policy 20 confirmed_and_echo =
      Inr (projr (rescore_existing ''human'' default_policy 20 confirmed_and_echo))" by code_simp
  from rescoring_forgets_confirmation [OF pre this]
  show "\<exists>c' \<in> set (claims (projr (rescore_existing ''human'' default_policy 20 confirmed_and_echo))).
      claim_id c' = ''human'' \<and> confirms c' = Some ''c0'' \<and> hold_until c' = Some 1000 \<and>
      (\<exists>v. confidence c' = Some v \<and> v \<le> 849/1000)" unfolding e .
qed

subsection \<open>Confirming a contested claim\<close>

lemma stage_confirmation_contests: "stage_confirmation new_id cid auth conf inputs hold tenant actor now db = Inr db' \<Longrightarrow> contests db' = contests db"
  by (auto simp: stage_confirmation_def close_superseded_def Let_def split: if_splits option.splits)

lemma stage_confirmation_claims:
  assumes "stage_confirmation new_id cid auth conf inputs hold tenant actor now db = Inr db'"
  obtains mid where "close_superseded cid new_id ''human_confirmed'' now mid = Inr db'"
    "claims mid = claims db @ map (confirmation_row new_id cid auth conf inputs hold tenant actor now)
       (filter (\<lambda>c. claim_id c = cid) (claims db))"
  using assms unfolding stage_confirmation_def Let_def by (auto split: option.splits)

lemma closed_row_other:
  assumes "close_superseded cid survivor reason now db = Inr db'" "c \<in> set (claims db)" "claim_id c \<noteq> cid"
  shows "c \<in> set (claims db')"
  using assms unfolding close_superseded_def
  by (auto simp: image_iff split: if_splits intro!: bexI [of _ c])

text \<open>
  A confirmation needs a human and produces a new claim that asserts exactly what the confirmed one asserts,
  with the human tier its author's standing gives, and closes the original. But unlike every other
  way of closing a claim it does not settle the disagreements of the original: they stay open, so
  the counterparty stays flagged as contested with a claim that no longer stands.
\<close>

theorem confirmation_leaves_contest_open:
  assumes "confirm human tenant actor new_id cid p now db = Inr (cf, db')" "new_id \<noteq> cid" "flags_exact db"
    and "k \<in> set (contests db)" "open_contest k" "involves cid k" "involves (claim_id rival) k"
    and "rival \<in> set (claims db)" "claim_id rival \<noteq> cid"
  shows "human \<and>
    (\<exists>c \<in> set (claims db). \<exists>c' \<in> set (claims db'). claim_id c = cid \<and> claim_id c' = new_id \<and> asserted c' = asserted c \<and>
       source_authority c' = (if owning_tenant (asserted c) = Some tenant then AUTHORITY_OWNER_HUMAN else AUTHORITY_OBSERVER_HUMAN)) \<and>
    \<not> live db' cid \<and> has_open_contest db' cid \<and> rival \<in> set (claims db') \<and> is_contested rival"
proof -
  have human: "human" using assms(1) by (auto simp: confirm_def split: if_splits)
  obtain c where c: "claim_with_id db cid = Some c"
    using assms(1) human by (auto simp: confirm_def split: option.splits)
  let ?auth = "if owning_tenant (asserted c) = Some tenant then AUTHORITY_OWNER_HUMAN else AUTHORITY_OBSERVER_HUMAN"
  obtain inputs db1 where st: "stage_confirmation new_id cid ?auth (confirmed_confidence p) inputs (hold_end (category (asserted c)) p now) tenant actor now db = Inr db1"
      and db': "claims db' = claims db1" "contests db' = contests db1"
    using assms(1) c human
    by (auto simp: confirm_def Let_def result_bind_eq_Inr result_map_eq_Inr split: if_splits)
  let ?new = "confirmation_row new_id cid ?auth (confirmed_confidence p) inputs (hold_end (category (asserted c)) p now) tenant actor now"
  from st obtain mid where close: "close_superseded cid new_id ''human_confirmed'' now mid = Inr db1"
      and mid: "claims mid = claims db @ map ?new (filter (\<lambda>c. claim_id c = cid) (claims db))"
    by (rule stage_confirmation_claims)
  have c_in: "c \<in> set (claims db)" "claim_id c = cid" using c find_id_Some by (auto simp: claim_with_id_def)
  then have "?new c \<in> set (claims mid)" unfolding mid by simp
  from closed_row_other [OF close this] assms(2) have new: "?new c \<in> set (claims db')"
    by (simp add: db' confirmation_row_def)
  have "\<not> live db' cid" using close_superseded_live [OF close, of cid] by (simp add: live_def db')
  moreover have "rival \<in> set (claims db')" using closed_row_other [OF close _ assms(9)] mid assms(8) by (simp add: db')
  moreover have "has_open_contest db' cid" using assms(4-6) stage_confirmation_contests [OF st] by (auto simp: has_open_contest_def db')
  moreover have "is_contested rival" using assms(3-5,7,8) by (auto simp: flags_exact_def has_open_contest_def)
  ultimately show ?thesis using human c_in new by (intro conjI bexI [of _ c] bexI [of _ "?new c"]) (simp_all add: confirmation_row_def)
qed

theorem confirmation_leaves_contest_open_witness:
  "\<exists>cf db'. confirm True ''t1'' (Some ''ann'') ''c3'' ''c1'' default_policy 9 contested_pair = Inr (cf, db') \<and>
     \<not> live db' ''c1'' \<and> has_open_contest db' ''c1'' \<and> claims contested_pair ! 1 \<in> set (claims db') \<and>
     is_contested (claims contested_pair ! 1)"
proof -
  let ?k = "contests contested_pair ! 0" and ?r = "claims contested_pair ! 1"
  have ok: "case confirm True ''t1'' (Some ''ann'') ''c3'' ''c1'' default_policy 9 contested_pair of Inr _ \<Rightarrow> True | Inl _ \<Rightarrow> False"
    by code_simp
  obtain cf db' where c: "confirm True ''t1'' (Some ''ann'') ''c3'' ''c1'' default_policy 9 contested_pair = Inr (cf, db')"
  proof (cases "confirm True ''t1'' (Some ''ann'') ''c3'' ''c1'' default_policy 9 contested_pair")
    case (Inl e)
    then show thesis using ok by simp
  next
    case (Inr r)
    then show thesis using that by (cases r) blast
  qed
  have pre: "''c3'' \<noteq> ''c1''" "flags_exact contested_pair" "?k \<in> set (contests contested_pair)" "open_contest ?k"
      "involves ''c1'' ?k" "involves (claim_id ?r) ?k" "?r \<in> set (claims contested_pair)" "claim_id ?r \<noteq> ''c1''" by code_simp+
  from confirmation_leaves_contest_open [OF c pre] c show ?thesis by blast
qed

end
