(* ===== verification/Retention_Policy.thy ===== *)
theory Retention_Policy
  imports Py_Uuid
begin

section \<open>Retention: dispositions, clocks and tombstones\<close>

text \<open>
  The model of \<open>contextplane/retention/policies.py\<close> and \<open>tombstones.py\<close>: the disposition of every record class, the
  deadlines computed from it, the expiry a derivative inherits from its sources, and the keyed
  values that stand for erased content. The sentences of a disposition are literals. A \<open>timedelta\<close> is a
  number of microseconds; the HMAC (key and message to digest) and the ISO printer are parameters.
\<close>

subsection \<open>Vocabulary\<close>

definition timedelta_days :: "int \<Rightarrow> moment" where
  "timedelta_days n = n * 24 * 60 * 60 * 1000000"

definition POLICY_VERSION :: string where "POLICY_VERSION = ''CP-POLICY-2026-08-A''"
definition TENANT_GRACE_DAYS :: int where "TENANT_GRACE_DAYS = 30"

definition RECORD_TASK_CHECKPOINT :: string where "RECORD_TASK_CHECKPOINT = ''intent_checkpoint''"
definition RECORD_CONTEXT_RECEIPT :: string where "RECORD_CONTEXT_RECEIPT = ''context_receipt''"
definition RECORD_RECEIPT_ITEM :: string where "RECORD_RECEIPT_ITEM = ''receipt_item''"
definition RECORD_RECEIPT_EXCLUSION :: string where "RECORD_RECEIPT_EXCLUSION = ''receipt_exclusion''"
definition RECORD_EXTERNAL_SIGNAL :: string where "RECORD_EXTERNAL_SIGNAL = ''external_signal''"
definition RECORD_CONTEXT_FEEDBACK :: string where "RECORD_CONTEXT_FEEDBACK = ''context_feedback''"
definition RECORD_MEMORY_CLAIM :: string where "RECORD_MEMORY_CLAIM = ''memory_claim''"
definition RECORD_DERIVATIVE :: string where "RECORD_DERIVATIVE = ''derivative''"
definition RECORD_AUDIT_LOG :: string where "RECORD_AUDIT_LOG = ''audit_log''"
definition RECORD_PII_DETECTION_LOG :: string where "RECORD_PII_DETECTION_LOG = ''pii_detection_log''"
definition RECORD_EXPORT :: string where "RECORD_EXPORT = ''export''"
definition RECORD_WORKSPACE_ENTRY :: string where "RECORD_WORKSPACE_ENTRY = ''workspace_entry''"
definition RECORD_SESSION_EVENT :: string where "RECORD_SESSION_EVENT = ''session_event''"

definition ACTOR_ORIGIN_TYPES :: "string list" where "ACTOR_ORIGIN_TYPES = [''human'', ''agent'']"

definition MODE_DELETE :: string where "MODE_DELETE = ''delete''"
definition MODE_MINIMIZE :: string where "MODE_MINIMIZE = ''minimize''"
definition MODE_MINIMIZE_AND_TOMBSTONE :: string where "MODE_MINIMIZE_AND_TOMBSTONE = ''minimize_and_tombstone''"
definition MODE_EXEMPT :: string where "MODE_EXEMPT = ''exempt''"

definition ERASURE_MODES :: "string list" where
  "ERASURE_MODES = [MODE_DELETE, MODE_MINIMIZE, MODE_MINIMIZE_AND_TOMBSTONE, MODE_EXEMPT]"

datatype retention_error =
    UnknownRecordClass string
  | NoComputableExpiry
  | TenantSaltUnavailable

subsection \<open>Dispositions\<close>

record disposition =
  record_class :: string
  legal_basis :: string
  retention_days :: "int option"
  payload_retention_days :: "int option"
  erasure_mode :: string
  minimization_action :: "String.literal option"
  tombstone_behaviour :: "String.literal option"
  verifier_disclosure :: String.literal

definition writes_tombstone :: "disposition \<Rightarrow> bool" where
  "writes_tombstone d \<longleftrightarrow> tombstone_behaviour d \<noteq> None"

definition is_exempt :: "disposition \<Rightarrow> bool" where
  "is_exempt d \<longleftrightarrow> erasure_mode d = MODE_EXEMPT"

definition VERIFIER_STRUCTURAL :: String.literal where
  "VERIFIER_STRUCTURAL = STR ''structural integrity and tombstone metadata only: that the record existed, its chain position and internally-held digest are intact, and it was erased on the recorded date under the recorded policy version. Never the erased content, its size or shape, or any subject identity beyond the derived id.''"

definition VERIFIER_NONE :: String.literal where
  "VERIFIER_NONE = STR ''nothing beyond the record's own existence; this class carries no erasure disclosure of its own.''"

definition VERIFIER_EXEMPT :: String.literal where
  "VERIFIER_EXEMPT = STR ''the record itself, unmodified: it carries no values and its subject references are one-way derived ids, so there is nothing to withhold.''"

definition DISPOSITIONS :: "(string \<times> disposition) list" where
  "DISPOSITIONS =
     map (\<lambda>d. (record_class d, d)) [
      \<lparr>record_class = RECORD_TASK_CHECKPOINT, legal_basis = ''contract performance'',
        retention_days = None, payload_retention_days = None,
        erasure_mode = MODE_MINIMIZE_AND_TOMBSTONE,
        minimization_action = (Some (STR ''clear the body fields (goal, decisions, assumptions, evidence, completed checks, open questions, next action); keep id, tenant, sequence, predecessor linkage, digest and recorded_at'')),
        tombstone_behaviour = (Some (STR ''one tombstone per erased checkpoint, holding no part of the body'')),
        verifier_disclosure = VERIFIER_STRUCTURAL\<rparr>,
      \<lparr>record_class = RECORD_CONTEXT_RECEIPT, legal_basis = ''legitimate interest (verification)'',
        retention_days = Some 730, payload_retention_days = None,
        erasure_mode = MODE_MINIMIZE_AND_TOMBSTONE,
        minimization_action = (Some (STR ''minimize the receipt's items and exclusions; keep the envelope and its resolution facts'')),
        tombstone_behaviour = (Some (STR ''one tombstone per minimized receipt'')),
        verifier_disclosure = VERIFIER_STRUCTURAL\<rparr>,
      \<lparr>record_class = RECORD_RECEIPT_ITEM, legal_basis = ''legitimate interest (verification)'',
        retention_days = None, payload_retention_days = None,
        erasure_mode = MODE_MINIMIZE,
        minimization_action = (Some (STR ''replace item_key with a tenant-keyed erased marker; keep block, source and the item's contract id'')),
        tombstone_behaviour = None,
        verifier_disclosure = VERIFIER_NONE\<rparr>,
      \<lparr>record_class = RECORD_RECEIPT_EXCLUSION, legal_basis = ''legitimate interest (verification)'',
        retention_days = None, payload_retention_days = None,
        erasure_mode = MODE_MINIMIZE,
        minimization_action = (Some (STR ''replace item_key with a tenant-keyed erased marker; keep block and the withholding reason'')),
        tombstone_behaviour = None,
        verifier_disclosure = VERIFIER_NONE\<rparr>,
      \<lparr>record_class = RECORD_SESSION_EVENT, legal_basis = ''contract performance'',
        retention_days = Some 180, payload_retention_days = None,
        erasure_mode = MODE_DELETE,
        minimization_action = (Some (STR ''delete the event outright; there is no envelope worth keeping once the body is gone, unlike a receipt or a signal'')),
        tombstone_behaviour = None,
        verifier_disclosure = VERIFIER_NONE\<rparr>,
      \<lparr>record_class = RECORD_EXTERNAL_SIGNAL, legal_basis = ''legitimate interest'',
        retention_days = Some 730, payload_retention_days = Some 180,
        erasure_mode = MODE_DELETE,
        minimization_action = (Some (STR ''clear the payload and evidence handle at the payload clock; the envelope outlives it'')),
        tombstone_behaviour = (Some (STR ''one tombstone per erased signal, so dependents can be invalidated by cause'')),
        verifier_disclosure = VERIFIER_STRUCTURAL\<rparr>,
      \<lparr>record_class = RECORD_CONTEXT_FEEDBACK, legal_basis = ''contract performance'',
        retention_days = Some 730, payload_retention_days = Some 365,
        erasure_mode = MODE_MINIMIZE,
        minimization_action = (Some (STR ''clear the free-text note; the discriminant, rating and receipt linkage survive'')),
        tombstone_behaviour = None,
        verifier_disclosure = VERIFIER_NONE\<rparr>,
      \<lparr>record_class = RECORD_MEMORY_CLAIM, legal_basis = ''legitimate interest'',
        retention_days = None, payload_retention_days = Some 180,
        erasure_mode = MODE_MINIMIZE,
        minimization_action = (Some (STR ''minimize excerpts, invalidate the claim, retain the shell for audit and serve it nowhere'')),
        tombstone_behaviour = None,
        verifier_disclosure = VERIFIER_NONE\<rparr>,
      \<lparr>record_class = RECORD_DERIVATIVE, legal_basis = ''inherited from every source'',
        retention_days = None, payload_retention_days = None,
        erasure_mode = MODE_DELETE,
        minimization_action = (Some (STR ''redact where the derivative's kind supports it, delete where it does not'')),
        tombstone_behaviour = None,
        verifier_disclosure = VERIFIER_NONE\<rparr>,
      \<lparr>record_class = RECORD_AUDIT_LOG, legal_basis = ''legitimate interest (accountability)'',
        retention_days = Some 1095, payload_retention_days = None,
        erasure_mode = MODE_EXEMPT,
        minimization_action = None,
        tombstone_behaviour = None,
        verifier_disclosure = VERIFIER_EXEMPT\<rparr>,
      \<lparr>record_class = RECORD_PII_DETECTION_LOG, legal_basis = ''legitimate interest'',
        retention_days = Some 730, payload_retention_days = None,
        erasure_mode = MODE_EXEMPT,
        minimization_action = None,
        tombstone_behaviour = None,
        verifier_disclosure = VERIFIER_EXEMPT\<rparr>,
      \<lparr>record_class = RECORD_EXPORT, legal_basis = ''contract performance'',
        retention_days = Some 30, payload_retention_days = None,
        erasure_mode = MODE_DELETE,
        minimization_action = None,
        tombstone_behaviour = None,
        verifier_disclosure = VERIFIER_NONE\<rparr>,
      \<lparr>record_class = RECORD_WORKSPACE_ENTRY, legal_basis = ''contract performance'',
        retention_days = None, payload_retention_days = None,
        erasure_mode = MODE_DELETE,
        minimization_action = None,
        tombstone_behaviour = (Some (STR ''one tombstone per deleted entry, so the deletion is accountable'')),
        verifier_disclosure = VERIFIER_STRUCTURAL\<rparr>]"

definition RECORD_CLASSES :: "string list" where
  "RECORD_CLASSES = map fst DISPOSITIONS"

definition disposition_of :: "string \<Rightarrow> retention_error + disposition" where
  "disposition_of cls = of_option (UnknownRecordClass cls) (map_of DISPOSITIONS cls)"

definition is_erasure_exempt :: "string \<Rightarrow> retention_error + bool" where
  "is_erasure_exempt cls = result_map is_exempt (disposition_of cls)"

definition expiry_deadline :: "string \<Rightarrow> moment \<Rightarrow> retention_error + moment option" where
  "expiry_deadline cls anchor =
     result_map (\<lambda>d. map_option (\<lambda>n. anchor + timedelta_days n) (retention_days d)) (disposition_of cls)"

definition payload_deadline :: "string \<Rightarrow> moment \<Rightarrow> retention_error + moment option" where
  "payload_deadline cls anchor =
     result_map (\<lambda>d. map_option (\<lambda>n. anchor + timedelta_days n) (payload_retention_days d)) (disposition_of cls)"

definition minimum_expiry :: "moment option list \<Rightarrow> moment option \<Rightarrow> retention_error + moment" where
  "minimum_expiry source_expiries fallback =
     (let bounded = somes source_expiries in
      if bounded \<noteq> [] then
        let earliest = Min (set bounded) in
        Inr (case fallback of None \<Rightarrow> earliest | Some f \<Rightarrow> min earliest f)
      else case fallback of Some f \<Rightarrow> Inr f | None \<Rightarrow> Inl NoComputableExpiry)"

subsection \<open>Keyed values for erased content\<close>

record keyed_env =
  hmac_sha256 :: "string \<Rightarrow> string \<Rightarrow> string"
  isoformat :: "moment \<Rightarrow> string"

fun hexdigest :: "string \<Rightarrow> string" where
  "hexdigest [] = []"
| "hexdigest (b # bs) = hex_char (of_char b div 16) # hex_char (of_char b mod 16) # hexdigest bs"

definition hex_digit :: "char \<Rightarrow> int" where
  "hex_digit c = (case hex_val c of Some d \<Rightarrow> d | None \<Rightarrow> 0)"

fun bytes_fromhex :: "string \<Rightarrow> string" where
  "bytes_fromhex (c # d # cs) =
     char_of (nat (16 * hex_digit c + hex_digit d)) # bytes_fromhex cs"
| "bytes_fromhex _ = []"

definition uuid_bytes :: "uuid \<Rightarrow> string" where
  "uuid_bytes u = bytes_fromhex (filter (\<lambda>c. c \<noteq> CHR ''-'') u)"

definition SALT_LABEL :: string where "SALT_LABEL = ''contextplane/retention/tenant-salt/v1''"
definition PROOF_LABEL :: string where "PROOF_LABEL = ''contextplane/retention/tombstone-proof/v1''"
definition ITEM_KEY_LABEL :: string where "ITEM_KEY_LABEL = ''contextplane/retention/erased-item-key/v1''"
definition ERASED_PREFIX_LENGTH :: nat where "ERASED_PREFIX_LENGTH = 12"
definition ERASED_KEY_PREFIX :: string where "ERASED_KEY_PREFIX = ''erased:''"

record keyed_tenant_salt =
  secrets :: "(string \<times> string) list"
  active_key_id :: "string option"
  destroyed :: "uuid list"

definition salt_for :: "keyed_env \<Rightarrow> keyed_tenant_salt \<Rightarrow> uuid \<Rightarrow> retention_error + string" where
  "salt_for E K tenant =
     (if tenant \<in> set (destroyed K) then Inl TenantSaltUnavailable
      else case active_key_id K of
        None \<Rightarrow> Inl TenantSaltUnavailable
      | Some kid \<Rightarrow>
          (case map_of (secrets K) kid of
             None \<Rightarrow> Inl TenantSaltUnavailable
           | Some root \<Rightarrow>
               if root = [] then Inl TenantSaltUnavailable
               else Inr (hmac_sha256 E root (SALT_LABEL @ uuid_bytes tenant))))"

definition proof_message :: "keyed_env \<Rightarrow> string \<Rightarrow> uuid \<Rightarrow> string \<Rightarrow> moment \<Rightarrow> string \<Rightarrow> string" where
  "proof_message E cls subj content_digest effective_at version =
     py_join ''|'' [version, cls, subj, content_digest, isoformat E effective_at]"

definition mint_proof :: "keyed_env \<Rightarrow> string \<Rightarrow> string \<Rightarrow> uuid \<Rightarrow> string \<Rightarrow> moment \<Rightarrow> string \<Rightarrow> string" where
  "mint_proof E salt cls subj content_digest effective_at version =
     hexdigest (hmac_sha256 E salt (PROOF_LABEL @ proof_message E cls subj content_digest effective_at version))"

definition erased_item_key :: "keyed_env \<Rightarrow> string \<Rightarrow> string \<Rightarrow> string" where
  "erased_item_key E salt item_key =
     ERASED_KEY_PREFIX @ take ERASED_PREFIX_LENGTH (hexdigest (hmac_sha256 E salt (ITEM_KEY_LABEL @ item_key)))"

definition is_erased_key :: "string \<Rightarrow> bool" where
  "is_erased_key item_key = py_startswith ERASED_KEY_PREFIX item_key"

record disclosure =
  dc_record_class :: string
  dc_subject_id :: uuid
  dc_erased_at :: moment
  dc_policy_version :: string
  dc_proof_hmac :: "string option"
  dc_verifier_disclosure :: String.literal

definition disclose :: "string \<Rightarrow> uuid \<Rightarrow> moment \<Rightarrow> string \<Rightarrow> string \<Rightarrow> bool \<Rightarrow> retention_error + disclosure" where
  "disclose cls subj erased_at version proof_hmac salt_available =
     result_map (\<lambda>d. \<lparr>dc_record_class = cls, dc_subject_id = subj, dc_erased_at = erased_at,
                      dc_policy_version = version,
                      dc_proof_hmac = (if salt_available then Some proof_hmac else None),
                      dc_verifier_disclosure = verifier_disclosure d\<rparr>) (disposition_of cls)"

subsection \<open>What the policy promises\<close>

text \<open>
  The inherited expiry is a lower bound of everything it is computed from, is one of those
  values, and is refused exactly when there is none.
\<close>

lemma minimum_expiry_exact:
  "minimum_expiry es fb = Inr t \<longleftrightarrow>
     (Some t \<in> set es \<or> fb = Some t) \<and>
     (\<forall>e. Some e \<in> set es \<or> fb = Some e \<longrightarrow> t \<le> e)"
  "minimum_expiry es fb = Inl err \<longleftrightarrow>
     (\<forall>e. Some e \<notin> set es) \<and> fb = None \<and> err = NoComputableExpiry"
proof -
  let ?b = "somes es"
  have mem: "Some e \<in> set es \<longleftrightarrow> e \<in> set ?b" for e by (rule set_somes [symmetric])
  show "minimum_expiry es fb = Inr t \<longleftrightarrow>
     (Some t \<in> set es \<or> fb = Some t) \<and>
     (\<forall>e. Some e \<in> set es \<or> fb = Some e \<longrightarrow> t \<le> e)"
  proof (cases "?b = []")
    case True
    then show ?thesis unfolding minimum_expiry_def Let_def mem by (auto split: option.splits)
  next
    case False
    then have "set ?b \<noteq> {}" by simp
    then obtain m where m: "m = Min (set ?b)" "m \<in> set ?b" "\<forall>e \<in> set ?b. m \<le> e" by simp
    have "minimum_expiry es fb = Inr (case fb of None \<Rightarrow> m | Some f \<Rightarrow> min m f)"
      using False by (simp add: minimum_expiry_def Let_def m(1) split: option.splits)
    then have eq: "minimum_expiry es fb = Inr t \<longleftrightarrow> t = (case fb of None \<Rightarrow> m | Some f \<Rightarrow> min m f)" by auto
    show ?thesis
    proof (cases fb)
      case None
      with m(2,3) show ?thesis unfolding eq mem by (auto intro: antisym)
    next
      case (Some f)
      have "t = min m f \<longleftrightarrow> (t = m \<or> t = f) \<and> t \<le> m \<and> t \<le> f" by (auto simp: min_def)
      with Some m(2,3) show ?thesis unfolding eq mem by (auto intro: antisym order_trans)
    qed
  qed
  have "?b = [] \<longleftrightarrow> (\<forall>e. Some e \<notin> set es)" unfolding mem by (metis all_not_in_conv set_empty)
  then show "minimum_expiry es fb = Inl err \<longleftrightarrow>
     (\<forall>e. Some e \<notin> set es) \<and> fb = None \<and> err = NoComputableExpiry"
    by (auto simp: minimum_expiry_def Let_def split: option.splits)
qed

lemma erased_item_key_erased [simp]: "is_erased_key (erased_item_key E salt k)"
  by (simp add: is_erased_key_def erased_item_key_def py_startswith_def)

end
