(* ===== verification/Legal_Holds.thy ===== *)
theory Legal_Holds
  imports Retention_Policy
begin

section \<open>Legal holds\<close>

text \<open>
  The model of \<open>contextplane/retention/holds.py\<close> over its three tables (holds, renewals, approvals), with the
  constraints that migration \<open>0046_legal_holds\<close> puts on them: one hold per record, one renewal per position,
  one approval per renewal and the ceiling on the review date. Fresh identifiers and the clock are
  arguments. The protocol \<open>HoldStore\<close>, as far as an expiry sweep relies on it, is the locale \<open>hold_store\<close>,
  interpreted on both stores of the source. Histories of the tables are the inductive relation \<open>held_run\<close>.
\<close>

subsection \<open>Rows\<close>

definition MAX_HOLD_DAYS :: int where "MAX_HOLD_DAYS = 180"
definition APPROVAL_LEVELS :: "string list" where "APPROVAL_LEVELS = [''tenant_owner'', ''operator'', ''counsel'']"

datatype hold_error = HoldStorageUnavailable | HoldRenewalRefused | HoldIntegrityError

record hold_row =
  hold_id :: uuid
  hold_tenant :: uuid
  hold_class :: string
  hold_subject :: uuid
  placed_by :: string
  reason :: string
  placed_at :: moment
  review_date :: moment
  renewal_count :: int

record renewal_row =
  renewal_id :: uuid
  renewal_hold :: uuid
  sequence_no :: int
  justification :: string
  requested_by :: string
  previous_review_date :: moment
  new_review_date :: moment
  renewal_recorded_at :: moment

record approval_row =
  approval_id :: uuid
  approval_renewal :: uuid
  approved_by :: string
  approval_level :: string
  approval_rank :: int
  approved_at :: moment

record hold_db =
  holds :: "hold_row list"
  renewals :: "renewal_row list"
  approvals :: "approval_row list"

text \<open>A hold as the readers see it: the row with the latest justification.\<close>

record legal_hold =
  lh_row :: hold_row
  renewal_justification :: "string option"

record held_overdue =
  ho_record_class :: string
  ho_subject_id :: uuid
  due_at :: moment
  ho_hold :: legal_hold

definition is_active :: "legal_hold \<Rightarrow> moment \<Rightarrow> bool" where
  "is_active h now \<longleftrightarrow> now < review_date (lh_row h)"

subsection \<open>Reading\<close>

text \<open>\<open>ORDER BY sequence DESC LIMIT 1\<close>.\<close>

definition renewals_latest_first :: "hold_db \<Rightarrow> uuid \<Rightarrow> renewal_row list" where
  "renewals_latest_first db hid = sort_key (\<lambda>n. - sequence_no n) (filter (\<lambda>n. renewal_hold n = hid) (renewals db))"

definition latest_justification :: "hold_db \<Rightarrow> uuid \<Rightarrow> string option" where
  "latest_justification db hid =
     (case renewals_latest_first db hid of [] \<Rightarrow> None | n # _ \<Rightarrow> Some (justification n))"

definition read_hold :: "hold_db \<Rightarrow> hold_row \<Rightarrow> legal_hold" where
  "read_hold db r =
     \<lparr>lh_row = r,
      renewal_justification = (if renewal_count r \<noteq> 0 then latest_justification db (hold_id r) else None)\<rparr>"

definition active_holds :: "hold_db \<Rightarrow> uuid \<Rightarrow> string \<Rightarrow> uuid list \<Rightarrow> moment \<Rightarrow> (uuid \<times> legal_hold) list" where
  "active_holds db tenant cls ids now =
     (if ids = [] then []
      else fold (\<lambda>r held. AList.update (hold_subject r) (read_hold db r) held)
             (filter (\<lambda>r. hold_tenant r = tenant \<and> hold_class r = cls \<and> hold_subject r \<in> set ids \<and> review_date r > now)
                (holds db)) [])"

definition no_active_holds :: "uuid \<Rightarrow> string \<Rightarrow> uuid list \<Rightarrow> moment \<Rightarrow> (uuid \<times> legal_hold) list" where
  "no_active_holds tenant cls ids now = []"

definition partition_by_hold ::
  "(uuid \<Rightarrow> string \<Rightarrow> uuid list \<Rightarrow> moment \<Rightarrow> (uuid \<times> legal_hold) list) \<Rightarrow>
   uuid \<Rightarrow> string \<Rightarrow> uuid list \<Rightarrow> moment \<Rightarrow> uuid list \<times> (uuid \<times> legal_hold) list" where
  "partition_by_hold store tenant cls candidates now =
     (if candidates = [] then ([], [])
      else let held = store tenant cls candidates now in
        (filter (\<lambda>s. s \<notin> fst ` set held) candidates, held))"

text \<open>
  The deadlines of held records live in tables of other families; the composition root supplies, per
  record class, a query from the record's identifier to its deadline.
\<close>

definition due_at_of :: "(string \<times> (uuid \<Rightarrow> moment option)) list \<Rightarrow> hold_row \<Rightarrow> moment \<Rightarrow> moment option" where
  "due_at_of sources h now =
     (case map_of sources (hold_class h) of None \<Rightarrow> Some now | Some query \<Rightarrow> query (hold_subject h))"

definition held_overdue_report ::
  "(string \<times> (uuid \<Rightarrow> moment option)) list \<Rightarrow> hold_db \<Rightarrow> uuid \<Rightarrow> moment \<Rightarrow> held_overdue list" where
  "held_overdue_report sources db tenant now =
     concat (map (\<lambda>r. case due_at_of sources r now of
                        None \<Rightarrow> []
                      | Some d \<Rightarrow> if d \<le> now
                                 then [\<lparr>ho_record_class = hold_class r, ho_subject_id = hold_subject r, due_at = d,
                                        ho_hold = read_hold db r\<rparr>]
                                 else [])
       (sort_key placed_at (filter (\<lambda>r. hold_tenant r = tenant \<and> review_date r > now) (holds db))))"

subsection \<open>Placing and renewing\<close>

definition required_rank :: "int \<Rightarrow> int" where
  "required_rank n = min (max n 1) (int (length APPROVAL_LEVELS))"

text \<open>The checks of table \<open>legal_holds\<close>: the review date and the count.\<close>

definition hold_check :: "hold_row \<Rightarrow> bool" where
  "hold_check r \<longleftrightarrow> review_date r > placed_at r \<and> review_date r \<le> placed_at r + timedelta_days 180 \<and> renewal_count r \<ge> 0"

definition same_record :: "hold_row \<Rightarrow> hold_row \<Rightarrow> bool" where
  "same_record a b \<longleftrightarrow> hold_tenant a = hold_tenant b \<and> hold_class a = hold_class b \<and> hold_subject a = hold_subject b"

definition insert_hold :: "hold_row \<Rightarrow> hold_db \<Rightarrow> hold_error + hold_db" where
  "insert_hold r db =
     (if \<not> hold_check r \<or> (\<exists>h \<in> set (holds db). hold_id h = hold_id r \<or> same_record h r)
      then Inl HoldIntegrityError
      else Inr (db\<lparr>holds := holds db @ [r]\<rparr>))"

definition place_unavailable :: "hold_error + legal_hold" where
  "place_unavailable = Inl HoldStorageUnavailable"

definition renew_unavailable :: "hold_error + legal_hold" where
  "renew_unavailable = Inl HoldStorageUnavailable"

definition place ::
  "uuid \<Rightarrow> uuid \<Rightarrow> string \<Rightarrow> uuid \<Rightarrow> string \<Rightarrow> string \<Rightarrow> int \<Rightarrow> moment \<Rightarrow> hold_db \<Rightarrow> hold_error + (legal_hold \<times> hold_db)" where
  "place new_id tenant cls subj by why review_in_days now db =
     (if \<not> (0 < review_in_days \<and> review_in_days \<le> MAX_HOLD_DAYS) then Inl HoldRenewalRefused
      else if py_strip why = [] then Inl HoldRenewalRefused
      else let r = \<lparr>hold_id = new_id, hold_tenant = tenant, hold_class = cls, hold_subject = subj,
                    placed_by = by, reason = why, placed_at = now,
                    review_date = now + timedelta_days review_in_days, renewal_count = 0\<rparr> in
        result_map (\<lambda>db'. (\<lparr>lh_row = r, renewal_justification = None\<rparr>, db')) (insert_hold r db))"

text \<open>The join of renewals and approvals, latest renewal first.\<close>

definition last_approval_rank :: "hold_db \<Rightarrow> uuid \<Rightarrow> int option" where
  "last_approval_rank db hid =
     (case concat (map (\<lambda>n. map approval_rank (filter (\<lambda>a. approval_renewal a = renewal_id n) (approvals db)))
             (renewals_latest_first db hid)) of
        [] \<Rightarrow> None | k # _ \<Rightarrow> Some k)"

definition insert_renewal :: "renewal_row \<Rightarrow> hold_db \<Rightarrow> hold_error + hold_db" where
  "insert_renewal n db =
     (if sequence_no n < 1 \<or> (\<forall>c \<in> set (justification n). c = CHR '' '') \<or>
         (\<exists>m \<in> set (renewals db). renewal_id m = renewal_id n \<or>
             (renewal_hold m = renewal_hold n \<and> sequence_no m = sequence_no n))
      then Inl HoldIntegrityError
      else Inr (db\<lparr>renewals := renewals db @ [n]\<rparr>))"

definition insert_approval :: "approval_row \<Rightarrow> hold_db \<Rightarrow> hold_error + hold_db" where
  "insert_approval a db =
     (if approval_rank a < 0 \<or> (\<exists>b \<in> set (approvals db). approval_id b = approval_id a \<or> approval_renewal b = approval_renewal a)
      then Inl HoldIntegrityError
      else Inr (db\<lparr>approvals := approvals db @ [a]\<rparr>))"

definition extend_hold :: "uuid \<Rightarrow> moment \<Rightarrow> int \<Rightarrow> moment \<Rightarrow> hold_db \<Rightarrow> hold_error + hold_db" where
  "extend_hold hid review n placed db =
     (let upd = (\<lambda>h. if hold_id h = hid then h\<lparr>review_date := review, renewal_count := n, placed_at := placed\<rparr> else h) in
      if (\<exists>h \<in> set (holds db). hold_id h = hid \<and> \<not> hold_check (upd h)) then Inl HoldIntegrityError
      else Inr (db\<lparr>holds := map upd (holds db)\<rparr>))"

definition level_rank :: "string \<Rightarrow> int" where
  "level_rank level = int (length (takeWhile (\<lambda>l. l \<noteq> level) APPROVAL_LEVELS)) + 1"

definition renew ::
  "uuid \<Rightarrow> uuid \<Rightarrow> uuid \<Rightarrow> string \<Rightarrow> string \<Rightarrow> string \<Rightarrow> int \<Rightarrow> moment \<Rightarrow> hold_db \<Rightarrow> hold_error + (legal_hold \<times> hold_db)" where
  "renew new_renewal new_approval hid why by level review_in_days now db =
     (if py_strip why = [] then Inl HoldRenewalRefused
      else if level \<notin> set APPROVAL_LEVELS then Inl HoldRenewalRefused
      else if \<not> (0 < review_in_days \<and> review_in_days \<le> MAX_HOLD_DAYS) then Inl HoldRenewalRefused
      else case find (\<lambda>h. hold_id h = hid) (holds db) of
        None \<Rightarrow> Inl HoldRenewalRefused
      | Some row \<Rightarrow>
          let rank = level_rank level; sequence = renewal_count row + 1 in
          if rank < required_rank sequence then Inl HoldRenewalRefused
          else if (case last_approval_rank db hid of
                     None \<Rightarrow> False
                   | Some previous \<Rightarrow> rank \<le> previous \<and> previous < int (length APPROVAL_LEVELS))
          then Inl HoldRenewalRefused
          else let new_review = now + timedelta_days review_in_days in
            result_bind (insert_renewal \<lparr>renewal_id = new_renewal, renewal_hold = hid, sequence_no = sequence,
                           justification = why, requested_by = by, previous_review_date = review_date row,
                           new_review_date = new_review, renewal_recorded_at = now\<rparr> db) (\<lambda>db1.
            result_bind (insert_approval \<lparr>approval_id = new_approval, approval_renewal = new_renewal, approved_by = by,
                           approval_level = level, approval_rank = rank, approved_at = now\<rparr> db1) (\<lambda>db2.
            result_map (\<lambda>db3. (\<lparr>lh_row = row\<lparr>placed_at := now, review_date := new_review, renewal_count := sequence\<rparr>,
                                renewal_justification = Some why\<rparr>, db3))
              (extend_hold hid new_review sequence now db2))))"

subsection \<open>What an expiry sweep relies on\<close>

text \<open>
  A store answers about the asked records only, answers for a record the same whatever other
  records it is asked about, names each once, and only with a hold that is still active.
\<close>

locale hold_store =
  fixes store :: "uuid \<Rightarrow> string \<Rightarrow> uuid list \<Rightarrow> moment \<Rightarrow> (uuid \<times> legal_hold) list"
  assumes pointwise: "s \<in> fst ` set (store t c ids now) \<longleftrightarrow> s \<in> set ids \<and> s \<in> fst ` set (store t c [s] now)"
    and named_once: "distinct (map fst (store t c ids now))"
    and live: "(s, h) \<in> set (store t c ids now) \<Longrightarrow> is_active h now"
begin

lemma partition_complete:
  assumes "partition_by_hold store t c cands now = (deletable, held)"
  shows "set deletable \<union> fst ` set held = set cands" "set deletable \<inter> fst ` set held = {}"
proof -
  have held: "fst ` set held \<subseteq> set cands"
    using assms pointwise [of _ t c cands now] by (auto simp: partition_by_hold_def Let_def split: if_splits)
  have "deletable = filter (\<lambda>s. s \<notin> fst ` set held) cands"
    using assms by (auto simp: partition_by_hold_def Let_def split: if_splits)
  then have "set deletable = set cands - fst ` set held" by auto
  with held show "set deletable \<union> fst ` set held = set cands" "set deletable \<inter> fst ` set held = {}"
    by blast+
qed

lemma deletable_iff:
  "s \<in> set (fst (partition_by_hold store t c cands now)) \<longleftrightarrow> s \<in> set cands \<and> s \<notin> fst ` set (store t c [s] now)"
  using pointwise [of s t c cands now] by (auto simp: partition_by_hold_def Let_def)

lemma held_live: "(s, h) \<in> set (snd (partition_by_hold store t c cands now)) \<Longrightarrow> is_active h now"
  using live by (auto simp: partition_by_hold_def Let_def split: if_splits)

lemma held_count:
  "length (snd (partition_by_hold store t c cands now)) = card (set cands \<inter> {s. s \<in> fst ` set (store t c [s] now)})"
proof (cases "cands = []")
  case False
  have "length (store t c cands now) = card (set (map fst (store t c cands now)))"
    by (metis distinct_card length_map named_once)
  also have "set (map fst (store t c cands now)) = set cands \<inter> {s. s \<in> fst ` set (store t c [s] now)}"
    using pointwise [of _ t c cands now] by auto
  finally show ?thesis using False by (simp add: partition_by_hold_def Let_def)
qed (simp add: partition_by_hold_def)

end

text \<open>The dictionary of active holds.\<close>

lemma fold_update_keys: "fst ` set (fold (\<lambda>r d. AList.update (f r) (g r) d) rs d0) = f ` set rs \<union> fst ` set d0"
  by (induction rs arbitrary: d0) (auto simp: dom_update)

lemma fold_update_distinct:
  "distinct (map fst d0) \<Longrightarrow> distinct (map fst (fold (\<lambda>r d. AList.update (f r) (g r) d) rs d0))"
  by (induction rs arbitrary: d0) (simp_all add: distinct_update)

lemma fold_update_values:
  "(k, v) \<in> set (fold (\<lambda>r d. AList.update (f r) (g r) d) rs d0) \<Longrightarrow> (\<exists>r \<in> set rs. v = g r) \<or> v \<in> snd ` set d0"
proof (induction rs arbitrary: d0)
  case Nil
  then show ?case by force
next
  case (Cons r rs)
  from Cons.IH [of "AList.update (f r) (g r) d0"] Cons.prems
  consider "\<exists>r \<in> set rs. v = g r" | "v \<in> snd ` set (AList.update (f r) (g r) d0)" by auto
  then show ?case
  proof cases
    case 2
    have "snd ` set (AList.update (f r) (g r) d0) \<subseteq> insert (g r) (snd ` set d0)"
      by (induction d0) auto
    with 2 show ?thesis by auto
  qed auto
qed

lemma active_holds_exact:
  "s \<in> fst ` set (active_holds db t c ids now) \<longleftrightarrow>
     s \<in> set ids \<and> (\<exists>h \<in> set (holds db). hold_tenant h = t \<and> hold_class h = c \<and> hold_subject h = s \<and> now < review_date h)"
  by (auto simp: active_holds_def fold_update_keys)

interpretation unheld: hold_store no_active_holds
  by unfold_locales (simp_all add: no_active_holds_def)

interpretation postgres: hold_store "active_holds db" for db
proof
  fix s t c ids now
  show "s \<in> fst ` set (active_holds db t c ids now) \<longleftrightarrow> s \<in> set ids \<and> s \<in> fst ` set (active_holds db t c [s] now)"
    by (auto simp: active_holds_exact)
  show "distinct (map fst (active_holds db t c ids now))"
    by (simp add: active_holds_def fold_update_distinct)
next
  fix s h t c ids now
  assume "(s, h) \<in> set (active_holds db t c ids now)"
  then obtain r where "now < review_date r" "h = read_hold db r"
    by (auto simp: active_holds_def split: if_splits dest!: fold_update_values)
  then show "is_active h now" by (simp add: is_active_def read_hold_def)
qed

subsection \<open>Histories of the tables\<close>

text \<open>Any sequence of successful placements and renewals, starting from empty tables.\<close>

definition empty_holds :: hold_db where
  "empty_holds = \<lparr>holds = [], renewals = [], approvals = []\<rparr>"

inductive held_run :: "hold_db \<Rightarrow> bool" where
  start: "held_run empty_holds"
| placed: "held_run db \<Longrightarrow> place i t c s who why d now db = Inr (h, db') \<Longrightarrow> held_run db'"
| renewed: "held_run db \<Longrightarrow> renew i j hid why who level d now db = Inr (h, db') \<Longrightarrow> held_run db'"

text \<open>Renewal number \<open>k\<close> of a hold was approved at rank \<open>r\<close>.\<close>

definition approved :: "hold_db \<Rightarrow> uuid \<Rightarrow> int \<Rightarrow> int \<Rightarrow> bool" where
  "approved db hid k r \<longleftrightarrow>
     (\<exists>n \<in> set (renewals db). \<exists>a \<in> set (approvals db).
        renewal_hold n = hid \<and> sequence_no n = k \<and> approval_renewal a = renewal_id n \<and> approval_rank a = r)"

definition record_of :: "hold_row \<Rightarrow> uuid \<times> string \<times> uuid" where
  "record_of h = (hold_tenant h, hold_class h, hold_subject h)"

definition keys_ok :: "hold_db \<Rightarrow> bool" where
  "keys_ok db \<longleftrightarrow>
     distinct (map hold_id (holds db)) \<and> distinct (map record_of (holds db)) \<and>
     distinct (map renewal_id (renewals db)) \<and>
     distinct (map (\<lambda>n. (renewal_hold n, sequence_no n)) (renewals db)) \<and>
     distinct (map approval_renewal (approvals db)) \<and>
     renewal_id ` set (renewals db) \<subseteq> approval_renewal ` set (approvals db)"

lemma keys_of_renewal:
  assumes "keys_ok db" "m \<in> set (renewals db)" "n \<in> set (renewals db)"
    "renewal_hold m = renewal_hold n" "sequence_no m = sequence_no n"
  shows "m = n"
  using assms inj_onD [of "\<lambda>n. (renewal_hold n, sequence_no n)" "set (renewals db)" m n]
  by (simp add: keys_ok_def distinct_map)

lemma keys_of_approval:
  "keys_ok db \<Longrightarrow> a \<in> set (approvals db) \<Longrightarrow> b \<in> set (approvals db) \<Longrightarrow>
     approval_renewal a = approval_renewal b \<Longrightarrow> a = b"
  by (auto simp: keys_ok_def distinct_map dest: inj_onD)

lemma same_record_of: "same_record a b \<longleftrightarrow> record_of a = record_of b"
  by (simp add: same_record_def record_of_def)

lemma approved_unique: "keys_ok db \<Longrightarrow> approved db hid k r \<Longrightarrow> approved db hid k s \<Longrightarrow> r = s"
  unfolding approved_def using keys_of_renewal keys_of_approval by metis

definition trail_ok :: "hold_db \<Rightarrow> bool" where
  "trail_ok db \<longleftrightarrow>
     (\<forall>h \<in> set (holds db). \<forall>k. (\<exists>r. approved db (hold_id h) k r) \<longleftrightarrow> 1 \<le> k \<and> k \<le> renewal_count h) \<and>
     (\<forall>hid k r. approved db hid k r \<longrightarrow> (\<exists>h \<in> set (holds db). hold_id h = hid) \<and> required_rank k \<le> r \<and> r \<le> 3) \<and>
     (\<forall>hid j k r s. approved db hid j r \<longrightarrow> approved db hid k s \<longrightarrow> j < k \<longrightarrow> r < s \<or> r = 3)"

lemma last_approval_rank_exact:
  assumes "keys_ok db"
  shows "last_approval_rank db hid = None \<Longrightarrow> \<not> approved db hid k r"
    and "last_approval_rank db hid = Some p \<Longrightarrow> \<exists>m. approved db hid m p \<and> (\<forall>k r. approved db hid k r \<longrightarrow> k \<le> m)"
proof -
  let ?ns = "renewals_latest_first db hid"
  have mem: "n \<in> set ?ns \<longleftrightarrow> n \<in> set (renewals db) \<and> renewal_hold n = hid" for n
    by (simp add: renewals_latest_first_def)
  have ranks: "filter (\<lambda>a. approval_renewal a = renewal_id n) (approvals db) \<noteq> []" if "n \<in> set ?ns" for n
    using assms that by (fastforce simp: keys_ok_def mem filter_empty_conv)
  show "\<not> approved db hid k r" if "last_approval_rank db hid = None"
  proof -
    have "?ns = []"
      using that ranks by (cases ?ns) (auto simp: last_approval_rank_def split: list.splits)
    then show ?thesis using mem by (auto simp: approved_def)
  qed
  show "\<exists>m. approved db hid m p \<and> (\<forall>k r. approved db hid k r \<longrightarrow> k \<le> m)" if last: "last_approval_rank db hid = Some p"
  proof (cases ?ns)
    case Nil
    with last show ?thesis by (simp add: last_approval_rank_def)
  next
    case (Cons n ns)
    then obtain a as where as: "filter (\<lambda>a. approval_renewal a = renewal_id n) (approvals db) = a # as"
      using ranks [of n] by (cases "filter (\<lambda>a. approval_renewal a = renewal_id n) (approvals db)") auto
    with last Cons have p: "approval_rank a = p" by (simp add: last_approval_rank_def)
    from as have "a \<in> set (approvals db)" "approval_renewal a = renewal_id n"
      by (metis filter_eq_ConsD in_set_conv_decomp, metis (mono_tags, lifting) filter_eq_ConsD)
    moreover have "n \<in> set (renewals db)" "renewal_hold n = hid" using mem [of n] Cons by simp_all
    ultimately have "approved db hid (sequence_no n) p" using p by (auto simp: approved_def)
    moreover have "k \<le> sequence_no n" if "approved db hid k r" for k r
    proof -
      from that obtain m where "m \<in> set ?ns" "sequence_no m = k" by (auto simp: approved_def mem)
      moreover have "sorted (map (\<lambda>n. - sequence_no n) ?ns)" by (simp add: renewals_latest_first_def)
      ultimately show ?thesis using Cons by auto
    qed
    ultimately show ?thesis by blast
  qed
qed

text \<open>One step of a history, read off the operations.\<close>

lemma place_success:
  assumes "place i t c s by why d now db = Inr (h, db')"
  obtains r where "db' = db\<lparr>holds := holds db @ [r]\<rparr>" "hold_check r" "renewal_count r = 0" "hold_id r = i"
    "\<And>x. x \<in> set (holds db) \<Longrightarrow> hold_id x \<noteq> hold_id r \<and> \<not> same_record x r"
proof -
  define r where "r = \<lparr>hold_id = i, hold_tenant = t, hold_class = c, hold_subject = s, placed_by = by, reason = why,
    placed_at = now, review_date = now + timedelta_days d, renewal_count = 0\<rparr>"
  have "insert_hold r db = Inr db'"
    using assms by (auto simp: place_def r_def Let_def result_map_eq_Inr split: if_splits)
  then have "db' = db\<lparr>holds := holds db @ [r]\<rparr>" "hold_check r"
    "\<forall>x \<in> set (holds db). hold_id x \<noteq> hold_id r \<and> \<not> same_record x r"
    by (simp_all add: insert_hold_def split: if_splits)
  then show thesis using that [of r] by (simp add: r_def)
qed

definition renewed_hold :: "uuid \<Rightarrow> moment \<Rightarrow> int \<Rightarrow> moment \<Rightarrow> hold_row \<Rightarrow> hold_row" where
  "renewed_hold hid review n placed h =
     (if hold_id h = hid then h\<lparr>review_date := review, renewal_count := n, placed_at := placed\<rparr> else h)"

lemma renewed_hold_simps [simp]:
  "hold_id (renewed_hold hid rv n pl h) = hold_id h"
  "record_of (renewed_hold hid rv n pl h) = record_of h"
  "renewal_count (renewed_hold hid rv n pl h) = (if hold_id h = hid then n else renewal_count h)"
  by (auto simp: renewed_hold_def record_of_def)

lemma renew_success:
  assumes "renew i j hid why by level d now db = Inr (h, db')"
  obtains row n a where
    "row \<in> set (holds db)" "hold_id row = hid"
    "db' = db\<lparr>holds := map (renewed_hold hid (now + timedelta_days d) (renewal_count row + 1) now) (holds db),
              renewals := renewals db @ [n], approvals := approvals db @ [a]\<rparr>"
    "renewal_hold n = hid" "sequence_no n = renewal_count row + 1" "renewal_id n = i"
    "approval_renewal a = i" "approval_rank a = level_rank level"
    "required_rank (renewal_count row + 1) \<le> level_rank level"
    "\<And>p. last_approval_rank db hid = Some p \<Longrightarrow> p < level_rank level \<or> p \<ge> 3"
    "\<And>m. m \<in> set (renewals db) \<Longrightarrow> renewal_id m \<noteq> i \<and> \<not> (renewal_hold m = hid \<and> sequence_no m = renewal_count row + 1)"
    "\<And>b. b \<in> set (approvals db) \<Longrightarrow> approval_renewal b \<noteq> i"
    "\<And>x. x \<in> set (holds db) \<Longrightarrow> hold_id x = hid \<Longrightarrow>
       hold_check (renewed_hold hid (now + timedelta_days d) (renewal_count row + 1) now x)"
proof -
  from assms obtain row where row: "find (\<lambda>h. hold_id h = hid) (holds db) = Some row"
    by (auto simp: renew_def split: if_splits option.splits)
  note unfolded = assms [unfolded renew_def row option.case Let_def]
  have bounds: "required_rank (renewal_count row + 1) \<le> level_rank level"
    "\<And>p. last_approval_rank db hid = Some p \<Longrightarrow> p < level_rank level \<or> p \<ge> 3"
    using unfolded by (auto simp: APPROVAL_LEVELS_def not_less split: if_splits option.splits)
  define n where "n = \<lparr>renewal_id = i, renewal_hold = hid, sequence_no = renewal_count row + 1, justification = why,
    requested_by = by, previous_review_date = review_date row, new_review_date = now + timedelta_days d, renewal_recorded_at = now\<rparr>"
  define a where "a = \<lparr>approval_id = j, approval_renewal = i, approved_by = by, approval_level = level,
    approval_rank = level_rank level, approved_at = now\<rparr>"
  from unfolded obtain db1 db2 where
    db1: "insert_renewal n db = Inr db1" and db2: "insert_approval a db1 = Inr db2"
    and db3: "extend_hold hid (now + timedelta_days d) (renewal_count row + 1) now db2 = Inr db'"
    unfolding n_def a_def by (auto simp: result_bind_eq_Inr result_map_eq_Inr split: if_splits)
  have 1: "db1 = db\<lparr>renewals := renewals db @ [n]\<rparr>"
    and f1: "\<And>m. m \<in> set (renewals db) \<Longrightarrow> renewal_id m \<noteq> i \<and> \<not> (renewal_hold m = hid \<and> sequence_no m = renewal_count row + 1)"
    using db1 by (auto simp: insert_renewal_def n_def split: if_splits)
  have 2: "db2 = db1\<lparr>approvals := approvals db @ [a]\<rparr>"
    and f2: "\<And>b. b \<in> set (approvals db) \<Longrightarrow> approval_renewal b \<noteq> i"
    using db2 1 by (auto simp: insert_approval_def a_def split: if_splits)
  have 3: "db' = db2\<lparr>holds := map (renewed_hold hid (now + timedelta_days d) (renewal_count row + 1) now) (holds db)\<rparr>"
    and f3: "\<And>x. x \<in> set (holds db) \<Longrightarrow> hold_id x = hid \<Longrightarrow>
       hold_check (renewed_hold hid (now + timedelta_days d) (renewal_count row + 1) now x)"
    using db3 1 2 by (auto simp: extend_hold_def Let_def renewed_hold_def [abs_def] split: if_splits)
  have "row \<in> set (holds db)" "hold_id row = hid"
    using row by (auto simp: find_Some_iff)
  then show thesis
    by (rule that [where n = n and a = a]) (use 1 2 3 f1 f2 f3 bounds in \<open>auto simp: n_def a_def\<close>)
qed

lemma approved_after:
  assumes "renewals db' = renewals db @ [n]" "approvals db' = approvals db @ [a]"
    and "approval_renewal a = renewal_id n"
    and "\<And>m. m \<in> set (renewals db) \<Longrightarrow> renewal_id m \<noteq> renewal_id n"
    and "\<And>b. b \<in> set (approvals db) \<Longrightarrow> approval_renewal b \<noteq> renewal_id n"
  shows "approved db' x k r \<longleftrightarrow>
           approved db x k r \<or> (x = renewal_hold n \<and> k = sequence_no n \<and> r = approval_rank a)"
  using assms(3-5) unfolding approved_def assms(1,2) by fastforce

lemma level_rank_range: "level \<in> set APPROVAL_LEVELS \<Longrightarrow> 1 \<le> level_rank level \<and> level_rank level \<le> 3"
  by (auto simp: level_rank_def APPROVAL_LEVELS_def)

lemma renew_level: "renew i j hid why by level d now db = Inr (h, db') \<Longrightarrow> level \<in> set APPROVAL_LEVELS"
  by (auto simp: renew_def split: if_splits)

lemma hold_id_unique:
  "distinct (map hold_id hs) \<Longrightarrow> x \<in> set hs \<Longrightarrow> y \<in> set hs \<Longrightarrow> hold_id x = hold_id y \<Longrightarrow> x = y"
  by (metis distinct_map inj_onD)

lemma renew_keeps:
  assumes run: "renew i j hid why by level d now db = Inr (h, db')"
    and keys: "keys_ok db" and trail: "trail_ok db" and checks: "\<forall>h \<in> set (holds db). hold_check h"
  shows "keys_ok db'" "trail_ok db'"
proof -
  from run obtain row n a where row: "row \<in> set (holds db)" "hold_id row = hid"
    and db': "db' = db\<lparr>holds := map (renewed_hold hid (now + timedelta_days d) (renewal_count row + 1) now) (holds db),
              renewals := renewals db @ [n], approvals := approvals db @ [a]\<rparr>"
    and n: "renewal_hold n = hid" "sequence_no n = renewal_count row + 1" "renewal_id n = i"
    and a: "approval_renewal a = i" "approval_rank a = level_rank level"
    and needed: "required_rank (renewal_count row + 1) \<le> level_rank level"
    and climbs: "\<And>p. last_approval_rank db hid = Some p \<Longrightarrow> p < level_rank level \<or> p \<ge> 3"
    and fresh_n: "\<And>m. m \<in> set (renewals db) \<Longrightarrow> renewal_id m \<noteq> i \<and> \<not> (renewal_hold m = hid \<and> sequence_no m = renewal_count row + 1)"
    and fresh_a: "\<And>b. b \<in> set (approvals db) \<Longrightarrow> approval_renewal b \<noteq> i"
    by (rule renew_success) auto
  have uniq: "x = row" if "x \<in> set (holds db)" "hold_id x = hid" for x
    using that row keys hold_id_unique [of "holds db" x row] by (simp add: keys_ok_def)
  have "i \<notin> renewal_id ` set (renewals db)" "i \<notin> approval_renewal ` set (approvals db)"
    "(hid, renewal_count row + 1) \<notin> (\<lambda>n. (renewal_hold n, sequence_no n)) ` set (renewals db)"
    using fresh_n fresh_a by (blast, blast, auto dest: fresh_n)
  with keys n a show "keys_ok db'" by (auto simp: keys_ok_def db' comp_def)
  have ap: "approved db' x k r \<longleftrightarrow> approved db x k r \<or> (x = hid \<and> k = renewal_count row + 1 \<and> r = level_rank level)" for x k r
    using n a fresh_n fresh_a approved_after [of db' db n a x k r] by (auto simp: db')
  have max: "k \<le> renewal_count row" if "approved db hid k r" for k r
    using trail row that unfolding trail_ok_def by blast
  have step: "r < level_rank level \<or> r = 3" if was: "approved db hid k r" for k r
  proof -
    from was last_approval_rank_exact(1) [OF keys, of hid k r]
    obtain p where p: "last_approval_rank db hid = Some p" by auto
    then obtain m where m: "approved db hid m p" "k \<le> m"
      using last_approval_rank_exact(2) [OF keys p] was by blast
    have low: "1 \<le> k" using trail was row unfolding trail_ok_def by blast
    have "r = p \<and> m = k \<or> k < m \<and> (r < p \<or> r = 3)"
    proof (cases "k = m")
      case True
      with m was show ?thesis using approved_unique [OF keys] by blast
    next
      case False
      with trail m was show ?thesis unfolding trail_ok_def by (metis order_le_neq_trans)
    qed
    moreover have "3 \<le> level_rank level" if "k < m"
      using that low max [OF m(1)] needed by (simp add: required_rank_def APPROVAL_LEVELS_def)
    moreover have "p \<le> 3" using trail m unfolding trail_ok_def by blast
    ultimately show ?thesis using climbs [OF p] by linarith
  qed
  show "trail_ok db'" unfolding trail_ok_def
  proof (intro conjI ballI allI impI)
    fix x k assume x: "x \<in> set (holds db')"
    then obtain y where y: "y \<in> set (holds db)" "hold_id x = hold_id y"
      "renewal_count x = (if hold_id y = hid then renewal_count row + 1 else renewal_count y)" by (auto simp: db')
    with trail have old: "(\<exists>r. approved db (hold_id y) k r) \<longleftrightarrow> 1 \<le> k \<and> k \<le> renewal_count y" unfolding trail_ok_def by blast
    have "0 \<le> renewal_count row"
      using checks row(1) by (auto simp: hold_check_def)
    with old y uniq [of y] show "(\<exists>r. approved db' (hold_id x) k r) \<longleftrightarrow> 1 \<le> k \<and> k \<le> renewal_count x"
      unfolding ap by auto
  next
    fix x k r assume "approved db' x k r"
    then show "\<exists>h \<in> set (holds db'). hold_id h = x" "required_rank k \<le> r" "r \<le> 3"
      using trail row needed level_rank_range renew_level [OF run] unfolding ap trail_ok_def by (force simp: db', blast+)
  next
    fix x j k r s assume "approved db' x j r" "approved db' x k s" "j < k"
    then show "r < s \<or> r = 3"
      using trail step max unfolding ap trail_ok_def by fastforce
  qed
qed

lemma place_keeps:
  assumes run: "place i t c s by why d now db = Inr (h, db')" and keys: "keys_ok db" and trail: "trail_ok db"
  shows "keys_ok db'" "trail_ok db'"
proof -
  from run obtain r where db': "db' = db\<lparr>holds := holds db @ [r]\<rparr>" and r: "renewal_count r = 0"
    and fresh: "\<And>x. x \<in> set (holds db) \<Longrightarrow> hold_id x \<noteq> hold_id r \<and> \<not> same_record x r"
    by (rule place_success) auto
  have "hold_id r \<notin> hold_id ` set (holds db)" "record_of r \<notin> record_of ` set (holds db)"
    using fresh same_record_of by fastforce+
  with keys show "keys_ok db'" by (simp add: keys_ok_def db')
  have ap: "approved db' = approved db" by (intro ext) (simp add: approved_def db')
  have "\<not> approved db (hold_id r) k q" for k q
    using trail fresh unfolding trail_ok_def by metis
  with trail r show "trail_ok db'" unfolding trail_ok_def ap by (auto simp: db')
qed

lemma renew_checks:
  assumes run: "renew i j hid why by level d now db = Inr (h, db')" and checks: "\<forall>h \<in> set (holds db). hold_check h"
  shows "\<forall>h \<in> set (holds db'). hold_check h"
proof (rule renew_success [OF run])
  fix row n a
  let ?upd = "renewed_hold hid (now + timedelta_days d) (renewal_count row + 1) now"
  assume db': "db' = db\<lparr>holds := map ?upd (holds db), renewals := renewals db @ [n], approvals := approvals db @ [a]\<rparr>"
    and chk: "\<And>x. x \<in> set (holds db) \<Longrightarrow> hold_id x = hid \<Longrightarrow> hold_check (?upd x)"
  have "hold_check (?upd x)" if x: "x \<in> set (holds db)" for x
    using chk [OF x] checks x by (cases "hold_id x = hid") (simp_all add: renewed_hold_def)
  then show ?thesis by (simp add: db')
qed

lemma held_run_ok: "held_run db \<Longrightarrow> keys_ok db \<and> trail_ok db \<and> (\<forall>h \<in> set (holds db). hold_check h)"
proof (induction rule: held_run.induct)
  case start
  show ?case by (simp add: empty_holds_def keys_ok_def trail_ok_def approved_def)
next
  case (placed db i t c s who why d now h db')
  from placed.hyps(2) obtain r where "holds db' = holds db @ [r]" "hold_check r" by (rule place_success) auto
  with placed.IH have "\<forall>h \<in> set (holds db'). hold_check h" by auto
  with placed.IH place_keeps [OF placed.hyps(2)] show ?case by simp
next
  case (renewed db i j hid why who level d now h db')
  from renewed.IH have "\<forall>h \<in> set (holds db'). hold_check h" using renew_checks [OF renewed.hyps(2)] by blast
  with renewed.IH renew_keeps [OF renewed.hyps(2)] show ?case by simp
qed


text \<open>A hold, renewed by counsel at the first renewal and by the operator at the second.\<close>

definition db_of :: "hold_error + (legal_hold \<times> hold_db) \<Rightarrow> hold_db" where
  "db_of r = (case r of Inl _ \<Rightarrow> empty_holds | Inr (_, db) \<Rightarrow> db)"

definition sample_placed :: hold_db where
  "sample_placed = db_of (place ''h1'' ''t1'' ''derivative'' ''d1'' ''ana'' ''litigation'' 180 0 empty_holds)"

definition sample_counsel :: hold_db where
  "sample_counsel = db_of (renew ''n1'' ''a1'' ''h1'' ''still open'' ''bea'' ''counsel'' 180 1000 sample_placed)"

definition sample_operator :: hold_db where
  "sample_operator = db_of (renew ''n2'' ''a2'' ''h1'' ''still open'' ''cyd'' ''operator'' 180 2000 sample_counsel)"

lemma db_of_Inr: "\<exists>x. r = Inr x \<Longrightarrow> \<exists>h. r = Inr (h, db_of r)"
  by (auto simp: db_of_def)

lemma sample_runs: "held_run sample_placed" "held_run sample_counsel" "held_run sample_operator"
proof -
  have "\<not> isl (place ''h1'' ''t1'' ''derivative'' ''d1'' ''ana'' ''litigation'' 180 0 empty_holds)" by code_simp
  then show 1: "held_run sample_placed"
    unfolding sample_placed_def by (metis held_run.start held_run.placed db_of_Inr sum.collapse(2))
  have "\<not> isl (renew ''n1'' ''a1'' ''h1'' ''still open'' ''bea'' ''counsel'' 180 1000 sample_placed)" by code_simp
  with 1 show 2: "held_run sample_counsel"
    unfolding sample_counsel_def by (metis held_run.renewed db_of_Inr sum.collapse(2))
  have "\<not> isl (renew ''n2'' ''a2'' ''h1'' ''still open'' ''cyd'' ''operator'' 180 2000 sample_counsel)" by code_simp
  with 2 show "held_run sample_operator"
    unfolding sample_operator_def by (metis held_run.renewed db_of_Inr sum.collapse(2))
qed


text \<open>
  The escalation can fall: there is a history in which counsel approves the first renewal of a
  hold and the operator, a lower rank, approves the second.
\<close>

theorem escalation_can_fall:
  "\<exists>db hid. held_run db \<and> approved db hid 1 (level_rank ''counsel'') \<and> approved db hid 2 (level_rank ''operator'') \<and>
     level_rank ''operator'' < level_rank ''counsel''"
proof (intro exI conjI)
  show "held_run sample_operator" by (rule sample_runs)
  show "approved sample_operator ''h1'' 1 (level_rank ''counsel'')" by code_simp
  show "approved sample_operator ''h1'' 2 (level_rank ''operator'')" by code_simp
  show "level_rank ''operator'' < level_rank ''counsel''" by code_simp
qed

text \<open>
  Once a record has been held, it cannot be held anew after the hold has lapsed: the lapsed hold no longer
  protects the record, and every attempt to place another one fails, since the constraint on the
  table counts lapsed rows.
\<close>

theorem lapsed_hold_blocks_new_hold:
  assumes "held_run db" "h \<in> set (holds db)" "review_date h \<le> now"
  shows "hold_subject h \<notin> fst ` set (active_holds db (hold_tenant h) (hold_class h) ids now) \<and>
    (\<exists>e. place i (hold_tenant h) (hold_class h) (hold_subject h) by why d now db = Inl e)"
proof
  have one: "h' = h" if "h' \<in> set (holds db)" "same_record h h'" for h'
    using held_run_ok [OF assms(1)] assms(2) that
    by (auto simp: keys_ok_def same_record_of distinct_map dest: inj_onD)
  show "hold_subject h \<notin> fst ` set (active_holds db (hold_tenant h) (hold_class h) ids now)"
    using one assms(3) unfolding active_holds_exact same_record_def by force
  show "\<exists>e. place i (hold_tenant h) (hold_class h) (hold_subject h) by why d now db = Inl e"
    using assms(2) by (auto simp: place_def insert_hold_def Let_def same_record_def)
qed

theorem lapsed_hold_blocks_new_hold_witness:
  "\<exists>e. place ''h2'' ''t1'' ''derivative'' ''d1'' ''ana'' ''second case'' 30 (timedelta_days 200) sample_placed = Inl e"
proof -
  have "hd (holds sample_placed) \<in> set (holds sample_placed)" by code_simp
  moreover have "review_date (hd (holds sample_placed)) \<le> timedelta_days 200" by code_simp
  moreover have "hold_tenant (hd (holds sample_placed)) = ''t1''" "hold_class (hd (holds sample_placed)) = ''derivative''"
    "hold_subject (hd (holds sample_placed)) = ''d1''" by code_simp+
  ultimately show ?thesis
    using lapsed_hold_blocks_new_hold [OF sample_runs(1), of "hd (holds sample_placed)" "timedelta_days 200" "[]" "''h2''" "''ana''" "''second case''" 30]
    by simp
qed

end
