(* ===== verification/Derivatives.thy ===== *)
theory Derivatives
  imports Retention_Policy
begin

section \<open>The derivative registry and its work outbox\<close>

text \<open>
  The model of \<open>contextplane/retention/derivatives.py\<close> over its three tables: registrations, source links and the
  outbox, with the unique indexes of migration \<open>0043_retention_and_derivatives\<close> on which the statements rely
  (one registration per locator and audience, one link per source, one work item per cause). The identifiers
  the database draws are arguments. A handler is whatever a kind does to its own artefacts, a
  function on the store \<open>'s\<close> that holds them; its failure is an exception with its text.
\<close>

subsection \<open>Vocabulary\<close>

definition KIND_VECTOR :: string where "KIND_VECTOR = ''vector''"
definition KIND_EMBEDDING_CHUNK :: string where "KIND_EMBEDDING_CHUNK = ''embedding_chunk''"
definition KIND_FTS_DOCUMENT :: string where "KIND_FTS_DOCUMENT = ''fts_document''"
definition KIND_SUMMARY :: string where "KIND_SUMMARY = ''summary''"
definition KIND_CACHE :: string where "KIND_CACHE = ''cache''"
definition KIND_OUTBOX :: string where "KIND_OUTBOX = ''outbox''"
definition KIND_LOG_PROJECTION :: string where "KIND_LOG_PROJECTION = ''log_projection''"
definition KIND_EXPORT :: string where "KIND_EXPORT = ''export''"
definition KIND_RECEIPT_LINK :: string where "KIND_RECEIPT_LINK = ''receipt_link''"
definition KIND_CLAIM_DERIVATIVE :: string where "KIND_CLAIM_DERIVATIVE = ''claim_derivative''"

definition DERIVATIVE_KINDS :: "string list" where
  "DERIVATIVE_KINDS = [KIND_VECTOR, KIND_EMBEDDING_CHUNK, KIND_FTS_DOCUMENT, KIND_SUMMARY, KIND_CACHE,
     KIND_OUTBOX, KIND_LOG_PROJECTION, KIND_EXPORT, KIND_RECEIPT_LINK, KIND_CLAIM_DERIVATIVE]"

definition OPERATION_REBUILD :: string where "OPERATION_REBUILD = ''rebuild''"
definition OPERATION_DELETE :: string where "OPERATION_DELETE = ''delete''"
definition OPERATION_REDACT :: string where "OPERATION_REDACT = ''redact''"
definition OPERATIONS :: "string list" where "OPERATIONS = [OPERATION_REBUILD, OPERATION_DELETE, OPERATION_REDACT]"

definition TRIGGER_EXPIRY :: string where "TRIGGER_EXPIRY = ''expiry''"
definition TRIGGER_ERASURE :: string where "TRIGGER_ERASURE = ''erasure''"
definition TRIGGER_REVOCATION :: string where "TRIGGER_REVOCATION = ''revocation''"
definition TRIGGER_POLICY_CHANGE :: string where "TRIGGER_POLICY_CHANGE = ''policy_change''"
definition TRIGGERS :: "string list" where
  "TRIGGERS = [TRIGGER_EXPIRY, TRIGGER_ERASURE, TRIGGER_REVOCATION, TRIGGER_POLICY_CHANGE]"

definition STATE_PENDING :: string where "STATE_PENDING = ''pending''"
definition STATE_DONE :: string where "STATE_DONE = ''done''"
definition STATE_FAILED :: string where "STATE_FAILED = ''failed''"

datatype derivative_error = UnhandledDerivativeKind | ExpiryError retention_error

subsection \<open>Rows\<close>

record registration =
  derivative_id :: uuid
  dv_tenant :: uuid
  derivative_kind :: string
  storage_locator :: string
  audience_partition :: string
  classification :: string
  rebuild_handler_version :: string
  delete_handler_version :: string
  redact_handler_version :: string
  dv_policy_version :: string
  expires_at :: moment
  blocking :: bool
  sync_status :: string

record source_ref =
  ref_class :: string
  ref_source :: uuid
  ref_revision :: "string option"
  ref_expires_at :: "moment option"

record source_link =
  link_derivative :: uuid
  link_class :: string
  link_source :: uuid
  link_revision :: "string option"
  link_expires_at :: "moment option"

record work_item =
  work_id :: uuid
  work_tenant :: uuid
  work_derivative :: uuid
  operation :: string
  trigger :: string
  tombstone_id :: "uuid option"
  work_state :: string
  attempts :: int
  last_error :: "string option"
  available_at :: moment
  claimed_at :: "moment option"
  completed_at :: "moment option"

record derivative_db =
  registrations :: "registration list"
  source_links :: "source_link list"
  outbox :: "work_item list"

subsection \<open>Handlers\<close>

type_synonym 's handler = "registration \<Rightarrow> string \<Rightarrow> 's \<Rightarrow> string + (nat \<times> 's)"
type_synonym 's registry = "(string \<times> 's handler) list"

definition register_handler :: "string \<Rightarrow> 's handler \<Rightarrow> 's registry \<Rightarrow> derivative_error + 's registry" where
  "register_handler kind h reg =
     (if kind \<notin> set DERIVATIVE_KINDS then Inl UnhandledDerivativeKind
      else if map_of reg kind \<noteq> None then Inl UnhandledDerivativeKind
      else Inr (AList.update kind h reg))"

definition handler_for :: "'s registry \<Rightarrow> string \<Rightarrow> derivative_error + 's handler" where
  "handler_for reg kind = of_option UnhandledDerivativeKind (map_of reg kind)"

definition handled_kinds :: "'s registry \<Rightarrow> string list" where
  "handled_kinds reg = filter (\<lambda>k. k \<in> fst ` set reg) DERIVATIVE_KINDS"

definition unhandled_kinds :: "'s registry \<Rightarrow> string list" where
  "unhandled_kinds reg = filter (\<lambda>k. k \<notin> fst ` set reg) DERIVATIVE_KINDS"

subsection \<open>Registering\<close>

definition same_locator :: "registration \<Rightarrow> registration \<Rightarrow> bool" where
  "same_locator a b \<longleftrightarrow> dv_tenant a = dv_tenant b \<and> derivative_kind a = derivative_kind b \<and>
     storage_locator a = storage_locator b \<and> audience_partition a = audience_partition b"

text \<open>\<open>ON CONFLICT ... DO UPDATE\<close>: the stored row keeps its identifier and the earlier expiry.\<close>

definition merge_registration :: "registration \<Rightarrow> registration \<Rightarrow> registration" where
  "merge_registration stored incoming =
     stored\<lparr>classification := classification incoming,
       rebuild_handler_version := rebuild_handler_version incoming,
       delete_handler_version := delete_handler_version incoming,
       redact_handler_version := redact_handler_version incoming,
       dv_policy_version := dv_policy_version incoming,
       blocking := blocking incoming,
       expires_at := min (expires_at stored) (expires_at incoming)\<rparr>"

definition upsert_registration :: "registration \<Rightarrow> derivative_db \<Rightarrow> uuid \<times> derivative_db" where
  "upsert_registration r db =
     (case find (\<lambda>s. same_locator s r) (registrations db) of
        None \<Rightarrow> (derivative_id r, db\<lparr>registrations := registrations db @ [r]\<rparr>)
      | Some s \<Rightarrow> (derivative_id s,
          db\<lparr>registrations := map (\<lambda>x. if same_locator x r then merge_registration x r else x) (registrations db)\<rparr>))"

definition upsert_source_link :: "uuid \<Rightarrow> source_ref \<Rightarrow> derivative_db \<Rightarrow> derivative_db" where
  "upsert_source_link did src db =
     (let same = (\<lambda>l. link_derivative l = did \<and> link_class l = ref_class src \<and> link_source l = ref_source src) in
      if (\<exists>l \<in> set (source_links db). same l)
      then db\<lparr>source_links := map (\<lambda>l. if same l then l\<lparr>link_revision := ref_revision src, link_expires_at := ref_expires_at src\<rparr> else l)
                (source_links db)\<rparr>
      else db\<lparr>source_links := source_links db @ [\<lparr>link_derivative = did, link_class = ref_class src, link_source = ref_source src,
                link_revision = ref_revision src, link_expires_at = ref_expires_at src\<rparr>]\<rparr>)"

definition register_derivative ::
  "uuid \<Rightarrow> uuid \<Rightarrow> string \<Rightarrow> string \<Rightarrow> string \<Rightarrow> string \<Rightarrow> string \<Rightarrow> source_ref list \<Rightarrow> bool \<Rightarrow> moment option \<Rightarrow>
   derivative_db \<Rightarrow> derivative_error + (uuid \<times> derivative_db)" where
  "register_derivative new_id tenant kind locator audience classif version sources blocks fallback db =
     (if kind \<notin> set DERIVATIVE_KINDS then Inl UnhandledDerivativeKind
      else case minimum_expiry (map ref_expires_at sources) fallback of
        Inl e \<Rightarrow> Inl (ExpiryError e)
      | Inr expiry \<Rightarrow>
          (let (did, db') = upsert_registration
                 \<lparr>derivative_id = new_id, dv_tenant = tenant, derivative_kind = kind, storage_locator = locator,
                  audience_partition = audience, classification = classif, rebuild_handler_version = version,
                  delete_handler_version = version, redact_handler_version = version,
                  dv_policy_version = POLICY_VERSION, expires_at = expiry, blocking = blocks,
                  sync_status = ''pending''\<rparr> db
           in Inr (did, fold (upsert_source_link did) sources db')))"

subsection \<open>Enqueueing\<close>

definition same_cause :: "uuid \<Rightarrow> string \<Rightarrow> string \<Rightarrow> uuid option \<Rightarrow> work_item \<Rightarrow> bool" where
  "same_cause did op trig tomb w \<longleftrightarrow>
     work_derivative w = did \<and> operation w = op \<and> trigger w = trig \<and> tombstone_id w = tomb"

definition new_item :: "uuid \<Rightarrow> uuid \<Rightarrow> uuid \<Rightarrow> string \<Rightarrow> string \<Rightarrow> uuid option \<Rightarrow> moment \<Rightarrow> work_item" where
  "new_item wid tenant did op trig tomb now =
     \<lparr>work_id = wid, work_tenant = tenant, work_derivative = did, operation = op, trigger = trig,
      tombstone_id = tomb, work_state = STATE_PENDING, attempts = 0, last_error = None,
      available_at = now, claimed_at = None, completed_at = None\<rparr>"

text \<open>
  \<open>INSERT ... SELECT ... ON CONFLICT DO NOTHING RETURNING\<close>: the selected derivatives that have no item for this
  cause yet each get one, and the number of those is returned.
\<close>

definition enqueue_items ::
  "(uuid \<Rightarrow> uuid) \<Rightarrow> string \<Rightarrow> string \<Rightarrow> uuid option \<Rightarrow> moment \<Rightarrow> registration list \<Rightarrow> derivative_db \<Rightarrow> nat \<times> derivative_db" where
  "enqueue_items fresh op trig tomb now rs db =
     (let new = filter (\<lambda>r. \<not> (\<exists>w \<in> set (outbox db). same_cause (derivative_id r) op trig tomb w)) rs in
      (length new,
       db\<lparr>outbox := outbox db @ map (\<lambda>r. new_item (fresh (derivative_id r)) (dv_tenant r) (derivative_id r) op trig tomb now) new\<rparr>))"

definition reads_source :: "derivative_db \<Rightarrow> registration \<Rightarrow> string \<Rightarrow> uuid list \<Rightarrow> bool" where
  "reads_source db r cls sids \<longleftrightarrow>
     (\<exists>l \<in> set (source_links db). link_derivative l = derivative_id r \<and> link_class l = cls \<and> link_source l \<in> set sids)"

definition enqueue_for_sources ::
  "(uuid \<Rightarrow> uuid) \<Rightarrow> uuid \<Rightarrow> string \<Rightarrow> uuid list \<Rightarrow> string \<Rightarrow> string \<Rightarrow> moment \<Rightarrow> uuid option \<Rightarrow>
   derivative_db \<Rightarrow> derivative_error + (nat \<times> derivative_db)" where
  "enqueue_for_sources fresh tenant cls sids op trig now tomb db =
     (if op \<notin> set OPERATIONS then Inl UnhandledDerivativeKind
      else if trig \<notin> set TRIGGERS then Inl UnhandledDerivativeKind
      else if trig \<in> set [TRIGGER_ERASURE, TRIGGER_REVOCATION] \<and> tomb = None then Inl UnhandledDerivativeKind
      else if sids = [] then Inr (0, db)
      else Inr (enqueue_items fresh op trig tomb now
                  (filter (\<lambda>r. dv_tenant r = tenant \<and> reads_source db r cls sids) (registrations db)) db))"

subsection \<open>Coverage\<close>

lemma handled_or_not: "set (handled_kinds reg) \<union> set (unhandled_kinds reg) = set DERIVATIVE_KINDS"
  "set (handled_kinds reg) \<inter> set (unhandled_kinds reg) = {}"
  by (auto simp: handled_kinds_def unhandled_kinds_def)

lemma handler_for_covered: "k \<in> set (handled_kinds reg) \<Longrightarrow> \<exists>h. handler_for reg k = Inr h"
  by (auto simp: handled_kinds_def handler_for_def of_option_eq_Inr) (metis map_of_eq_None_iff not_None_eq imageI fst_conv)

lemma register_handler_keeps:
  "register_handler k h reg = Inr reg' \<Longrightarrow> handler_for reg k' = Inr h' \<Longrightarrow> handler_for reg' k' = Inr h'"
  by (auto simp: register_handler_def handler_for_def of_option_eq_Inr update_conv' split: if_splits)

subsection \<open>The invariant of the tables\<close>

definition locator_of :: "registration \<Rightarrow> uuid \<times> string \<times> string \<times> string" where
  "locator_of r = (dv_tenant r, derivative_kind r, storage_locator r, audience_partition r)"

definition cause_of :: "work_item \<Rightarrow> uuid \<times> string \<times> string \<times> uuid option" where
  "cause_of w = (work_derivative w, operation w, trigger w, tombstone_id w)"

definition registry_ok :: "derivative_db \<Rightarrow> bool" where
  "registry_ok db \<longleftrightarrow>
     distinct (map derivative_id (registrations db)) \<and> distinct (map locator_of (registrations db)) \<and>
     link_derivative ` set (source_links db) \<subseteq> derivative_id ` set (registrations db) \<and>
     (\<forall>r \<in> set (registrations db). \<forall>l \<in> set (source_links db). \<forall>e.
        link_derivative l = derivative_id r \<longrightarrow> link_expires_at l = Some e \<longrightarrow> expires_at r \<le> e)"

definition outbox_keys_ok :: "derivative_db \<Rightarrow> bool" where
  "outbox_keys_ok db \<longleftrightarrow>
     distinct (map work_id (outbox db)) \<and> distinct (map cause_of (outbox db)) \<and>
     work_derivative ` set (outbox db) \<subseteq> derivative_id ` set (registrations db)"

lemma same_locator_of: "same_locator a b \<longleftrightarrow> locator_of a = locator_of b"
  by (auto simp: same_locator_def locator_of_def)

lemma same_cause_of: "same_cause d p t b w \<longleftrightarrow> cause_of w = (d, p, t, b)"
  by (auto simp: same_cause_def cause_of_def)

lemma merge_registration_simps [simp]:
  "derivative_id (merge_registration s r) = derivative_id s"
  "locator_of (merge_registration s r) = locator_of s"
  "expires_at (merge_registration s r) = min (expires_at s) (expires_at r)"
  by (simp_all add: merge_registration_def locator_of_def)

lemma registry_okD:
  "registry_ok db \<Longrightarrow> r \<in> set (registrations db) \<Longrightarrow> l \<in> set (source_links db) \<Longrightarrow>
     link_derivative l = derivative_id r \<Longrightarrow> link_expires_at l = Some e \<Longrightarrow> expires_at r \<le> e"
  by (simp add: registry_ok_def)

lemma upsert_registration_cases:
  assumes "upsert_registration r db = (did, db')" "registry_ok db"
  obtains
    (fresh) "did = derivative_id r" "db' = db\<lparr>registrations := registrations db @ [r]\<rparr>"
      "locator_of r \<notin> locator_of ` set (registrations db)"
  | (merged) s where "s \<in> set (registrations db)" "did = derivative_id s"
      "db' = db\<lparr>registrations := map (\<lambda>x. if derivative_id x = did then merge_registration x r else x) (registrations db)\<rparr>"
proof (cases "find (\<lambda>s. same_locator s r) (registrations db)")
  case None
  then have "did = derivative_id r" "db' = db\<lparr>registrations := registrations db @ [r]\<rparr>"
    using assms(1) by (simp_all add: upsert_registration_def)
  moreover have "locator_of r \<notin> locator_of ` set (registrations db)"
    using None by (auto simp: find_None_iff same_locator_of)
  ultimately show thesis by (rule fresh)
next
  case (Some s)
  then have s: "s \<in> set (registrations db)" "locator_of s = locator_of r"
    by (auto simp: find_Some_iff same_locator_of)
  have inj: "inj_on locator_of (set (registrations db))" "inj_on derivative_id (set (registrations db))"
    using assms(2) by (simp_all add: registry_ok_def distinct_map)
  have same: "map (\<lambda>x. if same_locator x r then merge_registration x r else x) (registrations db) =
      map (\<lambda>x. if derivative_id x = derivative_id s then merge_registration x r else x) (registrations db)"
  proof (rule map_cong [OF refl])
    fix x assume "x \<in> set (registrations db)"
    with s inj have "same_locator x r \<longleftrightarrow> derivative_id x = derivative_id s"
      unfolding same_locator_of by (metis inj_onD)
    then show "(if same_locator x r then merge_registration x r else x) =
      (if derivative_id x = derivative_id s then merge_registration x r else x)" by simp
  qed
  have "(did, db') = (derivative_id s,
      db\<lparr>registrations := map (\<lambda>x. if same_locator x r then merge_registration x r else x) (registrations db)\<rparr>)"
    using Some assms(1) by (simp add: upsert_registration_def)
  then show thesis using merged [OF s(1)] unfolding same by simp
qed

lemma merged_ids: "derivative_id ` set (map (\<lambda>x. if P x then merge_registration x r else x) xs) = derivative_id ` set xs"
  by (induction xs) auto

text \<open>After the upsert the row has an expiry no later than the incoming one, and none is later than before.\<close>

lemma upsert_registration_frame:
  assumes "upsert_registration r db = (did, db')"
  shows "outbox db' = outbox db" "source_links db' = source_links db"
  using assms by (auto simp: upsert_registration_def split: option.splits)

lemma upsert_registration_rows:
  assumes up: "upsert_registration r db = (did, db')" and ok: "registry_ok db"
  shows "\<And>x. x \<in> set (registrations db') \<Longrightarrow> derivative_id x = did \<Longrightarrow>
      derivative_id r \<notin> derivative_id ` set (registrations db) \<Longrightarrow> expires_at x \<le> expires_at r"
    and "did \<in> derivative_id ` set (registrations db')"
    and "derivative_id ` set (registrations db) \<subseteq> derivative_id ` set (registrations db')"
proof -
  show "did \<in> derivative_id ` set (registrations db')"
    by (rule upsert_registration_cases [OF up ok]) (simp_all add: merged_ids del: set_map)
  show "derivative_id ` set (registrations db) \<subseteq> derivative_id ` set (registrations db')"
    by (rule upsert_registration_cases [OF up ok]) (auto simp: merged_ids simp del: set_map)
  show "expires_at x \<le> expires_at r" if x: "x \<in> set (registrations db')" "derivative_id x = did"
    and new: "derivative_id r \<notin> derivative_id ` set (registrations db)" for x
  proof -
    from new have "\<forall>y \<in> set (registrations db). derivative_id y \<noteq> derivative_id r" by (metis imageI)
    with x show ?thesis by - (rule upsert_registration_cases [OF up ok], auto split: if_splits)
  qed
qed

lemma upsert_registration_ok:
  assumes up: "upsert_registration r db = (did, db')" and ok: "registry_ok db"
    and new: "derivative_id r \<notin> derivative_id ` set (registrations db)"
  shows "registry_ok db'"
proof (rule upsert_registration_cases [OF up ok])
  assume fresh: "did = derivative_id r" "db' = db\<lparr>registrations := registrations db @ [r]\<rparr>"
    "locator_of r \<notin> locator_of ` set (registrations db)"
  have linked: "link_derivative ` set (source_links db) \<subseteq> derivative_id ` set (registrations db)"
    using ok by (simp add: registry_ok_def)
  with new have "link_derivative l \<noteq> derivative_id r" if "l \<in> set (source_links db)" for l
    using that by (metis imageI subsetD)
  then have "expires_at x \<le> e" if "x \<in> set (registrations db')" "l \<in> set (source_links db)"
    "link_derivative l = derivative_id x" "link_expires_at l = Some e" for x l e
    using that registry_okD [OF ok, of x l e] unfolding fresh(2) by auto
  moreover have "distinct (map derivative_id (registrations db'))" "distinct (map locator_of (registrations db'))"
    using ok new fresh(3) by (simp_all add: registry_ok_def fresh(2))
  moreover have "link_derivative ` set (source_links db) \<subseteq> derivative_id ` set (registrations db')"
    using ok upsert_registration_rows(3) [OF up ok] unfolding registry_ok_def by blast
  ultimately show ?thesis unfolding registry_ok_def upsert_registration_frame [OF up] by blast
next
  fix s
  assume merged: "s \<in> set (registrations db)" "did = derivative_id s"
    "db' = db\<lparr>registrations := map (\<lambda>x. if derivative_id x = did then merge_registration x r else x) (registrations db)\<rparr>"
  have ids: "map derivative_id (registrations db') = map derivative_id (registrations db)"
    "map locator_of (registrations db') = map locator_of (registrations db)"
    by (simp_all add: merged(3))
  then have idset: "derivative_id ` set (registrations db') = derivative_id ` set (registrations db)"
    by (metis set_map)
  have earlier: "\<exists>y \<in> set (registrations db). derivative_id x = derivative_id y \<and> expires_at x \<le> expires_at y"
    if "x \<in> set (registrations db')" for x
    using that by (auto simp: merged(3) split: if_splits)
  have "expires_at x \<le> e" if "x \<in> set (registrations db')" "l \<in> set (source_links db)"
    "link_derivative l = derivative_id x" "link_expires_at l = Some e" for x l e
    using earlier [OF that(1)] ok that(2-4) unfolding registry_ok_def by (metis order_trans)
  with ok show ?thesis unfolding registry_ok_def ids idset by (simp add: upsert_registration_frame [OF up])
qed

lemma upsert_source_link_frame [simp]:
  "registrations (upsert_source_link did s db) = registrations db"
  "outbox (upsert_source_link did s db) = outbox db"
  by (simp_all add: upsert_source_link_def Let_def)

lemma upsert_source_link_member:
  assumes "l \<in> set (source_links (upsert_source_link did s db))"
  shows "l \<in> set (source_links db) \<or> (link_derivative l = did \<and> link_expires_at l = ref_expires_at s)"
  using assms by (auto simp: upsert_source_link_def Let_def split: if_splits)

lemma upsert_source_link_ok:
  assumes "registry_ok db" "did \<in> derivative_id ` set (registrations db)"
    and "\<And>r e. r \<in> set (registrations db) \<Longrightarrow> derivative_id r = did \<Longrightarrow> ref_expires_at s = Some e \<Longrightarrow> expires_at r \<le> e"
  shows "registry_ok (upsert_source_link did s db)"
proof -
  let ?db = "upsert_source_link did s db"
  have "link_derivative l \<in> derivative_id ` set (registrations db)" if "l \<in> set (source_links ?db)" for l
    using upsert_source_link_member [OF that] assms(1,2) unfolding registry_ok_def by blast
  moreover have "expires_at r \<le> e" if "r \<in> set (registrations db)" "l \<in> set (source_links ?db)"
    "link_derivative l = derivative_id r" "link_expires_at l = Some e" for r l e
    using upsert_source_link_member [OF that(2)] registry_okD [OF assms(1)] assms(3) that by auto
  ultimately show ?thesis using assms(1) unfolding registry_ok_def upsert_source_link_frame by blast
qed

lemma fold_upsert_source_link:
  assumes "registry_ok db" "did \<in> derivative_id ` set (registrations db)"
    and "\<And>s r e. s \<in> set ss \<Longrightarrow> r \<in> set (registrations db) \<Longrightarrow> derivative_id r = did \<Longrightarrow> ref_expires_at s = Some e \<Longrightarrow> expires_at r \<le> e"
  shows "registry_ok (fold (upsert_source_link did) ss db) \<and>
    registrations (fold (upsert_source_link did) ss db) = registrations db \<and>
    outbox (fold (upsert_source_link did) ss db) = outbox db"
  using assms
proof (induction ss arbitrary: db)
  case (Cons s ss)
  have "registry_ok (upsert_source_link did s db)"
    using upsert_source_link_ok [OF Cons.prems(1,2)] Cons.prems(3) [of s] by simp
  moreover have "expires_at r \<le> e" if "q \<in> set ss" "r \<in> set (registrations db)" "derivative_id r = did"
    "ref_expires_at q = Some e" for q r e
    using Cons.prems(3) [of q r e] that by simp
  ultimately show ?case using Cons.IH [of "upsert_source_link did s db"] Cons.prems(2) by simp
qed simp

lemma register_derivative_ok:
  assumes run: "register_derivative i t k loc aud cl v ss b fb db = Inr (did, db')"
    and ok: "registry_ok db" and new: "i \<notin> derivative_id ` set (registrations db)"
  shows "registry_ok db'" "outbox db' = outbox db" "did \<in> derivative_id ` set (registrations db')"
    "derivative_id ` set (registrations db) \<subseteq> derivative_id ` set (registrations db')"
proof -
  from run obtain x where x: "minimum_expiry (map ref_expires_at ss) fb = Inr x"
    by (auto simp: register_derivative_def split: if_splits sum.splits)
  define r where "r = \<lparr>derivative_id = i, dv_tenant = t, derivative_kind = k, storage_locator = loc, audience_partition = aud,
    classification = cl, rebuild_handler_version = v, delete_handler_version = v, redact_handler_version = v,
    dv_policy_version = POLICY_VERSION, expires_at = x, blocking = b, sync_status = ''pending''\<rparr>"
  obtain d db1 where up: "upsert_registration r db = (d, db1)" by fastforce
  from run x up have "did = d" and db': "db' = fold (upsert_source_link d) ss db1"
    by (auto simp: register_derivative_def r_def [symmetric] split: if_splits)
  have r: "derivative_id r \<notin> derivative_id ` set (registrations db)" using new by (simp add: r_def)
  have below: "x \<le> e" if "s \<in> set ss" "ref_expires_at s = Some e" for s e
    using minimum_expiry_exact(1) [of "map ref_expires_at ss" fb x] x that by (metis imageI list.set_map)
  have "expires_at q \<le> e" if "s \<in> set ss" "q \<in> set (registrations db1)" "derivative_id q = d" "ref_expires_at s = Some e" for s q e
    using upsert_registration_rows(1) [OF up ok that(2,3) r] below [OF that(1,4)] by (simp add: r_def)
  from fold_upsert_source_link [OF upsert_registration_ok [OF up ok r] upsert_registration_rows(2) [OF up ok] this]
  show "registry_ok db'" "outbox db' = outbox db" "did \<in> derivative_id ` set (registrations db')"
    "derivative_id ` set (registrations db) \<subseteq> derivative_id ` set (registrations db')"
    using upsert_registration_frame [OF up] upsert_registration_rows(2,3) [OF up ok] \<open>did = d\<close> db' by simp_all
qed

subsection \<open>Enqueueing, once per cause\<close>

lemma enqueue_items_frame [simp]:
  "registrations (snd (enqueue_items f p t b now rs db)) = registrations db"
  "source_links (snd (enqueue_items f p t b now rs db)) = source_links db"
  by (simp_all add: enqueue_items_def Let_def)

lemma enqueue_items_outbox:
  "w \<in> set (outbox (snd (enqueue_items f p t b now rs db))) \<longleftrightarrow>
     w \<in> set (outbox db) \<or>
     (\<exists>r \<in> set rs. (\<forall>v \<in> set (outbox db). \<not> same_cause (derivative_id r) p t b v) \<and>
        w = new_item (f (derivative_id r)) (dv_tenant r) (derivative_id r) p t b now)"
  by (auto simp: enqueue_items_def Let_def)

lemma enqueue_items_covers:
  "r \<in> set rs \<Longrightarrow> \<exists>w \<in> set (outbox (snd (enqueue_items f p t b now rs db))). same_cause (derivative_id r) p t b w"
proof (cases "\<exists>w \<in> set (outbox db). same_cause (derivative_id r) p t b w")
  case True
  then show ?thesis using enqueue_items_outbox by blast
next
  case False
  moreover assume "r \<in> set rs"
  ultimately have "new_item (f (derivative_id r)) (dv_tenant r) (derivative_id r) p t b now
      \<in> set (outbox (snd (enqueue_items f p t b now rs db)))" unfolding enqueue_items_outbox by blast
  then show ?thesis by (rule bexI [rotated]) (simp add: new_item_def same_cause_def)
qed

lemma enqueue_items_again:
  assumes "\<And>r. r \<in> set rs \<Longrightarrow> \<exists>w \<in> set (outbox db). same_cause (derivative_id r) p t b w"
  shows "enqueue_items f p t b now rs db = (0, db)"
proof -
  have "filter (\<lambda>r. \<not> (\<exists>w \<in> set (outbox db). same_cause (derivative_id r) p t b w)) rs = []"
    using assms by (simp add: filter_empty_conv)
  then show ?thesis by (simp add: enqueue_items_def Let_def)
qed

lemma new_item_simps [simp]:
  "work_id (new_item i t d p g b now) = i" "cause_of (new_item i t d p g b now) = (d, p, g, b)"
  "work_derivative (new_item i t d p g b now) = d" "attempts (new_item i t d p g b now) = 0"
  "work_state (new_item i t d p g b now) = STATE_PENDING" "available_at (new_item i t d p g b now) = now"
  by (simp_all add: new_item_def cause_of_def)

lemma enqueue_items_ok:
  assumes ok: "outbox_keys_ok db" and rs: "distinct (map derivative_id rs)" "set rs \<subseteq> set (registrations db)"
    and f: "inj f" "\<And>d. f d \<notin> work_id ` set (outbox db)"
  shows "outbox_keys_ok (snd (enqueue_items f p t b now rs db))"
proof -
  let ?new = "filter (\<lambda>r. \<not> (\<exists>w \<in> set (outbox db). same_cause (derivative_id r) p t b w)) rs"
  let ?items = "map (\<lambda>r. new_item (f (derivative_id r)) (dv_tenant r) (derivative_id r) p t b now) ?new"
  have d: "distinct (map derivative_id ?new)" using rs(1) by (rule distinct_map_filter)
  have "distinct (map f (map derivative_id ?new))" "distinct (map (\<lambda>d. (d, p, t, b)) (map derivative_id ?new))"
    using d inj_on_subset [OF f(1) subset_UNIV] distinct_map [of f "map derivative_id ?new"]
      distinct_map [of "\<lambda>d. (d, p, t, b)" "map derivative_id ?new"] by (simp_all add: inj_on_def)
  then have "distinct (map work_id ?items)" "distinct (map cause_of ?items)" by (simp_all add: comp_def)
  moreover have "work_id ` set (outbox db) \<inter> work_id ` set ?items = {}"
  proof (rule equals0I)
    fix x assume x: "x \<in> work_id ` set (outbox db) \<inter> work_id ` set ?items"
    then obtain d where "x = f d" by auto
    with x f(2) [of d] show False by simp
  qed
  moreover have "cause_of ` set (outbox db) \<inter> cause_of ` set ?items = {}" by (auto simp: same_cause_of)
  moreover have "work_derivative ` set ?items \<subseteq> derivative_id ` set (registrations db)" using rs(2) by auto
  moreover define items where "items = ?items"
  moreover have "outbox (snd (enqueue_items f p t b now rs db)) = outbox db @ items"
    unfolding items_def by (simp add: enqueue_items_def Let_def)
  ultimately show ?thesis
    using ok unfolding outbox_keys_ok_def items_def [symmetric] by (simp add: image_Un)
qed

end
