(* ===== verification/Derivative_Propagation.thy ===== *)
theory Derivative_Propagation
  imports Derivatives
begin

section \<open>The propagation drain\<close>

text \<open>
  The model of \<open>contextplane/workers/derivative_propagation.py\<close>: claiming a batch of due work items, applying each
  through the handler of its kind, and recording the outcome on its row. Each item is a transaction of
  its own, so a handler that raises leaves the artefacts as they were. Rows that another worker has locked
  are skipped; the predicate \<open>locked\<close> names them.
\<close>

subsection \<open>Constants and reports\<close>

definition MAX_ATTEMPTS :: int where "MAX_ATTEMPTS = 5"
definition BACKOFF_SECONDS :: "int list" where "BACKOFF_SECONDS = [5, 15, 60, 300]"

record propagation_report =
  claimed :: nat
  applied :: nat
  artefacts :: nat
  retried :: nat
  failed :: nat

definition empty_report :: propagation_report where
  "empty_report = \<lparr>claimed = 0, applied = 0, artefacts = 0, retried = 0, failed = 0\<rparr>"

definition had_work :: "propagation_report \<Rightarrow> bool" where
  "had_work r \<longleftrightarrow> claimed r > 0"

definition backoff :: "int \<Rightarrow> moment" where
  "backoff n = BACKOFF_SECONDS ! nat (min (max (n - 1) 0) (int (length BACKOFF_SECONDS) - 1)) * 1000000"

subsection \<open>Claiming\<close>

definition due_work :: "(uuid \<Rightarrow> bool) \<Rightarrow> nat \<Rightarrow> moment \<Rightarrow> derivative_db \<Rightarrow> (work_item \<times> registration) list" where
  "due_work locked limit now db =
     take limit (sort_key (\<lambda>(w, r). (\<not> blocking r, available_at w))
       [(w, r). w \<leftarrow> outbox db, r \<leftarrow> registrations db,
          derivative_id r = work_derivative w \<and> work_state w = STATE_PENDING \<and> available_at w \<le> now \<and> \<not> locked (work_id w)])"

definition update_item :: "uuid \<Rightarrow> (work_item \<Rightarrow> work_item) \<Rightarrow> derivative_db \<Rightarrow> derivative_db" where
  "update_item wid f db = db\<lparr>outbox := map (\<lambda>w. if work_id w = wid then f w else w) (outbox db)\<rparr>"

definition claim :: "(uuid \<Rightarrow> bool) \<Rightarrow> nat \<Rightarrow> moment \<Rightarrow> derivative_db \<Rightarrow> (work_item \<times> registration) list \<times> derivative_db" where
  "claim locked limit now db =
     (let rows = due_work locked limit now db in
      (rows, db\<lparr>outbox := map (\<lambda>w. if work_id w \<in> set (map (work_id \<circ> fst) rows) then w\<lparr>claimed_at := Some now\<rparr> else w)
                  (outbox db)\<rparr>))"

subsection \<open>Applying one item\<close>

definition missing_handler_error :: "string \<Rightarrow> string" where
  "missing_handler_error kind =
     ''UnhandledDerivativeKind: no propagation handler is registered for derivative kind '' @ [CHR 0x27] @ kind @ [CHR 0x27]"

definition record_failure ::
  "work_item \<Rightarrow> moment \<Rightarrow> string \<Rightarrow> derivative_db \<Rightarrow> propagation_report \<Rightarrow> derivative_db \<times> propagation_report" where
  "record_failure w now err db rep =
     (let n = attempts w + 1; exhausted = n \<ge> MAX_ATTEMPTS;
          db' = update_item (work_id w)
                  (\<lambda>x. x\<lparr>attempts := n, last_error := Some (take 2000 err),
                         work_state := (if exhausted then STATE_FAILED else STATE_PENDING),
                         available_at := now + backoff n, claimed_at := None\<rparr>) db in
      (db', if exhausted then rep\<lparr>failed := failed rep + 1\<rparr> else rep\<lparr>retried := retried rep + 1\<rparr>))"

definition apply_one ::
  "'s registry \<Rightarrow> moment \<Rightarrow> work_item \<times> registration \<Rightarrow>
   derivative_db \<times> 's \<times> propagation_report \<Rightarrow> derivative_db \<times> 's \<times> propagation_report" where
  "apply_one reg now item s =
     (case (item, s) of ((w, r), (db, st, rep0)) \<Rightarrow>
        let rep = rep0\<lparr>claimed := claimed rep0 + 1\<rparr>;
            outcome = (case handler_for reg (derivative_kind r) of
                         Inl _ \<Rightarrow> Inl (missing_handler_error (derivative_kind r))
                       | Inr h \<Rightarrow> h r (operation w) st) in
        (case outcome of
           Inl err \<Rightarrow> (let (db', rep') = record_failure w now err db rep in (db', st, rep'))
         | Inr (touched, st') \<Rightarrow>
             (update_item (work_id w) (\<lambda>x. x\<lparr>work_state := STATE_DONE, completed_at := Some now, last_error := None\<rparr>) db,
              st', rep\<lparr>applied := applied rep + 1, artefacts := artefacts rep + touched\<rparr>)))"

definition run_once ::
  "'s registry \<Rightarrow> (uuid \<Rightarrow> bool) \<Rightarrow> nat \<Rightarrow> moment \<Rightarrow> derivative_db \<Rightarrow> 's \<Rightarrow> derivative_db \<times> 's \<times> propagation_report" where
  "run_once reg locked limit now db st =
     (let (items, db') = claim locked limit now db in fold (apply_one reg now) items (db', st, empty_report))"

definition pending_overdue :: "moment \<Rightarrow> bool \<Rightarrow> uuid option \<Rightarrow> derivative_db \<Rightarrow> nat" where
  "pending_overdue now blocking_only tenant db =
     length [(w, r). w \<leftarrow> outbox db, r \<leftarrow> registrations db,
       derivative_id r = work_derivative w \<and> work_state w \<in> set [STATE_PENDING, STATE_FAILED] \<and> available_at w \<le> now \<and>
       (\<not> blocking_only \<or> blocking r) \<and> (case tenant of None \<Rightarrow> True | Some t \<Rightarrow> work_tenant w = t)]"

subsection \<open>What a pass does to one row\<close>

text \<open>The rows of a pass: those claimed are settled or put back, the others are untouched.\<close>

definition item_ok :: "work_item \<Rightarrow> bool" where
  "item_ok w \<longleftrightarrow> 0 \<le> attempts w \<and>
     (work_state w = STATE_PENDING \<and> attempts w < MAX_ATTEMPTS \<or>
      work_state w = STATE_FAILED \<and> attempts w = MAX_ATTEMPTS \<or>
      work_state w = STATE_DONE \<and> attempts w < MAX_ATTEMPTS)"

definition item_left :: "work_item \<Rightarrow> nat" where
  "item_left w = (if work_state w = STATE_PENDING then nat (MAX_ATTEMPTS - attempts w) else 0)"

definition work_left :: "derivative_db \<Rightarrow> nat" where
  "work_left db = sum_list (map item_left (outbox db))"

lemma states_distinct [simp]:
  "STATE_PENDING \<noteq> STATE_DONE" "STATE_PENDING \<noteq> STATE_FAILED" "STATE_DONE \<noteq> STATE_FAILED"
  "STATE_DONE \<noteq> STATE_PENDING" "STATE_FAILED \<noteq> STATE_PENDING" "STATE_FAILED \<noteq> STATE_DONE"
  by (simp_all add: STATE_PENDING_def STATE_DONE_def STATE_FAILED_def)

lemma backoff_delay_bounds: "0 < backoff n" "backoff n \<le> 300 * 1000000"
proof -
  have "nat (min (max (n - 1) 0) 3) \<in> {0, 1, 2, 3}" by auto
  then show "0 < backoff n" "backoff n \<le> 300 * 1000000"
    by (auto simp: backoff_def BACKOFF_SECONDS_def numeral_3_eq_3 numeral_2_eq_2)
qed

text \<open>What one step writes on its row, as a function of the row claimed.\<close>

definition step_row :: "'s registry \<Rightarrow> moment \<Rightarrow> work_item \<Rightarrow> registration \<Rightarrow> 's \<Rightarrow> work_item \<Rightarrow> work_item" where
  "step_row reg now w r st x =
     (let outcome = (case handler_for reg (derivative_kind r) of
                       Inl _ \<Rightarrow> Inl (missing_handler_error (derivative_kind r)) | Inr h \<Rightarrow> h r (operation w) st) in
      case outcome of
        Inl err \<Rightarrow> (let n = attempts w + 1 in
          x\<lparr>attempts := n, last_error := Some (take 2000 err),
            work_state := (if n \<ge> MAX_ATTEMPTS then STATE_FAILED else STATE_PENDING),
            available_at := now + backoff n, claimed_at := None\<rparr>)
      | Inr _ \<Rightarrow> x\<lparr>work_state := STATE_DONE, completed_at := Some now, last_error := None\<rparr>)"

lemma apply_one_db: "fst (apply_one reg now (w, r) (db, st, rep)) = update_item (work_id w) (step_row reg now w r st) db"
  by (auto simp: apply_one_def step_row_def record_failure_def Let_def fun_eq_iff update_item_def split: sum.splits)

lemma apply_one_claimed: "claimed (snd (snd (apply_one reg now item (db, st, rep)))) = claimed rep + 1"
  by (cases item) (auto simp: apply_one_def record_failure_def Let_def split: sum.splits)

lemma step_row_facts:
  assumes "attempts x = attempts w" "work_state x = STATE_PENDING" "item_ok x"
  shows "work_id (step_row reg now w r st x) = work_id x" "cause_of (step_row reg now w r st x) = cause_of x"
    "work_derivative (step_row reg now w r st x) = work_derivative x"
    "item_ok (step_row reg now w r st x)" "item_left (step_row reg now w r st x) < item_left x"
    "work_state (step_row reg now w r st x) = STATE_PENDING \<Longrightarrow>
       available_at (step_row reg now w r st x) \<le> now + 300 * 1000000"
  using assms backoff_delay_bounds
  by (auto simp: step_row_def Let_def cause_of_def item_ok_def item_left_def MAX_ATTEMPTS_def split: sum.splits)

lemma sum_list_map_less:
  fixes f :: "'a \<Rightarrow> nat"
  assumes "\<And>x. x \<in> set xs \<Longrightarrow> f (g x) \<le> f x" "y \<in> set xs" "f (g y) < f y"
  shows "sum_list (map f (map g xs)) < sum_list (map f xs)"
  using assms
proof (induction xs)
  case (Cons x xs)
  have le: "sum_list (map f (map g xs)) \<le> sum_list (map f xs)"
    using Cons.prems(1) by (simp add: comp_def sum_list_mono)
  have "f (g x) \<le> f x" using Cons.prems(1) by simp
  moreover have "f (g x) < f x \<or> sum_list (map f (map g xs)) < sum_list (map f xs)"
    using Cons by auto
  ultimately show ?case using le by auto
qed simp

text \<open>A batch that may be applied: distinct rows, as they stand in the table, pending.\<close>

definition batch_ok :: "derivative_db \<Rightarrow> (work_item \<times> registration) list \<Rightarrow> bool" where
  "batch_ok db items \<longleftrightarrow>
     distinct (map work_id (outbox db)) \<and> (\<forall>x \<in> set (outbox db). item_ok x) \<and>
     distinct (map (work_id \<circ> fst) items) \<and>
     (\<forall>(w, r) \<in> set items. \<exists>x \<in> set (outbox db). work_id x = work_id w \<and> attempts x = attempts w \<and> work_state x = STATE_PENDING)"

text \<open>The effect of a batch: the rows of others are kept, its own have moved on.\<close>

definition batch_effect :: "moment \<Rightarrow> (work_item \<times> registration) list \<Rightarrow> derivative_db \<Rightarrow> derivative_db \<Rightarrow> bool" where
  "batch_effect now items db db' \<longleftrightarrow>
     registrations db' = registrations db \<and> source_links db' = source_links db \<and>
     map work_id (outbox db') = map work_id (outbox db) \<and> map cause_of (outbox db') = map cause_of (outbox db) \<and>
     (\<forall>x \<in> set (outbox db'). item_ok x) \<and>
     (\<forall>x \<in> set (outbox db). work_id x \<notin> (work_id \<circ> fst) ` set items \<longrightarrow> x \<in> set (outbox db')) \<and>
     (\<forall>x \<in> set (outbox db'). x \<in> set (outbox db) \<or> work_id x \<in> (work_id \<circ> fst) ` set items \<and>
        (work_state x = STATE_PENDING \<longrightarrow> available_at x \<le> now + 300 * 1000000)) \<and>
     work_left db' + length items \<le> work_left db"

lemma batch_step:
  assumes ok: "batch_ok db ((w, r) # items)" and db1_def: "db1 = update_item (work_id w) (step_row reg now w r st) db"
  shows "batch_ok db1 items" "batch_effect now [(w, r)] db db1"
proof -
  from ok obtain x0 where x0: "x0 \<in> set (outbox db)" "work_id x0 = work_id w" "attempts x0 = attempts w"
    "work_state x0 = STATE_PENDING" by (auto simp: batch_ok_def)
  let ?step = "step_row reg now w r st"
  let ?g = "\<lambda>x. if work_id x = work_id w then ?step x else x"
  have ids: "distinct (map work_id (outbox db))" and oks: "\<And>x. x \<in> set (outbox db) \<Longrightarrow> item_ok x"
    using ok by (auto simp: batch_ok_def)
  have only: "x = x0" if "x \<in> set (outbox db)" "work_id x = work_id w" for x
    using that x0 ids by (metis distinct_map inj_onD)
  note facts = step_row_facts [OF x0(3,4) oks [OF x0(1)], of reg now r st]
  have g: "?g x = x \<and> work_id x \<noteq> work_id w \<or> x = x0 \<and> ?g x = ?step x0" if "x \<in> set (outbox db)" for x
    using that only by auto
  have out: "outbox db1 = map ?g (outbox db)" by (simp add: db1_def update_item_def)
  have same: "work_id (?g x) = work_id x" "cause_of (?g x) = cause_of x" "item_ok (?g x)" "item_left (?g x) \<le> item_left x"
    if "x \<in> set (outbox db)" for x
    using g [OF that] facts oks [OF that] by auto
  have maps: "map work_id (outbox db1) = map work_id (outbox db)" "map cause_of (outbox db1) = map cause_of (outbox db)"
    unfolding out using same by simp_all
  have "?g x0 = ?step x0" using x0(2) by simp
  with facts(5) have less: "item_left (?g x0) < item_left x0" by presburger
  have left: "work_left db1 < work_left db"
    unfolding work_left_def out
    by (rule sum_list_map_less [where f = item_left and g = ?g, OF same(4) x0(1) less])
  have okd: "\<forall>x \<in> set (outbox db1). item_ok x" unfolding out set_map using same(3) by blast
  have "x \<in> set (outbox db1)" if x: "x \<in> set (outbox db)" "work_id x \<noteq> work_id w" for x
    using x unfolding out by (auto simp: image_iff intro!: bexI [of _ x])
  moreover have "y \<in> set (outbox db) \<or> work_id y = work_id w \<and>
      (work_state y = STATE_PENDING \<longrightarrow> available_at y \<le> now + 300 * 1000000)" if "y \<in> set (outbox db1)" for y
  proof -
    from that obtain x where x: "x \<in> set (outbox db)" "y = ?g x" unfolding out by auto
    with g [OF x(1)] facts x0(1,2) show ?thesis by auto
  qed
  ultimately show "batch_effect now [(w, r)] db db1"
    unfolding batch_effect_def using maps okd left by (simp add: db1_def update_item_def)
  show "batch_ok db1 items"
    unfolding batch_ok_def maps
  proof (intro conjI ballI, goal_cases)
    case (4 item)
    obtain v q where item: "item = (v, q)" by (cases item)
    with 4 ok obtain x where x: "x \<in> set (outbox db)" "work_id x = work_id v" "attempts x = attempts v" "work_state x = STATE_PENDING"
      unfolding batch_ok_def by fastforce
    moreover from 4 item ok have "work_id v \<noteq> work_id w" by (force simp: batch_ok_def)
    ultimately have "x \<in> set (outbox db1)" unfolding out by (auto simp: image_iff intro!: bexI [of _ x])
    with x item show ?case by auto
  qed (use ids okd ok in \<open>auto simp: batch_ok_def\<close>)
qed

lemma batch_effect_trans:
  assumes "batch_effect now xs db db1" "batch_effect now ys db1 db2"
  shows "batch_effect now (xs @ ys) db db2"
  using assms unfolding batch_effect_def by (auto simp: image_Un) 

lemma fold_apply_one:
  assumes "batch_ok db items"
  shows "batch_effect now items db (fst (fold (apply_one reg now) items (db, st, rep))) \<and>
    claimed (snd (snd (fold (apply_one reg now) items (db, st, rep)))) = claimed rep + length items"
  using assms
proof (induction items arbitrary: db st rep)
  case Nil
  then show ?case by (simp add: batch_effect_def batch_ok_def)
next
  case (Cons item items)
  obtain w r where item: "item = (w, r)" by (cases item)
  obtain db1 st1 rep1 where one: "apply_one reg now (w, r) (db, st, rep) = (db1, st1, rep1)" by (metis prod_cases3)
  have "db1 = update_item (work_id w) (step_row reg now w r st) db" "claimed rep1 = claimed rep + 1"
    using apply_one_db [of reg now w r db st rep] apply_one_claimed [of reg now "(w, r)" db st rep] one by simp_all
  then have "batch_ok db1 items" "batch_effect now [(w, r)] db db1"
    using batch_step [of db w r items db1 reg now st] Cons.prems item by simp_all
  with Cons.IH [of db1 st1 rep1] batch_effect_trans [of now "[(w, r)]" db db1 items] one item
    \<open>claimed rep1 = claimed rep + 1\<close>
  show ?case by simp
qed

lemma join_filter: "concat (map (\<lambda>r. if P r then [(w, r)] else []) rs) = map (Pair w) (filter P rs)"
  by (induction rs) auto

lemma unique_filter:
  "distinct (map f xs) \<Longrightarrow> length (filter (\<lambda>x. f x = c \<and> P x) xs) \<le> 1"
proof (induction xs)
  case (Cons x xs)
  then show ?case
    by (cases "f x = c") (auto simp: filter_empty_conv image_iff intro!: filter_False)
qed simp

definition due_rows :: "(uuid \<Rightarrow> bool) \<Rightarrow> moment \<Rightarrow> derivative_db \<Rightarrow> (work_item \<times> registration) list" where
  "due_rows locked now db =
     [(w, r). w \<leftarrow> outbox db, r \<leftarrow> registrations db,
        derivative_id r = work_derivative w \<and> work_state w = STATE_PENDING \<and> available_at w \<le> now \<and> \<not> locked (work_id w)]"

lemma set_due_rows:
  "(w, r) \<in> set (due_rows locked now db) \<longleftrightarrow>
     w \<in> set (outbox db) \<and> r \<in> set (registrations db) \<and> derivative_id r = work_derivative w \<and>
     work_state w = STATE_PENDING \<and> available_at w \<le> now \<and> \<not> locked (work_id w)"
  by (auto simp: due_rows_def)

lemma distinct_due_rows:
  assumes "distinct (map derivative_id (registrations db))" "distinct (map work_id (outbox db))"
  shows "distinct (map (work_id \<circ> fst) (due_rows locked now db))"
proof -
  have "distinct (map (work_id \<circ> fst) (concat (map (\<lambda>w. map (Pair w) (filter (\<lambda>r. derivative_id r = work_derivative w \<and> P w) (registrations db))) ws)))"
    if "distinct (map work_id ws)" for P ws
    using that
  proof (induction ws)
    case (Cons w ws)
    let ?rs = "filter (\<lambda>r. derivative_id r = work_derivative w \<and> P w) (registrations db)"
    have "length ?rs \<le> 1" using unique_filter [OF assms(1)] .
    then have "distinct (map (work_id \<circ> fst) (map (Pair w) ?rs))" by (cases ?rs) auto
    with Cons show ?case by (auto simp: image_iff comp_def)
  qed simp
  from this [OF assms(2), of "\<lambda>w. work_state w = STATE_PENDING \<and> available_at w \<le> now \<and> \<not> locked (work_id w)"]
  show ?thesis by (simp add: due_rows_def join_filter)
qed

lemma due_work_rows: "due_work locked limit now db = take limit (sort_key (\<lambda>(w, r). (\<not> blocking r, available_at w)) (due_rows locked now db))"
  by (simp add: due_work_def due_rows_def)

lemma due_work_distinct:
  assumes "distinct (map derivative_id (registrations db))" "distinct (map work_id (outbox db))"
  shows "distinct (map (work_id \<circ> fst) (due_work locked limit now db))"
proof -
  let ?s = "sort_key (\<lambda>(w, r). (\<not> blocking r, available_at w)) (due_rows locked now db)"
  have "mset (map (work_id \<circ> fst) ?s) = mset (map (work_id \<circ> fst) (due_rows locked now db))" by simp
  then have "distinct (map (work_id \<circ> fst) ?s)"
    using distinct_due_rows [OF assms] by (metis mset_eq_imp_distinct_iff)
  then show ?thesis unfolding due_work_rows take_map [symmetric] by (rule distinct_take)
qed

lemma due_work_member: "(w, r) \<in> set (due_work locked limit now db) \<Longrightarrow> (w, r) \<in> set (due_rows locked now db)"
  unfolding due_work_rows using set_take_subset by (metis set_sort subsetD)

definition outbox_ok :: "derivative_db \<Rightarrow> bool" where
  "outbox_ok db \<longleftrightarrow> outbox_keys_ok db \<and> (\<forall>w \<in> set (outbox db). item_ok w)"

definition mark_claimed :: "moment \<Rightarrow> uuid set \<Rightarrow> work_item \<Rightarrow> work_item" where
  "mark_claimed now ids w = (if work_id w \<in> ids then w\<lparr>claimed_at := Some now\<rparr> else w)"

lemma mark_claimed_simps [simp]:
  "work_id (mark_claimed now ids w) = work_id w" "cause_of (mark_claimed now ids w) = cause_of w"
  "work_state (mark_claimed now ids w) = work_state w" "attempts (mark_claimed now ids w) = attempts w"
  "available_at (mark_claimed now ids w) = available_at w" "item_left (mark_claimed now ids w) = item_left w"
  "item_ok (mark_claimed now ids w) = item_ok w" "work_id w \<notin> ids \<Longrightarrow> mark_claimed now ids w = w"
  by (simp_all add: mark_claimed_def cause_of_def item_left_def item_ok_def)

lemma claim_outbox:
  "claim locked limit now db = (due_work locked limit now db,
     db\<lparr>outbox := map (mark_claimed now ((work_id \<circ> fst) ` set (due_work locked limit now db))) (outbox db)\<rparr>)"
  by (simp add: claim_def Let_def mark_claimed_def [abs_def] image_comp)

text \<open>The effect of a whole pass.\<close>

lemma run_once_effect:
  assumes ids: "distinct (map derivative_id (registrations db))" and ok: "outbox_ok db"
    and run: "run_once reg locked limit now db st = (db', st', rep)"
  shows "registrations db' = registrations db" "source_links db' = source_links db" "outbox_ok db'"
    "claimed rep = length (due_work locked limit now db)" "work_left db' + claimed rep \<le> work_left db"
    "length (outbox db') = length (outbox db)"
    "\<And>x. x \<in> set (outbox db) \<Longrightarrow> work_state x \<noteq> STATE_PENDING \<Longrightarrow> x \<in> set (outbox db')"
    "\<And>y. y \<in> set (outbox db') \<Longrightarrow> work_state y = STATE_PENDING \<Longrightarrow>
       available_at y \<le> now + 300 * 1000000 \<or> (\<exists>x \<in> set (outbox db). work_state x = STATE_PENDING \<and> available_at y = available_at x)"
proof -
  let ?items = "due_work locked limit now db" and ?cl = "mark_claimed now ((work_id \<circ> fst) ` set (due_work locked limit now db))"
  define db1 where "db1 = db\<lparr>outbox := map ?cl (outbox db)\<rparr>"
  have wids: "distinct (map work_id (outbox db))" and oks: "\<forall>w \<in> set (outbox db). item_ok w"
    using ok by (simp_all add: outbox_ok_def outbox_keys_ok_def)
  have out: "outbox db1 = map ?cl (outbox db)" by (simp add: db1_def)
  have keys1: "map work_id (outbox db1) = map work_id (outbox db)" "map cause_of (outbox db1) = map cause_of (outbox db)"
    by (simp_all add: out)
  have row: "w \<in> set (outbox db) \<and> work_state w = STATE_PENDING" if "(w, r) \<in> set ?items" for w r
    using due_work_member [OF that] by (simp add: set_due_rows)
  have "\<exists>x \<in> set (outbox db1). work_id x = work_id w \<and> attempts x = attempts w \<and> work_state x = STATE_PENDING"
    if "(w, r) \<in> set ?items" for w r
    using row [OF that] unfolding out by (intro bexI [of _ "?cl w"]) simp_all
  then have "batch_ok db1 ?items"
    unfolding batch_ok_def keys1 using wids oks due_work_distinct [OF ids wids] by (auto simp: out)
  moreover have "fold (apply_one reg now) ?items (db1, st, empty_report) = (db', st', rep)"
    using run by (simp add: run_once_def claim_outbox db1_def)
  ultimately have eff: "batch_effect now ?items db1 db'" and cl: "claimed rep = length ?items"
    using fold_apply_one [of db1 ?items now reg st empty_report] by (simp_all add: empty_report_def)
  have left1: "work_left db1 = work_left db" by (simp add: work_left_def out comp_def)
  from eff have same: "registrations db' = registrations db" "source_links db' = source_links db"
    and keys: "map work_id (outbox db') = map work_id (outbox db)" "map cause_of (outbox db') = map cause_of (outbox db)"
    and oks': "\<forall>w \<in> set (outbox db'). item_ok w"
    unfolding batch_effect_def keys1 by (simp_all add: db1_def)
  show "registrations db' = registrations db" "source_links db' = source_links db" by (rule same)+
  show "claimed rep = length ?items" by (rule cl)
  show "work_left db' + claimed rep \<le> work_left db"
    using eff left1 cl by (simp add: batch_effect_def)
  show "length (outbox db') = length (outbox db)" using keys(1) by (metis length_map)
  have "work_derivative ` set (outbox db') = work_derivative ` set (outbox db)"
    using arg_cong [OF keys(2), of "\<lambda>l. fst ` set l"] by (simp add: image_image cause_of_def)
  then show "outbox_ok db'"
    using ok oks' keys same by (simp add: outbox_ok_def outbox_keys_ok_def)
  show "x \<in> set (outbox db')" if x: "x \<in> set (outbox db)" "work_state x \<noteq> STATE_PENDING" for x
  proof -
    have "work_id x \<notin> (work_id \<circ> fst) ` set ?items"
    proof
      assume "work_id x \<in> (work_id \<circ> fst) ` set ?items"
      then obtain w r where "(w, r) \<in> set ?items" "work_id w = work_id x" by auto
      with row [of w r] x wids show False by (metis distinct_map inj_onD)
    qed
    moreover from this have "x \<in> set (outbox db1)" using x(1) unfolding out set_map by (metis mark_claimed_simps(8) imageI)
    ultimately show ?thesis using eff unfolding batch_effect_def by blast
  qed
  show "available_at y \<le> now + 300 * 1000000 \<or> (\<exists>x \<in> set (outbox db). work_state x = STATE_PENDING \<and> available_at y = available_at x)"
    if y: "y \<in> set (outbox db')" "work_state y = STATE_PENDING" for y
  proof -
    from eff y have "y \<in> set (outbox db1) \<or> available_at y \<le> now + 300 * 1000000" unfolding batch_effect_def by blast
    then show ?thesis using y(2) unfolding out by auto
  qed
qed

subsection \<open>The queue drains\<close>

text \<open>Passes five minutes apart, with nothing locked by another worker.\<close>

fun drain :: "'s registry \<Rightarrow> nat \<Rightarrow> nat \<Rightarrow> moment \<Rightarrow> derivative_db \<Rightarrow> 's \<Rightarrow> derivative_db \<times> 's" where
  "drain reg limit 0 now db st = (db, st)"
| "drain reg limit (Suc k) now db st =
     (case run_once reg (\<lambda>_. False) limit now db st of
        (db', st', _) \<Rightarrow> drain reg limit k (now + 300 * 1000000) db' st')"

definition settled :: "work_item \<Rightarrow> bool" where
  "settled w \<longleftrightarrow> work_state w = STATE_DONE \<or> work_state w = STATE_FAILED \<and> attempts w = MAX_ATTEMPTS"

lemma item_left_bound: "item_ok w \<Longrightarrow> item_left w \<le> 5"
  by (auto simp: item_ok_def item_left_def MAX_ATTEMPTS_def)

lemma item_left_zero: "item_ok w \<Longrightarrow> item_left w = 0 \<Longrightarrow> settled w"
  by (auto simp: item_ok_def item_left_def settled_def)

lemma pending_left: "item_ok w \<Longrightarrow> work_state w = STATE_PENDING \<Longrightarrow> 0 < item_left w"
  by (auto simp: item_ok_def item_left_def)

lemma work_left_bound: "outbox_ok db \<Longrightarrow> work_left db \<le> 5 * length (outbox db)"
proof -
  have "sum_list (map item_left ws) \<le> 5 * length ws" if "\<forall>w \<in> set ws. item_ok w" for ws
    using that item_left_bound by (induction ws) fastforce+
  then show "outbox_ok db \<Longrightarrow> work_left db \<le> 5 * length (outbox db)" by (simp add: outbox_ok_def work_left_def)
qed

lemma due_work_ne:
  assumes "w \<in> set (outbox db)" "work_state w = STATE_PENDING" "available_at w \<le> now" "outbox_keys_ok db" "0 < limit"
  shows "due_work (\<lambda>_. False) limit now db \<noteq> []"
proof -
  from assms(1,4) obtain r where "r \<in> set (registrations db)" "derivative_id r = work_derivative w"
    unfolding outbox_keys_ok_def by (metis (no_types, lifting) imageE imageI subsetD)
  with assms have "(w, r) \<in> set (due_rows (\<lambda>_. False) now db)" by (simp add: set_due_rows)
  then have "due_rows (\<lambda>_. False) now db \<noteq> []" by auto
  then show ?thesis using assms(5) unfolding due_work_rows by (metis length_0_conv length_sort not_gr_zero take_eq_Nil)
qed

lemma drain_work_left:
  assumes "distinct (map derivative_id (registrations db))" "outbox_ok db" "0 < limit"
    and "\<And>w. w \<in> set (outbox db) \<Longrightarrow> work_state w = STATE_PENDING \<Longrightarrow> available_at w \<le> now"
  shows "outbox_ok (fst (drain reg limit k now db st)) \<and>
    work_left (fst (drain reg limit k now db st)) \<le> work_left db - k"
  using assms
proof (induction k arbitrary: now db st)
  case (Suc k)
  obtain db' st' rep where run: "run_once reg (\<lambda>_. False) limit now db st = (db', st', rep)" by (metis prod_cases3)
  note eff = run_once_effect [OF Suc.prems(1,2) run]
  have later: "available_at y \<le> now + 300 * 1000000" if "y \<in> set (outbox db')" "work_state y = STATE_PENDING" for y
    using eff(8) [OF that] Suc.prems(4) by force
  have "work_left db' < work_left db \<or> work_left db = 0"
  proof (cases "\<exists>w \<in> set (outbox db). work_state w = STATE_PENDING")
    case True
    then have "0 < claimed rep"
      using eff(4) due_work_ne Suc.prems by (metis length_greater_0_conv outbox_ok_def)
    with eff(5) show ?thesis by linarith
  next
    case False
    then show ?thesis by (simp add: work_left_def item_left_def)
  qed
  moreover have "work_left db' \<le> work_left db" using eff(5) by linarith
  moreover have "outbox_ok (fst (drain reg limit k (now + 300 * 1000000) db' st')) \<and>
    work_left (fst (drain reg limit k (now + 300 * 1000000) db' st')) \<le> work_left db' - k"
    using Suc.IH [of db' "now + 300 * 1000000" st'] Suc.prems eff(1,3) later by simp
  ultimately show ?case using run by auto
qed simp


text \<open>Two items of a kind without a handler, and one of a kind whose handler succeeds.\<close>

definition sample_registration :: "uuid \<Rightarrow> string \<Rightarrow> registration" where
  "sample_registration d kind =
     \<lparr>derivative_id = d, dv_tenant = ''t1'', derivative_kind = kind, storage_locator = d, audience_partition = ''tenant'',
      classification = ''internal'', rebuild_handler_version = ''v1'', delete_handler_version = ''v1'',
      redact_handler_version = ''v1'', dv_policy_version = POLICY_VERSION, expires_at = 0, blocking = False, sync_status = ''pending''\<rparr>"

definition sample_outbox :: derivative_db where
  "sample_outbox =
     \<lparr>registrations = [sample_registration ''d1'' KIND_CACHE, sample_registration ''d2'' KIND_EXPORT],
      source_links = [],
      outbox = [new_item ''w1'' ''t1'' ''d1'' OPERATION_DELETE TRIGGER_EXPIRY None 0,
                new_item ''w2'' ''t1'' ''d2'' OPERATION_DELETE TRIGGER_EXPIRY None 0]\<rparr>"

definition sample_registry :: "nat registry" where
  "sample_registry = [(KIND_EXPORT, \<lambda>r op n. Inr (1, n + 1))]"


end
