(* ===== verification/Retention_Sweep.thy ===== *)
theory Retention_Sweep
  imports Legal_Holds Derivative_Propagation
begin

section \<open>The retention sweep\<close>

text \<open>
  The model of \<open>contextplane/workers/retention_expiry.py\<close>, which runs on the holds of \<open>Legal_Holds\<close> and the tables of
  \<open>Derivatives\<close>. The reductions other families contribute are functions on their own store \<open>'m\<close>; the store of holds is
  what the locale \<open>hold_store\<close> promises. Histories of the derivative tables under registration, enqueueing, draining and
  sweeping are the inductive relation \<open>derivative_run\<close>.
\<close>

subsection \<open>The worker\<close>

definition DEFAULT_BATCH :: nat where "DEFAULT_BATCH = 500"
definition MAX_BATCHES :: nat where "MAX_BATCHES = 20"

record retention_report =
  tenants :: nat
  minimized :: nat
  enqueued :: nat
  held :: nat
  truncated :: bool
  ran_at :: "moment option"

definition had_work :: "retention_report \<Rightarrow> bool" where
  "had_work r \<longleftrightarrow> minimized r \<noteq> 0 \<or> enqueued r \<noteq> 0"

type_synonym holds_lookup = "uuid \<Rightarrow> string \<Rightarrow> uuid list \<Rightarrow> moment \<Rightarrow> (uuid \<times> legal_hold) list"

definition is_due :: "derivative_db \<Rightarrow> uuid \<Rightarrow> moment \<Rightarrow> registration \<Rightarrow> bool" where
  "is_due db tenant now r \<longleftrightarrow> dv_tenant r = tenant \<and> expires_at r \<le> now \<and>
     \<not> (\<exists>w \<in> set (outbox db). same_cause (derivative_id r) OPERATION_DELETE TRIGGER_EXPIRY None w)"

definition due_derivatives :: "derivative_db \<Rightarrow> uuid \<Rightarrow> moment \<Rightarrow> nat \<Rightarrow> uuid list" where
  "due_derivatives db tenant now limit =
     map derivative_id (take limit (sort_key (\<lambda>r. (\<not> blocking r, expires_at r)) (filter (is_due db tenant now) (registrations db))))"

definition expire_derivatives ::
  "holds_lookup \<Rightarrow> (uuid \<Rightarrow> uuid) \<Rightarrow> nat \<Rightarrow> uuid \<Rightarrow> moment \<Rightarrow> derivative_db \<Rightarrow> nat \<times> nat \<times> bool \<times> derivative_db" where
  "expire_derivatives store fresh batch tenant now db =
     (let due = due_derivatives db tenant now batch;
          exhausted = length due < batch;
          (deletable, kept) = partition_by_hold store tenant RECORD_DERIVATIVE due now in
      if deletable = [] then (0, length kept, exhausted, db)
      else let (n, db') = enqueue_items fresh OPERATION_DELETE TRIGGER_EXPIRY None now
                            (filter (\<lambda>r. derivative_id r \<in> set deletable) (registrations db)) db in
        (n, length kept, exhausted, db'))"

fun sweep_batches ::
  "holds_lookup \<Rightarrow> (nat \<Rightarrow> uuid \<Rightarrow> uuid) \<Rightarrow> nat \<Rightarrow> uuid \<Rightarrow> moment \<Rightarrow> nat \<Rightarrow> derivative_db \<Rightarrow> retention_report \<Rightarrow>
   derivative_db \<times> retention_report" where
  "sweep_batches store fresh batch tenant now 0 db rep = (db, rep\<lparr>truncated := True\<rparr>)"
| "sweep_batches store fresh batch tenant now (Suc k) db rep =
     (case expire_derivatives store (fresh k) batch tenant now db of
        (n, kept, exhausted, db') \<Rightarrow>
          (let rep' = rep\<lparr>enqueued := enqueued rep + n, held := held rep + kept\<rparr> in
           if exhausted then (db', rep') else sweep_batches store fresh batch tenant now k db' rep'))"

definition run_minimizers ::
  "(string \<times> (uuid \<Rightarrow> moment \<Rightarrow> 'm \<Rightarrow> nat \<times> 'm)) list \<Rightarrow> uuid \<Rightarrow> moment \<Rightarrow> 'm \<Rightarrow> retention_report \<Rightarrow> 'm \<times> retention_report" where
  "run_minimizers ms tenant now m rep =
     fold (\<lambda>(_, reduce) (m, rep). case reduce tenant now m of (n, m') \<Rightarrow> (m', rep\<lparr>minimized := minimized rep + n\<rparr>)) ms (m, rep)"

definition sweep_tenant ::
  "(string \<times> (uuid \<Rightarrow> moment \<Rightarrow> 'm \<Rightarrow> nat \<times> 'm)) list \<Rightarrow> holds_lookup \<Rightarrow> (nat \<Rightarrow> uuid \<Rightarrow> uuid) \<Rightarrow> nat \<Rightarrow> moment \<Rightarrow> uuid \<Rightarrow>
   derivative_db \<times> 'm \<times> retention_report \<Rightarrow> derivative_db \<times> 'm \<times> retention_report" where
  "sweep_tenant ms store fresh batch now tenant s =
     (case s of (db, m, rep) \<Rightarrow>
        case run_minimizers ms tenant now m rep of (m', rep1) \<Rightarrow>
        case sweep_batches store fresh batch tenant now MAX_BATCHES db rep1 of (db', rep2) \<Rightarrow> (db', m', rep2))"

definition run_inner ::
  "(string \<times> (uuid \<Rightarrow> moment \<Rightarrow> 'm \<Rightarrow> nat \<times> 'm)) list \<Rightarrow> holds_lookup \<Rightarrow> (uuid \<Rightarrow> nat \<Rightarrow> uuid \<Rightarrow> uuid) \<Rightarrow> nat \<Rightarrow> moment \<Rightarrow>
   uuid list \<Rightarrow> derivative_db \<Rightarrow> 'm \<Rightarrow> derivative_db \<times> 'm \<times> retention_report" where
  "run_inner ms store fresh batch now tenant_ids db m =
     fold (\<lambda>t (db, m, rep). sweep_tenant ms store (fresh t) batch now t (db, m, rep\<lparr>tenants := tenants rep + 1\<rparr>)) tenant_ids
       (db, m, \<lparr>tenants = 0, minimized = 0, enqueued = 0, held = 0, truncated = False, ran_at = Some now\<rparr>)"

subsection \<open>One batch\<close>

lemma due_derivatives_member:
  assumes "d \<in> set (due_derivatives db t now n)"
  shows "\<exists>r \<in> set (registrations db). derivative_id r = d \<and> is_due db t now r"
  using assms set_take_subset unfolding due_derivatives_def by fastforce

lemma due_derivatives_all:
  assumes "length (due_derivatives db t now n) < n" "r \<in> set (registrations db)" "is_due db t now r"
  shows "derivative_id r \<in> set (due_derivatives db t now n)"
proof -
  let ?s = "sort_key (\<lambda>r. (\<not> blocking r, expires_at r)) (filter (is_due db t now) (registrations db))"
  have "length ?s < n" using assms(1) by (simp add: due_derivatives_def)
  then have "take n ?s = ?s" by simp
  with assms(2,3) show ?thesis by (simp add: due_derivatives_def)
qed

lemma expire_derivatives_frame:
  assumes "expire_derivatives store f n t now db = (k, h, ex, db')"
  shows "registrations db' = registrations db" "source_links db' = source_links db"
    "set (outbox db) \<subseteq> set (outbox db')"
proof -
  from assms have "registrations db' = registrations db \<and> source_links db' = source_links db \<and> set (outbox db) \<subseteq> set (outbox db')"
    by (auto simp: expire_derivatives_def Let_def enqueue_items_def split: prod.splits if_splits)
  then show "registrations db' = registrations db" "source_links db' = source_links db"
    "set (outbox db) \<subseteq> set (outbox db')" by auto
qed

context hold_store
begin

definition covered :: "uuid \<Rightarrow> moment \<Rightarrow> uuid \<Rightarrow> bool" where
  "covered t now d \<longleftrightarrow> d \<in> fst ` set (store t RECORD_DERIVATIVE [d] now)"

text \<open>An item a sweep adds names a due derivative of the tenant that nothing holds.\<close>

definition rightly_added :: "derivative_db \<Rightarrow> moment \<Rightarrow> work_item \<Rightarrow> bool" where
  "rightly_added db now w \<longleftrightarrow>
     operation w = OPERATION_DELETE \<and> trigger w = TRIGGER_EXPIRY \<and> tombstone_id w = None \<and>
     (\<exists>r \<in> set (registrations db). derivative_id r = work_derivative w \<and> expires_at r \<le> now \<and>
        \<not> covered (dv_tenant r) now (derivative_id r))"

lemma expire_adds:
  assumes run: "expire_derivatives store f n t now db = (k, h, ex, db')"
    and ids: "distinct (map derivative_id (registrations db))"
    and w: "w \<in> set (outbox db')"
  shows "w \<in> set (outbox db) \<or> rightly_added db now w"
proof (cases "w \<in> set (outbox db)")
  case False
  obtain del kept where part: "partition_by_hold store t RECORD_DERIVATIVE (due_derivatives db t now n) now = (del, kept)"
    by fastforce
  from run w False part have "w \<in> set (outbox (snd (enqueue_items f OPERATION_DELETE TRIGGER_EXPIRY None now
      (filter (\<lambda>r. derivative_id r \<in> set del) (registrations db)) db)))"
    by (auto simp: expire_derivatives_def Let_def split: if_splits prod.splits)
  with False obtain r where r: "r \<in> set (registrations db)" "derivative_id r \<in> set del"
    and w: "w = new_item (f (derivative_id r)) (dv_tenant r) (derivative_id r) OPERATION_DELETE TRIGGER_EXPIRY None now"
    unfolding enqueue_items_outbox by auto
  from r(2) part deletable_iff [of "derivative_id r" t RECORD_DERIVATIVE "due_derivatives db t now n" now]
  have "derivative_id r \<in> set (due_derivatives db t now n)" "\<not> covered t now (derivative_id r)"
    by (simp_all add: covered_def)
  moreover obtain q where "q \<in> set (registrations db)" "derivative_id q = derivative_id r" "is_due db t now q"
    using due_derivatives_member [OF calculation(1)] by blast
  then have "is_due db t now r" using ids r(1) by (metis distinct_map inj_onD)
  ultimately have "rightly_added db now w" using r(1) unfolding w rightly_added_def is_due_def
    by (auto simp: new_item_def)
  then show ?thesis by simp
qed simp

lemma sweep_adds:
  assumes "sweep_batches store f n t now k db rep = (db', rep')"
    and "distinct (map derivative_id (registrations db))" "w \<in> set (outbox db')"
  shows "w \<in> set (outbox db) \<or> rightly_added db now w"
  using assms
proof (induction k arbitrary: db rep)
  case (Suc k)
  obtain a h ex db1 where one: "expire_derivatives store (f k) n t now db = (a, h, ex, db1)" by (metis prod_cases4)
  note frame = expire_derivatives_frame [OF one]
  have "w \<in> set (outbox db1) \<or> rightly_added db1 now w"
    using Suc one frame by (auto simp: Let_def split: if_splits)
  then show ?case using expire_adds [OF one Suc.prems(2)] frame by (auto simp: rightly_added_def)
qed simp

text \<open>A sweep that is not cut short leaves nothing due that is neither queued nor held.\<close>

lemma expire_complete:
  assumes run: "expire_derivatives store f n t now db = (k, h, True, db')"
    and r: "r \<in> set (registrations db)" "is_due db t now r"
  shows "(\<exists>w \<in> set (outbox db'). same_cause (derivative_id r) OPERATION_DELETE TRIGGER_EXPIRY None w) \<or>
    covered t now (derivative_id r)"
proof (cases "covered t now (derivative_id r)")
  case False
  obtain del kept where part: "partition_by_hold store t RECORD_DERIVATIVE (due_derivatives db t now n) now = (del, kept)"
    by fastforce
  have short: "length (due_derivatives db t now n) < n"
    using run part by (auto simp: expire_derivatives_def Let_def split: if_splits prod.splits)
  have "derivative_id r \<in> set del"
    using due_derivatives_all [OF short r] False part
      deletable_iff [of "derivative_id r" t RECORD_DERIVATIVE "due_derivatives db t now n" now]
    by (simp add: covered_def)
  moreover from this run part have "db' = snd (enqueue_items f OPERATION_DELETE TRIGGER_EXPIRY None now
      (filter (\<lambda>r. derivative_id r \<in> set del) (registrations db)) db)"
    by (auto simp: expire_derivatives_def Let_def split: if_splits prod.splits)
  ultimately show ?thesis using enqueue_items_covers [of r] r(1) by simp
qed simp

lemma sweep_complete:
  assumes "sweep_batches store f n t now k db rep = (db', rep')" "\<not> truncated rep'"
    and "r \<in> set (registrations db)" "dv_tenant r = t" "expires_at r \<le> now"
  shows "(\<exists>w \<in> set (outbox db'). same_cause (derivative_id r) OPERATION_DELETE TRIGGER_EXPIRY None w) \<or>
    covered t now (derivative_id r)"
  using assms
proof (induction k arbitrary: db rep)
  case (Suc k)
  obtain a h ex db1 where one: "expire_derivatives store (f k) n t now db = (a, h, ex, db1)" by (metis prod_cases4)
  note frame = expire_derivatives_frame [OF one]
  show ?case
  proof (cases ex)
    case True
    with Suc.prems one have "db' = db1" by (auto simp: Let_def)
    then show ?thesis using expire_complete [of "f k" n t now db a h db1 r] one True Suc.prems frame
      by (auto simp: is_due_def)
  next
    case False
    with Suc one frame show ?thesis by (auto simp: Let_def)
  qed
qed auto

end

subsection \<open>Sweeps and holds\<close>

definition on_hold :: "hold_db \<Rightarrow> moment \<Rightarrow> registration \<Rightarrow> bool" where
  "on_hold hdb now r \<longleftrightarrow> (\<exists>h \<in> set (holds hdb). hold_tenant h = dv_tenant r \<and> hold_class h = RECORD_DERIVATIVE \<and>
     hold_subject h = derivative_id r \<and> now < review_date h)"

lemma covered_on_hold: "postgres.covered hdb (dv_tenant r) now (derivative_id r) \<longleftrightarrow> on_hold hdb now r"
  by (simp add: postgres.covered_def active_holds_exact on_hold_def)

lemma sweep_batches_frame:
  "sweep_batches store f n t now k db rep = (db', rep') \<Longrightarrow>
     registrations db' = registrations db \<and> source_links db' = source_links db \<and> set (outbox db) \<subseteq> set (outbox db')"
proof (induction k arbitrary: db rep)
  case (Suc k)
  obtain a h ex db1 where one: "expire_derivatives store (f k) n t now db = (a, h, ex, db1)" by (metis prod_cases4)
  from Suc.IH [of db1] Suc.prems one expire_derivatives_frame [OF one] show ?case
    by (auto simp: Let_def split: if_splits)
qed simp

lemma run_inner_preserves:
  assumes start: "P db" and step: "\<And>x t q. P x \<Longrightarrow> P (fst (sweep_batches store (fresh t) n t now MAX_BATCHES x q))"
  shows "P (fst (run_inner ms store fresh n now ts db m))"
proof -
  have one: "P (fst (sweep_tenant ms store (fresh t) n now t (x, m, q)))" if "P x" for t x m q
    using step [OF that] by (simp add: sweep_tenant_def split_beta)
  have "P (fst (fold (\<lambda>t (db, m, rep). sweep_tenant ms store (fresh t) n now t (db, m, rep\<lparr>tenants := tenants rep + 1\<rparr>)) ts s))"
    if "P (fst s)" for s
    using that one by (induction ts arbitrary: s) (auto simp: split_beta)
  from this [of "(db, _, _)"] start show ?thesis unfolding run_inner_def by simp
qed

text \<open>
  C21. A tick over any tenants adds only items that delete a derivative past its expiry, and never one that an
  active hold covers; what was queued before stays.
\<close>

theorem sweep_respects_holds:
  assumes "run_inner ms (active_holds hdb) fresh n now ts db m = (db', m', rep)" "registry_ok db"
  shows "registrations db' = registrations db \<and> set (outbox db) \<subseteq> set (outbox db') \<and>
    (\<forall>w \<in> set (outbox db'). w \<in> set (outbox db) \<or>
       operation w = OPERATION_DELETE \<and> trigger w = TRIGGER_EXPIRY \<and>
       (\<exists>r \<in> set (registrations db). derivative_id r = work_derivative w \<and> expires_at r \<le> now \<and> \<not> on_hold hdb now r))"
proof -
  define P :: "derivative_db \<Rightarrow> bool" where "P x \<longleftrightarrow> registrations x = registrations db \<and> set (outbox db) \<subseteq> set (outbox x) \<and>
    (\<forall>w \<in> set (outbox x). w \<in> set (outbox db) \<or> postgres.rightly_added hdb db now w)" for x
  have step: "P (fst (sweep_batches (active_holds hdb) (fresh t) n t now MAX_BATCHES x q))" if "P x" for x t q
  proof -
    obtain y q' where run: "sweep_batches (active_holds hdb) (fresh t) n t now MAX_BATCHES x q = (y, q')" by fastforce
    have "distinct (map derivative_id (registrations x))"
      using that assms(2) by (simp add: P_def registry_ok_def)
    then have "w \<in> set (outbox x) \<or> postgres.rightly_added hdb x now w" if "w \<in> set (outbox y)" for w
      using postgres.sweep_adds [OF run _ that] by blast
    with that sweep_batches_frame [OF run] run show ?thesis
      unfolding P_def postgres.rightly_added_def by auto
  qed
  have "P db" by (simp add: P_def)
  with run_inner_preserves [of P db "active_holds hdb" fresh n now ms ts m] step assms(1) have "P db'" by simp
  then show ?thesis unfolding P_def postgres.rightly_added_def covered_on_hold by auto
qed

text \<open>
  C22. A sweep of a tenant that is not cut short leaves nothing behind: every derivative of the tenant past its
  expiry is queued for deletion, unless an active hold covers it.
\<close>

theorem sweep_covers_due:
  assumes "sweep_tenant ms (active_holds hdb) fresh n now t (db, m, rep) = (db', m', rep')" "\<not> truncated rep'"
    and "r \<in> set (registrations db)" "dv_tenant r = t" "expires_at r \<le> now"
  shows "(\<exists>w \<in> set (outbox db'). same_cause (derivative_id r) OPERATION_DELETE TRIGGER_EXPIRY None w) \<or> on_hold hdb now r"
proof -
  from assms(1) obtain rep1 where "sweep_batches (active_holds hdb) fresh n t now MAX_BATCHES db rep1 = (db', rep')"
    by (auto simp: sweep_tenant_def split: prod.splits)
  from postgres.sweep_complete [OF this assms(2-5)] show ?thesis
    using covered_on_hold [of hdb r now] assms(4) by simp
qed

lemma distinct_due_derivatives:
  assumes "registry_ok db"
  shows "distinct (due_derivatives db t now n)"
proof -
  let ?s = "sort_key (\<lambda>r. (\<not> blocking r, expires_at r)) (filter (is_due db t now) (registrations db))"
  have "distinct (map derivative_id (filter (is_due db t now) (registrations db)))"
    using assms by (simp add: registry_ok_def distinct_map_filter)
  moreover have "mset (map derivative_id ?s) = mset (map derivative_id (filter (is_due db t now) (registrations db)))" by simp
  ultimately have "distinct (map derivative_id ?s)" by (metis mset_eq_imp_distinct_iff)
  then show ?thesis unfolding due_derivatives_def take_map [symmetric] by (rule distinct_take)
qed

lemma run_minimizers_report:
  "run_minimizers ms t now m rep = (m', rep') \<Longrightarrow> held rep' = held rep \<and> enqueued rep' = enqueued rep \<and> truncated rep' = truncated rep"
  unfolding run_minimizers_def
proof (induction ms arbitrary: m rep)
  case (Cons x ms)
  obtain c red where x: "x = (c, red)" by (cases x)
  obtain k m1 where "red t now m = (k, m1)" by fastforce
  with Cons.IH [of m1 "rep\<lparr>minimized := minimized rep + k\<rparr>"] Cons.prems x show ?case by simp
qed simp

lemma held_batch_stuck:
  assumes ok: "registry_ok db" and full: "length (due_derivatives db t now n) = n" "0 < n"
    and all: "\<forall>d \<in> set (due_derivatives db t now n). postgres.covered hdb t now d"
  shows "sweep_batches (active_holds hdb) fresh n t now k db rep = (db, rep\<lparr>held := held rep + k * n, truncated := True\<rparr>)"
proof (induction k arbitrary: rep)
  case (Suc k)
  let ?due = "due_derivatives db t now n"
  obtain del kept where part: "partition_by_hold (active_holds hdb) t RECORD_DERIVATIVE ?due now = (del, kept)" by fastforce
  have "del = []"
    using postgres.deletable_iff [of "hd del" hdb t RECORD_DERIVATIVE ?due now] all part
    by (cases del) (auto simp: postgres.covered_def)
  moreover have "length kept = n"
  proof -
    have "set ?due \<inter> {s. s \<in> fst ` set (active_holds hdb t RECORD_DERIVATIVE [s] now)} = set ?due"
      using all by (auto simp: postgres.covered_def)
    then have "length kept = card (set ?due)"
      using postgres.held_count [of hdb t RECORD_DERIVATIVE ?due now] part by simp
    then show ?thesis using full distinct_due_derivatives [OF ok] distinct_card by metis
  qed
  ultimately have "expire_derivatives (active_holds hdb) (fresh k) n t now db = (0, n, False, db)"
    using part full by (simp add: expire_derivatives_def Let_def)
  then show ?case using Suc [of "rep\<lparr>enqueued := enqueued rep + 0, held := held rep + n\<rparr>"]
    by (simp add: Let_def add.commute add.left_commute)
qed simp

text \<open>
  Held derivatives starve the rest: when the first batch of due derivatives is on hold, every batch of the
  sweep selects the same ones again, nothing at all is queued, and each hold is counted \<open>MAX_BATCHES\<close> times.
\<close>

theorem held_batch_starves_sweep:
  assumes "registry_ok db" "length (due_derivatives db t now n) = n" "0 < n"
    and "\<forall>r \<in> set (registrations db). derivative_id r \<in> set (due_derivatives db t now n) \<longrightarrow> on_hold hdb now r"
  shows "\<exists>m' rep'. sweep_tenant ms (active_holds hdb) fresh n now t (db, m, rep) = (db, m', rep') \<and>
    truncated rep' \<and> enqueued rep' = enqueued rep \<and> held rep' = held rep + MAX_BATCHES * n"
proof -
  have "postgres.covered hdb t now d" if "d \<in> set (due_derivatives db t now n)" for d
  proof -
    from due_derivatives_member [OF that] obtain r where
      r: "r \<in> set (registrations db)" "derivative_id r = d" "is_due db t now r" by blast
    with assms(4) that covered_on_hold [of hdb r now] show ?thesis by (simp add: is_due_def)
  qed
  then have "\<forall>d \<in> set (due_derivatives db t now n). postgres.covered hdb t now d" by blast
  note stuck = held_batch_stuck [OF assms(1,2,3) this, of fresh MAX_BATCHES]
  obtain m1 rep1 where m: "run_minimizers ms t now m rep = (m1, rep1)" by fastforce
  with stuck [of rep1] run_minimizers_report [OF m] show ?thesis by (simp add: sweep_tenant_def)
qed

subsection \<open>Histories of the derivative tables\<close>

definition empty_derivatives :: derivative_db where
  "empty_derivatives = \<lparr>registrations = [], source_links = [], outbox = []\<rparr>"

text \<open>
  Tables together with the artefacts the handlers work on. Registering follows the building of an artefact, so
  the artefacts after it are arbitrary. Identifiers drawn by the database are new.
\<close>

inductive derivative_run :: "derivative_db \<Rightarrow> 's \<Rightarrow> bool" where
  start: "derivative_run empty_derivatives st"
| registered: "derivative_run db st \<Longrightarrow> i \<notin> derivative_id ` set (registrations db) \<Longrightarrow>
    register_derivative i t k loc aud cl v ss b fb db = Inr (did, db') \<Longrightarrow> derivative_run db' st'"
| ordered: "derivative_run db st \<Longrightarrow> inj f \<Longrightarrow> (\<And>d. f d \<notin> work_id ` set (outbox db)) \<Longrightarrow>
    enqueue_for_sources f t c ids op tr now tomb db = Inr (n, db') \<Longrightarrow> derivative_run db' st"
| drained: "derivative_run db st \<Longrightarrow> run_once reg locked limit now db st = (db', st', rep) \<Longrightarrow> derivative_run db' st'"
| swept: "derivative_run db st \<Longrightarrow> inj f \<Longrightarrow> (\<And>d. f d \<notin> work_id ` set (outbox db)) \<Longrightarrow>
    expire_derivatives store f n t now db = (k, h, ex, db') \<Longrightarrow> derivative_run db' st"

lemma registry_ok_same:
  "registry_ok db \<Longrightarrow> registrations db' = registrations db \<Longrightarrow> source_links db' = source_links db \<Longrightarrow> registry_ok db'"
  by (simp add: registry_ok_def)

lemma enqueue_items_outbox_ok:
  assumes "outbox_ok db" "registry_ok db" "inj f" "\<And>d. f d \<notin> work_id ` set (outbox db)"
  shows "outbox_ok (snd (enqueue_items f p t b now (filter P (registrations db)) db))"
proof -
  have "outbox_keys_ok (snd (enqueue_items f p t b now (filter P (registrations db)) db))"
    using assms by (intro enqueue_items_ok) (auto simp: outbox_ok_def registry_ok_def distinct_map_filter)
  moreover have new: "item_ok (new_item i u d p t b now)" for i u d by (simp add: item_ok_def MAX_ATTEMPTS_def)
  have "item_ok w" if "w \<in> set (outbox (snd (enqueue_items f p t b now (filter P (registrations db)) db)))" for w
    using that assms(1) new unfolding enqueue_items_outbox by (auto simp: outbox_ok_def)
  ultimately show ?thesis by (simp add: outbox_ok_def)
qed

lemma derivative_run_ok: "derivative_run db st \<Longrightarrow> registry_ok db \<and> outbox_ok db"
proof (induction rule: derivative_run.induct)
  case (start st)
  show ?case by (simp add: empty_derivatives_def registry_ok_def outbox_ok_def outbox_keys_ok_def)
next
  case (registered db st i t k loc aud cl v ss b fb did db' st')
  then have ok: "registry_ok db" "outbox_ok db" by simp_all
  note reg = register_derivative_ok [OF registered.hyps(3) ok(1) registered.hyps(2)]
  have "work_derivative ` set (outbox db) \<subseteq> derivative_id ` set (registrations db')"
    using ok(2) reg(4) unfolding outbox_ok_def outbox_keys_ok_def by blast
  then have "outbox_ok db'" using ok(2) reg(2) by (simp add: outbox_ok_def outbox_keys_ok_def)
  with reg(1) show ?case by simp
next
  case (ordered db st f t c ids op tr now tomb n db')
  then have "db' = db \<or> db' = snd (enqueue_items f op tr tomb now
      (filter (\<lambda>r. dv_tenant r = t \<and> reads_source db r c ids) (registrations db)) db)"
    by (auto simp: enqueue_for_sources_def split: if_splits)
  with ordered show ?case
    using enqueue_items_outbox_ok [of db f op tr tomb now "\<lambda>r. dv_tenant r = t \<and> reads_source db r c ids"]
    by (auto intro: registry_ok_same)
next
  case (drained db st reg locked limit now db' st' rep)
  then have ok: "distinct (map derivative_id (registrations db))" "outbox_ok db" by (simp_all add: registry_ok_def)
  note eff = run_once_effect [OF ok drained.hyps(2)]
  then show ?case using drained.IH registry_ok_same [of db db'] by simp
next
  case (swept db st f store n t now k h ex db')
  then have "db' = db \<or> (\<exists>del. db' = snd (enqueue_items f OPERATION_DELETE TRIGGER_EXPIRY None now
      (filter (\<lambda>r. derivative_id r \<in> del) (registrations db)) db))"
    by (auto simp: expire_derivatives_def Let_def split: prod.splits if_splits) (metis snd_conv)+
  with swept show ?case
    using enqueue_items_outbox_ok [of db f OPERATION_DELETE TRIGGER_EXPIRY None now] by (auto intro: registry_ok_same)
qed

text \<open>
  C18. Whatever is registered, re-registered, queued, drained and swept, in whatever order: no derivative
  outlives a source it was built from, and the outbox holds at most one item per cause, whose attempts
  never exceed \<open>MAX_ATTEMPTS\<close>.
\<close>

theorem derivative_never_outlives_source:
  assumes "derivative_run db st"
  shows "(\<forall>r \<in> set (registrations db). \<forall>l \<in> set (source_links db). \<forall>e.
      link_derivative l = derivative_id r \<and> link_expires_at l = Some e \<longrightarrow> expires_at r \<le> e) \<and>
    (\<forall>l \<in> set (source_links db). \<exists>r \<in> set (registrations db). derivative_id r = link_derivative l) \<and>
    (\<forall>v \<in> set (outbox db). \<forall>w \<in> set (outbox db). cause_of v = cause_of w \<longrightarrow> v = w) \<and>
    (\<forall>w \<in> set (outbox db). attempts w \<le> MAX_ATTEMPTS)"
proof (intro conjI)
  from derivative_run_ok [OF assms] have reg: "registry_ok db" and out: "outbox_ok db" by simp_all
  show "\<forall>r \<in> set (registrations db). \<forall>l \<in> set (source_links db). \<forall>e.
      link_derivative l = derivative_id r \<and> link_expires_at l = Some e \<longrightarrow> expires_at r \<le> e"
    using registry_okD [OF reg] by blast
  show "\<forall>l \<in> set (source_links db). \<exists>r \<in> set (registrations db). derivative_id r = link_derivative l"
    using reg unfolding registry_ok_def by (metis (no_types, lifting) imageE imageI subsetD)
  show "\<forall>v \<in> set (outbox db). \<forall>w \<in> set (outbox db). cause_of v = cause_of w \<longrightarrow> v = w"
    using out by (auto simp: outbox_ok_def outbox_keys_ok_def distinct_map dest: inj_onD)
  show "\<forall>w \<in> set (outbox db). attempts w \<le> MAX_ATTEMPTS"
    using out by (auto simp: outbox_ok_def item_ok_def)
qed

text \<open>
  Ordering work for a cause a second time does nothing: it creates no item and changes no table, whenever it
  happens; and after the first time every derivative built from the sources has its item.
\<close>

theorem enqueue_once:
  assumes "enqueue_for_sources f t c ids op tr now tomb db = Inr (n, db')"
  shows "enqueue_for_sources g t c ids op tr later tomb db' = Inr (0, db') \<and>
    (\<forall>r \<in> set (registrations db). dv_tenant r = t \<and> reads_source db r c ids \<longrightarrow>
       (\<exists>w \<in> set (outbox db'). same_cause (derivative_id r) op tr tomb w))"
proof -
  let ?rs = "filter (\<lambda>r. dv_tenant r = t \<and> reads_source db r c ids) (registrations db)"
  have valid: "op \<in> set OPERATIONS" "tr \<in> set TRIGGERS" "\<not> (tr \<in> set [TRIGGER_ERASURE, TRIGGER_REVOCATION] \<and> tomb = None)"
    using assms by (auto simp: enqueue_for_sources_def split: if_splits)
  show ?thesis
  proof (cases "ids = []")
    case True
    with valid assms show ?thesis by (auto simp: enqueue_for_sources_def reads_source_def)
  next
    case False
    with valid assms have db': "db' = snd (enqueue_items f op tr tomb now ?rs db)"
      by (auto simp: enqueue_for_sources_def split: if_splits)
    then have covered: "\<exists>w \<in> set (outbox db'). same_cause (derivative_id r) op tr tomb w" if "r \<in> set ?rs" for r
      using enqueue_items_covers [OF that] by blast
    have "enqueue_items g op tr tomb later ?rs db' = (0, db')" by (rule enqueue_items_again [OF covered])
    moreover have "filter (\<lambda>r. dv_tenant r = t \<and> reads_source db' r c ids) (registrations db') = ?rs"
      by (simp add: db' reads_source_def)
    ultimately show ?thesis using False valid covered by (simp add: enqueue_for_sources_def)
  qed
qed

text \<open>
  Work that has failed stays failed: ordering the same cause again, the remedy the worker documents, leaves
  the failed item as the only one for its cause, and no pass of the drain takes it up.
\<close>

theorem failed_work_is_stuck:
  assumes "derivative_run db st" "w \<in> set (outbox db)" "work_state w = STATE_FAILED"
    and "inj f" "\<And>d. f d \<notin> work_id ` set (outbox db)"
    and "enqueue_for_sources f t c ids (operation w) (trigger w) now (tombstone_id w) db = Inr (n, db')"
  shows "(\<forall>x \<in> set (outbox db'). cause_of x = cause_of w \<longrightarrow> x = w) \<and>
    w \<in> set (outbox (fst (run_once reg locked limit later db' st)))"
proof
  from derivative_run_ok [OF assms(1)] have reg: "registry_ok db" and out: "outbox_ok db" by simp_all
  let ?rs = "filter (\<lambda>r. dv_tenant r = t \<and> reads_source db r c ids) (registrations db)"
  have db': "db' = db \<or> db' = snd (enqueue_items f (operation w) (trigger w) (tombstone_id w) now ?rs db)"
    using assms(6) by (auto simp: enqueue_for_sources_def split: if_splits)
  have old: "x \<in> set (outbox db)" if x: "x \<in> set (outbox db')" "cause_of x = cause_of w" for x
  proof (rule ccontr)
    assume new: "x \<notin> set (outbox db)"
    with x(1) db' have "x \<in> set (outbox (snd (enqueue_items f (operation w) (trigger w) (tombstone_id w) now ?rs db)))" by auto
    with new obtain r :: registration where "\<forall>v \<in> set (outbox db). \<not> same_cause (derivative_id r) (operation w) (trigger w) (tombstone_id w) v"
      "x = new_item (f (derivative_id r)) (dv_tenant r) (derivative_id r) (operation w) (trigger w) (tombstone_id w) now"
      unfolding enqueue_items_outbox by blast
    with x(2) assms(2) show False by (simp add: same_cause_of) (metis cause_of_def)
  qed
  show "\<forall>x \<in> set (outbox db'). cause_of x = cause_of w \<longrightarrow> x = w"
    using old assms(2) out by (auto simp: outbox_ok_def outbox_keys_ok_def distinct_map dest: inj_onD)
  have "derivative_run db' st" using derivative_run.ordered [OF assms(1,4,5,6)] .
  from derivative_run_ok [OF this] have ok': "distinct (map derivative_id (registrations db'))" "outbox_ok db'"
    by (simp_all add: registry_ok_def)
  have "w \<in> set (outbox db')" using db' assms(2) by (auto simp: enqueue_items_outbox)
  moreover obtain y st' rep where run: "run_once reg locked limit later db' st = (y, st', rep)" by (metis prod_cases3)
  ultimately show "w \<in> set (outbox (fst (run_once reg locked limit later db' st)))"
    using run_once_effect(7) [OF ok' run] assms(3) by simp
qed

subsection \<open>Sample histories\<close>

definition sample_ref :: "uuid \<Rightarrow> moment option \<Rightarrow> source_ref" where
  "sample_ref s e = \<lparr>ref_class = RECORD_EXTERNAL_SIGNAL, ref_source = s, ref_revision = None, ref_expires_at = e\<rparr>"

definition registered_db :: "derivative_error + (uuid \<times> derivative_db) \<Rightarrow> derivative_db" where
  "registered_db r = (case r of Inl _ \<Rightarrow> empty_derivatives | Inr (_, db) \<Rightarrow> db)"

definition sample_one :: derivative_db where
  "sample_one = registered_db (register_derivative ''d1'' ''t1'' KIND_CACHE ''cache:1'' ''tenant'' ''internal'' ''v1''
     [sample_ref ''s1'' (Some 50), sample_ref ''s2'' None] True (Some 90) empty_derivatives)"

definition sample_two :: derivative_db where
  "sample_two = registered_db (register_derivative ''d2'' ''t1'' KIND_EXPORT ''export:1'' ''tenant'' ''internal'' ''v1''
     [sample_ref ''s1'' (Some 100)] False None sample_one)"

lemma registered_db_Inr: "\<not> isl r \<Longrightarrow> \<exists>d. r = Inr (d, registered_db r)"
  by (cases r) (auto simp: registered_db_def)

lemma sample_derivative_runs: "derivative_run sample_one st" "derivative_run sample_two st"
proof -
  have "\<not> isl (register_derivative ''d1'' ''t1'' KIND_CACHE ''cache:1'' ''tenant'' ''internal'' ''v1''
     [sample_ref ''s1'' (Some 50), sample_ref ''s2'' None] True (Some 90) empty_derivatives)" by code_simp
  moreover have "''d1'' \<notin> derivative_id ` set (registrations empty_derivatives)" by code_simp
  ultimately show 1: "derivative_run sample_one st"
    unfolding sample_one_def using derivative_run.registered [OF derivative_run.start] registered_db_Inr by metis
  have "\<not> isl (register_derivative ''d2'' ''t1'' KIND_EXPORT ''export:1'' ''tenant'' ''internal'' ''v1''
     [sample_ref ''s1'' (Some 100)] False None sample_one)" by code_simp
  moreover have "''d2'' \<notin> derivative_id ` set (registrations sample_one)" by code_simp
  ultimately show "derivative_run sample_two st"
    unfolding sample_two_def using derivative_run.registered [OF 1] registered_db_Inr by metis
qed

definition sample_fresh :: "uuid \<Rightarrow> uuid" where
  "sample_fresh d = ''w-'' @ d"

theorem derivative_never_outlives_source_witness:
  "list_all (\<lambda>r. expires_at r \<le> 50 \<or> derivative_id r = ''d2'') (registrations sample_two) \<and>
   (\<exists>l \<in> set (source_links sample_two). link_derivative l = ''d1'' \<and> link_expires_at l = Some 50)"
proof -
  have l: "\<exists>l \<in> set (source_links sample_two). link_derivative l = ''d1'' \<and> link_expires_at l = Some 50" by code_simp
  have "list_all (\<lambda>r. derivative_id r = ''d1'' \<or> derivative_id r = ''d2'') (registrations sample_two)" by code_simp
  with l derivative_never_outlives_source [OF sample_derivative_runs(2)] show ?thesis by (auto simp: list_all_iff)
qed

theorem enqueue_once_witness:
  "enqueue_for_sources sample_fresh ''t1'' RECORD_EXTERNAL_SIGNAL [''s1''] OPERATION_REDACT TRIGGER_ERASURE 9 (Some ''k'')
     (snd (enqueue_items sample_fresh OPERATION_REDACT TRIGGER_ERASURE (Some ''k'') 5 (registrations sample_two) sample_two)) =
   Inr (0, snd (enqueue_items sample_fresh OPERATION_REDACT TRIGGER_ERASURE (Some ''k'') 5 (registrations sample_two) sample_two))"
proof -
  have "enqueue_for_sources sample_fresh ''t1'' RECORD_EXTERNAL_SIGNAL [''s1''] OPERATION_REDACT TRIGGER_ERASURE 5 (Some ''k'') sample_two =
    Inr (enqueue_items sample_fresh OPERATION_REDACT TRIGGER_ERASURE (Some ''k'') 5 (registrations sample_two) sample_two)" by code_simp
  then show ?thesis
    using enqueue_once [of sample_fresh "''t1''" RECORD_EXTERNAL_SIGNAL "[''s1'']" OPERATION_REDACT TRIGGER_ERASURE 5 "Some ''k''" sample_two]
    by (metis prod.collapse)
qed

text \<open>The first derivative is on hold, the second is not.\<close>

theorem sweep_respects_holds_witness:
  "list_all (\<lambda>w. work_derivative w = ''d2'')
     (outbox (fst (run_inner [] (active_holds sample_placed) (\<lambda>_ _. sample_fresh) 5 200 [''t1''] sample_two ())))"
proof -
  obtain db' m' rep where run: "run_inner [] (active_holds sample_placed) (\<lambda>_ _. sample_fresh) 5 200 [''t1''] sample_two () = (db', m', rep)"
    by (metis prod_cases3)
  have "registry_ok sample_two" using derivative_run_ok [OF sample_derivative_runs(2)] by blast
  from sweep_respects_holds [OF run this]
  have "\<forall>w \<in> set (outbox db'). w \<in> set (outbox sample_two) \<or>
      (\<exists>r \<in> set (registrations sample_two). derivative_id r = work_derivative w \<and> \<not> on_hold sample_placed 200 r)" by blast
  moreover have "outbox sample_two = []" by code_simp
  moreover have "list_all (\<lambda>r. derivative_id r = ''d2'' \<or> on_hold sample_placed 200 r) (registrations sample_two)" by code_simp
  ultimately show ?thesis unfolding run list_all_iff by (simp, metis)
qed

theorem sweep_covers_due_witness:
  "\<exists>w \<in> set (outbox (fst (sweep_tenant [] (active_holds sample_placed) (\<lambda>_. sample_fresh) 5 200 ''t1''
      (sample_two, (), \<lparr>tenants = 1, minimized = 0, enqueued = 0, held = 0, truncated = False, ran_at = None\<rparr>)))).
     work_derivative w = ''d2''"
proof -
  let ?s = "sweep_tenant [] (active_holds sample_placed) (\<lambda>_. sample_fresh) 5 200 ''t1''
      (sample_two, (), \<lparr>tenants = 1, minimized = 0, enqueued = 0, held = 0, truncated = False, ran_at = None\<rparr>)"
  obtain db' m' rep where run: "?s = (db', m', rep)" by (metis prod_cases3)
  have "\<not> truncated (snd (snd ?s))" by code_simp
  with run have rep: "\<not> truncated rep" by simp
  have "\<exists>r \<in> set (registrations sample_two). derivative_id r = ''d2'' \<and> dv_tenant r = ''t1'' \<and> expires_at r \<le> 200 \<and>
      \<not> on_hold sample_placed 200 r" by code_simp
  then obtain r where "r \<in> set (registrations sample_two)" "derivative_id r = ''d2''" "dv_tenant r = ''t1''"
    "expires_at r \<le> 200" "\<not> on_hold sample_placed 200 r" by blast
  with sweep_covers_due [OF run rep, of r] run show ?thesis by (auto simp: same_cause_def)
qed

theorem held_batch_starves_sweep_witness:
  "\<exists>m' rep'. sweep_tenant [] (active_holds sample_placed) (\<lambda>_. sample_fresh) 1 200 ''t1''
      (sample_two, (), \<lparr>tenants = 1, minimized = 0, enqueued = 0, held = 0, truncated = False, ran_at = None\<rparr>) = (sample_two, m', rep') \<and>
     truncated rep' \<and> held rep' = 20"
proof -
  have "registry_ok sample_two" using derivative_run_ok [OF sample_derivative_runs(2)] by blast
  moreover have "length (due_derivatives sample_two ''t1'' 200 1) = 1" by code_simp
  moreover have "\<forall>r \<in> set (registrations sample_two).
      derivative_id r \<in> set (due_derivatives sample_two ''t1'' 200 1) \<longrightarrow> on_hold sample_placed 200 r" by code_simp
  ultimately have "\<exists>m' rep'. sweep_tenant [] (active_holds sample_placed) (\<lambda>_. sample_fresh) 1 200 ''t1''
      (sample_two, (), \<lparr>tenants = 1, minimized = 0, enqueued = 0, held = 0, truncated = False, ran_at = None\<rparr>) = (sample_two, m', rep') \<and>
     truncated rep' \<and> enqueued rep' = 0 \<and> held rep' = 0 + MAX_BATCHES * 1"
    using held_batch_starves_sweep [of sample_two "''t1''" 200 1 sample_placed "[]" "\<lambda>_. sample_fresh" "()"
      "\<lparr>tenants = 1, minimized = 0, enqueued = 0, held = 0, truncated = False, ran_at = None\<rparr>"] by simp
  then show ?thesis unfolding MAX_BATCHES_def by auto
qed

text \<open>A sweep before the hold, a drain after it.\<close>

definition sample_swept :: derivative_db where
  "sample_swept = snd (snd (snd (expire_derivatives (active_holds empty_holds) sample_fresh 5 ''t1'' 200 sample_one)))"

definition sample_late_hold :: hold_db where
  "sample_late_hold = db_of (place ''h9'' ''t1'' RECORD_DERIVATIVE ''d1'' ''ana'' ''litigation'' 180 300 empty_holds)"

lemma sample_fresh_ok: "inj sample_fresh" "sample_fresh d \<notin> work_id ` set (outbox sample_one)"
proof -
  show "inj sample_fresh" by (auto simp: inj_def sample_fresh_def)
  have "outbox sample_one = []" by code_simp
  then show "sample_fresh d \<notin> work_id ` set (outbox sample_one)" by simp
qed

text \<open>
  A hold placed between the sweep and the drain does not protect the derivative: the drain does not ask about
  holds, so it carries out a deletion ordered before the hold was placed.
\<close>

theorem late_hold_does_not_protect:
  "\<exists>db hdb r. derivative_run db (0 :: nat) \<and> held_run hdb \<and> r \<in> set (registrations db) \<and> on_hold hdb 400 r \<and>
     (\<exists>w \<in> set (outbox (fst (run_once [(derivative_kind r, \<lambda>r op n. Inr (1, n + 1))] (\<lambda>_. False) 50 400 db 0))).
        work_derivative w = derivative_id r \<and> operation w = OPERATION_DELETE \<and> work_state w = STATE_DONE)"
proof (intro exI conjI)
  obtain a h ex db' where one: "expire_derivatives (active_holds empty_holds) sample_fresh 5 ''t1'' 200 sample_one = (a, h, ex, db')"
    by (metis prod_cases4)
  show "derivative_run sample_swept (0 :: nat)"
    using derivative_run.swept [OF sample_derivative_runs(1) sample_fresh_ok one] one by (simp add: sample_swept_def)
  have "\<not> isl (place ''h9'' ''t1'' RECORD_DERIVATIVE ''d1'' ''ana'' ''litigation'' 180 300 empty_holds)" by code_simp
  then show "held_run sample_late_hold"
    unfolding sample_late_hold_def by (metis held_run.start held_run.placed db_of_Inr sum.collapse(2))
  show "hd (registrations sample_swept) \<in> set (registrations sample_swept)" by code_simp
  show "on_hold sample_late_hold 400 (hd (registrations sample_swept))" by code_simp
  show "\<exists>w \<in> set (outbox (fst (run_once [(derivative_kind (hd (registrations sample_swept)), \<lambda>r op n. Inr (1, n + 1))]
      (\<lambda>_. False) 50 400 sample_swept 0))).
        work_derivative w = derivative_id (hd (registrations sample_swept)) \<and> operation w = OPERATION_DELETE \<and> work_state w = STATE_DONE"
    by code_simp
qed

text \<open>An erasure of the second source, drained five times without a handler.\<close>

definition sample_ordered :: derivative_db where
  "sample_ordered = snd (enqueue_items sample_fresh OPERATION_REDACT TRIGGER_ERASURE (Some ''k'') 0 (registrations sample_one) sample_one)"

definition sample_failed :: "derivative_db \<times> nat" where
  "sample_failed = drain [] 50 5 0 sample_ordered 0"

lemma drain_run:
  "derivative_run db st \<Longrightarrow> derivative_run (fst (drain reg limit k now db st)) (snd (drain reg limit k now db st))"
proof (induction k arbitrary: now db st)
  case (Suc k)
  obtain db' st' rep where run: "run_once reg (\<lambda>_. False) limit now db st = (db', st', rep)" by (metis prod_cases3)
  from Suc.IH [OF derivative_run.drained [OF Suc.prems run]] run show ?case by simp
qed simp

lemma sample_failed_run: "derivative_run (fst sample_failed) (snd sample_failed)"
proof -
  have "enqueue_for_sources sample_fresh ''t1'' RECORD_EXTERNAL_SIGNAL [''s2''] OPERATION_REDACT TRIGGER_ERASURE 0 (Some ''k'') sample_one =
    Inr (enqueue_items sample_fresh OPERATION_REDACT TRIGGER_ERASURE (Some ''k'') 0 (registrations sample_one) sample_one)" by code_simp
  then have "derivative_run sample_ordered (0 :: nat)"
    unfolding sample_ordered_def
    using derivative_run.ordered [OF sample_derivative_runs(1) sample_fresh_ok] by (metis prod.collapse)
  then show ?thesis unfolding sample_failed_def by (rule drain_run)
qed

theorem failed_work_is_stuck_witness:
  "\<exists>w \<in> set (outbox (fst sample_failed)). work_state w = STATE_FAILED \<and>
     (\<exists>db'. enqueue_for_sources (\<lambda>d. ''v-'' @ d) ''t1'' RECORD_EXTERNAL_SIGNAL [''s2''] (operation w) (trigger w) 9 (tombstone_id w)
              (fst sample_failed) = Inr (0, db') \<and>
        w \<in> set (outbox (fst (run_once [] (\<lambda>_. False) 50 100 db' (snd sample_failed)))))"
proof -
  let ?db = "fst sample_failed" and ?f = "\<lambda>d. ''v-'' @ d"
  have "\<exists>w \<in> set (outbox ?db). work_state w = STATE_FAILED \<and>
    enqueue_for_sources ?f ''t1'' RECORD_EXTERNAL_SIGNAL [''s2''] (operation w) (trigger w) 9 (tombstone_id w) ?db = Inr (0, ?db)"
    by code_simp
  then obtain w where w: "w \<in> set (outbox ?db)" "work_state w = STATE_FAILED"
    "enqueue_for_sources ?f ''t1'' RECORD_EXTERNAL_SIGNAL [''s2''] (operation w) (trigger w) 9 (tombstone_id w) ?db = Inr (0, ?db)"
    by blast
  have "map work_id (outbox ?db) = [''w-d1'']" by code_simp
  then have "work_id ` set (outbox ?db) = {''w-d1''}" by (metis list.simps(15) empty_set set_map)
  then have fresh: "?f d \<notin> work_id ` set (outbox ?db)" for d by simp
  have "inj ?f" by (simp add: inj_def)
  from failed_work_is_stuck [OF sample_failed_run w(1,2) this fresh w(3), of "[]" "\<lambda>_. False" 50 100] w show ?thesis by blast
qed

end
