(* ===== verification/Receipt_Redaction.thy ===== *)
theory Receipt_Redaction
  imports Derivative_Propagation
begin

section \<open>Redacting context receipts\<close>

text \<open>
  The model of \<open>contextplane/context/derivative_handlers.py\<close>: the handler of receipt-link derivatives, the erasure of
  everything an actor requested, and the registration of a receipt with its sources. The lines a receipt
  returned and those it withheld are two tables of the same shape, a row key, its receipt and the item key
  (never missing on a withheld line). The contract of a handler is the locale \<open>derivative_handler\<close>.
\<close>

subsection \<open>Tables\<close>

record receipt_row =
  receipt_id :: uuid
  receipt_tenant :: uuid
  requested_by :: string

record key_row =
  key_row_id :: uuid
  key_receipt :: uuid
  item_key :: "string option"

record binding_row =
  binding_tenant :: uuid
  subject_type :: string
  subject_id :: uuid

record feedback_row =
  feedback_tenant :: uuid
  feedback_receipt :: uuid

record receipt_store =
  receipts :: "receipt_row list"
  receipt_items :: "key_row list"
  receipt_exclusions :: "key_row list"
  bindings :: "binding_row list"
  feedback :: "feedback_row list"

subsection \<open>Locators\<close>

definition HANDLER_VERSION :: string where "HANDLER_VERSION = ''receipt-link.v1''"
definition LOCATOR_PREFIX :: string where "LOCATOR_PREFIX = ''receipt:''"
definition SUBJECT_RECEIPT :: string where "SUBJECT_RECEIPT = ''context_item''"

definition locator_for :: "uuid \<Rightarrow> string" where
  "locator_for rid = LOCATOR_PREFIX @ rid"

definition receipt_from_locator :: "string \<Rightarrow> derivative_error + uuid" where
  "receipt_from_locator locator =
     (if \<not> py_startswith LOCATOR_PREFIX locator then Inl UnhandledDerivativeKind
      else of_option UnhandledDerivativeKind (py_uuid (drop (length LOCATOR_PREFIX) locator)))"

subsection \<open>The handler\<close>

definition speaking :: "receipt_store \<Rightarrow> uuid \<Rightarrow> uuid \<Rightarrow> key_row \<Rightarrow> bool" where
  "speaking s rid tenant k \<longleftrightarrow>
     key_receipt k = rid \<and> (\<exists>r \<in> set (receipts s). receipt_id r = rid \<and> receipt_tenant r = tenant) \<and>
     (case item_key k of None \<Rightarrow> False | Some v \<Rightarrow> \<not> is_erased_key v)"

text \<open>Select the rows that still speak, then update each by its key.\<close>

definition minimize_keys :: "keyed_env \<Rightarrow> string \<Rightarrow> (key_row \<Rightarrow> bool) \<Rightarrow> key_row list \<Rightarrow> nat \<times> key_row list" where
  "minimize_keys E salt sel rows =
     (let chosen = map (\<lambda>k. (key_row_id k, the (item_key k))) (filter sel rows) in
      (length chosen,
       fold (\<lambda>(i, v) rows. map (\<lambda>k. if key_row_id k = i then k\<lparr>item_key := Some (erased_item_key E salt v)\<rparr> else k) rows) chosen rows))"

definition bound_to :: "uuid \<Rightarrow> uuid \<Rightarrow> binding_row \<Rightarrow> bool" where
  "bound_to rid tenant b \<longleftrightarrow> binding_tenant b = tenant \<and> subject_type b = SUBJECT_RECEIPT \<and> subject_id b = rid"

definition apply_receipt :: "keyed_env \<Rightarrow> keyed_tenant_salt \<Rightarrow> receipt_store handler" where
  "apply_receipt E K reg op s =
     (if op \<notin> set OPERATIONS then Inl ''UnhandledDerivativeKind''
      else case receipt_from_locator (storage_locator reg) of
        Inl _ \<Rightarrow> Inl ''UnhandledDerivativeKind''
      | Inr rid \<Rightarrow>
          (case salt_for E K (dv_tenant reg) of
             Inl _ \<Rightarrow> Inl ''TenantSaltUnavailable''
           | Inr salt \<Rightarrow>
               (let sel = speaking s rid (dv_tenant reg);
                    (n, items) = minimize_keys E salt sel (receipt_items s);
                    (m, excl) = minimize_keys E salt sel (receipt_exclusions s);
                    gone = filter (bound_to rid (dv_tenant reg)) (bindings s) in
                Inr (n + m + length gone,
                     s\<lparr>receipt_items := items, receipt_exclusions := excl,
                       bindings := filter (\<lambda>b. \<not> bound_to rid (dv_tenant reg) b) (bindings s)\<rparr>))))"

subsection \<open>Erasing an actor and registering a receipt\<close>

record erasure_counts =
  erased_receipts :: nat
  with_feedback :: nat
  erased_artefacts :: nat

definition receipt_registration :: "uuid \<Rightarrow> uuid \<Rightarrow> moment \<Rightarrow> registration" where
  "receipt_registration tenant rid now =
     \<lparr>derivative_id = rid, dv_tenant = tenant, derivative_kind = KIND_RECEIPT_LINK, storage_locator = locator_for rid,
      audience_partition = ''tenant'', classification = ''internal'', rebuild_handler_version = [],
      delete_handler_version = [], redact_handler_version = [], dv_policy_version = [], expires_at = now,
      blocking = True, sync_status = []\<rparr>"

definition erase_receipt ::
  "keyed_env \<Rightarrow> keyed_tenant_salt \<Rightarrow> uuid \<Rightarrow> moment \<Rightarrow> uuid \<Rightarrow> erasure_counts \<times> receipt_store \<Rightarrow> string + (erasure_counts \<times> receipt_store)" where
  "erase_receipt E K tenant now rid cs =
     (case cs of (c, s) \<Rightarrow>
        result_map (\<lambda>(n, s').
          (c\<lparr>erased_artefacts := erased_artefacts c + n, erased_receipts := erased_receipts c + 1,
             with_feedback := with_feedback c +
               (if (\<exists>f \<in> set (feedback s). feedback_tenant f = tenant \<and> feedback_receipt f = rid) then 1 else 0)\<rparr>, s'))
          (apply_receipt E K (receipt_registration tenant rid now) OPERATION_REDACT s))"

definition erase_actor ::
  "keyed_env \<Rightarrow> keyed_tenant_salt \<Rightarrow> uuid \<Rightarrow> moment \<Rightarrow> uuid \<Rightarrow> receipt_store \<Rightarrow> string + (erasure_counts \<times> receipt_store)" where
  "erase_actor E K tenant now actor s =
     fold_result (erase_receipt E K tenant now)
       (map receipt_id (filter (\<lambda>r. receipt_tenant r = tenant \<and> requested_by r = actor) (receipts s)))
       (\<lparr>erased_receipts = 0, with_feedback = 0, erased_artefacts = 0\<rparr>, s)"

definition register_receipt_links ::
  "uuid \<Rightarrow> uuid \<Rightarrow> uuid \<Rightarrow> source_ref list \<Rightarrow> moment \<Rightarrow> derivative_db \<Rightarrow> derivative_error + (uuid option \<times> derivative_db)" where
  "register_receipt_links new_id tenant rid sources now db =
     (if sources = [] then Inr (None, db)
      else case expiry_deadline RECORD_CONTEXT_RECEIPT now of
        Inl e \<Rightarrow> Inl (ExpiryError e)
      | Inr horizon \<Rightarrow>
          result_map (\<lambda>(did, db'). (Some did, db'))
            (register_derivative new_id tenant KIND_RECEIPT_LINK (locator_for rid) ''tenant'' ''internal'' HANDLER_VERSION
               sources True horizon db))"

subsection \<open>What a handler promises\<close>

text \<open>
  The protocol asks of a handler that its operations are idempotent: a repeat finds nothing left to do. Work
  items are retried, so this is what makes the retry harmless.
\<close>

locale derivative_handler =
  fixes handle :: "'s handler" and wf :: "'s \<Rightarrow> bool"
  assumes idempotent: "wf s \<Longrightarrow> handle r op s = Inr (n, s') \<Longrightarrow> handle r op s' = Inr (0, s')"
    and keeps_wf: "wf s \<Longrightarrow> handle r op s = Inr (n, s') \<Longrightarrow> wf s'"
begin

fun repeated :: "nat \<Rightarrow> registration \<Rightarrow> string \<Rightarrow> 's \<Rightarrow> string + (nat \<times> 's)" where
  "repeated 0 r op s = Inr (0, s)"
| "repeated (Suc k) r op s =
     result_bind (handle r op s) (\<lambda>(n, s'). result_map (\<lambda>(m, s''). (n + m, s'')) (repeated k r op s'))"

lemma retries_harmless:
  assumes "wf s" "handle r op s = Inr (n, s')"
  shows "repeated (Suc k) r op s = Inr (n, s')"
proof -
  have "repeated k r op s' = Inr (0, s')" for k
    using idempotent [OF assms] by (induction k) simp_all
  with assms(2) show ?thesis by simp
qed

end

subsection \<open>What the receipt handler does\<close>

definition keys_distinct :: "receipt_store \<Rightarrow> bool" where
  "keys_distinct s \<longleftrightarrow> distinct (map key_row_id (receipt_items s)) \<and> distinct (map key_row_id (receipt_exclusions s))"

definition minimized :: "keyed_env \<Rightarrow> string \<Rightarrow> (key_row \<Rightarrow> bool) \<Rightarrow> key_row \<Rightarrow> key_row" where
  "minimized E salt sel k =
     (if sel k then k\<lparr>item_key := Some (erased_item_key E salt (the (item_key k)))\<rparr> else k)"

lemma update_rows_by_key:
  assumes "distinct (map fst ch)"
  shows "fold (\<lambda>(i, v) rows. map (\<lambda>k. if key_row_id k = i then k\<lparr>item_key := Some (g v)\<rparr> else k) rows) ch rows =
    map (\<lambda>k. case map_of ch (key_row_id k) of None \<Rightarrow> k | Some v \<Rightarrow> k\<lparr>item_key := Some (g v)\<rparr>) rows"
  using assms
proof (induction ch arbitrary: rows)
  case (Cons c ch)
  obtain i v where c: "c = (i, v)" by (cases c)
  with Cons.prems have "map_of ch i = None" by (simp add: map_of_eq_None_iff)
  with Cons c show ?case by (auto split: option.splits)
qed (simp add: map_idI)

lemma minimize_keys_map:
  assumes "distinct (map key_row_id rows)"
  shows "minimize_keys E salt sel rows = (length (filter sel rows), map (minimized E salt sel) rows)"
proof -
  let ?ch = "map (\<lambda>k. (key_row_id k, the (item_key k))) (filter sel rows)"
  have d: "distinct (map fst ?ch)" using assms by (simp add: comp_def distinct_map_filter)
  have "map_of ?ch (key_row_id k) = (if sel k then Some (the (item_key k)) else None)" if k: "k \<in> set rows" for k
  proof (cases "sel k")
    case True
    then have "(key_row_id k, the (item_key k)) \<in> set ?ch" using k by auto
    then show ?thesis using True d by (simp add: map_of_eq_Some_iff)
  next
    case False
    have "key_row_id k \<notin> fst ` set ?ch"
      using assms k False by (auto simp: distinct_map dest: inj_onD)
    then show ?thesis using False by (simp add: map_of_eq_None_iff)
  qed
  then show ?thesis
    unfolding minimize_keys_def Let_def
    by (simp add: update_rows_by_key [OF d, unfolded map_map comp_def] minimized_def)
qed

lemma minimized_simps [simp]:
  "key_row_id (minimized E salt sel k) = key_row_id k" "key_receipt (minimized E salt sel k) = key_receipt k"
  by (simp_all add: minimized_def)

lemma speaking_minimized: "\<not> speaking s rid t (minimized E salt (speaking s rid t) k)"
  by (auto simp: minimized_def speaking_def)

lemma apply_receipt_Inr:
  assumes "keys_distinct s" "apply_receipt E K reg op s = Inr (n, s')"
  obtains rid salt where "receipt_from_locator (storage_locator reg) = Inr rid" "salt_for E K (dv_tenant reg) = Inr salt"
    "op \<in> set OPERATIONS"
    "s' = s\<lparr>receipt_items := map (minimized E salt (speaking s rid (dv_tenant reg))) (receipt_items s),
           receipt_exclusions := map (minimized E salt (speaking s rid (dv_tenant reg))) (receipt_exclusions s),
           bindings := filter (\<lambda>b. \<not> bound_to rid (dv_tenant reg) b) (bindings s)\<rparr>"
    "n = length (filter (speaking s rid (dv_tenant reg)) (receipt_items s)) +
         length (filter (speaking s rid (dv_tenant reg)) (receipt_exclusions s)) +
         length (filter (bound_to rid (dv_tenant reg)) (bindings s))"
  using assms
  by (auto simp: apply_receipt_def keys_distinct_def minimize_keys_map Let_def split: if_splits sum.splits)

lemma apply_receipt_again:
  assumes "keys_distinct s" "apply_receipt E K reg op s = Inr (n, s')"
  shows "apply_receipt E K reg op s' = Inr (0, s')" "keys_distinct s'"
proof -
  from assms obtain rid salt where
    loc: "receipt_from_locator (storage_locator reg) = Inr rid" and salt: "salt_for E K (dv_tenant reg) = Inr salt"
    and op: "op \<in> set OPERATIONS"
    and s': "s' = s\<lparr>receipt_items := map (minimized E salt (speaking s rid (dv_tenant reg))) (receipt_items s),
           receipt_exclusions := map (minimized E salt (speaking s rid (dv_tenant reg))) (receipt_exclusions s),
           bindings := filter (\<lambda>b. \<not> bound_to rid (dv_tenant reg) b) (bindings s)\<rparr>"
    by (rule apply_receipt_Inr)
  have sp: "speaking s' rid (dv_tenant reg) = speaking s rid (dv_tenant reg)"
    by (intro ext) (simp add: s' speaking_def)
  show keys: "keys_distinct s'" using assms(1) by (simp add: s' keys_distinct_def comp_def)
  have quiet: "\<not> speaking s' rid (dv_tenant reg) k" if "k \<in> set (receipt_items s') \<union> set (receipt_exclusions s')" for k
    using that speaking_minimized [of s rid "dv_tenant reg" E salt] unfolding sp by (auto simp: s')
  then have "minimized E salt (speaking s' rid (dv_tenant reg)) k = k"
    if "k \<in> set (receipt_items s') \<union> set (receipt_exclusions s')" for k
    using that by (simp add: minimized_def)
  with quiet have "map (minimized E salt (speaking s' rid (dv_tenant reg))) (receipt_items s') = receipt_items s'"
    "map (minimized E salt (speaking s' rid (dv_tenant reg))) (receipt_exclusions s') = receipt_exclusions s'"
    "filter (speaking s' rid (dv_tenant reg)) (receipt_items s') = []"
    "filter (speaking s' rid (dv_tenant reg)) (receipt_exclusions s') = []"
    by (auto intro: map_idI simp: filter_empty_conv)
  moreover have "filter (bound_to rid (dv_tenant reg)) (bindings s') = []" by (simp add: s' filter_empty_conv)
  moreover from this have "filter (\<lambda>b. \<not> bound_to rid (dv_tenant reg) b) (bindings s') = bindings s'"
    by (simp add: filter_id_conv filter_empty_conv)
  ultimately show "apply_receipt E K reg op s' = Inr (0, s')"
    using loc salt op keys by (simp add: apply_receipt_def keys_distinct_def minimize_keys_map Let_def)
qed

interpretation receipt_link: derivative_handler "apply_receipt E K" keys_distinct for E K
  by unfold_locales (rule apply_receipt_again, assumption+)+

subsection \<open>Erasing an actor, against its specification\<close>

text \<open>
  The specification does it at once: every key of a listed receipt that still says something becomes
  its marker, every binding of a listed receipt goes, and nothing else changes.
\<close>

definition speaks_in :: "receipt_store \<Rightarrow> uuid \<Rightarrow> uuid set \<Rightarrow> key_row \<Rightarrow> bool" where
  "speaks_in s t R k \<longleftrightarrow> (\<exists>rid \<in> R. speaking s rid t k)"

definition bound_in :: "uuid \<Rightarrow> uuid set \<Rightarrow> binding_row \<Rightarrow> bool" where
  "bound_in t R b \<longleftrightarrow> (\<exists>rid \<in> R. bound_to rid t b)"

definition redact_all :: "keyed_env \<Rightarrow> string \<Rightarrow> uuid \<Rightarrow> uuid set \<Rightarrow> receipt_store \<Rightarrow> receipt_store" where
  "redact_all E salt t R s =
     s\<lparr>receipt_items := map (minimized E salt (speaks_in s t R)) (receipt_items s),
       receipt_exclusions := map (minimized E salt (speaks_in s t R)) (receipt_exclusions s),
       bindings := filter (\<lambda>b. \<not> bound_in t R b) (bindings s)\<rparr>"

definition redaction_count :: "uuid \<Rightarrow> uuid set \<Rightarrow> receipt_store \<Rightarrow> nat" where
  "redaction_count t R s =
     length (filter (speaks_in s t R) (receipt_items s)) + length (filter (speaks_in s t R) (receipt_exclusions s)) +
     length (filter (bound_in t R) (bindings s))"

definition canonical_uuid :: "uuid \<Rightarrow> bool" where
  "canonical_uuid u \<longleftrightarrow> py_uuid u = Some u"

lemma canonical_uuid_text: "0 \<le> n \<Longrightarrow> n < 16 ^ 32 \<Longrightarrow> canonical_uuid (uuid_text n)"
  by (simp add: canonical_uuid_def py_uuid_text)

lemma locator_roundtrip: "canonical_uuid rid \<Longrightarrow> receipt_from_locator (locator_for rid) = Inr rid"
  by (simp add: receipt_from_locator_def locator_for_def py_startswith_def canonical_uuid_def)

lemma apply_receipt_spec:
  assumes "keys_distinct s" "canonical_uuid rid" "salt_for E K t = Inr salt"
  shows "apply_receipt E K (receipt_registration t rid now) OPERATION_REDACT s =
    Inr (redaction_count t {rid} s, redact_all E salt t {rid} s)"
  using assms
  by (simp add: apply_receipt_def receipt_registration_def locator_roundtrip OPERATIONS_def keys_distinct_def minimize_keys_map
      Let_def redact_all_def redaction_count_def speaks_in_def [abs_def] bound_in_def [abs_def])

lemma speaking_receipts: "receipts s' = receipts s \<Longrightarrow> speaking s' = speaking s"
  by (intro ext) (simp add: speaking_def)

lemma redact_all_simps [simp]:
  "receipts (redact_all E salt t R s) = receipts s" "feedback (redact_all E salt t R s) = feedback s"
  "keys_distinct (redact_all E salt t R s) = keys_distinct s"
  "speaks_in (redact_all E salt t R s) = speaks_in s"
  by (auto simp: redact_all_def keys_distinct_def comp_def speaks_in_def fun_eq_iff speaking_def)

lemma redact_all_fields:
  "receipt_items (redact_all E salt t R s) = map (minimized E salt (speaks_in s t R)) (receipt_items s)"
  "receipt_exclusions (redact_all E salt t R s) = map (minimized E salt (speaks_in s t R)) (receipt_exclusions s)"
  "bindings (redact_all E salt t R s) = filter (\<lambda>b. \<not> bound_in t R b) (bindings s)"
  by (simp_all add: redact_all_def)

lemma minimized_twice:
  "minimized E salt (speaks_in s t Q) (minimized E salt (speaks_in s t R) k) = minimized E salt (speaks_in s t (R \<union> Q)) k"
  by (auto simp: minimized_def speaks_in_def speaking_def)

lemma redact_all_Un: "redact_all E salt t Q (redact_all E salt t R s) = redact_all E salt t (R \<union> Q) s"
proof -
  have "speaks_in (redact_all E salt t R s) t Q = speaks_in s t Q" by simp
  moreover have "filter (\<lambda>b. \<not> bound_in t Q b) (filter (\<lambda>b. \<not> bound_in t R b) bs) = filter (\<lambda>b. \<not> bound_in t (R \<union> Q) b) bs" for bs
    by (induction bs) (auto simp: bound_in_def)
  ultimately show ?thesis
    by (simp add: redact_all_def [of E salt t Q] redact_all_def [of E salt t "R \<union> Q"])
      (simp add: redact_all_def minimized_twice comp_def)
qed

lemma length_filter_split:
  "(\<And>x. x \<in> set xs \<Longrightarrow> \<not> (P x \<and> Q x)) \<Longrightarrow> length (filter (\<lambda>x. P x \<or> Q x) xs) = length (filter P xs) + length (filter Q xs)"
  by (induction xs) auto

lemma count_after:
  assumes "rid \<notin> R"
  shows "redaction_count t {rid} s + redaction_count t R (redact_all E salt t {rid} s) = redaction_count t (insert rid R) s"
proof -
  have keys: "length (filter (speaks_in s t R) (map (minimized E salt (speaks_in s t {rid})) ks)) = length (filter (speaks_in s t R) ks)" for ks
    using assms by (induction ks) (auto simp: minimized_def speaks_in_def speaking_def)
  have split: "length (filter (speaks_in s t (insert rid R)) ks) = length (filter (speaks_in s t {rid}) ks) + length (filter (speaks_in s t R) ks)" for ks
    using assms by (induction ks) (auto simp: speaks_in_def speaking_def)
  have "length (filter (bound_in t (insert rid R)) bs) =
      length (filter (bound_in t {rid}) bs) + length (filter (bound_in t R) (filter (\<lambda>b. \<not> bound_in t {rid} b) bs))" for bs
    using assms by (induction bs) (auto simp: bound_in_def bound_to_def)
  then show ?thesis
    unfolding redaction_count_def redact_all_fields redact_all_simps keys split by simp
qed

lemma fold_erase_receipt:
  assumes "keys_distinct s" "\<forall>rid \<in> set rids. canonical_uuid rid" "distinct rids" "salt_for E K t = Inr salt"
  shows "fold_result (erase_receipt E K t now) rids (c, s) =
    Inr (c\<lparr>erased_receipts := erased_receipts c + length rids,
           with_feedback := with_feedback c +
             length (filter (\<lambda>rid. \<exists>f \<in> set (feedback s). feedback_tenant f = t \<and> feedback_receipt f = rid) rids),
           erased_artefacts := erased_artefacts c + redaction_count t (set rids) s\<rparr>,
         redact_all E salt t (set rids) s)"
  using assms
proof (induction rids arbitrary: c s)
  case Nil
  have "minimized E salt (speaks_in s t {}) k = k" for k by (simp add: minimized_def speaks_in_def)
  then show ?case by (simp add: redaction_count_def redact_all_def speaks_in_def bound_in_def cong: map_cong)
next
  case (Cons rid rids)
  then have "erase_receipt E K t now rid (c, s) =
      Inr (c\<lparr>erased_artefacts := erased_artefacts c + redaction_count t {rid} s, erased_receipts := erased_receipts c + 1,
             with_feedback := with_feedback c + (if (\<exists>f \<in> set (feedback s). feedback_tenant f = t \<and> feedback_receipt f = rid) then 1 else 0)\<rparr>,
           redact_all E salt t {rid} s)"
    by (simp add: erase_receipt_def apply_receipt_spec)
  with Cons show ?case using count_after [of rid "set rids" t s E salt] redact_all_Un [of E salt t "set rids" "{rid}" s]
    by (simp add: add.assoc)
qed

definition receipts_of :: "receipt_store \<Rightarrow> uuid \<Rightarrow> uuid \<Rightarrow> uuid list" where
  "receipts_of s t actor = map receipt_id (filter (\<lambda>r. receipt_tenant r = t \<and> requested_by r = actor) (receipts s))"

lemma erase_actor_salt_missing:
  assumes "salt_for E K t = Inl e" "\<forall>r \<in> set (receipts s). canonical_uuid (receipt_id r)" "receipts_of s t actor \<noteq> []"
  shows "erase_actor E K t now actor s = Inl ''TenantSaltUnavailable''"
proof (cases "receipts_of s t actor")
  case (Cons rid rids)
  have "set (receipts_of s t actor) \<subseteq> receipt_id ` set (receipts s)" by (auto simp: receipts_of_def)
  with Cons assms(2) have "canonical_uuid rid" by auto
  then have "erase_receipt E K t now rid cs = Inl ''TenantSaltUnavailable''" for cs
    using assms(1) by (cases cs) (simp add: erase_receipt_def apply_receipt_def receipt_registration_def locator_roundtrip OPERATIONS_def)
  with Cons show ?thesis by (simp add: erase_actor_def receipts_of_def)
qed (use assms(3) in simp)


text \<open>
  After a successful redaction no line of the receipt says what was read and nothing is bound to it any more,
  no row has disappeared, other receipts are as they were, and repeating the operation touches nothing
  further.
\<close>

theorem redaction_complete:
  assumes "keys_distinct s" "apply_receipt E K reg op s = Inr (n, s')" "storage_locator reg = locator_for rid" "canonical_uuid rid"
    and "\<exists>r \<in> set (receipts s). receipt_id r = rid \<and> receipt_tenant r = dv_tenant reg"
  shows "(\<forall>k \<in> set (receipt_items s') \<union> set (receipt_exclusions s').
       key_receipt k = rid \<longrightarrow> (case item_key k of None \<Rightarrow> True | Some v \<Rightarrow> is_erased_key v)) \<and>
    (\<forall>b \<in> set (bindings s'). \<not> bound_to rid (dv_tenant reg) b) \<and>
    map key_row_id (receipt_items s') = map key_row_id (receipt_items s) \<and>
    filter (\<lambda>k. key_receipt k \<noteq> rid) (receipt_items s') = filter (\<lambda>k. key_receipt k \<noteq> rid) (receipt_items s) \<and>
    apply_receipt E K reg op s' = Inr (0, s')"
proof -
  have rid: "receipt_from_locator (storage_locator reg) = Inr rid" using assms(3,4) by (simp add: locator_roundtrip)
  from assms(1,2) obtain salt where
    s': "s' = s\<lparr>receipt_items := map (minimized E salt (speaking s rid (dv_tenant reg))) (receipt_items s),
           receipt_exclusions := map (minimized E salt (speaking s rid (dv_tenant reg))) (receipt_exclusions s),
           bindings := filter (\<lambda>b. \<not> bound_to rid (dv_tenant reg) b) (bindings s)\<rparr>"
    using rid by (auto elim: apply_receipt_Inr)
  have "case item_key (minimized E salt (speaking s rid (dv_tenant reg)) k) of None \<Rightarrow> True | Some v \<Rightarrow> is_erased_key v"
    if "key_receipt k = rid" for k
    using that assms(5) by (auto simp: minimized_def speaking_def split: option.splits)
  moreover have "filter (\<lambda>k. key_receipt k \<noteq> rid) (map (minimized E salt (speaking s rid (dv_tenant reg))) ks) = filter (\<lambda>k. key_receipt k \<noteq> rid) ks" for ks
    by (induction ks) (auto simp: minimized_def speaking_def)
  moreover have "k' \<in> set (receipt_items s') \<union> set (receipt_exclusions s') \<Longrightarrow>
      \<exists>k. k' = minimized E salt (speaking s rid (dv_tenant reg)) k" for k' by (auto simp: s')
  ultimately have quiet: "\<forall>k \<in> set (receipt_items s') \<union> set (receipt_exclusions s').
       key_receipt k = rid \<longrightarrow> (case item_key k of None \<Rightarrow> True | Some v \<Rightarrow> is_erased_key v)"
    and others: "filter (\<lambda>k. key_receipt k \<noteq> rid) (receipt_items s') = filter (\<lambda>k. key_receipt k \<noteq> rid) (receipt_items s)"
    by (metis minimized_simps(2), simp add: s')
  have "apply_receipt E K reg op s' = Inr (0, s')" by (rule receipt_link.idempotent [OF assms(1,2)])
  with quiet others show ?thesis by (simp add: s' comp_def)
qed

subsection \<open>A sample store\<close>

definition sample_env :: keyed_env where
  "sample_env = \<lparr>hmac_sha256 = (\<lambda>k m. k @ m), isoformat = (\<lambda>_. [])\<rparr>"

definition sample_salts :: keyed_tenant_salt where
  "sample_salts = \<lparr>secrets = [(''k1'', ''root'')], active_key_id = Some ''k1'', destroyed = []\<rparr>"

definition sample_receipts :: receipt_store where
  "sample_receipts =
     \<lparr>receipts = [\<lparr>receipt_id = uuid_text 1, receipt_tenant = ''t1'', requested_by = ''ana''\<rparr>,
                  \<lparr>receipt_id = uuid_text 2, receipt_tenant = ''t1'', requested_by = ''bea''\<rparr>],
      receipt_items = [\<lparr>key_row_id = ''i1'', key_receipt = uuid_text 1, item_key = Some ''doc''\<rparr>,
                       \<lparr>key_row_id = ''i2'', key_receipt = uuid_text 2, item_key = Some ''doc''\<rparr>],
      receipt_exclusions = [\<lparr>key_row_id = ''e1'', key_receipt = uuid_text 1, item_key = Some ''memo''\<rparr>],
      bindings = [\<lparr>binding_tenant = ''t1'', subject_type = SUBJECT_RECEIPT, subject_id = uuid_text 1\<rparr>],
      feedback = []\<rparr>"

lemma sample_receipts_ok: "keys_distinct sample_receipts" "\<forall>r \<in> set (receipts sample_receipts). canonical_uuid (receipt_id r)"
  "distinct (map receipt_id (receipts sample_receipts))"
  by code_simp+


theorem redaction_complete_witness:
  "\<exists>n s'. apply_receipt sample_env sample_salts (receipt_registration ''t1'' (uuid_text 1) 0) OPERATION_DELETE sample_receipts = Inr (n, s') \<and>
     bindings s' = []"
proof -
  let ?reg = "receipt_registration ''t1'' (uuid_text 1) 0"
  have "\<not> isl (apply_receipt sample_env sample_salts ?reg OPERATION_DELETE sample_receipts)" by code_simp
  then obtain n s' where run: "apply_receipt sample_env sample_salts ?reg OPERATION_DELETE sample_receipts = Inr (n, s')"
    by (metis prod.collapse sum.collapse(2))
  have loc: "storage_locator ?reg = locator_for (uuid_text 1)" and t: "dv_tenant ?reg = ''t1''" by (simp_all add: receipt_registration_def)
  have "\<exists>r \<in> set (receipts sample_receipts). receipt_id r = uuid_text 1 \<and> receipt_tenant r = dv_tenant ?reg" by code_simp
  from redaction_complete [OF sample_receipts_ok(1) run loc canonical_uuid_text this]
  have gone: "\<forall>b \<in> set (bindings s'). \<not> bound_to (uuid_text 1) ''t1'' b" by (simp add: t)
  have "list_all (bound_to (uuid_text 1) ''t1'') (bindings sample_receipts)" by code_simp
  moreover have "set (bindings s') \<subseteq> set (bindings sample_receipts)"
    by (rule apply_receipt_Inr [OF sample_receipts_ok(1) run]) auto
  ultimately have "bindings s' = []" using gone by (metis list_all_iff list.set_intros(1) neq_Nil_conv subsetD)
  with run show ?thesis by blast
qed

end
