(* ===== verification/Sharing.thy ===== *)
theory Sharing
  imports Sensitivity
begin

section \<open>Sharing between organisations\<close>

text \<open>
  The model of \<open>contextplane/sharing/grants.py\<close>, \<open>authorization.py\<close> and \<open>derivatives.py\<close>: the table of grants with the checks that
  migration \<open>0053_ownership_and_grants\<close> puts on its rows, the decision whether a grant permits an operation, and the
  scope that binds an artefact to the grants it was built under. The columns nobody reads (instance selectors, audience,
  applicability) are left out; fresh identifiers and instants are arguments; SHA-256 is a parameter. Histories of the
  table are the inductive relation \<open>grant_run\<close>.
\<close>

subsection \<open>Rows\<close>

definition PROPOSED :: string where "PROPOSED = ''proposed''"
definition ACTIVE :: string where "ACTIVE = ''active''"
definition REVOKED :: string where "REVOKED = ''revoked''"
definition EXPIRED :: string where "EXPIRED = ''expired''"
definition GRANT_STATES :: "string list" where "GRANT_STATES = [PROPOSED, ACTIVE, REVOKED, EXPIRED]"
definition GRANT_KINDS :: "string list" where
  "GRANT_KINDS = [''relationship'', ''adoption'', ''learning'', ''projection'', ''context'']"

datatype grant_error = GrantError | GrantIntegrityError

record cross_org_grant =
  grant_id :: uuid
  source_tenant_id :: uuid
  destination_tenant_id :: uuid
  grant_kind :: string
  grant_state :: string
  profile_types :: "string list"
  relationship_types :: "string list"
  allowed_operations :: "string list"
  classification_ceiling :: string
  effective_from :: moment
  effective_to :: "moment option"
  approval_evidence :: "string option"
  revoked_at :: "moment option"

text \<open>The columns of the table that a reader of grants does not see.\<close>

record grant_row = cross_org_grant +
  approving_authorities :: "string list"
  revocation_reason :: "string option"
  revoked_by :: "string option"
  policy_version :: string
  recorded_by :: string
  recorded_at :: moment

definition is_in_force :: "'a cross_org_grant_scheme \<Rightarrow> moment \<Rightarrow> bool" where
  "is_in_force g now =
     (if grant_state g \<noteq> ACTIVE then False
      else if effective_from g > now then False
      else effective_to g = None \<or> the (effective_to g) > now)"

definition grant_checks :: "grant_row \<Rightarrow> bool" where
  "grant_checks g \<longleftrightarrow>
     grant_kind g \<in> set GRANT_KINDS \<and>
     grant_state g \<in> set GRANT_STATES \<and>
     source_tenant_id g \<noteq> destination_tenant_id g \<and>
     (effective_to g = None \<or> the (effective_to g) > effective_from g) \<and>
     (revoked_at g = None \<and> revocation_reason g = None \<and> revoked_by g = None \<or>
      revoked_at g \<noteq> None \<and> revocation_reason g \<noteq> None \<and> revoked_by g \<noteq> None) \<and>
     (grant_state g = REVOKED) = (revoked_at g \<noteq> None) \<and>
     (grant_state g \<noteq> ACTIVE \<or> length (approving_authorities g) > 0) \<and>
     filter (\<lambda>c. c \<noteq> CHR '' '') (policy_version g) \<noteq> []"

text \<open>The keyword arguments of \<open>propose\<close>.\<close>

record proposal =
  p_source_tenant_id :: uuid
  p_destination_tenant_id :: uuid
  p_grant_kind :: string
  p_profile_types :: "string list"
  p_relationship_types :: "string list"
  p_allowed_operations :: "string list"
  p_classification_ceiling :: string
  p_effective_from :: moment
  p_policy_version :: string
  p_recorded_by :: string
  p_recorded_at :: moment
  p_effective_to :: "moment option"

definition proposed_row :: "uuid \<Rightarrow> proposal \<Rightarrow> grant_row" where
  "proposed_row i p =
     \<lparr>grant_id = i, source_tenant_id = p_source_tenant_id p, destination_tenant_id = p_destination_tenant_id p,
      grant_kind = p_grant_kind p, grant_state = PROPOSED, profile_types = sort (p_profile_types p),
      relationship_types = sort (p_relationship_types p), allowed_operations = sort (p_allowed_operations p),
      classification_ceiling = p_classification_ceiling p, effective_from = p_effective_from p,
      effective_to = p_effective_to p, approval_evidence = None, revoked_at = None, approving_authorities = [],
      revocation_reason = None, revoked_by = None, policy_version = p_policy_version p,
      recorded_by = p_recorded_by p, recorded_at = p_recorded_at p\<rparr>"

definition propose :: "uuid \<Rightarrow> proposal \<Rightarrow> grant_row list \<Rightarrow> grant_error + uuid \<times> grant_row list" where
  "propose i p db =
     (if p_grant_kind p \<notin> set GRANT_KINDS then Inl GrantError
      else if p_source_tenant_id p = p_destination_tenant_id p then Inl GrantError
      else if i \<in> grant_id ` set db \<or> \<not> grant_checks (proposed_row i p) then Inl GrantIntegrityError
      else Inr (i, db @ [proposed_row i p]))"

text \<open>An \<open>UPDATE\<close> that the checks refuse raises and changes nothing.\<close>

definition update_grants :: "(grant_row \<Rightarrow> bool) \<Rightarrow> (grant_row \<Rightarrow> grant_row) \<Rightarrow> grant_row list \<Rightarrow> grant_error + grant_row list" where
  "update_grants sel f db =
     (if \<exists>g \<in> set db. sel g \<and> \<not> grant_checks (f g) then Inl GrantIntegrityError
      else Inr (map (\<lambda>g. if sel g then f g else g) db))"

definition activate :: "uuid \<Rightarrow> string \<Rightarrow> string list \<Rightarrow> grant_row list \<Rightarrow> grant_error + grant_row list" where
  "activate i evidence authorities db =
     (if py_strip evidence = [] then Inl GrantError
      else
        let sel = (\<lambda>g. grant_id g = i \<and> grant_state g = PROPOSED) in
        result_bind
          (update_grants sel
            (\<lambda>g. g\<lparr>grant_state := ACTIVE, approval_evidence := Some evidence,
                   approving_authorities := sort authorities\<rparr>) db)
          (\<lambda>db'. if length (filter sel db) = 0 then Inl GrantError else Inr db'))"

definition revoke :: "uuid \<Rightarrow> string \<Rightarrow> string \<Rightarrow> moment \<Rightarrow> grant_row list \<Rightarrow> grant_error + grant_row list" where
  "revoke i why who now db =
     (if py_strip why = [] then Inl GrantError
      else update_grants (\<lambda>g. grant_id g = i)
             (\<lambda>g. g\<lparr>grant_state := REVOKED, revoked_at := Some now, revocation_reason := Some why,
                    revoked_by := Some who\<rparr>) db)"

definition to_grant :: "grant_row \<Rightarrow> cross_org_grant" where
  "to_grant g = cross_org_grant.truncate g"

definition grants_between :: "uuid \<Rightarrow> uuid \<Rightarrow> grant_row list \<Rightarrow> cross_org_grant list" where
  "grants_between src dst db =
     map to_grant (sort_key (\<lambda>g. - effective_from g)
       (filter (\<lambda>g. source_tenant_id g = src \<and> destination_tenant_id g = dst) db))"

subsection \<open>Decisions\<close>

definition NO_GRANT :: string where "NO_GRANT = ''no_active_grant''"
definition OPERATION_NOT_GRANTED :: string where "OPERATION_NOT_GRANTED = ''operation_not_granted''"
definition TYPE_NOT_GRANTED :: string where "TYPE_NOT_GRANTED = ''type_not_granted''"
definition CLASSIFICATION_ABOVE_CEILING :: string where "CLASSIFICATION_ABOVE_CEILING = ''classification_above_ceiling''"
definition DENIAL_REASONS :: "string list" where
  "DENIAL_REASONS = [NO_GRANT, OPERATION_NOT_GRANTED, TYPE_NOT_GRANTED, CLASSIFICATION_ABOVE_CEILING]"

datatype decision_error = DecisionValueError | DecisionTierError sensitivity_error

record sharing_decision =
  permitted :: bool
  denial :: "string option"
  decision_grant :: "uuid option"

definition decision_post_init :: "sharing_decision \<Rightarrow> decision_error + sharing_decision" where
  "decision_post_init d =
     (if permitted d \<and> denial d \<noteq> None then Inl DecisionValueError
      else if \<not> permitted d \<and> (case denial d of None \<Rightarrow> True | Some r \<Rightarrow> r \<notin> set DENIAL_REASONS)
      then Inl DecisionValueError
      else if \<not> permitted d \<and> decision_grant d \<noteq> None then Inl DecisionValueError
      else Inr d)"

definition type_permitted :: "cross_org_grant \<Rightarrow> string option \<Rightarrow> string option \<Rightarrow> bool" where
  "type_permitted g pt rt =
     (if pt \<noteq> None \<and> the pt \<notin> set (profile_types g) then False
      else \<not> (rt \<noteq> None \<and> the rt \<notin> set (relationship_types g)))"

definition within_ceiling :: "string \<Rightarrow> string option \<Rightarrow> sensitivity_error + bool" where
  "within_ceiling cap c =
     (case c of None \<Rightarrow> Inr True
      | Some v \<Rightarrow> if \<not> is_tier (Some cap) \<or> \<not> is_tier (Some v) then Inr False else at_most v cap)"

record request =
  operation :: string
  profile_type :: "string option"
  relationship_type :: "string option"
  classification :: "string option"

text \<open>The loop over the grants in force; \<open>nearest\<close> is the reason of the last failure.\<close>

fun authorize_loop :: "request \<Rightarrow> string \<Rightarrow> cross_org_grant list \<Rightarrow> decision_error + sharing_decision" where
  "authorize_loop q nearest [] =
     decision_post_init \<lparr>permitted = False, denial = Some nearest, decision_grant = None\<rparr>"
| "authorize_loop q nearest (g # gs) =
     (if operation q \<notin> set (allowed_operations g) then authorize_loop q OPERATION_NOT_GRANTED gs
      else if \<not> type_permitted g (profile_type q) (relationship_type q) then authorize_loop q TYPE_NOT_GRANTED gs
      else case within_ceiling (classification_ceiling g) (classification q) of
          Inl e \<Rightarrow> Inl (DecisionTierError e)
        | Inr ok \<Rightarrow>
            if \<not> ok then authorize_loop q CLASSIFICATION_ABOVE_CEILING gs
            else decision_post_init \<lparr>permitted = True, denial = None, decision_grant = Some (grant_id g)\<rparr>)"

definition authorize :: "cross_org_grant list \<Rightarrow> moment \<Rightarrow> request \<Rightarrow> decision_error + sharing_decision" where
  "authorize grants now q =
     (let none = decision_post_init \<lparr>permitted = False, denial = Some NO_GRANT, decision_grant = None\<rparr> in
      if grants = [] then none
      else
        let in_force = filter (\<lambda>g. is_in_force g now) grants in
        if in_force = [] then none else authorize_loop q NO_GRANT in_force)"

subsection \<open>Scopes of artefacts\<close>

definition DERIVATION_VERSION :: string where "DERIVATION_VERSION = ''derivative-scope-1''"

datatype scope_error = StaleDerivative

record derivative_scope =
  scope_source :: uuid
  scope_destination :: uuid
  scope_digest :: string
  derivation_version :: string

definition cache_key :: "derivative_scope \<Rightarrow> string" where
  "cache_key s = derivation_version s @ '':'' @ scope_source s @ '':'' @ scope_destination s @ '':'' @ scope_digest s"

definition grant_line :: "cross_org_grant \<Rightarrow> string" where
  "grant_line g = py_join ''|''
     [grant_id g, grant_kind g, py_join '','' (sort (profile_types g)), py_join '','' (sort (relationship_types g)),
      py_join '','' (sort (allowed_operations g)), classification_ceiling g]"

definition grant_message :: "cross_org_grant list \<Rightarrow> moment \<Rightarrow> string" where
  "grant_message grants now =
     py_join [CHR 0x0A] (sort (map grant_line (filter (\<lambda>g. is_in_force g now) grants)))"

definition grant_digest :: "(string \<Rightarrow> string) \<Rightarrow> cross_org_grant list \<Rightarrow> moment \<Rightarrow> string" where
  "grant_digest sha grants now = sha (grant_message grants now)"

definition scope_for :: "(string \<Rightarrow> string) \<Rightarrow> uuid \<Rightarrow> uuid \<Rightarrow> cross_org_grant list \<Rightarrow> moment \<Rightarrow> derivative_scope" where
  "scope_for sha src dst grants now =
     \<lparr>scope_source = src, scope_destination = dst, scope_digest = grant_digest sha grants now,
      derivation_version = DERIVATION_VERSION\<rparr>"

definition assert_fresh :: "derivative_scope \<Rightarrow> derivative_scope \<Rightarrow> scope_error + unit" where
  "assert_fresh recorded current = (if recorded \<noteq> current then Inl StaleDerivative else Inr ())"

definition is_fresh :: "derivative_scope \<Rightarrow> derivative_scope \<Rightarrow> bool" where
  "is_fresh recorded current \<longleftrightarrow> recorded = current"

subsection \<open>What a decision means\<close>

text \<open>One grant covers a request when it names the operation and the types and its ceiling is high enough.\<close>

definition covers :: "cross_org_grant \<Rightarrow> request \<Rightarrow> bool" where
  "covers g q \<longleftrightarrow>
     operation q \<in> set (allowed_operations g) \<and>
     (case profile_type q of None \<Rightarrow> True | Some t \<Rightarrow> t \<in> set (profile_types g)) \<and>
     (case relationship_type q of None \<Rightarrow> True | Some t \<Rightarrow> t \<in> set (relationship_types g)) \<and>
     (case classification q of None \<Rightarrow> True
      | Some c \<Rightarrow> (case (tier_rank c, tier_rank (classification_ceiling g)) of (Inr i, Inr j) \<Rightarrow> i \<le> j | _ \<Rightarrow> False))"

text \<open>The first check of the loop that a grant fails.\<close>

definition shortfall :: "request \<Rightarrow> cross_org_grant \<Rightarrow> string" where
  "shortfall q g =
     (if operation q \<notin> set (allowed_operations g) then OPERATION_NOT_GRANTED
      else if \<not> type_permitted g (profile_type q) (relationship_type q) then TYPE_NOT_GRANTED
      else CLASSIFICATION_ABOVE_CEILING)"

abbreviation granted :: "uuid \<Rightarrow> sharing_decision" where
  "granted i \<equiv> \<lparr>permitted = True, denial = None, decision_grant = Some i\<rparr>"

abbreviation refused :: "string \<Rightarrow> sharing_decision" where
  "refused r \<equiv> \<lparr>permitted = False, denial = Some r, decision_grant = None\<rparr>"

lemma is_in_force_iff:
  "is_in_force g now \<longleftrightarrow> grant_state g = ACTIVE \<and> effective_from g \<le> now \<and>
     (case effective_to g of None \<Rightarrow> True | Some t \<Rightarrow> now < t)"
  by (auto simp: is_in_force_def split: option.splits)

lemma decision_post_init_granted [simp]: "decision_post_init (granted i) = Inr (granted i)"
  by (simp add: decision_post_init_def)

lemma decision_post_init_refused [simp]: "r \<in> set DENIAL_REASONS \<Longrightarrow> decision_post_init (refused r) = Inr (refused r)"
  by (simp add: decision_post_init_def)

lemma reasons_legal [simp]:
  "NO_GRANT \<in> set DENIAL_REASONS" "OPERATION_NOT_GRANTED \<in> set DENIAL_REASONS"
  "TYPE_NOT_GRANTED \<in> set DENIAL_REASONS" "CLASSIFICATION_ABOVE_CEILING \<in> set DENIAL_REASONS"
  by (simp_all add: DENIAL_REASONS_def)

lemma within_ceiling_exact:
  "within_ceiling cap c =
     Inr (case c of None \<Rightarrow> True
          | Some v \<Rightarrow> (case (tier_rank v, tier_rank cap) of (Inr i, Inr j) \<Rightarrow> i \<le> j | _ \<Rightarrow> False))"
  using tier_rank_Inr_iff [of cap] tier_rank_Inr_iff [of "the c"]
  by (cases c; cases "tier_rank (the c)"; cases "tier_rank cap") (auto simp: within_ceiling_def at_most_def)

lemma covers_checks:
  "covers g q \<longleftrightarrow> operation q \<in> set (allowed_operations g) \<and>
     type_permitted g (profile_type q) (relationship_type q) \<and>
     within_ceiling (classification_ceiling g) (classification q) = Inr True"
  by (auto simp: covers_def type_permitted_def within_ceiling_exact split: option.splits)

lemma authorize_loop_exact:
  assumes "nearest \<in> set DENIAL_REASONS"
  shows "authorize_loop q nearest gs =
    Inr (case find (\<lambda>g. covers g q) gs of
           Some g \<Rightarrow> granted (grant_id g)
         | None \<Rightarrow> refused (if gs = [] then nearest else shortfall q (last gs)))"
  using assms
proof (induction gs arbitrary: nearest)
  case Nil
  then show ?case by simp
next
  case (Cons g gs)
  obtain ok where ok: "within_ceiling (classification_ceiling g) (classification q) = Inr ok"
    using within_ceiling_exact by blast
  show ?case
    using ok covers_checks [of g q] shortfall_def [of q g] by (auto simp: Cons.IH split: option.splits if_splits)
qed

lemma find_filter: "find P (filter Q xs) = find (\<lambda>x. Q x \<and> P x) xs"
  by (induction xs) auto

lemma find_None_filter: "filter Q xs = [] \<Longrightarrow> find (\<lambda>x. Q x \<and> P x) xs = None"
  by (auto simp: find_None_iff filter_empty_conv)

lemma authorize_eq:
  "authorize grants now q =
     Inr (case find (\<lambda>g. is_in_force g now \<and> covers g q) grants of
            Some g \<Rightarrow> granted (grant_id g)
          | None \<Rightarrow> refused (let live = filter (\<lambda>g. is_in_force g now) grants in
                             if live = [] then NO_GRANT else shortfall q (last live)))"
  by (auto simp: authorize_def Let_def authorize_loop_exact find_filter find_None_filter split: option.split)


subsection \<open>The life of a grant\<close>

inductive grant_step :: "grant_row list \<Rightarrow> grant_row list \<Rightarrow> bool" where
  proposing: "propose i p db = Inr (j, db') \<Longrightarrow> grant_step db db'"
| activating: "activate i evidence authorities db = Inr db' \<Longrightarrow> grant_step db db'"
| revoking: "revoke i why who now db = Inr db' \<Longrightarrow> grant_step db db'"

inductive_cases grant_stepE: "grant_step db db'"

definition row_ok :: "grant_row \<Rightarrow> bool" where
  "row_ok g \<longleftrightarrow> grant_checks g \<and> grant_state g \<noteq> EXPIRED \<and>
     (grant_state g = ACTIVE \<longrightarrow> (case approval_evidence g of None \<Rightarrow> False | Some e \<Rightarrow> py_strip e \<noteq> []))"

definition grants_ok :: "grant_row list \<Rightarrow> bool" where
  "grants_ok db \<longleftrightarrow> distinct (map grant_id db) \<and> (\<forall>g \<in> set db. row_ok g)"

lemma states_differ [simp]:
  "PROPOSED \<noteq> ACTIVE" "ACTIVE \<noteq> PROPOSED" "PROPOSED \<noteq> REVOKED" "REVOKED \<noteq> PROPOSED" "ACTIVE \<noteq> REVOKED" "REVOKED \<noteq> ACTIVE"
  "PROPOSED \<noteq> EXPIRED" "ACTIVE \<noteq> EXPIRED" "REVOKED \<noteq> EXPIRED"
  by (simp_all add: PROPOSED_def ACTIVE_def REVOKED_def EXPIRED_def)

lemma update_grants_Inr:
  assumes "update_grants sel f db = Inr db'"
  shows "db' = map (\<lambda>g. if sel g then f g else g) db" "\<And>g. g \<in> set db \<Longrightarrow> sel g \<Longrightarrow> grant_checks (f g)"
  using assms by (auto simp: update_grants_def split: if_splits)

lemma activate_Inr:
  assumes "activate i evidence authorities db = Inr db'"
  shows "py_strip evidence \<noteq> []"
    "update_grants (\<lambda>g. grant_id g = i \<and> grant_state g = PROPOSED)
       (\<lambda>g. g\<lparr>grant_state := ACTIVE, approval_evidence := Some evidence, approving_authorities := sort authorities\<rparr>) db = Inr db'"
  using assms by (auto simp: activate_def Let_def result_bind_eq_Inr split: if_splits)

lemma revoke_Inr:
  assumes "revoke i why who now db = Inr db'"
  shows "update_grants (\<lambda>g. grant_id g = i)
     (\<lambda>g. g\<lparr>grant_state := REVOKED, revoked_at := Some now, revocation_reason := Some why, revoked_by := Some who\<rparr>) db = Inr db'"
  using assms by (auto simp: revoke_def split: if_splits)

lemma propose_Inr:
  assumes "propose i p db = Inr (j, db')"
  shows "db' = db @ [proposed_row i p]" "j = i" "i \<notin> grant_id ` set db" "grant_checks (proposed_row i p)"
  using assms by (auto simp: propose_def split: if_splits)

lemma update_grants_ok:
  assumes "update_grants sel f db = Inr db'" "grants_ok db"
    and "\<And>g. grant_id (f g) = grant_id g"
    and "\<And>g. g \<in> set db \<Longrightarrow> sel g \<Longrightarrow> grant_checks (f g) \<Longrightarrow> row_ok (f g)"
  shows "grants_ok db'"
proof -
  note upd = update_grants_Inr [OF assms(1)]
  have "map grant_id db' = map grant_id db" using assms(3) by (simp add: upd(1))
  moreover have "\<forall>g \<in> set db'. row_ok g" using assms(2,4) upd(2) by (auto simp: upd(1) grants_ok_def)
  ultimately show ?thesis using assms(2) by (simp add: grants_ok_def)
qed

lemma grant_step_ok:
  assumes "grant_step db db'" "grants_ok db"
  shows "grants_ok db'"
  using assms(1)
proof (cases rule: grant_step.cases)
  case (proposing i p j)
  note new = propose_Inr [OF proposing]
  have "row_ok (proposed_row i p)" using new(4) by (simp add: row_ok_def proposed_row_def)
  moreover have "grant_id (proposed_row i p) = i" by (simp add: proposed_row_def)
  ultimately show ?thesis using assms(2) new by (simp add: grants_ok_def)
next
  case (activating i evidence authorities)
  note act = activate_Inr [OF activating]
  show ?thesis by (rule update_grants_ok [OF act(2) assms(2)]) (simp_all add: row_ok_def act(1))
next
  case (revoking i why who now)
  show ?thesis by (rule update_grants_ok [OF revoke_Inr [OF revoking] assms(2)]) (simp_all add: row_ok_def)
qed

lemma grant_steps_ok: "grant_step\<^sup>*\<^sup>* db db' \<Longrightarrow> grants_ok db \<Longrightarrow> grants_ok db'"
  by (induction rule: rtranclp_induct) (auto intro: grant_step_ok)

lemma no_grants_ok [simp]: "grants_ok []"
  by (simp add: grants_ok_def)

lemma to_grant_simps [simp]:
  "grant_id (to_grant g) = grant_id g" "grant_state (to_grant g) = grant_state g"
  "is_in_force (to_grant g) now = is_in_force g now"
  by (simp_all add: to_grant_def cross_org_grant.truncate_def is_in_force_def)

lemma grants_between_member:
  "g \<in> set (grants_between s d db) \<longleftrightarrow>
     (\<exists>r \<in> set db. source_tenant_id r = s \<and> destination_tenant_id r = d \<and> g = to_grant r)"
  by (auto simp: grants_between_def)

lemma authorize_names:
  assumes "authorize (grants_between s d db) now q = Inr dec" "decision_grant dec = Some i"
  obtains r where "r \<in> set db" "source_tenant_id r = s" "destination_tenant_id r = d" "grant_id r = i"
    "is_in_force r now" "covers (to_grant r) q"
  using assms by (auto simp: authorize_eq Let_def find_Some_iff grants_between_member split: option.splits
      dest!: nth_mem)

lemma permitted_iff_named: "authorize gs now q = Inr dec \<Longrightarrow> permitted dec \<longleftrightarrow> decision_grant dec \<noteq> None"
  by (auto simp: authorize_eq Let_def split: option.splits)

lemma row_ok_active:
  assumes "row_ok g" "is_in_force g now"
  shows "approving_authorities g \<noteq> []" "revoked_at g = None" "source_tenant_id g \<noteq> destination_tenant_id g"
    "\<exists>e. approval_evidence g = Some e \<and> py_strip e \<noteq> []"
  using assms by (auto simp: row_ok_def grant_checks_def is_in_force_iff split: option.splits)

text \<open>
  C25. Whatever happened to the table of grants, a permitted operation between two organisations rests on one grant of the
  table, between these two in this direction and in force at that moment, that covers the request, that was approved
  with evidence by at least one authority, and that has not been revoked.
\<close>

theorem permitted_needs_approval:
  assumes "grant_step\<^sup>*\<^sup>* [] db" "authorize (grants_between s d db) now q = Inr dec" "permitted dec"
  shows "\<exists>g \<in> set db. decision_grant dec = Some (grant_id g) \<and> source_tenant_id g = s \<and> destination_tenant_id g = d \<and> s \<noteq> d \<and>
    is_in_force g now \<and> covers (to_grant g) q \<and> approving_authorities g \<noteq> [] \<and> revoked_at g = None \<and>
    (\<exists>e. approval_evidence g = Some e \<and> py_strip e \<noteq> [])"
proof -
  from assms(2,3) obtain i where i: "decision_grant dec = Some i" using permitted_iff_named by blast
  obtain r where r: "r \<in> set db" "source_tenant_id r = s" "destination_tenant_id r = d" "grant_id r = i"
      "is_in_force r now" "covers (to_grant r) q"
    by (rule authorize_names [OF assms(2) i])
  from grant_steps_ok [OF assms(1)] r(1) have "row_ok r" by (simp add: grants_ok_def)
  note row_ok_active [OF this r(5)]
  with r i show ?thesis by (intro bexI [of _ r]) simp_all
qed

subsection \<open>Revocation\<close>

definition withdrawn :: "uuid \<Rightarrow> grant_row list \<Rightarrow> bool" where
  "withdrawn i db \<longleftrightarrow> i \<in> grant_id ` set db \<and> (\<forall>g \<in> set db. grant_id g = i \<longrightarrow> grant_state g = REVOKED)"

lemma withdrawn_map:
  assumes "withdrawn i db" "\<And>g. grant_id (f g) = grant_id g" "\<And>g. grant_state g = REVOKED \<Longrightarrow> grant_state (f g) = REVOKED"
  shows "withdrawn i (map f db)"
proof -
  have "grant_id ` set (map f db) = grant_id ` set db" using assms(2) by (simp add: image_image)
  with assms show ?thesis by (auto simp: withdrawn_def)
qed

lemma withdrawn_step:
  assumes "grant_step db db'" "withdrawn i db"
  shows "withdrawn i db'"
  using assms(1)
proof (cases rule: grant_step.cases)
  case (proposing k p j)
  note new = propose_Inr [OF proposing]
  have "grant_id (proposed_row k p) = k" by (simp add: proposed_row_def)
  with new assms(2) show ?thesis by (auto simp: withdrawn_def)
next
  case (activating k evidence authorities)
  note act = update_grants_Inr(1) [OF activate_Inr(2) [OF activating]]
  show ?thesis unfolding act by (rule withdrawn_map [OF assms(2)]) simp_all
next
  case (revoking k why who now)
  note rvk = update_grants_Inr(1) [OF revoke_Inr [OF revoking]]
  show ?thesis unfolding rvk by (rule withdrawn_map [OF assms(2)]) simp_all
qed

lemma withdrawn_steps: "grant_step\<^sup>*\<^sup>* db db' \<Longrightarrow> withdrawn i db \<Longrightarrow> withdrawn i db'"
  by (induction rule: rtranclp_induct) (auto intro: withdrawn_step)

lemma revoke_withdraws:
  assumes "revoke i why who t db = Inr db'" "i \<in> grant_id ` set db"
  shows "withdrawn i db'"
proof -
  note rvk = update_grants_Inr(1) [OF revoke_Inr [OF assms(1)]]
  have "map grant_id db' = map grant_id db" by (simp add: rvk)
  then have "grant_id ` set db' = grant_id ` set db" by (metis set_map)
  moreover have "\<forall>g \<in> set db'. grant_id g = i \<longrightarrow> grant_state g = REVOKED" unfolding rvk by (simp del: if_image_distrib)
  ultimately show ?thesis using assms(2) by (simp add: withdrawn_def)
qed

lemma withdrawn_not_in_force: "withdrawn i db \<Longrightarrow> g \<in> set db \<Longrightarrow> grant_id g = i \<Longrightarrow> \<not> is_in_force g now"
  by (auto simp: withdrawn_def is_in_force_iff)

text \<open>
  Revocation is immediate and final: once a grant has been revoked, no decision ever names it again, at any instant,
  whatever else happens to the table, activation included.
\<close>

theorem revocation_final:
  assumes "revoke i why who t db = Inr db'" "i \<in> grant_id ` set db" "grant_step\<^sup>*\<^sup>* db' later"
    and "authorize (grants_between s d later) now q = Inr dec"
  shows "decision_grant dec \<noteq> Some i"
proof
  assume "decision_grant dec = Some i"
  then obtain r where "r \<in> set later" "grant_id r = i" "is_in_force r now"
    using authorize_names [OF assms(4)] by metis
  with withdrawn_not_in_force withdrawn_steps [OF assms(3) revoke_withdraws [OF assms(1,2)]] show False by blast
qed

subsection \<open>Scopes and permissions\<close>

text \<open>A name the digest can hold: not empty and without the three separators.\<close>

definition plain :: "string \<Rightarrow> bool" where
  "plain s \<longleftrightarrow> s \<noteq> [] \<and> CHR ''|'' \<notin> set s \<and> CHR '','' \<notin> set s \<and> CHR 0x0A \<notin> set s"

definition plain_grant :: "'a cross_org_grant_scheme \<Rightarrow> bool" where
  "plain_grant g \<longleftrightarrow> plain (grant_id g) \<and> plain (grant_kind g) \<and> plain (classification_ceiling g) \<and>
     list_all plain (profile_types g) \<and> list_all plain (relationship_types g) \<and> list_all plain (allowed_operations g)"

lemma joined_plain:
  assumes "list_all plain ws" "c \<noteq> CHR '',''" "\<forall>w. plain w \<longrightarrow> c \<notin> set w"
  shows "c \<notin> set (py_join '','' (sort ws))"
  using assms set_py_join [of "'',''" "sort ws"] by (fastforce simp: list_all_iff)

lemma joined_inj:
  assumes "py_join '','' (sort ws) = py_join '','' (sort vs)" "list_all plain ws" "list_all plain vs"
  shows "set ws = set vs"
proof -
  have "sort ws = sort vs" by (rule py_join_inj [OF assms(1)]) (use assms(2,3) in \<open>auto simp: list_all_iff plain_def\<close>)
  then show ?thesis by (metis set_sort)
qed

definition line_parts :: "cross_org_grant \<Rightarrow> string list" where
  "line_parts g = [grant_id g, grant_kind g, py_join '','' (sort (profile_types g)),
     py_join '','' (sort (relationship_types g)), py_join '','' (sort (allowed_operations g)), classification_ceiling g]"

lemma line_parts_free:
  assumes "plain_grant g" "c = CHR ''|'' \<or> c = CHR 0x0A"
  shows "\<forall>w \<in> set (line_parts g). c \<notin> set w"
proof -
  have "\<forall>w. plain w \<longrightarrow> c \<notin> set w" "c \<noteq> CHR '',''" using assms(2) by (auto simp: plain_def)
  then show ?thesis using assms(1) joined_plain [of _ c] unfolding line_parts_def plain_grant_def by auto
qed

lemma grant_line_free: "plain_grant g \<Longrightarrow> CHR 0x0A \<notin> set (grant_line g)"
  using line_parts_free [of g "CHR 0x0A"] set_py_join [of "''|''" "line_parts g"]
  unfolding grant_line_def line_parts_def [symmetric] by auto

lemma grant_line_inj:
  assumes "grant_line g = grant_line h" "plain_grant g" "plain_grant h"
  shows "grant_id g = grant_id h" "covers g q = covers h q"
proof -
  have "py_split CHR ''|'' (grant_line x) = line_parts x" if "plain_grant x" for x
    unfolding grant_line_def line_parts_def [symmetric]
    by (rule py_split_join) (use that line_parts_free [of x "CHR ''|''"] in \<open>simp_all add: line_parts_def\<close>)
  from this [OF assms(2)] this [OF assms(3)] have "line_parts g = line_parts h" by (simp add: assms(1))
  then have parts: "grant_id g = grant_id h" "classification_ceiling g = classification_ceiling h"
      "py_join '','' (sort (profile_types g)) = py_join '','' (sort (profile_types h))"
      "py_join '','' (sort (relationship_types g)) = py_join '','' (sort (relationship_types h))"
      "py_join '','' (sort (allowed_operations g)) = py_join '','' (sort (allowed_operations h))"
    by (simp_all add: line_parts_def)
  show "grant_id g = grant_id h" by (rule parts)
  have "set (profile_types g) = set (profile_types h)" "set (relationship_types g) = set (relationship_types h)"
      "set (allowed_operations g) = set (allowed_operations h)"
    using joined_inj [OF parts(3)] joined_inj [OF parts(4)] joined_inj [OF parts(5)] assms(2,3)
    by (simp_all add: plain_grant_def)
  then show "covers g q = covers h q" unfolding covers_def parts(2) by (simp split: option.split)
qed

lemma grant_line_ne [simp]: "plain_grant g \<Longrightarrow> grant_line g \<noteq> []"
  by (simp add: grant_line_def py_join_def plain_grant_def plain_def)

lemma grant_message_lines:
  assumes "grant_message old t = grant_message new t'" "\<forall>g \<in> set old \<union> set new. plain_grant g"
  shows "grant_line ` {g \<in> set old. is_in_force g t} = grant_line ` {g \<in> set new. is_in_force g t'}"
proof -
  have "sort (map grant_line (filter (\<lambda>g. is_in_force g t) old)) = sort (map grant_line (filter (\<lambda>g. is_in_force g t') new))"
    by (rule py_join_inj [OF assms(1) [unfolded grant_message_def]]) (use assms(2) grant_line_free in auto)
  then have "set (map grant_line (filter (\<lambda>g. is_in_force g t) old)) = set (map grant_line (filter (\<lambda>g. is_in_force g t') new))"
    by (metis set_sort)
  then show ?thesis by simp
qed

lemma fresh_counterpart:
  assumes "inj sha" "\<forall>g \<in> set old \<union> set new. plain_grant g"
    and "is_fresh (scope_for sha s d old t) (scope_for sha s d new t')"
    and "g \<in> set old" "is_in_force g t"
  obtains h where "h \<in> set new" "is_in_force h t'" "grant_id h = grant_id g" "\<And>q. covers h q = covers g q"
proof -
  have "grant_message old t = grant_message new t'"
    using assms(1,3) by (auto simp: is_fresh_def scope_for_def grant_digest_def dest: injD)
  then have "grant_line g \<in> grant_line ` {g \<in> set new. is_in_force g t'}"
    using grant_message_lines [OF _ assms(2)] assms(4,5) by blast
  then obtain h where h: "h \<in> set new" "is_in_force h t'" "grant_line g = grant_line h" by blast
  with grant_line_inj [OF h(3)] assms(2,4) that show ?thesis by (metis UnCI)
qed

text \<open>
  C27. A fresh artefact was built under the permissions that hold now: if the scope recorded at \<open>t\<close> equals the one computed at
  \<open>t'\<close>, every request is permitted by the grants of \<open>t'\<close> exactly when those of \<open>t\<close> permitted it. SHA-256 is taken to be free of
  collisions, and the names in the grants to be free of the separators the digest uses.
\<close>

theorem fresh_scope_same_permissions:
  assumes "inj sha" "\<forall>g \<in> set old \<union> set new. plain_grant g"
    and "is_fresh (scope_for sha s d old t) (scope_for sha s d new t')"
  shows "\<exists>before after. authorize old t q = Inr before \<and> authorize new t' q = Inr after \<and> permitted before = permitted after"
proof -
  have perm: "\<exists>dec. authorize gs u q = Inr dec \<and> permitted dec = (\<exists>g \<in> set gs. is_in_force g u \<and> covers g q)" for gs u
  proof (cases "find (\<lambda>g. is_in_force g u \<and> covers g q) gs")
    case None
    then have "\<not> (\<exists>g \<in> set gs. is_in_force g u \<and> covers g q)" by (auto simp: find_None_iff)
    then show ?thesis unfolding authorize_eq None by simp
  next
    case (Some g)
    from Some have "g \<in> set gs" "is_in_force g u" "covers g q" by (auto simp: find_Some_iff)
    then show ?thesis unfolding authorize_eq Some by auto
  qed
  have conv: "is_fresh (scope_for sha s d new t') (scope_for sha s d old t)" using assms(3) by (simp add: is_fresh_def)
  have "(\<exists>g \<in> set old. is_in_force g t \<and> covers g q) \<longleftrightarrow> (\<exists>g \<in> set new. is_in_force g t' \<and> covers g q)"
    using fresh_counterpart [OF assms] fresh_counterpart [OF assms(1) _ conv] assms(2) by (metis Un_commute)
  with perm [of old t] perm [of new t'] show ?thesis by auto
qed

text \<open>
  C26. Revocation reaches every artefact built under the grant: a scope recorded while the grant was in force is
  refused as stale at any time after the revocation, whatever else happened to the table. The hash is taken to be injective and
  the names in grants to be free of the separators the digest puts between them.
\<close>

theorem revoked_scope_is_stale:
  assumes "inj sha" "\<forall>g \<in> set db \<union> set later. plain_grant g"
    and "g \<in> set db" "source_tenant_id g = s" "destination_tenant_id g = d" "is_in_force g t"
    and "revoke (grant_id g) why who u db = Inr db'" "grant_step\<^sup>*\<^sup>* db' later"
  shows "assert_fresh (scope_for sha s d (grants_between s d db) t) (scope_for sha s d (grants_between s d later) t') =
    Inl StaleDerivative"
proof (rule ccontr)
  assume "\<not> ?thesis"
  then have fresh: "is_fresh (scope_for sha s d (grants_between s d db) t) (scope_for sha s d (grants_between s d later) t')"
    by (simp add: assert_fresh_def is_fresh_def split: if_splits)
  have plain: "\<forall>x \<in> set (grants_between s d db) \<union> set (grants_between s d later). plain_grant x"
    using assms(2) by (auto simp: grants_between_member plain_grant_def to_grant_def cross_org_grant.truncate_def)
  have "to_grant g \<in> set (grants_between s d db)" using assms(3-5) by (auto simp: grants_between_member)
  from fresh_counterpart [OF assms(1) plain fresh this] assms(6)
  obtain h where "h \<in> set (grants_between s d later)" "is_in_force h t'" "grant_id h = grant_id g" by auto
  then obtain r where "r \<in> set later" "grant_id r = grant_id g" "is_in_force r t'" by (auto simp: grants_between_member)
  moreover have "withdrawn (grant_id g) later"
    by (rule withdrawn_steps [OF assms(8) revoke_withdraws [OF assms(7)]]) (use assms(3) in simp)
  ultimately show False using withdrawn_not_in_force by blast
qed

subsection \<open>A concrete history\<close>

definition sample_proposal :: proposal where
  "sample_proposal = \<lparr>p_source_tenant_id = ''acme'', p_destination_tenant_id = ''globex'', p_grant_kind = ''context'',
     p_profile_types = [''team''], p_relationship_types = [], p_allowed_operations = [''read''],
     p_classification_ceiling = ''internal'', p_effective_from = 0, p_policy_version = ''p1'', p_recorded_by = ''ana'',
     p_recorded_at = 0, p_effective_to = None\<rparr>"

definition sample_proposed :: "grant_row list" where
  "sample_proposed = [proposed_row ''g1'' sample_proposal]"

definition sample_active :: "grant_row list" where
  "sample_active = [(proposed_row ''g1'' sample_proposal)\<lparr>grant_state := ACTIVE, approval_evidence := Some ''ticket 7'',
     approving_authorities := [''legal'']\<rparr>]"

definition sample_revoked :: "grant_row list" where
  "sample_revoked = [(hd sample_active)\<lparr>grant_state := REVOKED, revoked_at := Some 5, revocation_reason := Some ''left'',
     revoked_by := Some ''ana''\<rparr>]"

definition sample_request :: request where
  "sample_request = \<lparr>operation = ''read'', profile_type = Some ''team'', relationship_type = None, classification = Some ''public''\<rparr>"

lemma sample_grant_steps:
  "propose ''g1'' sample_proposal [] = Inr (''g1'', sample_proposed)"
  "activate ''g1'' ''ticket 7'' [''legal''] sample_proposed = Inr sample_active"
  "revoke ''g1'' ''left'' ''ana'' 5 sample_active = Inr sample_revoked"
  by code_simp+

lemma sample_grant_run: "grant_step\<^sup>*\<^sup>* [] sample_active"
proof -
  have "grant_step [] sample_proposed" by (rule grant_step.proposing [OF sample_grant_steps(1)])
  moreover have "grant_step sample_proposed sample_active" by (rule grant_step.activating [OF sample_grant_steps(2)])
  ultimately show ?thesis by (meson r_into_rtranclp rtranclp_trans)
qed

theorem permitted_needs_approval_witness:
  "authorize (grants_between ''acme'' ''globex'' sample_active) 3 sample_request = Inr (granted ''g1'') \<and>
   (\<exists>g \<in> set sample_active. grant_id g = ''g1'' \<and> approving_authorities g \<noteq> [])"
proof
  show auth: "authorize (grants_between ''acme'' ''globex'' sample_active) 3 sample_request = Inr (granted ''g1'')" by code_simp
  from permitted_needs_approval [OF sample_grant_run auth]
  show "\<exists>g \<in> set sample_active. grant_id g = ''g1'' \<and> approving_authorities g \<noteq> []" by auto
qed

theorem revocation_final_witness:
  "\<exists>dec. authorize (grants_between ''acme'' ''globex'' sample_revoked) 6 sample_request = Inr dec \<and> decision_grant dec \<noteq> Some ''g1''"
proof -
  have auth: "authorize (grants_between ''acme'' ''globex'' sample_revoked) 6 sample_request = Inr (refused NO_GRANT)" by code_simp
  have "''g1'' \<in> grant_id ` set sample_active" by code_simp
  from revocation_final [OF sample_grant_steps(3) this rtranclp.rtrancl_refl auth] auth show ?thesis by blast
qed

lemma sample_plain: "list_all plain_grant (sample_active @ sample_revoked)"
  "list_all plain_grant (grants_between ''acme'' ''globex'' sample_active)"
  by code_simp+

theorem fresh_scope_same_permissions_witness:
  "\<exists>before after. authorize (grants_between ''acme'' ''globex'' sample_active) 3 sample_request = Inr before \<and>
     authorize (grants_between ''acme'' ''globex'' sample_active) 4 sample_request = Inr after \<and> permitted before = permitted after"
proof (rule fresh_scope_same_permissions [of id])
  show "is_fresh (scope_for id ''acme'' ''globex'' (grants_between ''acme'' ''globex'' sample_active) 3)
      (scope_for id ''acme'' ''globex'' (grants_between ''acme'' ''globex'' sample_active) 4)" by code_simp
qed (use sample_plain(2) in \<open>simp_all add: list_all_iff\<close>)

theorem revoked_scope_is_stale_witness:
  "assert_fresh (scope_for id ''acme'' ''globex'' (grants_between ''acme'' ''globex'' sample_active) 3)
     (scope_for id ''acme'' ''globex'' (grants_between ''acme'' ''globex'' sample_revoked) 6) = Inl StaleDerivative"
proof (rule revoked_scope_is_stale [of id sample_active sample_revoked "hd sample_active"])
  show "\<forall>g \<in> set sample_active \<union> set sample_revoked. plain_grant g" using sample_plain(1) by (auto simp: list_all_iff)
  show "hd sample_active \<in> set sample_active" "source_tenant_id (hd sample_active) = ''acme''"
    "destination_tenant_id (hd sample_active) = ''globex''" "is_in_force (hd sample_active) 3" by code_simp+
  have "grant_id (hd sample_active) = ''g1''" by code_simp
  then show "revoke (grant_id (hd sample_active)) ''left'' ''ana'' 5 sample_active = Inr sample_revoked"
    using sample_grant_steps(3) by simp
qed simp_all

end
