(* ===== verification/Context_Envelope.thy ===== *)
theory Context_Envelope
  imports Sensitivity
begin

section \<open>Context items, blocks and envelopes\<close>

text \<open>
  The model of \<open>contextplane/context/schemas/trust.py\<close>, \<open>contextplane/context/schemas/envelope.py\<close> and
  \<open>contextplane/context/quality.py\<close>: what a context item says about itself, the five blocks of an answer, and
  the state and the quality that are derived from the blocks. A constructor that validates is a
  function from the raw record to a result. The constructors of \<open>context_error\<close> are the places that raise; their
  texts are a parameter of whoever shows them.
\<close>

subsection \<open>Trust\<close>

definition TRUST_ATTESTED :: string where "TRUST_ATTESTED = ''attested''"
definition TRUST_ASSERTED :: string where "TRUST_ASSERTED = ''asserted''"
definition TRUST_OBSERVED :: string where "TRUST_OBSERVED = ''observed''"
definition TRUST_DERIVED :: string where "TRUST_DERIVED = ''derived''"
definition TRUST_LEVELS :: "string list" where
  "TRUST_LEVELS = [TRUST_ATTESTED, TRUST_ASSERTED, TRUST_OBSERVED, TRUST_DERIVED]"
definition ASSERTION_KINDS :: "string list" where
  "ASSERTION_KINDS = [''fact'', ''measurement'', ''intent'', ''policy'', ''annotation'']"
definition MUTABILITIES :: "string list" where "MUTABILITIES = [''immutable'', ''mutable'', ''unknown'']"
definition CLASSIFICATIONS :: "string list" where "CLASSIFICATIONS = TIERS"

datatype invalid_cause =
    UnknownTrustLevel | UnknownAssertionKind | UnknownMutability | UnknownClassification | NoSource | NoAuthority
  | NaiveFreshness | NoReferencePart string | NaiveObservedAt | NoReceiptPart string | ReasonMismatch | DegradedCacheable
  | UnknownBlock string | UnknownBlockState | NoReason | EmptyWithItems | SuccessWithoutItems | FailedWithItems
  | ItemWithoutTrust | CanonicalWithTrust | WrongBlocks | WrongState | WrongQuality

datatype context_error =
    InvalidContextItem invalid_cause
  | ContextValueError
  | ContextTypeError
  | ContextOverflowError
  | ContextKeyError

record trust_metadata =
  trust_level :: string
  trust_source :: string
  assertion_kind :: string
  authority :: string
  freshness :: "py_datetime option"
  mutability :: string
  attribution :: "string option"
  trust_classification :: string

definition trust_post_init :: "trust_metadata \<Rightarrow> context_error + trust_metadata" where
  "trust_post_init t =
     (if trust_level t \<notin> set TRUST_LEVELS then Inl (InvalidContextItem UnknownTrustLevel)
      else if assertion_kind t \<notin> set ASSERTION_KINDS then Inl (InvalidContextItem UnknownAssertionKind)
      else if mutability t \<notin> set MUTABILITIES then Inl (InvalidContextItem UnknownMutability)
      else if trust_classification t \<notin> set CLASSIFICATIONS then Inl (InvalidContextItem UnknownClassification)
      else if py_strip (trust_source t) = [] then Inl (InvalidContextItem NoSource)
      else if py_strip (authority t) = [] then Inl (InvalidContextItem NoAuthority)
      else if freshness t \<noteq> None \<and> is_naive (the (freshness t)) then Inl (InvalidContextItem NaiveFreshness)
      else Inr t)"

definition digest :: "(string \<Rightarrow> string) \<Rightarrow> string list \<Rightarrow> context_error + string" where
  "digest sha parts = result_map (\<lambda>ps. sha (concat ps)) (traverse (length_prefixed ContextOverflowError) parts)"

record external_reference =
  source_system :: string
  source_namespace :: string
  ref_kind :: string
  external_id :: string
  ref_classification :: string
  external_authority :: string
  revision :: "string option"
  authorized_uri :: "string option"
  observed_at :: "py_datetime option"

definition reference_post_init :: "external_reference \<Rightarrow> context_error + external_reference" where
  "reference_post_init r =
     (case find (\<lambda>(n, v). py_strip v = [])
        [(''source_system'', source_system r), (''source_namespace'', source_namespace r),
         (''kind'', ref_kind r), (''external_id'', external_id r)] of
        Some (n, _) \<Rightarrow> Inl (InvalidContextItem (NoReferencePart n))
      | None \<Rightarrow>
          if ref_classification r \<notin> set CLASSIFICATIONS then Inl (InvalidContextItem UnknownClassification)
          else if observed_at r \<noteq> None \<and> is_naive (the (observed_at r)) then Inl (InvalidContextItem NaiveObservedAt)
          else Inr r)"

definition collision_key :: "(string \<Rightarrow> string) \<Rightarrow> external_reference \<Rightarrow> context_error + string" where
  "collision_key sha r = digest sha [source_system r, source_namespace r, ref_kind r, external_id r]"

record receipt_item_id =
  rid_block :: string
  rid_source :: string
  rid_item_key :: string

definition receipt_item_post_init :: "receipt_item_id \<Rightarrow> context_error + receipt_item_id" where
  "receipt_item_post_init r =
     (case find (\<lambda>(n, v). py_strip v = [])
        [(''block'', rid_block r), (''source'', rid_source r), (''item_key'', rid_item_key r)] of
        Some (n, _) \<Rightarrow> Inl (InvalidContextItem (NoReceiptPart n))
      | None \<Rightarrow> Inr r)"

definition receipt_item_value :: "(string \<Rightarrow> string) \<Rightarrow> receipt_item_id \<Rightarrow> context_error + string" where
  "receipt_item_value sha r = digest sha [rid_block r, rid_source r, rid_item_key r]"

record quality_state =
  degraded_blocks :: "string list"
  reasons :: "string list"
  cacheable :: bool

definition quality_post_init :: "quality_state \<Rightarrow> context_error + quality_state" where
  "quality_post_init q =
     (if length (degraded_blocks q) \<noteq> length (reasons q) then Inl (InvalidContextItem ReasonMismatch)
      else if degraded_blocks q \<noteq> [] \<and> cacheable q then Inl (InvalidContextItem DegradedCacheable)
      else Inr q)"

subsection \<open>Blocks\<close>

definition BLOCK_SUCCESS :: string where "BLOCK_SUCCESS = ''success''"
definition BLOCK_EMPTY :: string where "BLOCK_EMPTY = ''empty''"
definition BLOCK_DEGRADED :: string where "BLOCK_DEGRADED = ''degraded''"
definition BLOCK_FAILED :: string where "BLOCK_FAILED = ''failed''"
definition BLOCK_STATES :: "string list" where
  "BLOCK_STATES = [BLOCK_SUCCESS, BLOCK_EMPTY, BLOCK_DEGRADED, BLOCK_FAILED]"

definition ENVELOPE_COMPLETE :: string where "ENVELOPE_COMPLETE = ''complete''"
definition ENVELOPE_DEGRADED :: string where "ENVELOPE_DEGRADED = ''degraded''"
definition ENVELOPE_BLOCKED :: string where "ENVELOPE_BLOCKED = ''blocked''"

definition BLOCK_CANONICAL :: string where "BLOCK_CANONICAL = ''canonical''"
definition BLOCK_ARC :: string where "BLOCK_ARC = ''arc''"
definition BLOCK_OBSERVED_CLAIMS :: string where "BLOCK_OBSERVED_CLAIMS = ''observed_claims''"
definition BLOCK_WORKSPACE :: string where "BLOCK_WORKSPACE = ''workspace''"
definition BLOCK_INSTRUCTIONS :: string where "BLOCK_INSTRUCTIONS = ''instructions''"
definition BLOCK_NAMES :: "string list" where
  "BLOCK_NAMES = [BLOCK_CANONICAL, BLOCK_ARC, BLOCK_OBSERVED_CLAIMS, BLOCK_WORKSPACE, BLOCK_INSTRUCTIONS]"
definition NON_CANONICAL_BLOCKS :: "string list" where
  "NON_CANONICAL_BLOCKS = [BLOCK_ARC, BLOCK_OBSERVED_CLAIMS, BLOCK_WORKSPACE, BLOCK_INSTRUCTIONS]"

record context_item =
  item_id :: receipt_item_id
  payload :: "(string \<times> json) list"
  trust :: "trust_metadata option"

record context_block =
  name :: string
  state :: string
  items :: "context_item list"
  reason :: "string option"

text \<open>
  The message for an item without trust shows the id of the item, whose digest may itself raise.
\<close>

fun check_trusts :: "(string \<Rightarrow> string) \<Rightarrow> context_item list \<Rightarrow> context_error + unit" where
  "check_trusts sha [] = Inr ()"
| "check_trusts sha (i # is) =
     (if trust i = None
      then result_bind (receipt_item_value sha (item_id i)) (\<lambda>_. Inl (InvalidContextItem ItemWithoutTrust))
      else check_trusts sha is)"

definition block_post_init :: "(string \<Rightarrow> string) \<Rightarrow> context_block \<Rightarrow> context_error + context_block" where
  "block_post_init sha b =
     (if name b \<notin> set BLOCK_NAMES then Inl (InvalidContextItem (UnknownBlock (name b)))
      else if state b \<notin> set BLOCK_STATES then Inl (InvalidContextItem UnknownBlockState)
      else if state b \<in> {BLOCK_DEGRADED, BLOCK_FAILED} \<and> py_strip (case reason b of None \<Rightarrow> [] | Some r \<Rightarrow> r) = []
      then Inl (InvalidContextItem NoReason)
      else if state b = BLOCK_EMPTY \<and> items b \<noteq> [] then Inl (InvalidContextItem EmptyWithItems)
      else if state b = BLOCK_SUCCESS \<and> items b = [] then Inl (InvalidContextItem SuccessWithoutItems)
      else if state b = BLOCK_FAILED \<and> items b \<noteq> [] then Inl (InvalidContextItem FailedWithItems)
      else if name b \<in> set NON_CANONICAL_BLOCKS then result_map (\<lambda>_. b) (check_trusts sha (items b))
      else if \<exists>i \<in> set (items b). trust i \<noteq> None then Inl (InvalidContextItem CanonicalWithTrust)
      else Inr b)"

definition by_name :: "context_block list \<Rightarrow> string \<Rightarrow> context_block option" where
  "by_name blocks = map_of (rev (map (\<lambda>b. (name b, b)) blocks))"

text \<open>\<open>any(...)\<close> over the names, which stops at the first hit; a missing name raises.\<close>

fun any_degraded :: "context_block list \<Rightarrow> string list \<Rightarrow> context_error + bool" where
  "any_degraded bs [] = Inr False"
| "any_degraded bs (n # ns) =
     (case by_name bs n of
        None \<Rightarrow> Inl ContextKeyError
      | Some b \<Rightarrow> if state b \<in> {BLOCK_DEGRADED, BLOCK_FAILED} then Inr True else any_degraded bs ns)"

definition derive_envelope_state :: "context_block list \<Rightarrow> context_error + string" where
  "derive_envelope_state blocks =
     (case by_name blocks BLOCK_CANONICAL of
        None \<Rightarrow> Inl ContextKeyError
      | Some canonical \<Rightarrow>
          if state canonical = BLOCK_FAILED then Inr ENVELOPE_BLOCKED
          else if state canonical = BLOCK_DEGRADED then Inr ENVELOPE_DEGRADED
          else
            result_map (\<lambda>hit. if hit then ENVELOPE_DEGRADED else ENVELOPE_COMPLETE)
              (any_degraded blocks NON_CANONICAL_BLOCKS))"

record context_envelope =
  blocks :: "context_block list"
  quality :: quality_state
  envelope_state :: string

definition envelope_post_init :: "context_envelope \<Rightarrow> context_error + context_envelope" where
  "envelope_post_init e =
     (if map name (blocks e) \<noteq> BLOCK_NAMES then Inl (InvalidContextItem WrongBlocks)
      else result_bind (derive_envelope_state (blocks e))
        (\<lambda>derived.
           if envelope_state e \<noteq> derived then Inl (InvalidContextItem WrongState)
           else if set (degraded_blocks (quality e)) \<noteq>
             set (map name (filter (\<lambda>b. state b \<in> {BLOCK_DEGRADED, BLOCK_FAILED}) (blocks e)))
           then Inl (InvalidContextItem WrongQuality)
           else Inr e))"

definition block_of :: "context_envelope \<Rightarrow> string \<Rightarrow> context_error + context_block" where
  "block_of e n = of_option (InvalidContextItem (UnknownBlock n)) (find (\<lambda>b. name b = n) (blocks e))"

subsection \<open>Quality\<close>

definition derive_quality :: "context_block list \<Rightarrow> context_error + quality_state" where
  "derive_quality bs =
     (let hit = (\<lambda>n. case by_name bs n of
                   None \<Rightarrow> None
                 | Some b \<Rightarrow>
                     if state b \<notin> {BLOCK_DEGRADED, BLOCK_FAILED} then None
                     else Some (n, case reason b of
                            None \<Rightarrow> ''the '' @ n @ '' arm did not fully answer''
                          | Some r \<Rightarrow> if r = [] then ''the '' @ n @ '' arm did not fully answer'' else r));
          hits = somes (map hit BLOCK_NAMES) in
      quality_post_init \<lparr>degraded_blocks = map fst hits, reasons = map snd hits, cacheable = (map fst hits = [])\<rparr>)"

subsection \<open>Facts about the blocks of an envelope\<close>

lemma block_state_names [simp]:
  "BLOCK_SUCCESS \<noteq> BLOCK_EMPTY" "BLOCK_EMPTY \<noteq> BLOCK_SUCCESS" "BLOCK_SUCCESS \<noteq> BLOCK_DEGRADED" "BLOCK_DEGRADED \<noteq> BLOCK_SUCCESS"
  "BLOCK_SUCCESS \<noteq> BLOCK_FAILED" "BLOCK_FAILED \<noteq> BLOCK_SUCCESS" "BLOCK_EMPTY \<noteq> BLOCK_DEGRADED" "BLOCK_DEGRADED \<noteq> BLOCK_EMPTY"
  "BLOCK_EMPTY \<noteq> BLOCK_FAILED" "BLOCK_FAILED \<noteq> BLOCK_EMPTY" "BLOCK_DEGRADED \<noteq> BLOCK_FAILED" "BLOCK_FAILED \<noteq> BLOCK_DEGRADED"
  by (simp_all add: BLOCK_SUCCESS_def BLOCK_EMPTY_def BLOCK_DEGRADED_def BLOCK_FAILED_def)

lemma block_states_legal [simp]:
  "BLOCK_SUCCESS \<in> set BLOCK_STATES" "BLOCK_EMPTY \<in> set BLOCK_STATES"
  "BLOCK_DEGRADED \<in> set BLOCK_STATES" "BLOCK_FAILED \<in> set BLOCK_STATES"
  by (simp_all add: BLOCK_STATES_def)

lemma distinct_block_names: "distinct BLOCK_NAMES"
  by code_simp

lemma non_canonical_iff: "n \<in> set BLOCK_NAMES \<Longrightarrow> n \<in> set NON_CANONICAL_BLOCKS \<longleftrightarrow> n \<noteq> BLOCK_CANONICAL"
  using distinct_block_names by (auto simp: BLOCK_NAMES_def NON_CANONICAL_BLOCKS_def)

lemma block_names_split: "BLOCK_NAMES = BLOCK_CANONICAL # NON_CANONICAL_BLOCKS"
  by (simp add: BLOCK_NAMES_def NON_CANONICAL_BLOCKS_def)

lemma check_trusts_ok: "check_trusts sha is = Inr u \<longleftrightarrow> (\<forall>i \<in> set is. trust i \<noteq> None)"
  by (induction "is") (auto simp: result_bind_eq_Inr)

lemma by_name_map:
  assumes "\<And>n. n \<in> set BLOCK_NAMES \<Longrightarrow> name (g n) = n" "n \<in> set BLOCK_NAMES"
  shows "by_name (map g BLOCK_NAMES) n = Some (g n)"
proof -
  have "map (\<lambda>b. (name b, b)) (map g BLOCK_NAMES) = map (\<lambda>n. (n, g n)) BLOCK_NAMES" using assms(1) by simp
  moreover have "map_of (rev (map (\<lambda>n. (n, g n)) BLOCK_NAMES)) n = Some (g n)"
    by (rule map_of_is_SomeI) (use assms(2) in \<open>auto simp: rev_map [symmetric] comp_def distinct_block_names\<close>)
  ultimately show ?thesis by (simp only: by_name_def)
qed

text \<open>The state and the quality of five well-named blocks.\<close>

definition unwhole :: "context_block \<Rightarrow> bool" where
  "unwhole b \<longleftrightarrow> state b \<in> {BLOCK_DEGRADED, BLOCK_FAILED}"

lemma any_degraded_map:
  assumes "\<And>n. n \<in> set ns \<Longrightarrow> by_name bs n = Some (g n)"
  shows "any_degraded bs ns = Inr (\<exists>n \<in> set ns. unwhole (g n))"
  using assms by (induction ns) (auto simp: unwhole_def)

lemma derive_envelope_state_map:
  assumes "\<And>n. n \<in> set BLOCK_NAMES \<Longrightarrow> name (g n) = n"
  shows "derive_envelope_state (map g BLOCK_NAMES) =
    Inr (if state (g BLOCK_CANONICAL) = BLOCK_FAILED then ENVELOPE_BLOCKED
         else if \<exists>n \<in> set BLOCK_NAMES. unwhole (g n) then ENVELOPE_DEGRADED else ENVELOPE_COMPLETE)"
proof -
  have named: "by_name (map g BLOCK_NAMES) n = Some (g n)" if "n \<in> set BLOCK_NAMES" for n
    by (rule by_name_map [OF assms that])
  have can: "BLOCK_CANONICAL \<in> set BLOCK_NAMES" by (simp add: block_names_split)
  have "any_degraded (map g BLOCK_NAMES) NON_CANONICAL_BLOCKS = Inr (\<exists>n \<in> set NON_CANONICAL_BLOCKS. unwhole (g n))"
    by (rule any_degraded_map) (rule named, simp add: block_names_split)
  then show ?thesis using named [OF can] by (simp add: derive_envelope_state_def unwhole_def block_names_split)
qed

lemma derive_quality_map:
  assumes "\<And>n. n \<in> set BLOCK_NAMES \<Longrightarrow> name (g n) = n"
  shows "\<exists>rs. derive_quality (map g BLOCK_NAMES) = Inr \<lparr>degraded_blocks = filter (\<lambda>n. unwhole (g n)) BLOCK_NAMES, reasons = rs,
     cacheable = (\<forall>n \<in> set BLOCK_NAMES. \<not> unwhole (g n))\<rparr>"
proof -
  define r where "r n = (case reason (g n) of None \<Rightarrow> ''the '' @ n @ '' arm did not fully answer''
      | Some r \<Rightarrow> if r = [] then ''the '' @ n @ '' arm did not fully answer'' else r)" for n
  define hits where "hits = somes (map (\<lambda>n. if unwhole (g n) then Some (n, r n) else None) BLOCK_NAMES)"
  have "map (\<lambda>n. case by_name (map g BLOCK_NAMES) n of None \<Rightarrow> None
         | Some b \<Rightarrow> if state b \<notin> {BLOCK_DEGRADED, BLOCK_FAILED} then None
            else Some (n, case reason b of None \<Rightarrow> ''the '' @ n @ '' arm did not fully answer''
                   | Some r \<Rightarrow> if r = [] then ''the '' @ n @ '' arm did not fully answer'' else r)) BLOCK_NAMES =
        map (\<lambda>n. if unwhole (g n) then Some (n, r n) else None) BLOCK_NAMES"
    by (rule map_cong [OF refl]) (simp add: by_name_map [OF assms] unwhole_def r_def)
  then have "derive_quality (map g BLOCK_NAMES) =
      quality_post_init \<lparr>degraded_blocks = map fst hits, reasons = map snd hits, cacheable = (map fst hits = [])\<rparr>"
    by (simp only: derive_quality_def hits_def Let_def)
  moreover have fst_hits: "map fst hits = filter (\<lambda>n. unwhole (g n)) BLOCK_NAMES"
    unfolding hits_def map_somes_filter by (simp add: comp_def)
  moreover have "quality_post_init \<lparr>degraded_blocks = map fst hits, reasons = map snd hits, cacheable = (map fst hits = [])\<rparr> =
      Inr \<lparr>degraded_blocks = map fst hits, reasons = map snd hits, cacheable = (map fst hits = [])\<rparr>"
    by (simp add: quality_post_init_def)
  moreover have none: "(map fst hits = []) = (\<forall>n \<in> set BLOCK_NAMES. \<not> unwhole (g n))"
    unfolding fst_hits by (simp add: filter_empty_conv)
  ultimately have "derive_quality (map g BLOCK_NAMES) =
      Inr \<lparr>degraded_blocks = map fst hits, reasons = map snd hits, cacheable = (map fst hits = [])\<rparr>" by (simp only:)
  then show ?thesis unfolding none unfolding fst_hits by (rule exI)
qed

subsection \<open>Identity of items\<close>

text \<open>
  Two items have the same receipt id exactly when block, source and key agree, and two external references
  collide exactly when system, namespace, kind and id agree, as far as SHA-256 has no collision.
\<close>

lemma digest_inj:
  assumes "inj sha" "digest sha ps = Inr d" "digest sha qs = Inr d" "length ps = length qs"
  shows "ps = qs"
proof -
  obtain xs ys where x: "traverse (length_prefixed ContextOverflowError) ps = Inr xs" "sha (concat xs) = d"
    and y: "traverse (length_prefixed ContextOverflowError) qs = Inr ys" "sha (concat ys) = d"
    using assms(2,3) by (auto simp: digest_def result_map_eq_Inr)
  have "concat xs = concat ys" by (rule injD [OF assms(1)]) (simp add: x(2) y(2))
  from concat_length_prefixed_inj [OF x(1) y(1) this assms(4)] show ?thesis .
qed

theorem receipt_item_value_inj:
  assumes "inj sha" "receipt_item_value sha a = Inr d" "receipt_item_value sha b = Inr d"
  shows "a = b"
  using digest_inj [OF assms(1) assms(2) [unfolded receipt_item_value_def] assms(3) [unfolded receipt_item_value_def]]
  by (cases a; cases b) simp

theorem collision_key_exact:
  assumes "inj sha" "collision_key sha a = Inr d" "collision_key sha b = Inr d'"
  shows "d = d' \<longleftrightarrow> source_system a = source_system b \<and> source_namespace a = source_namespace b \<and>
    ref_kind a = ref_kind b \<and> external_id a = external_id b"
  using digest_inj [OF assms(1) assms(2) [unfolded collision_key_def], of
      "[source_system b, source_namespace b, ref_kind b, external_id b]"] assms(2,3)
  by (auto simp: collision_key_def)

subsection \<open>Well-formed blocks\<close>

definition block_ok :: "context_block \<Rightarrow> bool" where
  "block_ok b \<longleftrightarrow> name b \<in> set BLOCK_NAMES \<and> state b \<in> set BLOCK_STATES \<and>
     (unwhole b \<longrightarrow> py_strip (case reason b of None \<Rightarrow> [] | Some r \<Rightarrow> r) \<noteq> []) \<and>
     (state b = BLOCK_EMPTY \<longrightarrow> items b = []) \<and> (state b = BLOCK_SUCCESS \<longrightarrow> items b \<noteq> []) \<and>
     (state b = BLOCK_FAILED \<longrightarrow> items b = []) \<and>
     (\<forall>i \<in> set (items b). trust i = None \<longleftrightarrow> name b = BLOCK_CANONICAL)"

lemma check_trusts_cases:
  "(\<forall>i \<in> set is. trust i \<noteq> None) \<and> check_trusts sha is = Inr () \<or> (\<exists>i \<in> set is. trust i = None) \<and> (\<exists>e. check_trusts sha is = Inl e)"
proof (induction "is")
  case (Cons i "is")
  show ?case
  proof (cases "trust i = None")
    case True
    then show ?thesis by (cases "receipt_item_value sha (item_id i)") auto
  next
    case False
    with Cons show ?thesis by auto
  qed
qed simp

lemma block_post_init_ok: "block_ok b \<Longrightarrow> block_post_init sha b = Inr b"
  using check_trusts_cases [of "items b" sha] non_canonical_iff [of "name b"]
  unfolding block_ok_def block_post_init_def unwhole_def by (auto; fastforce)

lemma block_post_init_refuses: "\<not> block_ok b \<Longrightarrow> \<exists>e. block_post_init sha b = Inl e"
  using check_trusts_cases [of "items b" sha] non_canonical_iff [of "name b"]
  unfolding block_ok_def block_post_init_def unwhole_def by auto

end
