(* ===== verification/Context_Assembly.thy ===== *)
theory Context_Assembly
  imports Context_Envelope
begin

section \<open>Assembling the context of an answer\<close>

text \<open>
  The model of \<open>contextplane/context/assembler.py\<close>: five arms are run, each becomes a block, and the blocks become an envelope with
  the evidence for its receipt. What running an arm yields (its outcome, an exception or a timeout, and the time
  it took) is an input, so the order in which the arms finish does not appear; instants are microseconds and the
  age bound is a number of them. SHA-256, the ISO printer, the text of an exception and of the timeout are parameters.
\<close>

definition DEFAULT_ITEM_CAP :: int where "DEFAULT_ITEM_CAP = 50"

record assembly_env =
  sha256 :: "string \<Rightarrow> string"
  isoformat :: "py_datetime \<Rightarrow> string"
  exception_text :: "context_error \<Rightarrow> string"
  timeout_text :: string

record exclusion =
  item_key :: string
  exclusion_reason :: string

record arm_outcome =
  arm_items :: "context_item list"
  exclusions :: "exclusion list"
  truncated :: bool
  fresh_as_of :: "py_datetime option"
  degraded_reason :: "string option"

text \<open>An arm returns an outcome or nothing, runs out of time, or raises an exception of some type.\<close>

datatype arm_result = ArmReturned "arm_outcome option" | ArmTimeout | ArmRaised string

record arm_run =
  arm_result :: arm_result
  elapsed_ms :: nat

record selection_evidence =
  ev_block :: string
  ev_state :: string
  considered :: nat
  returned :: nat
  ev_exclusions :: "exclusion list"
  truncated_by_cap :: bool
  truncated_by_arm :: bool
  ev_fresh_as_of :: "py_datetime option"
  stale :: bool
  duration_ms :: nat
  timed_out :: bool

record assembly_result =
  envelope :: context_envelope
  evidence :: "selection_evidence list"

definition staleness_cutoff :: "moment \<Rightarrow> moment option \<Rightarrow> moment option" where
  "staleness_cutoff now max_age = map_option (\<lambda>a. now - a) max_age"

definition run_arm :: "assembly_env \<Rightarrow> arm_run \<Rightarrow> arm_outcome option \<times> string option \<times> bool \<times> nat" where
  "run_arm E r =
     (case arm_result r of
        ArmTimeout \<Rightarrow> (None, Some (''the arm did not answer within '' @ timeout_text E @ ''s''), True, elapsed_ms r)
      | ArmRaised t \<Rightarrow> (None, Some (''the arm raised '' @ t), False, elapsed_ms r)
      | ArmReturned out \<Rightarrow> (out, None, False, elapsed_ms r))"

text \<open>Comparing a naive instant with the aware cutoff raises.\<close>

definition is_stale :: "moment option \<Rightarrow> py_datetime option \<Rightarrow> context_error + bool" where
  "is_stale cutoff fresh =
     (case (cutoff, fresh) of
        (Some c, Some (Aware t)) \<Rightarrow> Inr (t < c)
      | (Some c, Some (Naive t)) \<Rightarrow> Inl ContextTypeError
      | _ \<Rightarrow> Inr False)"

definition degradations :: "assembly_env \<Rightarrow> arm_outcome \<Rightarrow> int \<Rightarrow> bool \<Rightarrow> string list" where
  "degradations E out cap old =
     (let n = length (arm_items out) in
      (case degraded_reason out of None \<Rightarrow> [] | Some r \<Rightarrow> if r = [] then [] else [r]) @
      (if truncated out then [''the arm stopped at its own limit, so this is a partial read''] else []) @
      (if int n > cap then [''truncated to '' @ show_int cap @ '' of '' @ show_nat n @ '' item(s)''] else []) @
      (case fresh_as_of out of
         Some t \<Rightarrow> if old then [''data is older than the freshness bound (as of '' @ isoformat E t @ '')''] else []
       | None \<Rightarrow> []) @
      (if exclusions out \<noteq> [] then [show_nat (length (exclusions out)) @ '' item(s) withheld''] else []))"

definition block_from_outcome ::
    "assembly_env \<Rightarrow> string \<Rightarrow> arm_outcome \<Rightarrow> int \<Rightarrow> moment option \<Rightarrow> context_error + context_block \<times> selection_evidence \<times> bool" where
  "block_from_outcome E n out cap cutoff =
     (let kept = take (nat cap) (arm_items out) in
      result_bind (is_stale cutoff (fresh_as_of out)) (\<lambda>old.
        let why = degradations E out cap old;
            st = (if why \<noteq> [] then BLOCK_DEGRADED else if kept \<noteq> [] then BLOCK_SUCCESS else BLOCK_EMPTY) in
        result_bind
          (block_post_init (sha256 E)
            \<lparr>name = n, state = st, items = kept, reason = (if why \<noteq> [] then Some (py_join ''; '' why) else None)\<rparr>)
          (\<lambda>block. Inr (block,
             \<lparr>ev_block = n, ev_state = st, considered = length (arm_items out), returned = length kept,
              ev_exclusions = exclusions out, truncated_by_cap = (int (length (arm_items out)) > cap),
              truncated_by_arm = truncated out, ev_fresh_as_of = fresh_as_of out, stale = old,
              duration_ms = 0, timed_out = False\<rparr>, old))))"

definition failed_block ::
    "assembly_env \<Rightarrow> string \<Rightarrow> string \<Rightarrow> nat \<Rightarrow> bool \<Rightarrow> context_error + context_block \<times> selection_evidence" where
  "failed_block E n why ms late =
     result_map
       (\<lambda>block. (block,
          \<lparr>ev_block = n, ev_state = BLOCK_FAILED, considered = 0, returned = 0, ev_exclusions = [],
           truncated_by_cap = False, truncated_by_arm = False, ev_fresh_as_of = None, stale = False,
           duration_ms = ms, timed_out = late\<rparr>))
       (block_post_init (sha256 E) \<lparr>name = n, state = BLOCK_FAILED, items = [], reason = Some why\<rparr>)"

definition assemble_one ::
    "assembly_env \<Rightarrow> (string \<Rightarrow> arm_run option) \<Rightarrow> int \<Rightarrow> moment option \<Rightarrow> string \<Rightarrow> context_error + context_block \<times> selection_evidence" where
  "assemble_one E arms cap cutoff n =
     (case arms n of
        None \<Rightarrow> failed_block E n ''no arm was configured for this block'' 0 False
      | Some arm \<Rightarrow>
          (case run_arm E arm of (out, failure, late, ms) \<Rightarrow>
             (case out of
                None \<Rightarrow> failed_block E n (case failure of Some f \<Rightarrow> (if f = [] then ''the arm did not answer'' else f)
                                         | None \<Rightarrow> ''the arm did not answer'') ms late
              | Some o1 \<Rightarrow>
                  (case block_from_outcome E n o1 cap cutoff of
                     Inl exc \<Rightarrow> failed_block E n (''the arm returned an unusable result: '' @ exception_text E exc) ms False
                   | Inr (block, ev, _) \<Rightarrow> Inr (block, ev\<lparr>duration_ms := ms\<rparr>)))))"

definition assemble_context ::
    "assembly_env \<Rightarrow> (string \<Rightarrow> arm_run option) \<Rightarrow> moment \<Rightarrow> int \<Rightarrow> moment option \<Rightarrow> context_error + assembly_result" where
  "assemble_context E arms now cap max_age =
     (if cap < 1 then Inl ContextValueError
      else
        result_bind (traverse (assemble_one E arms cap (staleness_cutoff now max_age)) BLOCK_NAMES) (\<lambda>gathered.
          let bs = map fst gathered in
          result_bind (derive_quality bs) (\<lambda>q.
            result_bind (derive_envelope_state bs) (\<lambda>st.
              result_bind (envelope_post_init \<lparr>blocks = bs, quality = q, envelope_state = st\<rparr>) (\<lambda>env.
                Inr \<lparr>envelope = env, evidence = map snd gathered\<rparr>)))))"

definition canonical_item :: "string \<Rightarrow> string \<Rightarrow> (string \<times> json) list \<Rightarrow> context_error + context_item" where
  "canonical_item src key content =
     result_map (\<lambda>i. \<lparr>item_id = i, payload = content, trust = None\<rparr>)
       (receipt_item_post_init \<lparr>rid_block = BLOCK_CANONICAL, rid_source = src, rid_item_key = key\<rparr>)"

text \<open>The trust argument is any object: \<open>None\<close> stands for one that is not trust metadata.\<close>

definition contextual_item ::
    "string \<Rightarrow> string \<Rightarrow> string \<Rightarrow> (string \<times> json) list \<Rightarrow> trust_metadata option \<Rightarrow> context_error + context_item" where
  "contextual_item block src key content t =
     (if t = None then Inl ContextTypeError
      else result_map (\<lambda>i. \<lparr>item_id = i, payload = content, trust = t\<rparr>)
             (receipt_item_post_init \<lparr>rid_block = block, rid_source = src, rid_item_key = key\<rparr>))"

definition ordered_items :: "context_item list \<Rightarrow> context_item list" where
  "ordered_items xs = xs"

subsection \<open>What an arm contributes\<close>

text \<open>
  An outcome is partial for one of five reasons. It is unusable when its freshness cannot be compared, when an item has trust
  metadata in the canonical block or lacks it elsewhere, or when its only degradation is a reason made of blanks.
\<close>

definition outcome_stale :: "moment option \<Rightarrow> arm_outcome \<Rightarrow> bool" where
  "outcome_stale cutoff out \<longleftrightarrow> (case (cutoff, fresh_as_of out) of (Some c, Some (Aware t)) \<Rightarrow> t < c | _ \<Rightarrow> False)"

definition outcome_cut :: "int \<Rightarrow> moment option \<Rightarrow> arm_outcome \<Rightarrow> bool" where
  "outcome_cut cap cutoff out \<longleftrightarrow>
     truncated out \<or> int (length (arm_items out)) > cap \<or> outcome_stale cutoff out \<or> exclusions out \<noteq> []"

definition partial :: "int \<Rightarrow> moment option \<Rightarrow> arm_outcome \<Rightarrow> bool" where
  "partial cap cutoff out \<longleftrightarrow> degraded_reason out \<notin> {None, Some []} \<or> outcome_cut cap cutoff out"

definition unusable :: "int \<Rightarrow> moment option \<Rightarrow> string \<Rightarrow> arm_outcome \<Rightarrow> bool" where
  "unusable cap cutoff n out \<longleftrightarrow>
     (case (cutoff, fresh_as_of out) of (Some _, Some t) \<Rightarrow> is_naive t | _ \<Rightarrow> False) \<or>
     (\<exists>i \<in> set (take (nat cap) (arm_items out)). (trust i = None) = (n \<noteq> BLOCK_CANONICAL)) \<or>
     (\<not> outcome_cut cap cutoff out \<and>
      (case degraded_reason out of Some r \<Rightarrow> r \<noteq> [] \<and> py_strip r = [] | None \<Rightarrow> False))"

definition arm_state :: "(string \<Rightarrow> arm_run option) \<Rightarrow> int \<Rightarrow> moment option \<Rightarrow> string \<Rightarrow> string" where
  "arm_state arms cap cutoff n =
     (case map_option arm_result (arms n) of
        Some (ArmReturned (Some out)) \<Rightarrow>
          if unusable cap cutoff n out then BLOCK_FAILED
          else if partial cap cutoff out then BLOCK_DEGRADED
          else if arm_items out = [] then BLOCK_EMPTY else BLOCK_SUCCESS
      | _ \<Rightarrow> BLOCK_FAILED)"

definition arm_served :: "(string \<Rightarrow> arm_run option) \<Rightarrow> int \<Rightarrow> moment option \<Rightarrow> string \<Rightarrow> context_item list" where
  "arm_served arms cap cutoff n =
     (case map_option arm_result (arms n) of
        Some (ArmReturned (Some out)) \<Rightarrow> if unusable cap cutoff n out then [] else take (nat cap) (arm_items out)
      | _ \<Rightarrow> [])"

lemma is_stale_cases:
  "is_stale cutoff (fresh_as_of out) =
     (if (case (cutoff, fresh_as_of out) of (Some _, Some t) \<Rightarrow> is_naive t | _ \<Rightarrow> False) then Inl ContextTypeError
      else Inr (outcome_stale cutoff out))"
  by (auto simp: is_stale_def outcome_stale_def split: option.splits py_datetime.splits)

lemma outcome_stale_fresh: "outcome_stale cutoff out \<Longrightarrow> fresh_as_of out \<noteq> None"
  by (auto simp: outcome_stale_def split: option.splits)

lemma spoken: "c \<in> set s \<Longrightarrow> \<not> py_isspace c \<Longrightarrow> py_strip s \<noteq> []"
  by (auto simp: py_strip_blank_iff)

lemma join_spoken: "py_strip (py_join sep ws) \<noteq> []" if "w \<in> set ws" "py_strip w \<noteq> []"
proof -
  have "set w \<subseteq> set (py_join sep ws)"
    using that(1) by (cases ws) (auto simp: py_join_def)
  with that(2) show ?thesis by (auto simp: py_strip_blank_iff)
qed

definition cut_reasons :: "assembly_env \<Rightarrow> int \<Rightarrow> moment option \<Rightarrow> arm_outcome \<Rightarrow> string list" where
  "cut_reasons E cap cutoff out =
     (if truncated out then [''the arm stopped at its own limit, so this is a partial read''] else []) @
     (if int (length (arm_items out)) > cap
      then [''truncated to '' @ show_int cap @ '' of '' @ show_nat (length (arm_items out)) @ '' item(s)''] else []) @
     (case fresh_as_of out of
        Some t \<Rightarrow> if outcome_stale cutoff out then [''data is older than the freshness bound (as of '' @ isoformat E t @ '')''] else []
      | None \<Rightarrow> []) @
     (if exclusions out \<noteq> [] then [show_nat (length (exclusions out)) @ '' item(s) withheld''] else [])"

lemma degradations_split:
  "degradations E out cap (outcome_stale cutoff out) =
     (case degraded_reason out of None \<Rightarrow> [] | Some r \<Rightarrow> if r = [] then [] else [r]) @ cut_reasons E cap cutoff out"
  by (simp add: degradations_def cut_reasons_def Let_def)

lemma cut_reasons_ne: "cut_reasons E cap cutoff out \<noteq> [] \<longleftrightarrow> outcome_cut cap cutoff out"
  using outcome_stale_fresh [of cutoff out] by (auto simp: cut_reasons_def outcome_cut_def split: option.splits)

lemma cut_reasons_spoken: "w \<in> set (cut_reasons E cap cutoff out) \<Longrightarrow> py_strip w \<noteq> []"
  by (rule spoken [of "CHR ''t''"]) (auto simp: cut_reasons_def py_isspace_def split: if_splits option.splits)

lemma degradations_ne: "degradations E out cap (outcome_stale cutoff out) \<noteq> [] \<longleftrightarrow> partial cap cutoff out"
  unfolding degradations_split partial_def cut_reasons_ne [of E, symmetric] by (auto split: option.splits)

lemma degradations_blank:
  "partial cap cutoff out \<Longrightarrow> py_strip (py_join ''; '' (degradations E out cap (outcome_stale cutoff out))) = [] \<longleftrightarrow>
     \<not> outcome_cut cap cutoff out \<and> (case degraded_reason out of Some r \<Rightarrow> r \<noteq> [] \<and> py_strip r = [] | None \<Rightarrow> False)"
proof (cases "cut_reasons E cap cutoff out")
  case Nil
  then have cut: "\<not> outcome_cut cap cutoff out" by (simp flip: cut_reasons_ne [of E])
  assume "partial cap cutoff out"
  with cut obtain r where "degraded_reason out = Some r" "r \<noteq> []" by (auto simp: partial_def)
  with cut Nil show ?thesis by (simp add: degradations_split)
next
  case (Cons w ws)
  then have "outcome_cut cap cutoff out" by (simp flip: cut_reasons_ne [of E])
  moreover have "py_strip w \<noteq> []" by (rule cut_reasons_spoken [of w E cap cutoff out]) (simp add: Cons)
  moreover have "w \<in> set (degradations E out cap (outcome_stale cutoff out))" by (simp add: degradations_split Cons)
  ultimately show ?thesis by (simp add: join_spoken)
qed

text \<open>The block an outcome is turned into, before its constructor has validated it.\<close>

definition outcome_block :: "assembly_env \<Rightarrow> string \<Rightarrow> arm_outcome \<Rightarrow> int \<Rightarrow> moment option \<Rightarrow> context_block" where
  "outcome_block E n out cap cutoff =
     \<lparr>name = n, state = (if partial cap cutoff out then BLOCK_DEGRADED else if arm_items out = [] then BLOCK_EMPTY else BLOCK_SUCCESS),
      items = take (nat cap) (arm_items out),
      reason = (if partial cap cutoff out then Some (py_join ''; '' (degradations E out cap (outcome_stale cutoff out))) else None)\<rparr>"

lemma outcome_block_ok:
  assumes "n \<in> set BLOCK_NAMES" "1 \<le> cap"
    and "\<not> (case (cutoff, fresh_as_of out) of (Some _, Some t) \<Rightarrow> is_naive t | _ \<Rightarrow> False)"
  shows "block_ok (outcome_block E n out cap cutoff) \<longleftrightarrow> \<not> unusable cap cutoff n out"
proof -
  let ?b = "outcome_block E n out cap cutoff"
  let ?blank = "\<not> outcome_cut cap cutoff out \<and> (case degraded_reason out of Some r \<Rightarrow> r \<noteq> [] \<and> py_strip r = [] | None \<Rightarrow> False)"
  have blank_partial: "?blank \<Longrightarrow> partial cap cutoff out" by (auto simp: partial_def split: option.splits)
  have "(unwhole ?b \<longrightarrow> py_strip (case reason ?b of None \<Rightarrow> [] | Some r \<Rightarrow> r) \<noteq> []) \<longleftrightarrow> \<not> ?blank"
  proof (cases "partial cap cutoff out")
    case True
    then show ?thesis using degradations_blank [OF True, of E] by (simp add: outcome_block_def unwhole_def)
  next
    case False
    with blank_partial show ?thesis by (auto simp: outcome_block_def unwhole_def)
  qed
  moreover have "(\<forall>i \<in> set (items ?b). trust i = None \<longleftrightarrow> name ?b = BLOCK_CANONICAL) \<longleftrightarrow>
      \<not> (\<exists>i \<in> set (take (nat cap) (arm_items out)). (trust i = None) = (n \<noteq> BLOCK_CANONICAL))"
    by (auto simp: outcome_block_def)
  moreover have "name ?b \<in> set BLOCK_NAMES" "state ?b \<in> set BLOCK_STATES" "state ?b = BLOCK_EMPTY \<longrightarrow> items ?b = []"
      "state ?b = BLOCK_SUCCESS \<longrightarrow> items ?b \<noteq> []" "state ?b = BLOCK_FAILED \<longrightarrow> items ?b = []"
    using assms(1,2) by (simp_all add: outcome_block_def)
  ultimately show ?thesis using assms(3) unfolding block_ok_def unusable_def by argo
qed

lemma block_from_outcome_block:
  assumes "1 \<le> cap" "\<not> (case (cutoff, fresh_as_of out) of (Some _, Some t) \<Rightarrow> is_naive t | _ \<Rightarrow> False)"
  obtains ev where "block_from_outcome E n out cap cutoff =
      result_bind (block_post_init (sha256 E) (outcome_block E n out cap cutoff)) (\<lambda>b. Inr (b, ev, outcome_stale cutoff out))"
    "ev_block ev = n" "ev_state ev = state (outcome_block E n out cap cutoff)"
    "returned ev = length (items (outcome_block E n out cap cutoff))" "ev_exclusions ev = exclusions out" "timed_out ev = False"
proof -
  let ?b = "outcome_block E n out cap cutoff"
  have kept: "take (nat cap) (arm_items out) = [] \<longleftrightarrow> arm_items out = []" using assms(1) by simp
  have deg: "degradations E out cap (outcome_stale cutoff out) = [] \<longleftrightarrow> \<not> partial cap cutoff out"
    using degradations_ne by blast
  show thesis
  proof (rule that)
    show "block_from_outcome E n out cap cutoff = result_bind (block_post_init (sha256 E) ?b) (\<lambda>b. Inr (b,
        \<lparr>ev_block = n, ev_state = state ?b, considered = length (arm_items out), returned = length (items ?b),
         ev_exclusions = exclusions out, truncated_by_cap = (int (length (arm_items out)) > cap),
         truncated_by_arm = truncated out, ev_fresh_as_of = fresh_as_of out, stale = outcome_stale cutoff out,
         duration_ms = 0, timed_out = False\<rparr>, outcome_stale cutoff out))"
      using assms(2) by (simp add: block_from_outcome_def Let_def is_stale_cases outcome_block_def deg kept del: take_eq_Nil take_eq_Nil2)
  qed simp_all
qed

lemma failed_block_Inr:
  assumes "n \<in> set BLOCK_NAMES" "py_strip why \<noteq> []"
  shows "\<exists>ev. failed_block E n why ms late = Inr (\<lparr>name = n, state = BLOCK_FAILED, items = [], reason = Some why\<rparr>, ev) \<and>
    ev_block ev = n \<and> ev_state ev = BLOCK_FAILED \<and> returned ev = 0 \<and> timed_out ev = late"
proof -
  have "block_ok \<lparr>name = n, state = BLOCK_FAILED, items = [], reason = Some why\<rparr>" using assms by (simp add: block_ok_def)
  from block_post_init_ok [OF this] show ?thesis by (simp add: failed_block_def)
qed

lemma assemble_one_failed:
  assumes "n \<in> set BLOCK_NAMES" "\<forall>out. map_option arm_result (arms n) \<noteq> Some (ArmReturned (Some out))"
  shows "\<exists>why ms late. assemble_one E arms cap cutoff n = failed_block E n why ms late \<and> py_strip why \<noteq> []"
proof (cases "arms n")
  case None
  have "py_strip ''no arm was configured for this block'' \<noteq> []" by code_simp
  with None show ?thesis by (auto simp: assemble_one_def)
next
  case (Some r)
  have spk: "py_strip (''the arm '' @ s) \<noteq> []" for s by (rule spoken [of "CHR ''t''"]) (simp_all add: py_isspace_def)
  from spk [of "''did not answer''"] have no_answer: "py_strip ''the arm did not answer'' \<noteq> []" by simp
  from spk have spk: "py_strip (''the arm raised '' @ s) \<noteq> []" "py_strip (''the arm did not answer within '' @ s) \<noteq> []" for s
    using spk [of "''raised '' @ s"] spk [of "''did not answer within '' @ s"] by simp_all
  show ?thesis
  proof (cases "arm_result r")
    case (ArmReturned out)
    with assms(2) Some have "out = None" by (cases out) auto
    with ArmReturned Some no_answer show ?thesis by (auto simp: assemble_one_def run_arm_def)
  qed (use Some spk in \<open>auto simp: assemble_one_def run_arm_def\<close>)
qed

lemma assemble_one_exact:
  assumes "n \<in> set BLOCK_NAMES" "1 \<le> cap"
  shows "\<exists>b ev. assemble_one E arms cap cutoff n = Inr (b, ev) \<and> name b = n \<and> state b = arm_state arms cap cutoff n \<and>
    items b = arm_served arms cap cutoff n \<and> block_ok b \<and> ev_block ev = n \<and> ev_state ev = state b \<and> returned ev = length (items b)"
proof (cases "\<exists>out. map_option arm_result (arms n) = Some (ArmReturned (Some out))")
  case False
  then have none: "\<forall>out. map_option arm_result (arms n) \<noteq> Some (ArmReturned (Some out))" by blast
  then have "arm_state arms cap cutoff n = BLOCK_FAILED" "arm_served arms cap cutoff n = []"
    by (auto simp: arm_state_def arm_served_def split: option.splits arm_result.splits)
  moreover obtain why ms late where "assemble_one E arms cap cutoff n = failed_block E n why ms late" "py_strip why \<noteq> []"
    using assemble_one_failed [of n arms E cap cutoff] assms(1) none by blast
  moreover from failed_block_Inr [OF assms(1) this(2), of E ms late] obtain ev
    where "failed_block E n why ms late = Inr (\<lparr>name = n, state = BLOCK_FAILED, items = [], reason = Some why\<rparr>, ev)"
      "ev_block ev = n" "ev_state ev = BLOCK_FAILED" "returned ev = 0" by blast
  ultimately show ?thesis using assms(1) by (simp add: block_ok_def)
next
  case True
  then obtain r out where r: "arms n = Some r" "arm_result r = ArmReturned (Some out)" by auto
  then have one: "assemble_one E arms cap cutoff n =
      (case block_from_outcome E n out cap cutoff of
         Inl exc \<Rightarrow> failed_block E n (''the arm returned an unusable result: '' @ exception_text E exc) (elapsed_ms r) False
       | Inr (block, ev, _) \<Rightarrow> Inr (block, ev\<lparr>duration_ms := elapsed_ms r\<rparr>))"
    by (simp add: assemble_one_def run_arm_def)
  show ?thesis
  proof (cases "unusable cap cutoff n out")
    case True
    have "\<exists>e. block_from_outcome E n out cap cutoff = Inl e"
    proof (cases "case (cutoff, fresh_as_of out) of (Some _, Some t) \<Rightarrow> is_naive t | _ \<Rightarrow> False")
      case True
      then show ?thesis by (simp add: block_from_outcome_def Let_def is_stale_cases)
    next
      case False
      with True outcome_block_ok [OF assms False] block_post_init_refuses obtain e
        where "block_post_init (sha256 E) (outcome_block E n out cap cutoff) = Inl e" by blast
      moreover obtain ev where "block_from_outcome E n out cap cutoff =
          result_bind (block_post_init (sha256 E) (outcome_block E n out cap cutoff)) (\<lambda>b. Inr (b, ev, outcome_stale cutoff out))"
        by (rule block_from_outcome_block [OF assms(2) False])
      ultimately show ?thesis by simp
    qed
    then obtain e where e: "block_from_outcome E n out cap cutoff = Inl e" by blast
    define why where "why = ''the arm returned an unusable result: '' @ exception_text E e"
    have why: "py_strip why \<noteq> []" by (rule spoken [of "CHR ''t''"]) (simp_all add: why_def py_isspace_def)
    obtain ev where "failed_block E n why (elapsed_ms r) False = Inr (\<lparr>name = n, state = BLOCK_FAILED, items = [], reason = Some why\<rparr>, ev)"
        "ev_block ev = n" "ev_state ev = BLOCK_FAILED" "returned ev = 0"
      using failed_block_Inr [OF assms(1) why, of E "elapsed_ms r" False] by blast
    moreover have "assemble_one E arms cap cutoff n = failed_block E n why (elapsed_ms r) False" by (simp add: one e why_def)
    ultimately show ?thesis using True r assms(1) why by (simp add: arm_state_def arm_served_def block_ok_def)
  next
    case False
    then have aware: "\<not> (case (cutoff, fresh_as_of out) of (Some _, Some t) \<Rightarrow> is_naive t | _ \<Rightarrow> False)"
      by (simp add: unusable_def)
    obtain ev where ev: "block_from_outcome E n out cap cutoff =
        result_bind (block_post_init (sha256 E) (outcome_block E n out cap cutoff)) (\<lambda>b. Inr (b, ev, outcome_stale cutoff out))"
      "ev_block ev = n" "ev_state ev = state (outcome_block E n out cap cutoff)"
      "returned ev = length (items (outcome_block E n out cap cutoff))"
      by (rule block_from_outcome_block [OF assms(2) aware])
    have ok: "block_ok (outcome_block E n out cap cutoff)" using outcome_block_ok [OF assms aware] False by simp
    have "state (outcome_block E n out cap cutoff) = arm_state arms cap cutoff n"
      "items (outcome_block E n out cap cutoff) = arm_served arms cap cutoff n" "name (outcome_block E n out cap cutoff) = n"
      using r False by (simp_all add: outcome_block_def arm_state_def arm_served_def)
    with ev ok show ?thesis by (simp add: one block_post_init_ok)
  qed
qed

subsection \<open>The assembled answer\<close>

text \<open>What an answer says when \<open>st\<close> gives the state of each arm.\<close>

definition answer_state :: "(string \<Rightarrow> string) \<Rightarrow> string" where
  "answer_state st =
     (if st BLOCK_CANONICAL = BLOCK_FAILED then ENVELOPE_BLOCKED
      else if \<exists>n \<in> set BLOCK_NAMES. st n \<in> {BLOCK_DEGRADED, BLOCK_FAILED} then ENVELOPE_DEGRADED
      else ENVELOPE_COMPLETE)"

lemma assemble_context_blocks:
  assumes "1 \<le> cap"
  obtains r g where "assemble_context E arms now cap max_age = Inr r" "blocks (envelope r) = map g BLOCK_NAMES"
    "\<And>n. n \<in> set BLOCK_NAMES \<Longrightarrow> \<exists>ev. assemble_one E arms cap (staleness_cutoff now max_age) n = Inr (g n, ev)"
    "envelope_state (envelope r) = answer_state (arm_state arms cap (staleness_cutoff now max_age))"
    "degraded_blocks (quality (envelope r)) =
       filter (\<lambda>n. arm_state arms cap (staleness_cutoff now max_age) n \<in> {BLOCK_DEGRADED, BLOCK_FAILED}) BLOCK_NAMES"
    "cacheable (quality (envelope r)) \<longleftrightarrow> degraded_blocks (quality (envelope r)) = []"
    "map ev_block (evidence r) = BLOCK_NAMES" "map ev_state (evidence r) = map state (blocks (envelope r))"
    "map returned (evidence r) = map (length \<circ> items) (blocks (envelope r))"
proof -
  let ?c = "staleness_cutoff now max_age"
  define h where "h n = projr (assemble_one E arms cap ?c n)" for n
  define g where "g = fst \<circ> h"
  have one: "assemble_one E arms cap ?c n = Inr (h n)" "name (g n) = n" "state (g n) = arm_state arms cap ?c n"
      "ev_block (snd (h n)) = n" "ev_state (snd (h n)) = state (g n)" "returned (snd (h n)) = length (items (g n))"
    if "n \<in> set BLOCK_NAMES" for n
    using assemble_one_exact [OF that assms, of E arms ?c] by (auto simp: h_def g_def)
  have gathered: "traverse (assemble_one E arms cap ?c) BLOCK_NAMES = Inr (map h BLOCK_NAMES)"
    by (rule traverse_total) (rule one)
  obtain rs where q: "derive_quality (map g BLOCK_NAMES) = Inr \<lparr>degraded_blocks = filter (\<lambda>n. unwhole (g n)) BLOCK_NAMES, reasons = rs,
      cacheable = (\<forall>n \<in> set BLOCK_NAMES. \<not> unwhole (g n))\<rparr>" (is "_ = Inr ?q")
    using derive_quality_map [of g] one(2) by blast
  have bad: "unwhole (g n) \<longleftrightarrow> arm_state arms cap ?c n \<in> {BLOCK_DEGRADED, BLOCK_FAILED}" if "n \<in> set BLOCK_NAMES" for n
    by (simp add: unwhole_def one(3) [OF that])
  have st: "derive_envelope_state (map g BLOCK_NAMES) = Inr (answer_state (arm_state arms cap ?c))" (is "_ = Inr ?st")
    using derive_envelope_state_map [of g] one(2) bad one(3) [of BLOCK_CANONICAL]
    by (auto simp: answer_state_def block_names_split)
  have names: "map name (map g BLOCK_NAMES) = BLOCK_NAMES" using one(2) by (simp add: map_idI)
  have "map name (filter unwhole (map g BLOCK_NAMES)) = filter (\<lambda>n. unwhole (g n)) BLOCK_NAMES"
    using one(2) by (auto simp: filter_map comp_def intro: map_idI)
  then have claimed: "set (degraded_blocks ?q) =
      set (map name (filter (\<lambda>b. state b \<in> {BLOCK_DEGRADED, BLOCK_FAILED}) (map g BLOCK_NAMES)))"
    by (simp only: unwhole_def [abs_def] quality_state.simps)
  have env: "envelope_post_init \<lparr>blocks = map g BLOCK_NAMES, quality = ?q, envelope_state = ?st\<rparr> =
      Inr \<lparr>blocks = map g BLOCK_NAMES, quality = ?q, envelope_state = ?st\<rparr>"
    unfolding envelope_post_init_def using names st claimed by (simp only: context_envelope.simps result_bind_simps) simp
  have "assemble_context E arms now cap max_age =
      Inr \<lparr>envelope = \<lparr>blocks = map g BLOCK_NAMES, quality = ?q, envelope_state = ?st\<rparr>, evidence = map snd (map h BLOCK_NAMES)\<rparr>"
    using assms q st env by (simp add: assemble_context_def gathered Let_def flip: g_def)
  then show thesis
  proof (rule that)
    show "\<exists>ev. assemble_one E arms cap ?c n = Inr (g n, ev)" if "n \<in> set BLOCK_NAMES" for n
      using one(1) [OF that] by (cases "h n") (simp add: g_def)
  qed (use one bad in \<open>auto simp: filter_empty_conv cong: filter_cong map_cong intro: map_idI\<close>)
qed


lemma assembly_total: "1 \<le> cap \<Longrightarrow> \<exists>r. assemble_context E arms now cap max_age = Inr r"
  by (rule assemble_context_blocks [of cap E arms now max_age]) auto

lemma assembled_names: "assemble_context E arms now cap max_age = Inr r \<Longrightarrow> map name (blocks (envelope r)) = BLOCK_NAMES"
  by (auto simp: assemble_context_def Let_def result_bind_eq_Inr envelope_post_init_def split: if_splits)

lemma assembled_block:
  assumes "assemble_context E arms now cap max_age = Inr r" "b \<in> set (blocks (envelope r))"
  shows "1 \<le> cap" "name b \<in> set BLOCK_NAMES" "block_ok b"
    "\<exists>ev. assemble_one E arms cap (staleness_cutoff now max_age) (name b) = Inr (b, ev)"
    "state b = arm_state arms cap (staleness_cutoff now max_age) (name b)"
    "items b = arm_served arms cap (staleness_cutoff now max_age) (name b)"
    "envelope_state (envelope r) = answer_state (arm_state arms cap (staleness_cutoff now max_age))"
    "cacheable (quality (envelope r)) \<longleftrightarrow>
       (\<forall>n \<in> set BLOCK_NAMES. arm_state arms cap (staleness_cutoff now max_age) n \<notin> {BLOCK_DEGRADED, BLOCK_FAILED})"
proof -
  let ?c = "staleness_cutoff now max_age"
  from assms(1) show cap: "1 \<le> cap" by (simp add: assemble_context_def split: if_splits)
  obtain r' g where r: "assemble_context E arms now cap max_age = Inr r'" "blocks (envelope r') = map g BLOCK_NAMES"
    and one: "\<And>n. n \<in> set BLOCK_NAMES \<Longrightarrow> \<exists>ev. assemble_one E arms cap ?c n = Inr (g n, ev)"
    and st: "envelope_state (envelope r') = answer_state (arm_state arms cap ?c)"
    and dg: "degraded_blocks (quality (envelope r')) =
      filter (\<lambda>n. arm_state arms cap ?c n \<in> {BLOCK_DEGRADED, BLOCK_FAILED}) BLOCK_NAMES"
    and ca: "cacheable (quality (envelope r')) \<longleftrightarrow> degraded_blocks (quality (envelope r')) = []"
    by (rule assemble_context_blocks [OF cap]) blast
  from r(1) assms(1) have "r' = r" by simp
  with r(2) assms(2) obtain n where n: "n \<in> set BLOCK_NAMES" "b = g n" by auto
  with assemble_one_exact [OF n(1) cap, of E arms ?c] one [OF n(1)]
  show "name b \<in> set BLOCK_NAMES" "block_ok b" "\<exists>ev. assemble_one E arms cap ?c (name b) = Inr (b, ev)"
    "state b = arm_state arms cap ?c (name b)" "items b = arm_served arms cap ?c (name b)" by auto
  show "envelope_state (envelope r) = answer_state (arm_state arms cap ?c)" using st \<open>r' = r\<close> by simp
  show "cacheable (quality (envelope r)) \<longleftrightarrow>
      (\<forall>n \<in> set BLOCK_NAMES. arm_state arms cap ?c n \<notin> {BLOCK_DEGRADED, BLOCK_FAILED})"
    using dg ca by (simp add: \<open>r' = r\<close> filter_empty_conv)
qed

text \<open>
  C29. Everything served can be weighed, and a cut is never silent. A block of an assembled answer passes its own validation: outside the
  canonical block every item carries trust metadata, inside it none does, a block that is degraded or failed gives a
  reason, and no block exceeds the cap. If an arm withheld items, found more than the cap, stopped early or is older than the
  bound, its block is not whole and the answer is neither complete nor cacheable.
\<close>

theorem served_items_weighed:
  assumes "assemble_context E arms now cap max_age = Inr r" "b \<in> set (blocks (envelope r))"
  shows "block_ok b \<and> int (length (items b)) \<le> cap \<and>
    (\<forall>i \<in> set (items b). trust i = None \<longleftrightarrow> name b = BLOCK_CANONICAL) \<and>
    (\<forall>run out. arms (name b) = Some run \<and> arm_result run = ArmReturned (Some out) \<and>
       outcome_cut cap (staleness_cutoff now max_age) out \<longrightarrow>
       state b \<in> {BLOCK_DEGRADED, BLOCK_FAILED} \<and> envelope_state (envelope r) \<noteq> ENVELOPE_COMPLETE \<and>
       \<not> cacheable (quality (envelope r)))"
proof -
  let ?c = "staleness_cutoff now max_age"
  note b = assembled_block [OF assms]
  have "int (length (items b)) \<le> cap"
    using b(1) by (auto simp: b(6) arm_served_def split: option.splits arm_result.splits)
  moreover have "state b \<in> {BLOCK_DEGRADED, BLOCK_FAILED} \<and> envelope_state (envelope r) \<noteq> ENVELOPE_COMPLETE \<and>
       \<not> cacheable (quality (envelope r))"
    if run: "arms (name b) = Some run" "arm_result run = ArmReturned (Some out)" and cut: "outcome_cut cap ?c out" for run out
  proof -
    have bad: "arm_state arms cap ?c (name b) \<in> {BLOCK_DEGRADED, BLOCK_FAILED}"
      using run cut by (simp add: arm_state_def partial_def)
    then have "answer_state (arm_state arms cap ?c) \<noteq> ENVELOPE_COMPLETE"
      using b(2) by (auto simp: answer_state_def ENVELOPE_BLOCKED_def ENVELOPE_COMPLETE_def ENVELOPE_DEGRADED_def)
    with bad b(2,5,7,8) show ?thesis by auto
  qed
  ultimately show ?thesis using b(3) unfolding block_ok_def by blast
qed

text \<open>
  The arms are independent: the block and the evidence of an arm depend on that arm's run alone, whatever the others did.
\<close>

theorem arms_isolated:
  assumes "arms n = arms' n" "n \<in> set BLOCK_NAMES"
    and "assemble_context E arms now cap max_age = Inr r" "assemble_context E arms' now cap max_age = Inr r'"
  shows "block_of (envelope r) n = block_of (envelope r') n"
proof -
  let ?c = "staleness_cutoff now max_age"
  have block: "\<exists>b ev. block_of (envelope r) n = Inr b \<and> assemble_one E arms cap ?c n = Inr (b, ev)"
    if "assemble_context E arms now cap max_age = Inr r" for arms r
  proof -
    have "map name (blocks (envelope r)) = BLOCK_NAMES" by (rule assembled_names [OF that])
    then have "n \<in> name ` set (blocks (envelope r))" using assms(2) by (metis set_map)
    then obtain b where "find (\<lambda>b. name b = n) (blocks (envelope r)) = Some b"
      by (cases "find (\<lambda>b. name b = n) (blocks (envelope r))") (auto simp: find_None_iff)
    then have "block_of (envelope r) n = Inr b" "b \<in> set (blocks (envelope r)) \<and> name b = n"
      by (simp add: block_of_def, auto simp: find_Some_iff)
    with assembled_block(4) [OF that] show ?thesis by blast
  qed
  have "assemble_one E arms cap ?c n = assemble_one E arms' cap ?c n" using assms(1) by (simp add: assemble_one_def)
  with block [OF assms(3)] block [OF assms(4)] show ?thesis by auto
qed

text \<open>
  One item without trust metadata costs the arm its whole block: the block fails without serving any of the other items, and
  when the arm is the canonical one with an item that does carry trust, the whole answer is blocked.
\<close>

theorem one_bad_item_fails_block:
  assumes "assemble_context E arms now cap max_age = Inr r" "b \<in> set (blocks (envelope r))"
    and "arms (name b) = Some run" "arm_result run = ArmReturned (Some out)"
    and "i \<in> set (take (nat cap) (arm_items out))" "trust i = None \<longleftrightarrow> name b \<noteq> BLOCK_CANONICAL"
  shows "state b = BLOCK_FAILED \<and> items b = [] \<and> (name b = BLOCK_CANONICAL \<longrightarrow> envelope_state (envelope r) = ENVELOPE_BLOCKED)"
proof -
  let ?c = "staleness_cutoff now max_age"
  note b = assembled_block [OF assms(1,2)]
  have "unusable cap ?c (name b) out" using assms(5,6) by (auto simp: unusable_def)
  then have "arm_state arms cap ?c (name b) = BLOCK_FAILED" "arm_served arms cap ?c (name b) = []"
    using assms(3,4) by (simp_all add: arm_state_def arm_served_def)
  with b(5-7) show ?thesis by (auto simp: answer_state_def)
qed

subsection \<open>A concrete answer\<close>

text \<open>The canonical arm answers, the workspace arm withholds an item, the claims arm times out, the others are missing.\<close>

definition answer_env :: assembly_env where
  "answer_env = \<lparr>sha256 = id, isoformat = (\<lambda>_. ''t''), exception_text = (\<lambda>_. ''x''), timeout_text = ''2''\<rparr>"

definition sample_item :: "string \<Rightarrow> trust_metadata option \<Rightarrow> context_item" where
  "sample_item b t = \<lparr>item_id = \<lparr>rid_block = b, rid_source = ''s'', rid_item_key = ''k''\<rparr>, payload = [], trust = t\<rparr>"

definition sample_trust :: trust_metadata where
  "sample_trust = \<lparr>trust_level = TRUST_OBSERVED, trust_source = ''s'', assertion_kind = ''fact'', authority = ''a'',
     freshness = None, mutability = ''mutable'', attribution = None, trust_classification = ''internal''\<rparr>"

definition sample_outcome :: "context_item list \<Rightarrow> exclusion list \<Rightarrow> arm_outcome" where
  "sample_outcome is ex = \<lparr>arm_items = is, exclusions = ex, truncated = False, fresh_as_of = None, degraded_reason = None\<rparr>"

definition sample_arms :: "string \<Rightarrow> arm_run option" where
  "sample_arms = map_of
     [(BLOCK_CANONICAL, \<lparr>arm_result = ArmReturned (Some (sample_outcome [sample_item BLOCK_CANONICAL None] [])), elapsed_ms = 3\<rparr>),
      (BLOCK_WORKSPACE, \<lparr>arm_result = ArmReturned (Some (sample_outcome [sample_item BLOCK_WORKSPACE (Some sample_trust)]
         [\<lparr>item_key = ''k2'', exclusion_reason = ''restricted''\<rparr>])), elapsed_ms = 4\<rparr>),
      (BLOCK_ARC, \<lparr>arm_result = ArmReturned (Some (sample_outcome
         [sample_item BLOCK_ARC (Some sample_trust), sample_item BLOCK_ARC None] [])), elapsed_ms = 5\<rparr>),
      (BLOCK_OBSERVED_CLAIMS, \<lparr>arm_result = ArmTimeout, elapsed_ms = 2000\<rparr>)]"

definition sample_answer :: assembly_result where
  "sample_answer = projr (assemble_context answer_env sample_arms 0 50 None)"

lemma sample_answer_eq: "assemble_context answer_env sample_arms 0 50 None = Inr sample_answer"
  using assembly_total [of 50 answer_env sample_arms 0 None] by (auto simp: sample_answer_def)

lemma sample_answer_block: "n \<in> set BLOCK_NAMES \<Longrightarrow> \<exists>b \<in> set (blocks (envelope sample_answer)). name b = n"
  using assembled_names [OF sample_answer_eq] by (metis imageE set_map)

theorem served_items_weighed_witness:
  "\<exists>b \<in> set (blocks (envelope sample_answer)). name b = BLOCK_WORKSPACE \<and> block_ok b \<and> state b \<in> {BLOCK_DEGRADED, BLOCK_FAILED} \<and>
     \<not> cacheable (quality (envelope sample_answer))"
proof -
  obtain b where b: "b \<in> set (blocks (envelope sample_answer))" "name b = BLOCK_WORKSPACE"
    using sample_answer_block [of BLOCK_WORKSPACE] by (auto simp: BLOCK_NAMES_def)
  have "\<exists>run out. sample_arms BLOCK_WORKSPACE = Some run \<and> arm_result run = ArmReturned (Some out) \<and> exclusions out \<noteq> []"
    by (simp add: sample_arms_def sample_outcome_def BLOCK_WORKSPACE_def BLOCK_CANONICAL_def)
  with served_items_weighed [OF sample_answer_eq b(1)] b show ?thesis by (auto simp: outcome_cut_def)
qed

theorem arms_isolated_witness:
  "\<exists>r. assemble_context answer_env (sample_arms(BLOCK_ARC := None)) 0 50 None = Inr r \<and>
     block_of (envelope r) BLOCK_WORKSPACE = block_of (envelope sample_answer) BLOCK_WORKSPACE"
proof -
  have "\<exists>r. assemble_context answer_env (sample_arms(BLOCK_ARC := None)) 0 50 None = Inr r"
    using assembly_total [of 50] by simp
  moreover have "(sample_arms(BLOCK_ARC := None)) BLOCK_WORKSPACE = sample_arms BLOCK_WORKSPACE"
    by (simp add: BLOCK_ARC_def BLOCK_WORKSPACE_def)
  moreover have "BLOCK_WORKSPACE \<in> set BLOCK_NAMES" by code_simp
  ultimately obtain r where r: "assemble_context answer_env (sample_arms(BLOCK_ARC := None)) 0 50 None = Inr r"
      "(sample_arms(BLOCK_ARC := None)) BLOCK_WORKSPACE = sample_arms BLOCK_WORKSPACE" "BLOCK_WORKSPACE \<in> set BLOCK_NAMES" by blast
  from arms_isolated [OF r(2,3,1) sample_answer_eq] r(1) show ?thesis by blast
qed

theorem one_bad_item_fails_block_witness:
  "\<exists>b \<in> set (blocks (envelope sample_answer)). name b = BLOCK_ARC \<and> state b = BLOCK_FAILED \<and> items b = []"
proof -
  obtain b where b: "b \<in> set (blocks (envelope sample_answer))" "name b = BLOCK_ARC"
    using sample_answer_block [of BLOCK_ARC] by (auto simp: BLOCK_NAMES_def)
  have "\<exists>run out. sample_arms BLOCK_ARC = Some run \<and> arm_result run = ArmReturned (Some out) \<and>
      sample_item BLOCK_ARC None \<in> set (take (nat 50) (arm_items out))"
    by (simp add: sample_arms_def sample_outcome_def BLOCK_ARC_def BLOCK_WORKSPACE_def BLOCK_CANONICAL_def)
  then obtain run out where run: "sample_arms (name b) = Some run" "arm_result run = ArmReturned (Some out)"
      "sample_item BLOCK_ARC None \<in> set (take (nat 50) (arm_items out))" using b(2) by auto
  have "trust (sample_item BLOCK_ARC None) = None \<longleftrightarrow> name b \<noteq> BLOCK_CANONICAL"
    by (simp add: sample_item_def b(2) BLOCK_ARC_def BLOCK_CANONICAL_def)
  from one_bad_item_fails_block [OF sample_answer_eq b(1) run this] b show ?thesis by blast
qed

end
