(* ===== verification/Rank_Fusion.thy ===== *)
theory Rank_Fusion
  imports Complex_Main CP_Prelude
begin

section \<open>Fusing ranked retrieval arms\<close>

text \<open>
  The model of \<open>contextplane/service/retrieval/fusion.py\<close>: ranked lists of several arms are merged into one score per key, an arm
  that raised loses its weight to the others. Floats are rationals. What awaiting the arms yields is an input, a list of
  rows or an exception per arm; dictionaries are association lists in insertion order.
\<close>

subsection \<open>The code\<close>

definition rank_decay_weights :: "int \<Rightarrow> rat list" where
  "rank_decay_weights n = map (\<lambda>rank. 1 / (of_nat rank + 1)) [0..<nat n]"

definition redistribute_weights :: "(string \<times> rat) list \<Rightarrow> string list \<Rightarrow> (string \<times> rat) list" where
  "redistribute_weights weights failed_arms =
     (let surviving = filter (\<lambda>(arm, w). arm \<notin> set failed_arms) weights;
          total = sum_list (map snd surviving) in
      if total = 0 then [] else map (\<lambda>(arm, w). (arm, w / total)) surviving)"

record 'a fused_row =
  row :: 'a
  score :: rat
  arm_scores :: "(string \<times> rat) list"

definition add_contribution ::
    "('a \<Rightarrow> 'k) \<Rightarrow> string \<times> rat \<times> 'a \<Rightarrow> ('k \<times> 'a fused_row) list \<Rightarrow> ('k \<times> 'a fused_row) list" where
  "add_contribution key c fused =
     (case c of (arm, contribution, r) \<Rightarrow>
        (case map_of fused (key r) of
           None \<Rightarrow> AList.update (key r) \<lparr>row = r, score = contribution, arm_scores = [(arm, contribution)]\<rparr> fused
         | Some existing \<Rightarrow>
             AList.update (key r)
               \<lparr>row = row existing, score = score existing + contribution,
                arm_scores = AList.update arm
                  ((case map_of (arm_scores existing) arm of None \<Rightarrow> 0 | Some v \<Rightarrow> v) + contribution)
                  (arm_scores existing)\<rparr> fused))"

text \<open>The contributions of one arm in rank order.\<close>

definition arm_contributions :: "string \<Rightarrow> rat \<Rightarrow> 'a list \<Rightarrow> (string \<times> rat \<times> 'a) list" where
  "arm_contributions arm weight rows =
     (let rank_scores = rank_decay_weights (int (length rows)) in
      map (\<lambda>(rank, r). (arm, weight * rank_scores ! rank, r)) (enumerate 0 rows))"

definition fuse_hybrid_arms ::
    "(string \<times> ('e + 'a list)) list \<Rightarrow> (string \<times> rat) list \<Rightarrow> ('a \<Rightarrow> 'k) \<Rightarrow> ('k \<times> 'a fused_row) list \<times> string list" where
  "fuse_hybrid_arms arms weights key =
     (let arm_rows = concat (map (\<lambda>(name, result). case result of Inl _ \<Rightarrow> [] | Inr rows \<Rightarrow> [(name, rows)]) arms);
          failed_arms = concat (map (\<lambda>(name, result). case result of Inl _ \<Rightarrow> [name] | Inr _ \<Rightarrow> []) arms);
          effective = redistribute_weights weights failed_arms in
      (fold (\<lambda>(arm, weight) fused.
          let rows = (case map_of arm_rows arm of None \<Rightarrow> [] | Some rs \<Rightarrow> rs) in
          if rows = [] then fused else fold (add_contribution key) (arm_contributions arm weight rows) fused)
        effective [],
       failed_arms))"

subsection \<open>The score of a key\<close>

text \<open>The rows an arm returned, none when it failed or was not asked.\<close>

definition rows_of :: "(string \<times> ('e + 'a list)) list \<Rightarrow> string \<Rightarrow> 'a list" where
  "rows_of arms arm = (case map_of arms arm of Some (Inr rows) \<Rightarrow> rows | _ \<Rightarrow> [])"

definition failures :: "(string \<times> ('e + 'a list)) list \<Rightarrow> string list" where
  "failures arms = map fst (filter (\<lambda>(_, result). case result of Inl _ \<Rightarrow> True | Inr _ \<Rightarrow> False) arms)"

definition contributions :: "(string \<times> ('e + 'a list)) list \<Rightarrow> (string \<times> rat) list \<Rightarrow> (string \<times> rat \<times> 'a) list" where
  "contributions arms weights =
     concat (map (\<lambda>(arm, w). arm_contributions arm w (rows_of arms arm)) (redistribute_weights weights (failures arms)))"

definition for_key :: "('a \<Rightarrow> 'k) \<Rightarrow> 'k \<Rightarrow> (string \<times> rat \<times> 'a) list \<Rightarrow> (string \<times> rat \<times> 'a) list" where
  "for_key key k cs = filter (\<lambda>(_, _, r). key r = k) cs"

text \<open>What the rank of a key in a list of rows is worth.\<close>

definition rank_value :: "('a \<Rightarrow> 'k) \<Rightarrow> 'k \<Rightarrow> 'a list \<Rightarrow> rat" where
  "rank_value key k rows = sum_list (map (\<lambda>(rank, r). if key r = k then 1 / (of_nat rank + 1) else 0) (enumerate 0 rows))"

lemma arm_contributions_eq:
  "arm_contributions arm w rows = map (\<lambda>(rank, r). (arm, w / (of_nat rank + 1), r)) (enumerate 0 rows)"
  by (auto simp: arm_contributions_def rank_decay_weights_def Let_def in_set_enumerate_eq)

lemma map_of_add_contribution:
  "map_of (add_contribution key (arm, v, r) F) k =
     (if key r = k
      then Some (case map_of F k of
             None \<Rightarrow> \<lparr>row = r, score = v, arm_scores = [(arm, v)]\<rparr>
           | Some e \<Rightarrow> \<lparr>row = row e, score = score e + v,
               arm_scores = AList.update arm ((case map_of (arm_scores e) arm of None \<Rightarrow> 0 | Some x \<Rightarrow> x) + v) (arm_scores e)\<rparr>)
      else map_of F k)"
  by (auto simp: add_contribution_def update_conv split: option.split)

lemma fold_add_contribution:
  "(map_of (fold (add_contribution key) cs []) k = None \<longleftrightarrow> for_key key k cs = []) \<and>
    (\<forall>f. map_of (fold (add_contribution key) cs []) k = Some f \<longrightarrow>
       row f = (snd \<circ> snd) (hd (for_key key k cs)) \<and>
       score f = sum_list (map (fst \<circ> snd) (for_key key k cs)) \<and>
       (\<forall>arm. (case map_of (arm_scores f) arm of None \<Rightarrow> 0 | Some v \<Rightarrow> v) =
         sum_list (map (fst \<circ> snd) (filter (\<lambda>c. fst c = arm) (for_key key k cs)))))"
proof (induction cs rule: rev_induct)
  case Nil
  then show ?case by (simp add: for_key_def)
next
  case (snoc c cs)
  obtain arm v r where c: "c = (arm, v, r)" by (cases c) auto
  let ?F = "fold (add_contribution key) cs []"
  have step: "fold (add_contribution key) (cs @ [c]) [] = add_contribution key (arm, v, r) ?F" by (simp add: c)
  show ?case
  proof (cases "key r = k")
    case False
    then have "for_key key k (cs @ [c]) = for_key key k cs" by (simp add: for_key_def c)
    then show ?thesis using snoc.IH False unfolding step map_of_add_contribution by simp
  next
    case True
    then have fk: "for_key key k (cs @ [c]) = for_key key k cs @ [(arm, v, r)]" by (simp add: for_key_def c)
    show ?thesis
    proof (cases "map_of ?F k")
      case None
      with snoc.IH have "for_key key k cs = []" by simp
      with None True show ?thesis unfolding step map_of_add_contribution fk by auto
    next
      case (Some f)
      with snoc.IH have "for_key key k cs \<noteq> []" by auto
      with Some True snoc.IH show ?thesis
        unfolding step map_of_add_contribution fk by (auto simp: update_conv)
    qed
  qed
qed

lemma sum_for_key:
  "sum_list (map (fst \<circ> snd) (for_key key k (arm_contributions arm w rows))) = w * rank_value key k rows"
proof -
  have "sum_list (map (fst \<circ> snd) (filter (\<lambda>(_, _, r). key r = k) (map (\<lambda>(rank, r). (arm, w / (of_nat rank + 1), r)) rs))) =
      w * sum_list (map (\<lambda>(rank, r). if key r = k then 1 / (of_nat rank + 1) else 0) rs)" for rs :: "(nat \<times> 'a) list"
    by (induction rs) (auto simp: distrib_left)
  then show ?thesis by (simp add: for_key_def arm_contributions_eq rank_value_def)
qed

lemma for_key_append: "for_key key k [] = []" "for_key key k (xs @ ys) = for_key key k xs @ for_key key k ys"
  by (simp_all add: for_key_def)

lemma fold_concat_map: "fold f (concat (map g xs)) s = fold (\<lambda>x. fold f (g x)) xs s"
  by (induction xs arbitrary: s) auto

lemma map_of_arm_rows:
  assumes "distinct (map fst arms)"
  shows "(case map_of (concat (map (\<lambda>(name, result). case result of Inl _ \<Rightarrow> [] | Inr rows \<Rightarrow> [(name, rows)]) arms)) arm of
      None \<Rightarrow> [] | Some rs \<Rightarrow> rs) = rows_of arms arm"
  using assms
proof (induction arms)
  case (Cons a arms)
  obtain n res where a: "a = (n, res)" by (cases a)
  have "map_of (concat (map (\<lambda>(name, result). case result of Inl _ \<Rightarrow> [] | Inr rows \<Rightarrow> [(name, rows)]) arms)) n = None"
    using Cons.prems by (force simp: a map_of_eq_None_iff split: sum.splits)
  with Cons show ?case by (cases res) (auto simp: a rows_of_def)
qed (simp add: rows_of_def)

lemma fuse_contributions:
  assumes "distinct (map fst arms)"
  shows "fuse_hybrid_arms arms weights key = (fold (add_contribution key) (contributions arms weights) [], failures arms)"
proof -
  have fl: "concat (map (\<lambda>(name, result). case result of Inl _ \<Rightarrow> [name] | Inr _ \<Rightarrow> []) arms) = failures arms"
    by (induction arms) (auto simp: failures_def split: sum.splits)
  have skip: "(let rows = rs in if rows = [] then s else fold (add_contribution key) (arm_contributions arm w rows) s) =
      fold (add_contribution key) (arm_contributions arm w rs) s" for rs arm w s
    by (simp add: arm_contributions_eq)
  show ?thesis
    unfolding fuse_hybrid_arms_def fl skip contributions_def fold_concat_map
    by (simp add: Let_def case_prod_unfold map_of_arm_rows [OF assms, unfolded case_prod_unfold])
qed

lemma sum_contributions:
  "sum_list (map (fst \<circ> snd) (for_key key k (contributions arms weights))) =
     (\<Sum>(arm, w)\<leftarrow>redistribute_weights weights (failures arms). w * rank_value key k (rows_of arms arm))"
proof -
  have "sum_list (map (fst \<circ> snd) (for_key key k (concat (map (\<lambda>(arm, w). arm_contributions arm w (rows_of arms arm)) ws)))) =
      (\<Sum>(arm, w)\<leftarrow>ws. w * rank_value key k (rows_of arms arm))" for ws
    by (induction ws) (auto simp: for_key_append sum_for_key [unfolded comp_def])
  then show ?thesis by (simp add: contributions_def)
qed

lemma for_key_empty_iff:
  "for_key key k (contributions arms weights) = [] \<longleftrightarrow>
     (\<forall>(arm, w) \<in> set (redistribute_weights weights (failures arms)). k \<notin> key ` set (rows_of arms arm))"
proof -
  have rows: "set rows = (snd \<circ> snd) ` set (arm_contributions arm w rows)" for arm w and rows :: "'a list"
  proof -
    have "map (snd \<circ> snd) (arm_contributions arm w rows) = map snd (enumerate 0 rows)"
      by (simp add: arm_contributions_eq comp_def case_prod_unfold)
    then show ?thesis by (metis map_snd_enumerate set_map)
  qed
  have "for_key key k (contributions arms weights) = [] \<longleftrightarrow>
      (\<forall>(arm, w) \<in> set (redistribute_weights weights (failures arms)).
         \<forall>c \<in> set (arm_contributions arm w (rows_of arms arm)). key (snd (snd c)) \<noteq> k)"
    by (auto simp: for_key_def contributions_def filter_empty_conv case_prod_unfold)
  also have "\<dots> \<longleftrightarrow> (\<forall>(arm, w) \<in> set (redistribute_weights weights (failures arms)). k \<notin> key ` set (rows_of arms arm))"
  proof (rule ball_cong [OF refl])
    fix x assume "x \<in> set (redistribute_weights weights (failures arms))"
    show "(case x of (arm, w) \<Rightarrow> \<forall>c \<in> set (arm_contributions arm w (rows_of arms arm)). key (snd (snd c)) \<noteq> k) =
        (case x of (arm, w) \<Rightarrow> k \<notin> key ` set (rows_of arms arm))"
      using rows [of "rows_of arms (fst x)" "fst x" "snd x"] by (auto simp: case_prod_unfold image_iff)
  qed
  finally show ?thesis .
qed

lemma redistribute_sum:
  "redistribute_weights weights failed \<noteq> [] \<Longrightarrow> sum_list (map snd (redistribute_weights weights failed)) = 1"
proof -
  have div: "sum_list (map (snd \<circ> (\<lambda>(arm, w). (arm, w / t))) ws) = sum_list (map snd ws) / t" for ws :: "(string \<times> rat) list" and t
    by (induction ws) (auto simp: add_divide_distrib)
  show "redistribute_weights weights failed \<noteq> [] \<Longrightarrow> sum_list (map snd (redistribute_weights weights failed)) = 1"
    by (auto simp: redistribute_weights_def Let_def div split: if_splits)
qed

lemma redistribute_nonneg:
  assumes "\<forall>(arm, w) \<in> set weights. 0 \<le> w" "(arm, w) \<in> set (redistribute_weights weights failed)"
  shows "0 \<le> w"
proof -
  have "0 \<le> sum_list (map snd (filter (\<lambda>(arm, w). arm \<notin> set failed) weights))"
    using assms(1) by (intro sum_list_nonneg) auto
  with assms show ?thesis by (auto simp: redistribute_weights_def Let_def split: if_splits intro!: divide_nonneg_nonneg)
qed

text \<open>
  The arms that have a weight and did not raise, and the weight of an arm, written without the code's own
  redistribution.
\<close>

definition raised :: "(string \<times> ('e + 'a list)) list \<Rightarrow> string set" where
  "raised arms = {arm. \<exists>e. (arm, Inl e) \<in> set arms}"

definition answering :: "(string \<times> ('e + 'a list)) list \<Rightarrow> (string \<times> rat) list \<Rightarrow> string set" where
  "answering arms weights = fst ` set weights - raised arms"

definition weight_of :: "(string \<times> rat) list \<Rightarrow> string \<Rightarrow> rat" where
  "weight_of weights arm = (case map_of weights arm of None \<Rightarrow> 0 | Some w \<Rightarrow> w)"

lemma failures_raised: "set (failures arms) = raised arms"
  by (force simp: failures_def raised_def split: sum.splits)

lemma sum_over_answering:
  assumes "distinct (map fst weights)"
  shows "(\<Sum>(arm, w)\<leftarrow>filter (\<lambda>(arm, w). arm \<notin> set (failures arms)) weights. g arm w) =
    (\<Sum>arm\<in>answering arms weights. g arm (weight_of weights arm))"
proof -
  let ?L = "filter (\<lambda>(arm, w). arm \<notin> set (failures arms)) weights"
  have "(\<Sum>(arm, w)\<leftarrow>?L. g arm w) = sum_list (map (\<lambda>arm. g arm (weight_of weights arm)) (map fst ?L))"
    unfolding map_map by (rule arg_cong [where f = sum_list], rule map_cong) (use assms in \<open>auto simp: weight_of_def\<close>)
  also have "\<dots> = (\<Sum>arm\<in>set (map fst ?L). g arm (weight_of weights arm))"
    using assms by (intro sum_list_distinct_conv_sum_set distinct_map_filter)
  also have "set (map fst ?L) = answering arms weights"
    by (force simp: answering_def failures_raised)
  finally show ?thesis .
qed

lemma fused_sum:
  assumes "distinct (map fst weights)"
  shows "(\<Sum>(arm, w)\<leftarrow>redistribute_weights weights (failures arms). w * v arm) =
    (\<Sum>arm\<in>answering arms weights. weight_of weights arm * v arm) / (\<Sum>arm\<in>answering arms weights. weight_of weights arm)"
proof -
  let ?L = "filter (\<lambda>(arm, w). arm \<notin> set (failures arms)) weights"
  have div: "(\<Sum>(arm, w)\<leftarrow>map (\<lambda>(arm, w). (arm, w / t)) ws. w * v arm) = (\<Sum>(arm, w)\<leftarrow>ws. w * v arm) / t"
    for ws :: "(string \<times> rat) list" and t
    by (induction ws) (auto simp: add_divide_distrib)
  have total: "sum_list (map snd ?L) = (\<Sum>arm\<in>answering arms weights. weight_of weights arm)"
    using sum_over_answering [OF assms, of "\<lambda>_ w. w" arms] by (simp add: case_prod_unfold)
  have parts: "(\<Sum>(arm, w)\<leftarrow>?L. w * v arm) = (\<Sum>arm\<in>answering arms weights. weight_of weights arm * v arm)"
    using sum_over_answering [OF assms, of "\<lambda>arm w. w * v arm" arms] by (simp add: case_prod_unfold)
  show ?thesis
  proof (cases "sum_list (map snd ?L) = 0")
    case True
    then show ?thesis using total by (simp add: redistribute_weights_def)
  next
    case False
    then have "redistribute_weights weights (failures arms) = map (\<lambda>(arm, w). (arm, w / sum_list (map snd ?L))) ?L"
      by (simp add: redistribute_weights_def Let_def)
    then show ?thesis by (simp only: div total parts)
  qed
qed

lemma shares_arms:
  assumes "distinct (map fst weights)"
  shows "fst ` set (redistribute_weights weights (failures arms)) =
    (if (\<Sum>arm\<in>answering arms weights. weight_of weights arm) = 0 then {} else answering arms weights)"
proof -
  have "sum_list (map snd (filter (\<lambda>(arm, w). arm \<notin> set (failures arms)) weights)) =
      (\<Sum>arm\<in>answering arms weights. weight_of weights arm)"
    using sum_over_answering [OF assms, of "\<lambda>_ w. w" arms] by (simp add: case_prod_unfold)
  then show ?thesis
    by (force simp: redistribute_weights_def Let_def answering_def failures_raised)
qed

lemma find_hd: "filter P xs \<noteq> [] \<Longrightarrow> find P xs = Some (hd (filter P xs))"
  by (induction xs) auto

lemma first_row:
  assumes "for_key key k (contributions arms weights) \<noteq> []"
  shows "find (\<lambda>r. key r = k) (concat (map (rows_of arms \<circ> fst) (filter (\<lambda>(arm, w). arm \<notin> raised arms) weights))) =
    Some ((snd \<circ> snd) (hd (for_key key k (contributions arms weights))))"
proof -
  let ?cs = "contributions arms weights" and ?ws = "redistribute_weights weights (failures arms)"
  have one: "map (snd \<circ> snd) (arm_contributions arm w (rows_of arms arm)) = rows_of arms arm" for arm w
    by (simp add: arm_contributions_eq comp_def case_prod_unfold)
  have "map (snd \<circ> snd) (concat (map (\<lambda>(arm, w). arm_contributions arm w (rows_of arms arm)) ws)) =
      concat (map (\<lambda>(arm, w). rows_of arms arm) ws)" for ws
    by (induction ws) (auto simp only: list.map concat.simps map_append prod.case one)
  then have "map (snd \<circ> snd) ?cs = concat (map (\<lambda>(arm, w). rows_of arms arm) ?ws)"
    by (simp only: contributions_def)
  moreover have "?ws \<noteq> []" using assms by (auto simp: contributions_def for_key_def)
  then have "map fst ?ws = map fst (filter (\<lambda>(arm, w). arm \<notin> raised arms) weights)"
    by (auto simp: redistribute_weights_def Let_def failures_raised comp_def case_prod_unfold split: if_splits)
  then have "concat (map (rows_of arms) (map fst ?ws)) =
      concat (map (rows_of arms) (map fst (filter (\<lambda>(arm, w). arm \<notin> raised arms) weights)))" by (rule arg_cong)
  then have "concat (map (\<lambda>(arm, w). rows_of arms arm) ?ws) =
      concat (map (rows_of arms \<circ> fst) (filter (\<lambda>(arm, w). arm \<notin> raised arms) weights))"
    by (simp only: map_map comp_def case_prod_unfold)
  ultimately have rows: "map (snd \<circ> snd) ?cs =
      concat (map (rows_of arms \<circ> fst) (filter (\<lambda>(arm, w). arm \<notin> raised arms) weights))" by simp
  have "filter (\<lambda>r. key r = k) (map (snd \<circ> snd) ?cs) = map (snd \<circ> snd) (for_key key k ?cs)"
    by (simp add: for_key_def filter_map comp_def case_prod_unfold)
  with assms show ?thesis unfolding rows [symmetric] by (subst find_hd) (simp_all add: hd_map)
qed


lemma rank_value_range:
  assumes "distinct (map key rows)"
  shows "0 \<le> rank_value key k rows \<and> rank_value key k rows \<le> 1"
proof -
  have "(k \<notin> key ` set rs \<longrightarrow> v = 0) \<and> 0 \<le> v \<and> v \<le> 1"
    if "distinct (map key rs)" "v = sum_list (map (\<lambda>(rank, r). if key r = k then 1 / (of_nat rank + 1) else 0) (enumerate n rs))" for rs n and v :: rat
    using that
  proof (induction rs arbitrary: n v)
    case (Cons r rs)
    from Cons.IH [of _ "Suc n"] Cons.prems show ?case by (auto simp: divide_le_eq)
  qed simp
  from this [OF assms refl, of 0] show ?thesis by (simp add: rank_value_def)
qed

text \<open>
  A fused score lies between zero and one whatever the arms returned and whichever of them failed, as long as weights
  are not negative and no arm returns a key twice.
\<close>

theorem fused_score_bounds:
  assumes "distinct (map fst arms)" "\<forall>(arm, w) \<in> set weights. 0 \<le> w" "\<forall>(arm, rows) \<in> set arms. \<forall>rs. rows = Inr rs \<longrightarrow> distinct (map key rs)"
    and "map_of (fst (fuse_hybrid_arms arms weights key)) k = Some f"
  shows "0 \<le> score f \<and> score f \<le> 1"
proof -
  let ?ws = "redistribute_weights weights (failures arms)"
  have f: "score f = (\<Sum>(arm, w)\<leftarrow>?ws. w * rank_value key k (rows_of arms arm))" and ne: "?ws \<noteq> []"
    using fold_add_contribution [of key "contributions arms weights" k] assms(4) for_key_empty_iff [of key k arms weights]
    by (auto simp: fuse_contributions [OF assms(1)] sum_contributions)
  have val: "0 \<le> rank_value key k (rows_of arms arm) \<and> rank_value key k (rows_of arms arm) \<le> 1" for arm
    by (rule rank_value_range) (use assms(3) in \<open>auto simp: rows_of_def split: option.splits sum.splits dest!: map_of_SomeD\<close>)
  have bound: "0 \<le> w * rank_value key k (rows_of arms arm) \<and> w * rank_value key k (rows_of arms arm) \<le> w" if "(arm, w) \<in> set ?ws" for arm w
    using redistribute_nonneg [OF assms(2) that] val [of arm] by (simp add: mult_left_le)
  have "0 \<le> score f" unfolding f by (rule sum_list_nonneg) (use bound in auto)
  moreover have "score f \<le> sum_list (map snd ?ws)" unfolding f by (rule sum_list_mono) (use bound in auto)
  ultimately show ?thesis using redistribute_sum [OF ne] by simp
qed

text \<open>
  Only the proportions of the weights matter: multiplying all of them by a number changes no score, so weights that do not
  add up to one still give scores as if they did.
\<close>

theorem weights_always_normalised:
  assumes "c \<noteq> 0"
  shows "fuse_hybrid_arms arms (map (\<lambda>(arm, w). (arm, c * w)) weights) key = fuse_hybrid_arms arms weights key"
proof -
  have scaled: "filter (\<lambda>(arm, w). arm \<notin> set F) (map (\<lambda>(arm, w). (arm, c * w)) weights) =
      map (\<lambda>(arm, w). (arm, c * w)) (filter (\<lambda>(arm, w). arm \<notin> set F) weights)" for F
    by (induction weights) auto
  have total: "sum_list (map snd (map (\<lambda>(arm, w). (arm, c * w)) ws)) = c * sum_list (map snd ws)" for ws :: "(string \<times> rat) list"
    by (induction ws) (auto simp: distrib_left)
  have "redistribute_weights (map (\<lambda>(arm, w). (arm, c * w)) weights) F = redistribute_weights weights F" for F
    using assms unfolding redistribute_weights_def scaled total Let_def by auto
  then show ?thesis by (simp add: fuse_hybrid_arms_def)
qed

subsection \<open>A concrete fusion\<close>

text \<open>Three arms, of which the vector search raised: its share goes to the other two.\<close>

definition fusion_arms :: "(string \<times> (string + string list)) list" where
  "fusion_arms = [(''fts'', Inr [''a'', ''b'']), (''vector'', Inl ''boom''), (''graph'', Inr [''b''])]"

definition fusion_weights :: "(string \<times> rat) list" where
  "fusion_weights = [(''fts'', 1 / 2), (''vector'', 1 / 4), (''graph'', 1 / 4)]"


theorem fused_score_bounds_witness:
  "\<exists>f. map_of (fst (fuse_hybrid_arms fusion_arms fusion_weights id)) ''a'' = Some f \<and> 0 \<le> score f \<and> score f \<le> 1"
proof -
  have "map_of (fst (fuse_hybrid_arms fusion_arms fusion_weights id)) ''a'' \<noteq> None" by code_simp
  then obtain f where f: "map_of (fst (fuse_hybrid_arms fusion_arms fusion_weights id)) ''a'' = Some f" by blast
  have "distinct (map fst fusion_arms)" by code_simp
  moreover have "\<forall>(arm, w) \<in> set fusion_weights. 0 \<le> w" by (simp add: fusion_weights_def)
  moreover have "\<forall>(arm, rows) \<in> set fusion_arms. \<forall>rs. rows = Inr rs \<longrightarrow> distinct (map id rs)" by (simp add: fusion_arms_def)
  ultimately have "0 \<le> score f \<and> score f \<le> 1" using f by (rule fused_score_bounds)
  with f show ?thesis by blast
qed

theorem weights_always_normalised_witness:
  "fuse_hybrid_arms fusion_arms (map (\<lambda>(arm, w). (arm, 8 * w)) fusion_weights) id = fuse_hybrid_arms fusion_arms fusion_weights id"
  by (rule weights_always_normalised) simp

end
