(* ===== verification/Write_Intent.thy ===== *)
theory Write_Intent
  imports Py_Strings
begin

section \<open>Routing profile writes\<close>

text \<open>
  The model of \<open>contextplane/entities/write_intent.py\<close>: a write states an intent, the server resolves an authority, and
  only a pair that belongs together is routed. A request body is the association list of its fields.
\<close>

subsection \<open>Vocabulary\<close>

definition INTENT_OBSERVATION :: string where "INTENT_OBSERVATION = ''observation''"
definition INTENT_REQUEST :: string where "INTENT_REQUEST = ''request''"
definition INTENT_AUTHORIZED_APPROVAL :: string where "INTENT_AUTHORIZED_APPROVAL = ''authorized_approval''"
definition PROFILE_WRITE_INTENTS :: "string list" where
  "PROFILE_WRITE_INTENTS = [INTENT_OBSERVATION, INTENT_REQUEST, INTENT_AUTHORIZED_APPROVAL]"

definition EFFECT_STAGED_CLAIM :: string where "EFFECT_STAGED_CLAIM = ''staged_claim''"
definition EFFECT_OWNER_REVIEW_ENTRY :: string where "EFFECT_OWNER_REVIEW_ENTRY = ''owner_review_entry''"
definition EFFECT_CANONICAL_ASSERTION_WRITE :: string where "EFFECT_CANONICAL_ASSERTION_WRITE = ''canonical_assertion_write''"

definition AUTHORITY_OBSERVED_EVIDENCE :: string where "AUTHORITY_OBSERVED_EVIDENCE = ''observed_evidence''"
definition AUTHORITY_REQUESTER_ENTITLEMENT :: string where "AUTHORITY_REQUESTER_ENTITLEMENT = ''requester_entitlement''"
definition AUTHORITY_VERIFIED_APPROVAL :: string where "AUTHORITY_VERIFIED_APPROVAL = ''verified_approval''"
definition PROFILE_WRITE_AUTHORITY_ORIGINS :: "string list" where
  "PROFILE_WRITE_AUTHORITY_ORIGINS = [AUTHORITY_OBSERVED_EVIDENCE, AUTHORITY_REQUESTER_ENTITLEMENT, AUTHORITY_VERIFIED_APPROVAL]"

definition RESERVED_AUTHORITY_FIELDS :: "string list" where
  "RESERVED_AUTHORITY_FIELDS =
     [''approved_at'', ''approved_by'', ''assertion_id'', ''audit_reference'', ''authority'', ''canonical'',
      ''extension_digest'', ''freshness_state'', ''ingested_at'', ''provenance_id'', ''revocation_ref'', ''revoked_at'',
      ''trust_class'', ''validated_at'', ''validating_profile_revision'', ''validation_result'']"

datatype write_error = RefusedProfileWrite

subsection \<open>Authorities and routes\<close>

record write_authority =
  wa_actor_id :: string
  wa_origin :: string
  wa_approval_reference :: "string option"

definition write_authority_post_init :: "write_authority \<Rightarrow> write_error + write_authority" where
  "write_authority_post_init a =
     (if py_strip (wa_actor_id a) = [] then Inl RefusedProfileWrite
      else if wa_origin a \<notin> set PROFILE_WRITE_AUTHORITY_ORIGINS then Inl RefusedProfileWrite
      else if wa_origin a = AUTHORITY_VERIFIED_APPROVAL
      then (if wa_approval_reference a = None \<or> py_strip (the (wa_approval_reference a)) = []
            then Inl RefusedProfileWrite else Inr a)
      else if wa_approval_reference a \<noteq> None then Inl RefusedProfileWrite
      else Inr a)"

record write_route =
  rt_intent :: string
  rt_effect :: string
  rt_authority :: string
  carries_approval_reference :: bool

definition ROUTES :: "(string \<times> write_route) list" where
  "ROUTES =
     [(INTENT_OBSERVATION, \<lparr>rt_intent = INTENT_OBSERVATION, rt_effect = EFFECT_STAGED_CLAIM,
        rt_authority = AUTHORITY_OBSERVED_EVIDENCE, carries_approval_reference = False\<rparr>),
      (INTENT_REQUEST, \<lparr>rt_intent = INTENT_REQUEST, rt_effect = EFFECT_OWNER_REVIEW_ENTRY,
        rt_authority = AUTHORITY_REQUESTER_ENTITLEMENT, carries_approval_reference = False\<rparr>),
      (INTENT_AUTHORIZED_APPROVAL, \<lparr>rt_intent = INTENT_AUTHORIZED_APPROVAL, rt_effect = EFFECT_CANONICAL_ASSERTION_WRITE,
        rt_authority = AUTHORITY_VERIFIED_APPROVAL, carries_approval_reference = True\<rparr>)]"

definition assert_routes_disjoint :: "(string \<times> write_route) list \<Rightarrow> write_error + unit" where
  "assert_routes_disjoint routes =
     (if map fst routes \<noteq> PROFILE_WRITE_INTENTS then Inl RefusedProfileWrite
      else if \<exists>(intent, route) \<in> set routes. rt_intent route \<noteq> intent \<or>
        carries_approval_reference route \<noteq> (rt_authority route = AUTHORITY_VERIFIED_APPROVAL)
      then Inl RefusedProfileWrite
      else if \<not> distinct (map (rt_effect \<circ> snd) routes) \<or> \<not> distinct (map (rt_authority \<circ> snd) routes)
      then Inl RefusedProfileWrite
      else Inr ())"

subsection \<open>Routing\<close>

record routed_write =
  rw_intent :: string
  rw_effect :: string
  rw_actor_id :: string
  rw_approval_reference :: "string option"

definition refuse_caller_asserted_authority :: "(string \<times> json) list \<Rightarrow> write_error + unit" where
  "refuse_caller_asserted_authority body =
     (if filter (\<lambda>(field, _). field \<in> set RESERVED_AUTHORITY_FIELDS) body \<noteq> [] then Inl RefusedProfileWrite else Inr ())"

definition route_profile_write ::
    "string option \<Rightarrow> write_authority \<Rightarrow> string option \<Rightarrow> write_error + routed_write" where
  "route_profile_write intent authority approval_reference =
     (case intent of
        None \<Rightarrow> Inl RefusedProfileWrite
      | Some i \<Rightarrow>
          if py_strip i = [] then Inl RefusedProfileWrite
          else (case map_of ROUTES i of
              None \<Rightarrow> Inl RefusedProfileWrite
            | Some route \<Rightarrow>
                if wa_origin authority \<noteq> rt_authority route then Inl RefusedProfileWrite
                else if \<not> carries_approval_reference route
                then (if approval_reference \<noteq> None then Inl RefusedProfileWrite
                      else Inr \<lparr>rw_intent = rt_intent route, rw_effect = rt_effect route,
                                rw_actor_id = wa_actor_id authority, rw_approval_reference = None\<rparr>)
                else if approval_reference = None \<or> py_strip (the approval_reference) = [] then Inl RefusedProfileWrite
                else if approval_reference \<noteq> wa_approval_reference authority then Inl RefusedProfileWrite
                else Inr \<lparr>rw_intent = rt_intent route, rw_effect = rt_effect route,
                          rw_actor_id = wa_actor_id authority, rw_approval_reference = wa_approval_reference authority\<rparr>))"

definition effect_of :: "string \<Rightarrow> write_error + string" where
  "effect_of intent = of_option RefusedProfileWrite (map_option rt_effect (map_of ROUTES intent))"

subsection \<open>The strongest write is never the caller's to grant itself\<close>

lemmas vocabulary =
  INTENT_OBSERVATION_def INTENT_REQUEST_def INTENT_AUTHORIZED_APPROVAL_def EFFECT_STAGED_CLAIM_def
  EFFECT_OWNER_REVIEW_ENTRY_def EFFECT_CANONICAL_ASSERTION_WRITE_def AUTHORITY_OBSERVED_EVIDENCE_def
  AUTHORITY_REQUESTER_ENTITLEMENT_def AUTHORITY_VERIFIED_APPROVAL_def

lemma vocabulary_distinct [simp]:
  "INTENT_OBSERVATION \<noteq> INTENT_REQUEST" "INTENT_REQUEST \<noteq> INTENT_OBSERVATION"
  "INTENT_OBSERVATION \<noteq> INTENT_AUTHORIZED_APPROVAL" "INTENT_AUTHORIZED_APPROVAL \<noteq> INTENT_OBSERVATION"
  "INTENT_REQUEST \<noteq> INTENT_AUTHORIZED_APPROVAL" "INTENT_AUTHORIZED_APPROVAL \<noteq> INTENT_REQUEST"
  "AUTHORITY_OBSERVED_EVIDENCE \<noteq> AUTHORITY_REQUESTER_ENTITLEMENT" "AUTHORITY_REQUESTER_ENTITLEMENT \<noteq> AUTHORITY_OBSERVED_EVIDENCE"
  "AUTHORITY_OBSERVED_EVIDENCE \<noteq> AUTHORITY_VERIFIED_APPROVAL" "AUTHORITY_VERIFIED_APPROVAL \<noteq> AUTHORITY_OBSERVED_EVIDENCE"
  "AUTHORITY_REQUESTER_ENTITLEMENT \<noteq> AUTHORITY_VERIFIED_APPROVAL" "AUTHORITY_VERIFIED_APPROVAL \<noteq> AUTHORITY_REQUESTER_ENTITLEMENT"
  by (simp_all add: vocabulary)

lemma intents_nonblank [simp]:
  "py_strip INTENT_OBSERVATION \<noteq> []" "py_strip INTENT_REQUEST \<noteq> []" "py_strip INTENT_AUTHORIZED_APPROVAL \<noteq> []"
  by code_simp+

lemma routes_cases:
  "map_of ROUTES i = Some r \<longleftrightarrow>
     i = INTENT_OBSERVATION \<and> r = \<lparr>rt_intent = INTENT_OBSERVATION, rt_effect = EFFECT_STAGED_CLAIM,
       rt_authority = AUTHORITY_OBSERVED_EVIDENCE, carries_approval_reference = False\<rparr> \<or>
     i = INTENT_REQUEST \<and> r = \<lparr>rt_intent = INTENT_REQUEST, rt_effect = EFFECT_OWNER_REVIEW_ENTRY,
       rt_authority = AUTHORITY_REQUESTER_ENTITLEMENT, carries_approval_reference = False\<rparr> \<or>
     i = INTENT_AUTHORIZED_APPROVAL \<and> r = \<lparr>rt_intent = INTENT_AUTHORIZED_APPROVAL, rt_effect = EFFECT_CANONICAL_ASSERTION_WRITE,
       rt_authority = AUTHORITY_VERIFIED_APPROVAL, carries_approval_reference = True\<rparr>"
  by (auto simp: ROUTES_def)

lemma route_of_intent [simp]:
  "map_of ROUTES INTENT_OBSERVATION = Some \<lparr>rt_intent = INTENT_OBSERVATION, rt_effect = EFFECT_STAGED_CLAIM,
     rt_authority = AUTHORITY_OBSERVED_EVIDENCE, carries_approval_reference = False\<rparr>"
  "map_of ROUTES INTENT_REQUEST = Some \<lparr>rt_intent = INTENT_REQUEST, rt_effect = EFFECT_OWNER_REVIEW_ENTRY,
     rt_authority = AUTHORITY_REQUESTER_ENTITLEMENT, carries_approval_reference = False\<rparr>"
  "map_of ROUTES INTENT_AUTHORIZED_APPROVAL = Some \<lparr>rt_intent = INTENT_AUTHORIZED_APPROVAL,
     rt_effect = EFFECT_CANONICAL_ASSERTION_WRITE, rt_authority = AUTHORITY_VERIFIED_APPROVAL, carries_approval_reference = True\<rparr>"
  by (simp_all add: routes_cases)

lemma shipped_routes_disjoint: "assert_routes_disjoint ROUTES = Inr ()"
  by code_simp

text \<open>Any table the check accepts sends different intents to different effects under different authorities.\<close>

theorem accepted_routes_disjoint:
  assumes "assert_routes_disjoint routes = Inr ()" "(i, r) \<in> set routes" "(j, s) \<in> set routes"
  shows "r = s \<longleftrightarrow> i = j" "rt_effect r = rt_effect s \<longleftrightarrow> i = j" "rt_authority r = rt_authority s \<longleftrightarrow> i = j"
proof -
  from assms(1) have own: "\<forall>(i, r) \<in> set routes. rt_intent r = i" and keys: "map fst routes = PROFILE_WRITE_INTENTS"
    and d: "distinct (map (rt_effect \<circ> snd) routes)" "distinct (map (rt_authority \<circ> snd) routes)"
    by (auto simp: assert_routes_disjoint_def split: if_splits)
  have "distinct PROFILE_WRITE_INTENTS" by code_simp
  with keys have dk: "distinct (map fst routes)" by simp
  have eq: "f (i, r) = f (j, s) \<longleftrightarrow> (i, r) = (j, s)" if "distinct (map f routes)" for f :: "string \<times> write_route \<Rightarrow> string"
    using that assms(2,3) by (auto simp: distinct_map dest: inj_onD)
  have same: "i = j \<longleftrightarrow> (i, r) = (j, s)" using eq [OF dk] by simp
  show "rt_effect r = rt_effect s \<longleftrightarrow> i = j" unfolding same using eq [OF d(1)] by (simp only: o_apply snd_conv)
  show "rt_authority r = rt_authority s \<longleftrightarrow> i = j" unfolding same using eq [OF d(2)] by (simp only: o_apply snd_conv)
  have "rt_intent r = i" "rt_intent s = j" using own assms(2,3) by auto
  with same show "r = s \<longleftrightarrow> i = j" by auto
qed

text \<open>
  C33. A write is routed exactly when the intent is one of the three and belongs to the authority the server resolved; a write
  reaches the canonical store only for an actor whose verified approval is the very one the request names, and
  every other effect is reached without any approval reference. The body has no influence on the decision.
\<close>

theorem route_exact:
  assumes "write_authority_post_init a = Inr a"
  shows "route_profile_write intent a ref = Inr w \<longleftrightarrow>
    rw_actor_id w = wa_actor_id a \<and> rw_approval_reference w = ref \<and> ref = wa_approval_reference a \<and> intent = Some (rw_intent w) \<and>
    (wa_origin a = AUTHORITY_OBSERVED_EVIDENCE \<and> rw_intent w = INTENT_OBSERVATION \<and> rw_effect w = EFFECT_STAGED_CLAIM \<or>
     wa_origin a = AUTHORITY_REQUESTER_ENTITLEMENT \<and> rw_intent w = INTENT_REQUEST \<and> rw_effect w = EFFECT_OWNER_REVIEW_ENTRY \<or>
     wa_origin a = AUTHORITY_VERIFIED_APPROVAL \<and> rw_intent w = INTENT_AUTHORIZED_APPROVAL \<and>
       rw_effect w = EFFECT_CANONICAL_ASSERTION_WRITE)"
proof (cases "\<exists>i r. intent = Some i \<and> map_of ROUTES i = Some r")
  case False
  then have "\<nexists>w. route_profile_write intent a ref = Inr w"
    by (auto simp: route_profile_write_def split: option.splits)
  moreover have "intent \<notin> {Some INTENT_OBSERVATION, Some INTENT_REQUEST, Some INTENT_AUTHORIZED_APPROVAL}"
    using False by (auto simp: routes_cases)
  ultimately show ?thesis by auto
next
  case True
  then obtain i r where i: "intent = Some i" "map_of ROUTES i = Some r" by blast
  have ref: "wa_origin a \<noteq> AUTHORITY_VERIFIED_APPROVAL \<Longrightarrow> wa_approval_reference a = None"
      "wa_origin a = AUTHORITY_VERIFIED_APPROVAL \<Longrightarrow> \<exists>r. wa_approval_reference a = Some r \<and> py_strip r \<noteq> []"
    using assms by (auto simp: write_authority_post_init_def split: if_splits)
  from i(2) [unfolded routes_cases] show ?thesis
    by (elim disjE conjE; cases w; use ref in \<open>auto simp: i(1) route_profile_write_def split: if_splits\<close>)
qed

theorem route_exact_witness:
  "\<exists>w. route_profile_write (Some ''authorized_approval'') \<lparr>wa_actor_id = ''ana'', wa_origin = ''verified_approval'',
     wa_approval_reference = Some ''ap1''\<rparr> (Some ''ap1'') = Inr w \<and> rw_effect w = EFFECT_CANONICAL_ASSERTION_WRITE"
proof -
  let ?a = "\<lparr>wa_actor_id = ''ana'', wa_origin = ''verified_approval'', wa_approval_reference = Some ''ap1''\<rparr>"
  let ?w = "\<lparr>rw_intent = INTENT_AUTHORIZED_APPROVAL, rw_effect = EFFECT_CANONICAL_ASSERTION_WRITE, rw_actor_id = ''ana'',
    rw_approval_reference = Some ''ap1''\<rparr>"
  have "write_authority_post_init ?a = Inr ?a" by code_simp
  from route_exact [OF this, of "Some ''authorized_approval''" "Some ''ap1''" ?w] show ?thesis
    by (intro exI [of _ ?w]) (simp add: vocabulary)
qed

theorem reserved_fields_refused:
  "refuse_caller_asserted_authority body = Inr () \<longleftrightarrow> fst ` set body \<inter> set RESERVED_AUTHORITY_FIELDS = {}"
  by (force simp: refuse_caller_asserted_authority_def filter_empty_conv)

end
