(* ===== verification/Interface_Diff.thy ===== *)
theory Interface_Diff
  imports Py_Strings
begin

section \<open>Differences between interfaces\<close>

text \<open>
  The model of \<open>contextplane/service/catalog/interface_diff.py\<close> on the surface of \<open>contextplane/types.py\<close>: two surfaces are compared element by
  element, every finding is recorded with its evidence, and the whole change gets the highest severity found. A
  function that appends to the list of changes and escalates returns its findings here, each change with the severity it escalates to. The
  source walks sets of names, whose order is arbitrary; here they come in the order of the surface. Of an
  element only the keys the comparison reads are modelled; a missing value and a null one are the same to it. The arrow in one of the
  texts is written as a word.
\<close>

subsection \<open>Surfaces\<close>

record element =
  el_name :: "string option"
  el_type :: "json option"
  el_required :: bool

record operation =
  op_name :: "string option"
  op_params :: "element list"
  op_returns :: "json option"

record event =
  ev_name :: "string option"
  payload_fields :: "element list"

record surface =
  operations :: "operation list"
  events :: "event list"
  surface_fields :: "element list"

text \<open>\<open>{x.get("name"): x for x in xs}\<close>, and the same restricted to true names.\<close>

definition index :: "('a \<Rightarrow> 'k) \<Rightarrow> 'a list \<Rightarrow> ('k \<times> 'a) list" where
  "index key xs = fold (\<lambda>x d. AList.update (key x) x d) xs []"

definition named :: "('a \<Rightarrow> string option) \<Rightarrow> 'a list \<Rightarrow> (string \<times> 'a) list" where
  "named key xs = index (\<lambda>x. the (key x)) (filter (\<lambda>x. key x \<noteq> None \<and> key x \<noteq> Some []) xs)"

definition keys_minus :: "('k \<times> 'a) list \<Rightarrow> ('k \<times> 'b) list \<Rightarrow> 'k list" where
  "keys_minus d e = filter (\<lambda>k. k \<notin> fst ` set e) (map fst d)"

definition keys_both :: "('k \<times> 'a) list \<Rightarrow> ('k \<times> 'b) list \<Rightarrow> 'k list" where
  "keys_both d e = filter (\<lambda>k. k \<in> fst ` set e) (map fst d)"

definition value_at :: "('k \<times> 'a) list \<Rightarrow> 'k \<Rightarrow> 'a" where
  "value_at d k = the (map_of d k)"

subsection \<open>Severities and changes\<close>

datatype severity = NON_BREAKING | DEPRECATION | BREAKING

fun severity_label :: "severity \<Rightarrow> string" where
  "severity_label NON_BREAKING = ''non-breaking''"
| "severity_label DEPRECATION = ''deprecation''"
| "severity_label BREAKING = ''breaking''"

fun SEVERITY_RANK :: "severity \<Rightarrow> nat" where
  "SEVERITY_RANK NON_BREAKING = 0"
| "SEVERITY_RANK DEPRECATION = 1"
| "SEVERITY_RANK BREAKING = 2"

definition escalate :: "severity \<Rightarrow> severity \<Rightarrow> severity" where
  "escalate current candidate = (if SEVERITY_RANK candidate > SEVERITY_RANK current then candidate else current)"

datatype details =
    OfOperation operation
  | OfField element
  | OfEvent event
  | Because string
  | FromTo "json option" "json option"
  | RemovedFields "string option list"

record change =
  ch_name :: string
  change_type :: string
  ch_details :: details

type_synonym finding = "severity \<times> change"

definition finding :: "severity \<Rightarrow> string \<Rightarrow> string \<Rightarrow> details \<Rightarrow> finding" where
  "finding s n t d = (s, \<lparr>ch_name = n, change_type = t, ch_details = d\<rparr>)"

definition severity_of :: "finding list \<Rightarrow> severity" where
  "severity_of fs = fold (\<lambda>f s. escalate s (fst f)) fs NON_BREAKING"

text \<open>The text of a parameter name in an f-string.\<close>

definition show_name :: "string option \<Rightarrow> string" where
  "show_name n = (case n of None \<Rightarrow> ''None'' | Some s \<Rightarrow> s)"

subsection \<open>The comparison\<close>

definition diff_one_operation :: "string \<Rightarrow> operation \<Rightarrow> operation \<Rightarrow> finding list" where
  "diff_one_operation n current proposed =
     (let cur = index el_name (op_params current); prop = index el_name (op_params proposed);
          at = (\<lambda>p. n @ ''.'' @ show_name p) in
      map (\<lambda>p. finding BREAKING (at p) ''operation_input_narrowed'' (Because ''new required param''))
        (filter (\<lambda>p. el_required (value_at prop p)) (keys_minus prop cur)) @
      concat (map (\<lambda>p.
        (if \<not> el_required (value_at cur p) \<and> el_required (value_at prop p)
         then [finding BREAKING (at p) ''operation_input_narrowed'' (Because ''param required flipped to true'')] else []) @
        (if el_type (value_at cur p) \<noteq> el_type (value_at prop p) \<and> el_type (value_at cur p) \<noteq> None \<and> el_type (value_at prop p) \<noteq> None
         then [finding BREAKING (at p) ''operation_input_type_changed'' (FromTo (el_type (value_at cur p)) (el_type (value_at prop p)))]
         else [])) (keys_both cur prop)) @
      map (\<lambda>p. finding NON_BREAKING (at p) ''operation_input_widened'' (Because ''param removed'')) (keys_minus cur prop) @
      (if op_returns current = op_returns proposed then []
       else if op_returns current = None
       then [finding NON_BREAKING n ''operation_output_widened'' (FromTo None (op_returns proposed))]
       else if op_returns proposed = None
       then [finding DEPRECATION n ''operation_output_undocumented'' (FromTo (op_returns current) None)]
       else [finding BREAKING n ''operation_output_type_changed'' (FromTo (op_returns current) (op_returns proposed))]))"

definition diff_operations :: "surface \<Rightarrow> surface \<Rightarrow> finding list" where
  "diff_operations current proposed =
     (let cur = named op_name (operations current); prop = named op_name (operations proposed) in
      map (\<lambda>n. finding BREAKING n ''operation_removed'' (OfOperation (value_at cur n))) (keys_minus cur prop) @
      map (\<lambda>n. finding NON_BREAKING n ''operation_added'' (OfOperation (value_at prop n))) (keys_minus prop cur) @
      concat (map (\<lambda>n. diff_one_operation n (value_at cur n) (value_at prop n)) (keys_both cur prop)))"

definition diff_fields :: "surface \<Rightarrow> surface \<Rightarrow> finding list" where
  "diff_fields current proposed =
     (let cur = named el_name (surface_fields current); prop = named el_name (surface_fields proposed) in
      map (\<lambda>n. finding BREAKING n ''field_removed'' (OfField (value_at cur n))) (keys_minus cur prop) @
      map (\<lambda>n. if el_required (value_at prop n) then finding BREAKING n ''field_added_required'' (OfField (value_at prop n))
               else finding NON_BREAKING n ''field_added'' (OfField (value_at prop n))) (keys_minus prop cur) @
      concat (map (\<lambda>n.
        (if el_type (value_at cur n) \<noteq> el_type (value_at prop n)
         then [finding BREAKING n ''field_type_changed'' (FromTo (el_type (value_at cur n)) (el_type (value_at prop n)))] else []) @
        (if \<not> el_required (value_at cur n) \<and> el_required (value_at prop n)
         then [finding BREAKING n ''field_required_added'' (Because ''optional to required'')] else [])) (keys_both cur prop)))"

definition diff_events :: "surface \<Rightarrow> surface \<Rightarrow> finding list" where
  "diff_events current proposed =
     (let cur = named ev_name (events current); prop = named ev_name (events proposed) in
      map (\<lambda>n. finding BREAKING n ''event_removed'' (OfEvent (value_at cur n))) (keys_minus cur prop) @
      map (\<lambda>n. finding NON_BREAKING n ''event_added'' (OfEvent (value_at prop n))) (keys_minus prop cur) @
      concat (map (\<lambda>n.
        let gone = keys_minus (index el_name (payload_fields (value_at cur n))) (index el_name (payload_fields (value_at prop n))) in
        if gone \<noteq> [] then [finding BREAKING n ''event_payload_narrowed'' (RemovedFields gone)] else []) (keys_both cur prop)))"

definition diff :: "surface \<Rightarrow> surface \<Rightarrow> severity \<times> change list" where
  "diff current proposed =
     (let ops = diff_operations current proposed; fs = diff_fields current proposed; es = diff_events current proposed in
      (escalate (escalate (escalate NON_BREAKING (severity_of ops)) (severity_of fs)) (severity_of es),
       map snd (ops @ fs @ es)))"

definition generate_release_notes_scaffold :: "severity \<Rightarrow> change list \<Rightarrow> string" where
  "generate_release_notes_scaffold s cs =
     (let sev_line = ''# Severity: '' @ severity_label s @ [CHR 0x0A] in
      if cs = [] then sev_line @ [CHR 0x0A] @ ''No interface changes detected.'' @ [CHR 0x0A]
      else
        let kinds = remdups (sort (map change_type cs)) in
        py_join [CHR 0x0A]
          ([sev_line, []] @
           concat (map (\<lambda>k. let entries = filter (\<lambda>c. change_type c = k) cs in
             [''## '' @ k @ '' ('' @ show_nat (length entries) @ '')''] @ map (\<lambda>c. ''- '' @ ch_name c) entries @ [[]]) kinds)))"

subsection \<open>Severities are ordered\<close>

instantiation severity :: linorder
begin

definition less_eq_severity :: "severity \<Rightarrow> severity \<Rightarrow> bool" where
  "less_eq_severity a b \<longleftrightarrow> SEVERITY_RANK a \<le> SEVERITY_RANK b"

definition less_severity :: "severity \<Rightarrow> severity \<Rightarrow> bool" where
  "less_severity a b \<longleftrightarrow> SEVERITY_RANK a < SEVERITY_RANK b"

instance
proof
  fix a b :: severity
  show "a \<le> b \<Longrightarrow> b \<le> a \<Longrightarrow> a = b" by (cases a; cases b) (simp_all add: less_eq_severity_def)
qed (auto simp: less_eq_severity_def less_severity_def)

end

lemma escalate_max: "escalate a b = max a b"
  by (cases a; cases b) (simp_all add: escalate_def max_def less_eq_severity_def)

lemma severity_bounds: "NON_BREAKING \<le> s" "s \<le> BREAKING"
  by (cases s; simp add: less_eq_severity_def)+

lemma severity_of_Max: "severity_of fs = Max (insert NON_BREAKING (fst ` set fs))"
proof (induction fs rule: rev_induct)
  case (snoc f fs)
  have "Max (insert NON_BREAKING (insert (fst f) (fst ` set fs))) = max (fst f) (Max (insert NON_BREAKING (fst ` set fs)))"
    by (subst insert_commute) (rule Max_insert, auto)
  with snoc show ?case by (simp add: severity_of_def escalate_max max.commute)
qed (simp add: severity_of_def)

lemma severity_of_append: "escalate (severity_of fs) (severity_of gs) = severity_of (fs @ gs)"
proof -
  have "insert NON_BREAKING (fst ` set (fs @ gs)) = insert NON_BREAKING (fst ` set fs) \<union> insert NON_BREAKING (fst ` set gs)" by auto
  then show ?thesis by (simp add: escalate_max severity_of_Max Max_Un del: Un_insert_left Un_insert_right)
qed

lemma escalate_bottom: "escalate NON_BREAKING s = s"
  using severity_bounds(1) [of s] by (simp add: escalate_max max_def)

definition findings :: "surface \<Rightarrow> surface \<Rightarrow> finding list" where
  "findings c p = diff_operations c p @ diff_fields c p @ diff_events c p"

lemma diff_findings: "diff c p = (severity_of (findings c p), map snd (findings c p))"
  by (simp add: diff_def Let_def escalate_bottom severity_of_append findings_def)

lemma not_breaking_iff: "severity_of fs \<noteq> BREAKING \<longleftrightarrow> (\<forall>f \<in> set fs. fst f \<noteq> BREAKING)"
proof -
  have "severity_of fs = BREAKING \<longleftrightarrow> BREAKING \<in> insert NON_BREAKING (fst ` set fs)"
    unfolding severity_of_Max using severity_bounds(2) by (subst Max_eq_iff) auto
  then show ?thesis by (auto simp: image_iff)
qed

text \<open>What each kind of change counts as.\<close>

definition change_severity :: "change \<Rightarrow> severity" where
  "change_severity c =
     (if change_type c \<in> {''operation_removed'', ''operation_input_narrowed'', ''operation_input_type_changed'',
        ''operation_output_type_changed'', ''field_removed'', ''field_added_required'', ''field_type_changed'',
        ''field_required_added'', ''event_removed'', ''event_payload_narrowed''} then BREAKING
      else if change_type c = ''operation_output_undocumented'' then DEPRECATION else NON_BREAKING)"

lemma one_operation_tagged: "f \<in> set (diff_one_operation n c p) \<Longrightarrow> fst f = change_severity (snd f)"
  by (auto simp: diff_one_operation_def Let_def finding_def change_severity_def split: if_splits)

lemma findings_tagged: "f \<in> set (findings c p) \<Longrightarrow> fst f = change_severity (snd f)"
  by (auto simp: findings_def diff_operations_def diff_fields_def diff_events_def Let_def finding_def change_severity_def
      one_operation_tagged [unfolded change_severity_def] split: if_splits)

text \<open>
  The severity and its evidence agree: the severity of a comparison is the highest severity of the changes it lists,
  where each kind of change has one fixed severity.
\<close>

theorem severity_is_worst_change:
  "fst (diff c p) = Max (insert NON_BREAKING (change_severity ` set (snd (diff c p))))"
proof -
  have "fst ` set (findings c p) = change_severity ` snd ` set (findings c p)"
    unfolding image_image by (rule image_cong) (auto simp: findings_tagged)
  then show ?thesis by (simp add: diff_findings severity_of_Max)
qed

subsection \<open>Dictionaries of a surface\<close>

lemma index_keys: "fst ` set (index key xs) = key ` set xs" "distinct (map fst (index key xs))"
proof -
  have "fst ` set (fold (\<lambda>x d. AList.update (key x) x d) xs d) = fst ` set d \<union> key ` set xs \<and>
      (distinct (map fst d) \<longrightarrow> distinct (map fst (fold (\<lambda>x d. AList.update (key x) x d) xs d)))" for d
    by (induction xs arbitrary: d) (auto simp: dom_update distinct_update)
  from this [of "[]"] show "fst ` set (index key xs) = key ` set xs" "distinct (map fst (index key xs))"
    by (simp_all add: index_def)
qed

lemma keys_minus_set: "k \<in> set (keys_minus d e) \<longleftrightarrow> k \<in> fst ` set d \<and> k \<notin> fst ` set e"
  by (auto simp: keys_minus_def)

lemma keys_both_set: "k \<in> set (keys_both d e) \<longleftrightarrow> k \<in> fst ` set d \<and> k \<in> fst ` set e"
  by (auto simp: keys_both_def)

lemma value_at_Some: "map_of d k = Some v \<Longrightarrow> value_at d k = v"
  by (simp add: value_at_def)

lemma key_Some: "k \<in> fst ` set d \<longleftrightarrow> (\<exists>v. map_of d k = Some v)"
  by (metis domD domI dom_map_of_conv_image_fst)

lemma diff_self: "findings c c = []"
  by (simp add: findings_def diff_operations_def diff_fields_def diff_events_def diff_one_operation_def Let_def
      keys_minus_def keys_both_def filter_empty_conv)

subsection \<open>What a change that is not breaking keeps\<close>

text \<open>
  A call names the type of each argument it supplies. An operation accepts it when every required parameter is supplied and
  every argument of a typed parameter has that type; a client calls an operation with its declared parameters only.
\<close>

definition accepts :: "operation \<Rightarrow> (string option \<times> json) list \<Rightarrow> bool" where
  "accepts op call \<longleftrightarrow> list_all (\<lambda>(p, el).
     (el_required el \<longrightarrow> map_of call p \<noteq> None) \<and>
     (case map_of call p of None \<Rightarrow> True | Some t \<Rightarrow> el_type el = None \<or> el_type el = Some t)) (index el_name (op_params op))"

definition declared_only :: "operation \<Rightarrow> (string option \<times> json) list \<Rightarrow> bool" where
  "declared_only op call \<longleftrightarrow> fst ` set call \<subseteq> el_name ` set (op_params op)"

definition all_typed :: "operation \<Rightarrow> bool" where
  "all_typed op \<longleftrightarrow> list_all (\<lambda>(p, el). el_type el \<noteq> None) (index el_name (op_params op))"

lemma index_value: "(k, v) \<in> set (index key xs) \<Longrightarrow> value_at (index key xs) k = v"
  by (simp add: value_at_def index_keys(2))

lemma value_in: "k \<in> fst ` set d \<Longrightarrow> (k, value_at d k) \<in> set d"
  by (metis key_Some map_of_SomeD value_at_Some)

lemma one_operation_kept:
  assumes quiet: "\<forall>f \<in> set (diff_one_operation n c p). fst f \<noteq> BREAKING"
  shows "k \<in> set (keys_minus (index el_name (op_params p)) (index el_name (op_params c))) \<Longrightarrow>
      \<not> el_required (value_at (index el_name (op_params p)) k)"
    and "k \<in> set (keys_both (index el_name (op_params c)) (index el_name (op_params p))) \<Longrightarrow>
      el_required (value_at (index el_name (op_params p)) k) \<Longrightarrow> el_required (value_at (index el_name (op_params c)) k)"
    and "k \<in> set (keys_both (index el_name (op_params c)) (index el_name (op_params p))) \<Longrightarrow>
      el_type (value_at (index el_name (op_params c)) k) = el_type (value_at (index el_name (op_params p)) k) \<or>
      el_type (value_at (index el_name (op_params c)) k) = None \<or> el_type (value_at (index el_name (op_params p)) k) = None"
    and "op_returns p = op_returns c \<or> op_returns c = None \<or> op_returns p = None"
  using quiet by (auto simp: diff_one_operation_def Let_def finding_def ball_Un split: if_splits)

lemma quiet_operation_accepts:
  assumes quiet: "\<forall>f \<in> set (diff_one_operation n c p). fst f \<noteq> BREAKING"
    and old: "accepts c call" "declared_only c call" "all_typed c"
  shows "accepts p call"
  unfolding accepts_def list_all_iff
proof (clarify, intro conjI impI)
  fix k el
  let ?c = "index el_name (op_params c)" and ?p = "index el_name (op_params p)"
  assume el: "(k, el) \<in> set ?p"
  then have el_at: "value_at ?p k = el" and in_p: "k \<in> fst ` set ?p" by (auto intro: index_value rev_image_eqI)
  have both: "k \<in> set (keys_both ?c ?p)" if "k \<in> fst ` set ?c" using that in_p by (simp add: keys_both_set)
  have accepted: "(el_required (value_at ?c k) \<longrightarrow> map_of call k \<noteq> None) \<and>
      (\<forall>t. map_of call k = Some t \<longrightarrow> el_type (value_at ?c k) = Some t)" if "k \<in> fst ` set ?c"
    using value_in [OF that] old(1, 3) unfolding accepts_def all_typed_def list_all_iff by (fastforce split: option.splits)
  show "map_of call k \<noteq> None" if "el_required el"
  proof (cases "k \<in> fst ` set ?c")
    case True
    with accepted one_operation_kept(2) [OF quiet both] that el_at show ?thesis by auto
  next
    case False
    with in_p one_operation_kept(1) [OF quiet] that el_at show ?thesis by (auto simp: keys_minus_set)
  qed
  show "case map_of call k of None \<Rightarrow> True | Some t \<Rightarrow> el_type el = None \<or> el_type el = Some t"
  proof (cases "map_of call k")
    case (Some t)
    then have "k \<in> fst ` set call" by (auto simp: key_Some)
    with old(2) have "k \<in> fst ` set ?c" by (auto simp: declared_only_def index_keys)
    with accepted one_operation_kept(3) [OF quiet both] Some el_at show ?thesis by auto
  qed simp
qed

lemma named_kept:
  assumes "keys_minus (named key c) (named key p) = []" "map_of (named key c) n = Some x"
  obtains y where "map_of (named key p) n = Some y" "n \<in> set (keys_both (named key c) (named key p))"
    "value_at (named key c) n = x" "value_at (named key p) n = y"
proof -
  from assms(2) have "n \<in> fst ` set (named key c)" by (auto simp: key_Some)
  with assms(1) have "n \<in> fst ` set (named key p)" by (metis keys_minus_set list.set(1) empty_iff)
  with \<open>n \<in> fst ` set (named key c)\<close> show ?thesis
    using that assms(2) by (auto simp: key_Some keys_both_set value_at_def)
qed

lemma quiet_operations:
  assumes ops: "\<forall>f \<in> set (diff_operations c p). fst f \<noteq> BREAKING" and at: "map_of (named op_name (operations c)) n = Some old"
  shows "\<exists>new. map_of (named op_name (operations p)) n = Some new \<and>
    (accepts old call \<and> declared_only old call \<and> all_typed old \<longrightarrow> accepts new call) \<and>
    (op_returns old = None \<or> op_returns new = None \<or> op_returns new = op_returns old)"
proof -
  let ?co = "named op_name (operations c)" and ?po = "named op_name (operations p)"
  from ops have "keys_minus ?co ?po = []" by (auto simp: diff_operations_def Let_def finding_def ball_Un)
  then obtain new where new: "map_of ?po n = Some new" "n \<in> set (keys_both ?co ?po)" "value_at ?co n = old" "value_at ?po n = new"
    using at by (rule named_kept)
  from ops new have quiet1: "\<forall>f \<in> set (diff_one_operation n old new). fst f \<noteq> BREAKING"
    by (force simp: diff_operations_def Let_def)
  from quiet_operation_accepts [OF quiet1] one_operation_kept(4) [OF quiet1] new(1) show ?thesis by auto
qed

lemma quiet_fields:
  assumes flds: "\<forall>f \<in> set (diff_fields c p). fst f \<noteq> BREAKING"
  shows "map_of (named el_name (surface_fields c)) m = Some fld \<Longrightarrow>
      \<exists>fld'. map_of (named el_name (surface_fields p)) m = Some fld' \<and> el_type fld' = el_type fld \<and> (el_required fld' \<longrightarrow> el_required fld)"
    and "map_of (named el_name (surface_fields c)) q = None \<Longrightarrow> map_of (named el_name (surface_fields p)) q = Some extra \<Longrightarrow>
      \<not> el_required extra"
proof -
  let ?cf = "named el_name (surface_fields c)" and ?pf = "named el_name (surface_fields p)"
  show "\<exists>fld'. map_of ?pf m = Some fld' \<and> el_type fld' = el_type fld \<and> (el_required fld' \<longrightarrow> el_required fld)"
    if at: "map_of ?cf m = Some fld"
  proof -
    from flds have "keys_minus ?cf ?pf = []" by (auto simp: diff_fields_def Let_def finding_def ball_Un)
    then obtain fld' where "map_of ?pf m = Some fld'" "m \<in> set (keys_both ?cf ?pf)" "value_at ?cf m = fld" "value_at ?pf m = fld'"
      using at by (rule named_kept)
    with flds show ?thesis by (auto simp: diff_fields_def Let_def finding_def ball_Un split: if_splits)
  qed
  show "\<not> el_required extra" if "map_of ?cf q = None" "map_of ?pf q = Some extra"
  proof -
    from that have "q \<in> set (keys_minus ?pf ?cf)" "value_at ?pf q = extra"
      by (auto simp: keys_minus_set key_Some value_at_def)
    with flds show ?thesis by (auto simp: diff_fields_def Let_def finding_def ball_Un split: if_splits)
  qed
qed

lemma quiet_events:
  assumes evs: "\<forall>f \<in> set (diff_events c p). fst f \<noteq> BREAKING" and at: "map_of (named ev_name (events c)) e = Some ev"
  shows "\<exists>ev'. map_of (named ev_name (events p)) e = Some ev' \<and> el_name ` set (payload_fields ev) \<subseteq> el_name ` set (payload_fields ev')"
proof -
  let ?ce = "named ev_name (events c)" and ?pe = "named ev_name (events p)"
  from evs have "keys_minus ?ce ?pe = []" by (auto simp: diff_events_def Let_def finding_def ball_Un)
  then obtain ev' where new: "map_of ?pe e = Some ev'" "e \<in> set (keys_both ?ce ?pe)" "value_at ?ce e = ev" "value_at ?pe e = ev'"
    using at by (rule named_kept)
  with evs have "keys_minus (index el_name (payload_fields ev)) (index el_name (payload_fields ev')) = []"
    by (auto simp: diff_events_def Let_def finding_def ball_Un split: if_splits)
  then have "\<And>k. k \<in> el_name ` set (payload_fields ev) \<Longrightarrow> k \<in> el_name ` set (payload_fields ev')"
    by (metis keys_minus_set index_keys(1) list.set(1) empty_iff)
  with new(1) show ?thesis by blast
qed

text \<open>
  C34. A change that is not classified as breaking breaks no documented caller. Every operation is still there, it accepts
  every call of its declared parameters that the old one accepted when the old one declared all their types, and the documented type of its
  result is kept unless it is withdrawn. Every field is still there with its type and is required only where it was, and
  a field that is new is optional. Every event is still there with every name of its payload.
\<close>

theorem not_breaking_is_compatible:
  assumes quiet: "fst (diff c p) \<noteq> BREAKING"
  shows "(\<forall>n old call. map_of (named op_name (operations c)) n = Some old \<longrightarrow>
      (\<exists>new. map_of (named op_name (operations p)) n = Some new \<and>
        (accepts old call \<and> declared_only old call \<and> all_typed old \<longrightarrow> accepts new call) \<and>
        (op_returns old = None \<or> op_returns new = None \<or> op_returns new = op_returns old))) \<and>
    (\<forall>m fld. map_of (named el_name (surface_fields c)) m = Some fld \<longrightarrow>
      (\<exists>fld'. map_of (named el_name (surface_fields p)) m = Some fld' \<and> el_type fld' = el_type fld \<and>
        (el_required fld' \<longrightarrow> el_required fld))) \<and>
    (\<forall>q extra. map_of (named el_name (surface_fields c)) q = None \<and> map_of (named el_name (surface_fields p)) q = Some extra \<longrightarrow>
      \<not> el_required extra) \<and>
    (\<forall>e ev. map_of (named ev_name (events c)) e = Some ev \<longrightarrow>
      (\<exists>ev'. map_of (named ev_name (events p)) e = Some ev' \<and>
        el_name ` set (payload_fields ev) \<subseteq> el_name ` set (payload_fields ev')))"
proof -
  from quiet have "\<forall>f \<in> set (diff_operations c p). fst f \<noteq> BREAKING" "\<forall>f \<in> set (diff_fields c p). fst f \<noteq> BREAKING"
    "\<forall>f \<in> set (diff_events c p). fst f \<noteq> BREAKING"
    by (auto simp: diff_findings not_breaking_iff findings_def)
  note kept = quiet_operations [OF this(1)] quiet_fields [OF this(2)] quiet_events [OF this(3)]
  show ?thesis by (intro conjI allI impI; (elim conjE)?; rule kept; assumption)
qed

text \<open>
  A pet store adds an optional limit to its listing and a second operation: the change is not breaking, so the listing still
  serves the calls it served.
\<close>

definition listing :: operation where
  "listing = \<lparr>op_name = Some ''list'', op_params = [\<lparr>el_name = Some ''kind'', el_type = Some (JStr ''string''), el_required = True\<rparr>],
     op_returns = Some (JStr ''array'')\<rparr>"

definition store_before :: surface where
  "store_before = \<lparr>operations = [listing], events = [\<lparr>ev_name = Some ''sold'', payload_fields = []\<rparr>], surface_fields = []\<rparr>"

definition store_after :: surface where
  "store_after = store_before\<lparr>operations :=
     [listing\<lparr>op_params := op_params listing @ [\<lparr>el_name = Some ''limit'', el_type = Some (JStr ''integer''), el_required = False\<rparr>]\<rparr>,
      listing\<lparr>op_name := Some ''count''\<rparr>]\<rparr>"

theorem not_breaking_is_compatible_witness:
  "diff store_before store_after = (NON_BREAKING, [\<lparr>ch_name = ''count'', change_type = ''operation_added'',
     ch_details = OfOperation (listing\<lparr>op_name := Some ''count''\<rparr>)\<rparr>]) \<and>
   (\<exists>new. map_of (named op_name (operations store_after)) ''list'' = Some new \<and> accepts new [(Some ''kind'', JStr ''string'')])"
proof -
  have d: "diff store_before store_after = (NON_BREAKING, [\<lparr>ch_name = ''count'', change_type = ''operation_added'',
     ch_details = OfOperation (listing\<lparr>op_name := Some ''count''\<rparr>)\<rparr>])" by code_simp
  have "map_of (named op_name (operations store_before)) ''list'' = Some listing"
    "accepts listing [(Some ''kind'', JStr ''string'')]" "declared_only listing [(Some ''kind'', JStr ''string'')]" "all_typed listing"
    by code_simp+
  moreover from d have "fst (diff store_before store_after) \<noteq> BREAKING" by simp
  ultimately have "\<exists>new. map_of (named op_name (operations store_after)) ''list'' = Some new \<and> accepts new [(Some ''kind'', JStr ''string'')]"
    using not_breaking_is_compatible [of store_before store_after] by blast
  with d show ?thesis by blast
qed

text \<open>
  The types must have been declared: a parameter that had no type and is given one is no change to the
  classifier, although the operation now refuses calls it accepted.
\<close>

theorem first_type_goes_unseen:
  "let old = listing\<lparr>op_params := [\<lparr>el_name = Some ''kind'', el_type = None, el_required = True\<rparr>]\<rparr>;
       call = [(Some ''kind'', JStr ''integer'')] in
   diff (store_before\<lparr>operations := [old]\<rparr>) store_before = (NON_BREAKING, []) \<and>
   accepts old call \<and> declared_only old call \<and> \<not> accepts listing call"
  by code_simp

text \<open>
  Neither are the types of an event's payload compared: every field may change its type without a finding.
\<close>

theorem payload_types_go_unseen:
  "let ev = (\<lambda>t. \<lparr>ev_name = Some ''sold'', payload_fields = [\<lparr>el_name = Some ''price'', el_type = Some (JStr t), el_required = True\<rparr>]\<rparr>) in
   diff (store_before\<lparr>events := [ev ''string'']\<rparr>) (store_before\<lparr>events := [ev ''integer'']\<rparr>) = (NON_BREAKING, [])"
  by code_simp

end
