(* ===== verification/Canonical_Json.thy ===== *)
theory Canonical_Json
  imports Py_Strings
begin

section \<open>The text of a JSON value\<close>

text \<open>
  What the sources use of \<open>json.dumps(value, ensure_ascii=False, separators=(",", ":"))\<close> and of \<open>str.encode("utf-8")\<close>, on strings of code
  points below 256. The theorem is that the text determines the value: two values without floats that have the same
  bytes are equal. The text of a float is not modelled, the branch that prints its fraction stands for it; the code
  of this development prints only values that are shown to hold no float.
\<close>

subsection \<open>Strings\<close>

definition hex_digit :: "nat \<Rightarrow> char" where
  "hex_digit n = (if n < 10 then char_of (48 + n) else char_of (87 + n))"

definition escape :: "char \<Rightarrow> string" where
  "escape c = (let n = (of_char c :: nat) in
     if n = 34 then [CHR 0x5C, CHR 0x22] else if n = 92 then [CHR 0x5C, CHR 0x5C]
     else if n = 10 then [CHR 0x5C, CHR ''n''] else if n = 13 then [CHR 0x5C, CHR ''r'']
     else if n = 9 then [CHR 0x5C, CHR ''t''] else if n = 12 then [CHR 0x5C, CHR ''f'']
     else if n = 8 then [CHR 0x5C, CHR ''b'']
     else if n < 32 then CHR 0x5C # ''u00'' @ [hex_digit (n div 16), hex_digit (n mod 16)]
     else [c])"

definition dump_string :: "string \<Rightarrow> string" where
  "dump_string s = CHR 0x22 # concat (map escape s) @ [CHR 0x22]"

definition utf8_char :: "char \<Rightarrow> string" where
  "utf8_char c = (let n = (of_char c :: nat) in if n < 128 then [c] else [char_of (192 + n div 64), char_of (128 + n mod 64)])"

definition utf8 :: "string \<Rightarrow> string" where
  "utf8 s = concat (map utf8_char s)"

subsection \<open>Values\<close>

fun dumps :: "json \<Rightarrow> string" where
  "dumps JNull = ''null''"
| "dumps (JBool b) = (if b then ''true'' else ''false'')"
| "dumps (JInt i) = show_int i"
| "dumps (JFloat q) = show_int (fst (quotient_of q)) @ ''/'' @ show_int (snd (quotient_of q))"
| "dumps (JStr s) = dump_string s"
| "dumps (JArr xs) = ''['' @ py_join '','' (map dumps xs) @ '']''"
| "dumps (JObj kvs) = ''{'' @ py_join '','' (map (\<lambda>kv. dump_string (fst kv) @ '':'' @ dumps (snd kv)) kvs) @ ''}''"

text \<open>\<open>json.dumps(value, sort_keys=True, separators=(",", ":"))\<close>: sorted keys, and everything beyond ASCII escaped.\<close>

definition escape_ascii :: "char \<Rightarrow> string" where
  "escape_ascii c = (let n = (of_char c :: nat) in
     if n < 127 then escape c else CHR 0x5C # ''u00'' @ [hex_digit (n div 16), hex_digit (n mod 16)])"

fun dumps_ascii :: "json \<Rightarrow> string" where
  "dumps_ascii (JStr s) = CHR 0x22 # concat (map escape_ascii s) @ [CHR 0x22]"
| "dumps_ascii (JArr xs) = ''['' @ py_join '','' (map dumps_ascii xs) @ '']''"
| "dumps_ascii (JObj kvs) =
     ''{'' @ py_join '','' (map snd (sort_key fst (map (\<lambda>kv.
       (fst kv, CHR 0x22 # concat (map escape_ascii (fst kv)) @ [CHR 0x22] @ '':'' @ dumps_ascii (snd kv))) kvs))) @ ''}''"
| "dumps_ascii v = dumps v"

fun float_free :: "json \<Rightarrow> bool" where
  "float_free (JFloat _) = False"
| "float_free (JArr xs) = list_all float_free xs"
| "float_free (JObj kvs) = list_all (\<lambda>kv. float_free (snd kv)) kvs"
| "float_free _ = True"

subsection \<open>The text of a string determines it\<close>

text \<open>Reading one escaped character back.\<close>

definition hex_value :: "char \<Rightarrow> nat" where
  "hex_value c = (let n = of_char c in if n < 58 then n - 48 else n - 87)"

fun unescape :: "string \<Rightarrow> char \<times> string" where
  "unescape [] = (CHR 0x00, [])"
| "unescape (c # s) =
     (if c = CHR 0x5C
      then (case s of
          CHR ''n'' # r \<Rightarrow> (CHR 0x0A, r)
        | CHR ''r'' # r \<Rightarrow> (CHR 0x0D, r)
        | CHR ''t'' # r \<Rightarrow> (CHR 0x09, r)
        | CHR ''f'' # r \<Rightarrow> (CHR 0x0C, r)
        | CHR ''b'' # r \<Rightarrow> (CHR 0x08, r)
        | CHR ''u'' # _ # _ # h # l # r \<Rightarrow> (char_of (16 * hex_value h + hex_value l), r)
        | d # r \<Rightarrow> (d, r)
        | [] \<Rightarrow> (c, []))
      else (c, s))"

lemma below_32: "n < 32 \<Longrightarrow> (n :: nat) \<in> {0, 1, 2, 3, 4, 5, 6, 7, 8, 9, 10, 11, 12, 13, 14, 15, 16, 17, 18, 19, 20, 21, 22, 23, 24, 25, 26, 27, 28, 29, 30, 31}"
  by simp presburger

lemma char_numerals:
  "char_of (8 :: nat) = CHR 0x08" "char_of (9 :: nat) = CHR 0x09" "char_of (10 :: nat) = CHR 0x0A" "char_of (12 :: nat) = CHR 0x0C"
  "char_of (13 :: nat) = CHR 0x0D" "char_of (34 :: nat) = CHR 0x22" "char_of (92 :: nat) = CHR 0x5C"
  by (simp_all add: char_of_eq_iff)

lemma char_by_code: "of_char c = (n :: nat) \<Longrightarrow> c = char_of n"
  by auto

lemma unescape_control: "n < 32 \<Longrightarrow> unescape (escape (char_of (n :: nat)) @ r) = (char_of n, r)"
  using below_32 [of n] by (auto simp: escape_def hex_digit_def hex_value_def char_numerals)

lemma unescape_escape: "unescape (escape c @ r) = (c, r)"
proof (cases "(of_char c :: nat) < 32")
  case True
  from unescape_control [OF this] show ?thesis by simp
next
  case False
  then show ?thesis
    by (auto simp: escape_def Let_def char_numerals dest!: char_by_code)
qed

lemma escape_not_quote: "escape c \<noteq> []" "hd (escape c) \<noteq> CHR 0x22"
  by (auto simp: escape_def Let_def)

lemma escaped_inj:
  "concat (map escape s) @ CHR 0x22 # xs = concat (map escape t) @ CHR 0x22 # ys \<Longrightarrow> s = t \<and> xs = ys"
proof (induction s arbitrary: t)
  case Nil
  show ?case
  proof (cases t)
    case (Cons c t')
    with Nil escape_not_quote [of c] show ?thesis by (cases "escape c") auto
  qed (use Nil in simp)
next
  case (Cons c s)
  show ?case
  proof (cases t)
    case Nil
    with Cons.prems escape_not_quote [of c] show ?thesis by (cases "escape c") auto
  next
    case (Cons d t')
    with Cons.prems have eq: "escape c @ (concat (map escape s) @ CHR 0x22 # xs) = escape d @ (concat (map escape t') @ CHR 0x22 # ys)"
      by simp
    from arg_cong [OF this, of unescape]
    have "c = d" "concat (map escape s) @ CHR 0x22 # xs = concat (map escape t') @ CHR 0x22 # ys"
      by (simp_all add: unescape_escape)
    with Cons.IH [of t'] Cons show ?thesis by simp
  qed
qed

lemma dump_string_inj: "dump_string s @ xs = dump_string t @ ys \<Longrightarrow> s = t \<and> xs = ys"
  by (rule escaped_inj) (simp add: dump_string_def)

text \<open>Reading one character of UTF-8 back.\<close>

fun utf8_read :: "string \<Rightarrow> char \<times> string" where
  "utf8_read [] = (CHR 0x00, [])"
| "utf8_read (c # s) =
     (if (of_char c :: nat) < 128 then (c, s)
      else (char_of ((of_char c - 192) * 64 + (of_char (hd s) - 128 :: nat)), tl s))"

lemma utf8_read_char: "utf8_read (utf8_char c @ r) = (c, r)"
proof (cases "(of_char c :: nat) < 128")
  case False
  have c: "(of_char c :: nat) < 256" by (rule nat_of_char_less_256)
  then have "of_char c div 64 < (4 :: nat)" by (simp add: less_mult_imp_div_less)
  moreover have "of_char c mod 64 < (64 :: nat)" by simp
  ultimately have "192 + of_char c div 64 < (256 :: nat)" "128 + of_char c mod 64 < (256 :: nat)" by linarith+
  with False show ?thesis by (simp add: utf8_char_def Let_def)
qed (simp add: utf8_char_def)

lemma utf8_inj: "utf8 s = utf8 t \<Longrightarrow> s = t"
proof (induction s arbitrary: t)
  case Nil
  then show ?case by (cases t) (auto simp: utf8_def utf8_char_def Let_def split: if_splits)
next
  case (Cons c s)
  then obtain d t' where t: "t = d # t'" by (cases t) (auto simp: utf8_def utf8_char_def Let_def split: if_splits)
  with Cons.prems have "utf8_char c @ utf8 s = utf8_char d @ utf8 t'" by (simp add: utf8_def)
  from arg_cong [OF this, of utf8_read] have "c = d" "utf8 s = utf8 t'" by (simp_all add: utf8_read_char)
  with Cons.IH [of t'] t show ?case by simp
qed

subsection \<open>The text of a value determines it\<close>

text \<open>What may follow the text of a value.\<close>

definition ends :: "string \<Rightarrow> bool" where
  "ends xs \<longleftrightarrow> xs = [] \<or> hd xs \<in> {CHR '','', CHR '']'', CHR ''}''}"

lemma digits_end:
  assumes "ends xs" "ends ys" "show_nat m @ xs = show_nat n @ ys"
  shows "m = n \<and> xs = ys"
proof -
  have split: "takeWhile is_digit (show_nat k @ zs) = show_nat k" if "ends zs" for k zs
  proof -
    have "zs = [] \<or> \<not> is_digit (hd zs)" using that by (auto simp: ends_def is_digit_def digit_val_def)
    then have "takeWhile is_digit zs = []" by (cases zs) auto
    with show_nat_digits [of _ k] show ?thesis by (simp add: takeWhile_append2)
  qed
  from split [OF assms(1), of m] split [OF assms(2), of n] assms(3) have eq: "show_nat m = show_nat n" by simp
  have "Some (int m) = Some (int n)" unfolding py_digits_show_nat [of False, symmetric] eq by (rule refl)
  with assms(3) show ?thesis by simp
qed

lemma show_nat_hd: "is_digit (hd (show_nat n))"
  by (rule show_nat_digits [of _ n]) simp

lemma no_minus: "show_nat n @ xs \<noteq> CHR ''-'' # ys"
proof
  assume "show_nat n @ xs = CHR ''-'' # ys"
  then have "hd (show_nat n) = CHR ''-''" by (cases "show_nat n") auto
  with show_nat_hd [of n] show False by (simp add: is_digit_def digit_val_def)
qed

lemma show_int_ends:
  assumes "ends xs" "ends ys" "show_int i @ xs = show_int j @ ys"
  shows "i = j \<and> xs = ys"
proof (cases "i < 0"; cases "j < 0")
  assume "i < 0" "j < 0"
  with assms(3) digits_end [OF assms(1,2), of "nat (- i)" "nat (- j)"] show ?thesis by (auto simp: show_int_def)
next
  assume "\<not> i < 0" "\<not> j < 0"
  with assms(3) digits_end [OF assms(1,2), of "nat i" "nat j"] show ?thesis by (auto simp: show_int_def)
next
  assume "i < 0" "\<not> j < 0"
  with assms(3) no_minus [of "nat j" ys] show ?thesis by (metis append_Cons show_int_def)
next
  assume "\<not> i < 0" "j < 0"
  with assms(3) no_minus [of "nat i" xs] show ?thesis by (metis append_Cons show_int_def)
qed

definition value_start :: "char \<Rightarrow> bool" where
  "value_start c \<longleftrightarrow> c \<notin> {CHR '','', CHR '']'', CHR ''}''}"

lemma dumps_start: "dumps v \<noteq> [] \<and> value_start (hd (dumps v))"
proof (cases v)
  case (JInt i)
  then show ?thesis using show_nat_hd [of "nat i"] by (auto simp: show_int_def value_start_def is_digit_def digit_val_def)
next
  case (JFloat q)
  then show ?thesis using show_nat_hd [of "nat (fst (quotient_of q))"]
    by (auto simp: show_int_def value_start_def is_digit_def digit_val_def)
qed (auto simp: value_start_def dump_string_def)

text \<open>A list of texts with a comma between them and a bracket at the end, unfolded from the left.\<close>

lemma join_step:
  "py_join '','' (map f (v # vs)) @ z # xs = f v @ (if vs = [] then z # xs else CHR '','' # py_join '','' (map f vs) @ z # xs)"
  by (simp add: py_join_Cons)

lemma starts_apart:
  assumes "f v \<noteq> [] \<and> value_start (hd (f v))" "z = CHR '']'' \<or> z = CHR ''}''"
  shows "f v @ xs \<noteq> z # ys"
  using assms by (cases "f v") (auto simp: value_start_def)

lemma joined_items_inj:
  assumes inj: "\<And>v w xs ys. \<lbrakk>v \<in> set vs; w \<in> set ws; ends xs; ends ys; f v @ xs = f w @ ys\<rbrakk> \<Longrightarrow> v = w \<and> xs = ys"
    and start: "\<And>v. f v \<noteq> [] \<and> value_start (hd (f v))"
    and z: "z = CHR '']'' \<or> z = CHR ''}''"
    and eq: "py_join '','' (map f vs) @ z # xs = py_join '','' (map f ws) @ z # ys"
  shows "vs = ws \<and> xs = ys"
  using inj eq
proof (induction vs arbitrary: ws)
  case Nil
  show ?case
  proof (cases ws)
    case (Cons w ws')
    from Nil.prems(2) have "z # xs = f w @ (if ws' = [] then z # ys else CHR '','' # py_join '','' (map f ws') @ z # ys)"
      unfolding Cons join_step by simp
    with starts_apart [of f w z, OF start z] show ?thesis by metis
  qed (use Nil.prems(2) in simp)
next
  case (Cons v vs)
  let ?rest = "\<lambda>us zs. if us = [] then z # zs else CHR '','' # py_join '','' (map f us) @ z # zs"
  show ?case
  proof (cases ws)
    case Nil
    from Cons.prems(2) have "f v @ ?rest vs xs = z # ys" unfolding Nil join_step by simp
    with starts_apart [of f v z, OF start z] show ?thesis by metis
  next
    case ws: (Cons w ws')
    from Cons.prems(2) have "f v @ ?rest vs xs = f w @ ?rest ws' ys" unfolding ws join_step .
    moreover have "ends (?rest us zs)" for us zs using z by (auto simp: ends_def)
    ultimately have vw: "v = w" and rest: "?rest vs xs = ?rest ws' ys"
      using Cons.prems(1) [of v w "?rest vs xs" "?rest ws' ys"] ws by auto
    from rest z have "py_join '','' (map f vs) @ z # xs = py_join '','' (map f ws') @ z # ys"
      by (auto split: if_splits)
    then have "vs = ws' \<and> xs = ys"
      by (rule Cons.IH [rotated]) (rule Cons.prems(1), auto simp: ws)
    with vw ws show ?thesis by simp
  qed
qed

text \<open>The first character tells the kind of a value.\<close>

fun kind_of :: "json \<Rightarrow> char" where
  "kind_of JNull = CHR ''n''"
| "kind_of (JBool b) = CHR ''b''"
| "kind_of (JInt i) = CHR ''0''"
| "kind_of (JFloat q) = CHR ''0''"
| "kind_of (JStr s) = CHR 0x22"
| "kind_of (JArr xs) = CHR ''[''"
| "kind_of (JObj kvs) = CHR ''{''"

definition kind_of_char :: "char \<Rightarrow> char" where
  "kind_of_char c = (if c = CHR ''t'' \<or> c = CHR ''f'' then CHR ''b'' else if is_digit c \<or> c = CHR ''-'' then CHR ''0'' else c)"

lemma kind_of_digit: "is_digit c \<Longrightarrow> kind_of_char c = CHR ''0''"
  by (auto simp: kind_of_char_def is_digit_def digit_val_def)

lemma kind_of_show_int: "kind_of_char (hd (show_int i @ xs)) = CHR ''0''"
  using show_nat_hd [of "nat i"] by (auto simp: show_int_def kind_of_digit) (simp add: kind_of_char_def)

lemma kind_of_dumps: "kind_of_char (hd (dumps v)) = kind_of v"
  using kind_of_show_int [of _ "[]"]
  by (cases v) (auto simp: kind_of_show_int dump_string_def, (simp add: kind_of_char_def is_digit_def digit_val_def)+)

lemma same_kind:
  assumes "dumps v @ xs = dumps w @ ys"
  shows "kind_of v = kind_of w"
proof -
  from assms have "hd (dumps v) = hd (dumps w)" using dumps_start [of v] dumps_start [of w] by (metis hd_append2)
  then show ?thesis using kind_of_dumps [of v] kind_of_dumps [of w] by simp
qed

definition dump_field :: "string \<times> json \<Rightarrow> string" where
  "dump_field kv = dump_string (fst kv) @ '':'' @ dumps (snd kv)"

text \<open>The text of a value without floats, up to what follows it.\<close>

lemma dumps_inj:
  "\<lbrakk>float_free v; float_free w; ends xs; ends ys; dumps v @ xs = dumps w @ ys\<rbrakk> \<Longrightarrow> v = w \<and> xs = ys"
proof (induction v arbitrary: w xs ys rule: dumps.induct)
  case 1
  then show ?case using same_kind [OF 1(5)] by (cases w) auto
next
  case (2 b)
  then show ?case using same_kind [OF 2(5)] by (cases w) (auto split: if_splits)
next
  case (3 i)
  then show ?case using same_kind [OF 3(5)] show_int_ends [OF 3(3,4)] by (cases w) auto
next
  case (4 q)
  then show ?case by simp
next
  case (5 s)
  from same_kind [OF 5(5)] 5(2) obtain t where w: "w = JStr t" by (cases w) auto
  with 5(5) have "s = t \<and> xs = ys" by (intro dump_string_inj) simp
  with w show ?case by simp
next
  case (6 vs)
  from same_kind [OF 6(6)] 6(3) obtain ws where w: "w = JArr ws" by (cases w) auto
  have "vs = ws \<and> xs = ys"
  proof (rule joined_items_inj)
    show "py_join '','' (map dumps vs) @ CHR '']'' # xs = py_join '','' (map dumps ws) @ CHR '']'' # ys"
      using 6(6) w by simp
    show "v' = w' \<and> xs' = ys'"
      if "v' \<in> set vs" "w' \<in> set ws" "ends xs'" "ends ys'" "dumps v' @ xs' = dumps w' @ ys'" for v' w' xs' ys'
      using 6(1) [OF that(1) _ _ that(3,4,5)] 6(2,3) that(1,2) w by (simp add: list_all_iff)
  qed (use dumps_start in auto)
  with w show ?case by simp
next
  case (7 vs)
  from same_kind [OF 7(6)] 7(3) obtain ws where w: "w = JObj ws" by (cases w) auto
  have "vs = ws \<and> xs = ys"
  proof (rule joined_items_inj)
    show "py_join '','' (map dump_field vs) @ CHR ''}'' # xs = py_join '','' (map dump_field ws) @ CHR ''}'' # ys"
      using 7(6) w by (simp add: dump_field_def [abs_def])
    show "v' = w' \<and> xs' = ys'"
      if "v' \<in> set vs" "w' \<in> set ws" "ends xs'" "ends ys'" "dump_field v' @ xs' = dump_field w' @ ys'" for v' w' xs' ys'
    proof -
      from that(5) have "dump_string (fst v') @ (CHR '':'' # dumps (snd v') @ xs') = dump_string (fst w') @ (CHR '':'' # dumps (snd w') @ ys')"
        by (simp add: dump_field_def)
      from dump_string_inj [OF this] have "fst v' = fst w'" "dumps (snd v') @ xs' = dumps (snd w') @ ys'" by auto
      with 7(1) [OF that(1) _ _ that(3,4), of "snd w'"] 7(2,3) that(1,2) w show ?thesis by (simp add: list_all_iff prod_eq_iff)
    qed
    show "dump_field v' \<noteq> [] \<and> value_start (hd (dump_field v'))" for v'
      by (simp add: dump_field_def dump_string_def value_start_def)
  qed simp
  with w show ?case by simp
qed

lemma utf8_dumps_inj: "float_free v \<Longrightarrow> float_free w \<Longrightarrow> utf8 (dumps v) = utf8 (dumps w) \<Longrightarrow> v = w"
  using dumps_inj [of v w "[]" "[]"] utf8_inj by (auto simp: ends_def)

end
