(* ===== verification/Authoring_Shapes.thy ===== *)
theory Authoring_Shapes
  imports Canonical_Json
begin

section \<open>The shapes of the authoring profiles\<close>

text \<open>
  The model of \<open>contextplane/arc/schemas/authoring_profile_shapes.py\<close>: a schema is a value that says the types, the fixed value, the enumeration or the
  pattern of a JSON value, the items of an array with their label, and the closed property set of an object. The
  definitions follow the file from top to bottom. A compiled pattern is one of the three the file has, with the function that decides
  whether a whole string matches it; \<open>\d\<close> is a decimal digit of ASCII, the only ones among code points below 256.
\<close>

subsection \<open>Patterns and schemas\<close>

datatype pattern = UUID_PATTERN | DIGEST_PATTERN | TIMESTAMP_PATTERN

definition is_hex :: "char \<Rightarrow> bool" where
  "is_hex c \<longleftrightarrow> is_digit c \<or> (let n = (of_char c :: nat) in 97 \<le> n \<and> n \<le> 102)"

definition uuid_match :: "string \<Rightarrow> bool" where
  "uuid_match s \<longleftrightarrow> (let gs = py_split (CHR ''-'') s in map length gs = [8, 4, 4, 4, 12] \<and> list_all (list_all is_hex) gs)"

definition timestamp_match :: "string \<Rightarrow> bool" where
  "timestamp_match s \<longleftrightarrow>
     list_all2 (\<lambda>t c. if t = CHR ''d'' then is_digit c else c = t) ''dddd-dd-ddTdd:dd:dd'' (take 19 s) \<and>
     (let r = drop 19 s in
      r = ''Z'' \<or>
      (3 \<le> length r \<and> length r \<le> 8 \<and> hd r = CHR ''.'' \<and> last r = CHR ''Z'' \<and> list_all is_digit (butlast (tl r))))"

fun fullmatch :: "pattern \<Rightarrow> string \<Rightarrow> bool" where
  "fullmatch UUID_PATTERN s = uuid_match s"
| "fullmatch DIGEST_PATTERN s = (length s = 64 \<and> list_all is_hex s)"
| "fullmatch TIMESTAMP_PATTERN s = timestamp_match s"

text \<open>The keys \<open>type\<close>, \<open>const\<close>, \<open>enum\<close>, \<open>pattern\<close>, \<open>items\<close>, \<open>x-array-kind\<close>, \<open>x-order-key\<close>, \<open>minItems\<close>, \<open>properties\<close> and \<open>required\<close> of the dict.\<close>

datatype schema = Schema
  (sc_type: "string list")
  (sc_const: "string option")
  (sc_enum: "string list option")
  (sc_pattern: "pattern option")
  (sc_items: "schema option")
  (sc_array_kind: "string option")
  (sc_order_key: "string option")
  (sc_min_items: "nat option")
  (sc_properties: "(string \<times> schema) list option")
  (sc_required: "string list option")

definition plain_shape :: "string \<Rightarrow> schema" where
  "plain_shape t = Schema [t] None None None None None None None None None"

subsection \<open>Composable shapes\<close>

definition const_shape :: "string \<Rightarrow> schema" where
  "const_shape v = Schema [''string''] (Some v) None None None None None None None None"

definition string_shape :: schema where "string_shape = plain_shape ''string''"

definition uuid_shape :: schema where
  "uuid_shape = Schema [''string''] None None (Some UUID_PATTERN) None None None None None None"

definition digest_shape :: schema where
  "digest_shape = Schema [''string''] None None (Some DIGEST_PATTERN) None None None None None None"

definition timestamp_shape :: schema where
  "timestamp_shape = Schema [''string''] None None (Some TIMESTAMP_PATTERN) None None None None None None"

definition enum_shape :: "string list \<Rightarrow> schema" where
  "enum_shape vs = Schema [''string''] None (Some vs) None None None None None None None"

definition number_shape :: schema where "number_shape = plain_shape ''number''"

definition boolean_shape :: schema where "boolean_shape = plain_shape ''boolean''"

definition nullable :: "schema \<Rightarrow> schema" where
  "nullable s = (case s of Schema t c e p i k ok m ps r \<Rightarrow> Schema (t @ [''null'']) c e p i k ok m ps r)"

definition array_shape :: "schema \<Rightarrow> string \<Rightarrow> string option \<Rightarrow> nat option \<Rightarrow> schema" where
  "array_shape items kind order_key min_items = Schema [''array''] None None None (Some items) (Some kind) order_key min_items None None"

definition object_shape :: "(string \<times> schema) list \<Rightarrow> schema" where
  "object_shape properties = Schema [''object''] None None None None None None None (Some properties) (Some (map fst properties))"

definition profile_shape :: "string \<Rightarrow> (string \<times> schema) list \<Rightarrow> schema" where
  "profile_shape literal flds = object_shape ((''profile'', const_shape literal) # flds)"

subsection \<open>Vocabularies, nested shapes and profiles\<close>

definition risk_classifications :: "string \<Rightarrow> string list" where
  "risk_classifications narrowest = [''global_mandatory'', ''global_non_mandatory'', ''tenant_mandatory'', ''tenant_non_mandatory'',
    ''domain_mandatory'', ''domain_non_mandatory'', ''entity_mandatory'', ''entity_non_mandatory'', (narrowest @ ''_mandatory''), (narrowest @
    ''_non_mandatory'')]"

definition RISK_CLASSIFICATIONS_V1 :: "string list" where "RISK_CLASSIFICATIONS_V1 = risk_classifications ''task''"

definition RISK_CLASSIFICATIONS_V2 :: "string list" where "RISK_CLASSIFICATIONS_V2 = risk_classifications ''intent''"

definition RISK_CLASSIFICATIONS :: "string list" where "RISK_CLASSIFICATIONS = RISK_CLASSIFICATIONS_V2"

definition DELTA_CODES :: "string list" where
  "DELTA_CODES = [''newly_selected'', ''no_longer_selected'', ''conflict_changed'', ''mandatory_block_added'', ''mandatory_block_removed'']"

definition observation_class_predicate :: "string \<Rightarrow> string \<Rightarrow> schema" where
  "observation_class_predicate literal selector = profile_shape literal [
    (selector, nullable (array_shape string_shape ''set'' None (Some 1))),
    (''requested_action_classes'', nullable (array_shape string_shape ''set'' None (Some 1))),
    (''environment'', nullable (array_shape string_shape ''set'' None (Some 1))),
    (''data_sensitivity_tier'', nullable (array_shape string_shape ''set'' None (Some 1))),
    (''entity_ids'', nullable (array_shape uuid_shape ''set'' None (Some 1))),
    (''domain_ids'', nullable (array_shape string_shape ''set'' None (Some 1)))]"

definition OBSERVATION_CLASS_PREDICATE_V1_SCHEMA :: schema where "OBSERVATION_CLASS_PREDICATE_V1_SCHEMA = observation_class_predicate
  ''arc_observation_class_predicate_v1'' ''task_kind''"

definition OBSERVATION_CLASS_PREDICATE_V2_SCHEMA :: schema where "OBSERVATION_CLASS_PREDICATE_V2_SCHEMA = observation_class_predicate
  ''arc_observation_class_predicate_v2'' ''intent_kind''"

definition OBSERVATION_CLASS_PREDICATE_SCHEMA :: schema where "OBSERVATION_CLASS_PREDICATE_SCHEMA = OBSERVATION_CLASS_PREDICATE_V2_SCHEMA"

definition envelope_item :: "schema \<Rightarrow> schema" where
  "envelope_item predicate = object_shape [
    (''item_id'', string_shape),
    (''delta_code'', enum_shape DELTA_CODES),
    (''class_predicate'', predicate),
    (''minimum_count'', number_shape),
    (''maximum_count'', nullable number_shape),
    (''rationale_code'', string_shape)]"

definition ENVELOPE_ITEM_V1_SCHEMA :: schema where "ENVELOPE_ITEM_V1_SCHEMA = envelope_item OBSERVATION_CLASS_PREDICATE_V1_SCHEMA"

definition ENVELOPE_ITEM_V2_SCHEMA :: schema where "ENVELOPE_ITEM_V2_SCHEMA = envelope_item OBSERVATION_CLASS_PREDICATE_V2_SCHEMA"

definition ENVELOPE_ITEM_SCHEMA :: schema where "ENVELOPE_ITEM_SCHEMA = ENVELOPE_ITEM_V2_SCHEMA"

definition DIRECTIVE_SCHEMA :: schema where
  "DIRECTIVE_SCHEMA = object_shape [
    (''directive_id'', uuid_shape),
    (''directive_type'', enum_shape [''citation_only'', ''verify_before_action'']),
    (''compact_statement_plaintext'', string_shape),
    (''compact_statement_plaintext_digest'', digest_shape),
    (''source_anchor'', string_shape),
    (''conflict_key_schema_version'', number_shape),
    (''conflict_key_namespace'', nullable string_shape),
    (''conflict_key_subject_selector'', nullable string_shape),
    (''conflict_key_operation'', nullable string_shape),
    (''conflict_key_action_class'', nullable string_shape),
    (''conflict_key_target_selector'', nullable string_shape),
    (''conflict_key_modality'', nullable string_shape),
    (''conflict_key_constraint_operator'', nullable string_shape),
    (''conflict_key_constraint_value'', nullable string_shape),
    (''conflict_subject_digest'', nullable digest_shape),
    (''delegable_exception'', boolean_shape),
    (''satisfaction_mode'', nullable (enum_shape [''authorized_retrieval'', ''signed_result''])),
    (''verification_max_age_seconds'', nullable number_shape),
    (''accepted_verifier_classes'', nullable (array_shape string_shape ''set'' None None)),
    (''accepted_verifier_ids'', nullable (array_shape string_shape ''set'' None None)),
    (''required_evidence_type'', nullable string_shape),
    (''created_at'', timestamp_shape)]"

definition applicability_rule_shape :: "string \<Rightarrow> string \<Rightarrow> schema" where
  "applicability_rule_shape narrowest_scope selector = object_shape [
    (''rule_id'', uuid_shape),
    (''scope'', enum_shape [''global'', ''tenant'', ''domain'', ''entity'', narrowest_scope]),
    (''target_tenant_id'', nullable uuid_shape),
    (''entity_ids'', nullable (array_shape uuid_shape ''set'' None None)),
    (''domain_ids'', nullable (array_shape string_shape ''set'' None None)),
    (selector, nullable (array_shape string_shape ''set'' None None)),
    (''action_classes'', nullable (array_shape string_shape ''set'' None None)),
    (''environments'', nullable (array_shape string_shape ''set'' None None)),
    (''data_sensitivity_tiers'', nullable (array_shape string_shape ''set'' None None)),
    (''effective_from'', nullable timestamp_shape),
    (''effective_until'', nullable timestamp_shape),
    (''is_mandatory'', boolean_shape)]"

definition APPLICABILITY_RULE_V1_SCHEMA :: schema where "APPLICABILITY_RULE_V1_SCHEMA = applicability_rule_shape ''task'' ''task_kinds''"

definition APPLICABILITY_RULE_V2_SCHEMA :: schema where "APPLICABILITY_RULE_V2_SCHEMA = applicability_rule_shape ''intent'' ''intent_kinds''"

definition APPLICABILITY_RULE_SCHEMA :: schema where "APPLICABILITY_RULE_SCHEMA = APPLICABILITY_RULE_V2_SCHEMA"

definition PROVENANCE_SUMMARY_SCHEMA :: schema where
  "PROVENANCE_SUMMARY_SCHEMA = object_shape [
    (''field_path'', string_shape),
    (''provenance_class'', enum_shape [''source_backed'', ''human_judgment'', ''server_derived'']),
    (''evidence_digest'', nullable digest_shape),
    (''author_issuer'', nullable string_shape),
    (''author_subject'', nullable string_shape)]"

definition SEMANTIC_TEST_SUMMARY_SCHEMA :: schema where
  "SEMANTIC_TEST_SUMMARY_SCHEMA = object_shape [
    (''test_id'', string_shape),
    (''canonical_input_digest'', digest_shape),
    (''expected_result_digest'', digest_shape),
    (''actual_result_digest'', digest_shape),
    (''passed'', boolean_shape)]"

definition EVENT_PAYLOAD_SCHEMA :: schema where
  "EVENT_PAYLOAD_SCHEMA = object_shape [
    (''initial_freshness_basis'', nullable (enum_shape [''connector_verified'', ''revision_pinned_only''])),
    (''retention_floor_days'', nullable number_shape),
    (''legal_hold_active'', nullable boolean_shape),
    (''artifact_semantics_digest'', nullable digest_shape),
    (''hold_id'', nullable uuid_shape),
    (''reason_code'', nullable string_shape),
    (''authority_evidence_digest'', nullable digest_shape),
    (''placed_at'', nullable timestamp_shape),
    (''released_at'', nullable timestamp_shape),
    (''prior_deadline'', nullable timestamp_shape),
    (''later_deadline'', nullable timestamp_shape)]"

definition DELTA_COUNTER_SCHEMA :: schema where
  "DELTA_COUNTER_SCHEMA = object_shape [
    (''delta_code'', enum_shape DELTA_CODES),
    (''explained_count'', number_shape),
    (''unexplained_count'', number_shape)]"

definition SOURCE_APPROVAL_CLAIM_PROFILE :: string where "SOURCE_APPROVAL_CLAIM_PROFILE = ''arc_source_approval_claim_v1''"

definition SOURCE_VERIFIER_ATTESTATION_PROFILE :: string where "SOURCE_VERIFIER_ATTESTATION_PROFILE = ''arc_source_verifier_attestation_v1''"

definition SOURCE_APPROVAL_EVIDENCE_PROFILE :: string where "SOURCE_APPROVAL_EVIDENCE_PROFILE = ''arc_source_approval_evidence_v1''"

definition FIELD_PROVENANCE_PROFILE :: string where "FIELD_PROVENANCE_PROFILE = ''arc_field_provenance_v1''"

definition APPROVAL_VERIFIER_ENROLLMENT_PROFILE :: string where "APPROVAL_VERIFIER_ENROLLMENT_PROFILE = ''arc_approval_verifier_enrollment_v1''"

definition APPROVAL_PROVIDER_ASSERTION_PROFILE :: string where "APPROVAL_PROVIDER_ASSERTION_PROFILE = ''arc_approval_provider_assertion_v1''"

definition OPERATIONAL_EVENT_PROFILE :: string where "OPERATIONAL_EVENT_PROFILE = ''arc_operational_event_v1''"

definition OBSERVATION_REPLAY_CORPUS_PROFILE :: string where "OBSERVATION_REPLAY_CORPUS_PROFILE = ''arc_observation_replay_corpus_v1''"

definition OBSERVATION_CLASS_PREDICATE_V1_PROFILE :: string where "OBSERVATION_CLASS_PREDICATE_V1_PROFILE = ''arc_observation_class_predicate_v1''"

definition OBSERVATION_CLASS_PREDICATE_V2_PROFILE :: string where "OBSERVATION_CLASS_PREDICATE_V2_PROFILE = ''arc_observation_class_predicate_v2''"

definition OBSERVATION_CLASS_PREDICATE_PROFILE :: string where "OBSERVATION_CLASS_PREDICATE_PROFILE = OBSERVATION_CLASS_PREDICATE_V2_PROFILE"

definition ACTOR_SEPARATION_V1_PROFILE :: string where "ACTOR_SEPARATION_V1_PROFILE = ''arc_actor_separation_v1''"

definition ACTOR_SEPARATION_V2_PROFILE :: string where "ACTOR_SEPARATION_V2_PROFILE = ''arc_actor_separation_v2''"

definition ACTOR_SEPARATION_PROFILE :: string where "ACTOR_SEPARATION_PROFILE = ACTOR_SEPARATION_V2_PROFILE"

definition APPROVAL_REVIEW_PACKAGE_V1_PROFILE :: string where "APPROVAL_REVIEW_PACKAGE_V1_PROFILE = ''arc_approval_review_package_v1''"

definition APPROVAL_REVIEW_PACKAGE_V2_PROFILE :: string where "APPROVAL_REVIEW_PACKAGE_V2_PROFILE = ''arc_approval_review_package_v2''"

definition APPROVAL_REVIEW_PACKAGE_PROFILE :: string where "APPROVAL_REVIEW_PACKAGE_PROFILE = APPROVAL_REVIEW_PACKAGE_V2_PROFILE"

definition OBSERVATION_COHORT_V1_PROFILE :: string where "OBSERVATION_COHORT_V1_PROFILE = ''arc_observation_cohort_v1''"

definition OBSERVATION_COHORT_V2_PROFILE :: string where "OBSERVATION_COHORT_V2_PROFILE = ''arc_observation_cohort_v2''"

definition OBSERVATION_COHORT_PROFILE :: string where "OBSERVATION_COHORT_PROFILE = OBSERVATION_COHORT_V2_PROFILE"

definition ARTIFACT_REVISION_V1_PROFILE :: string where "ARTIFACT_REVISION_V1_PROFILE = ''arc_artifact_revision_v1''"

definition ARTIFACT_REVISION_V2_PROFILE :: string where "ARTIFACT_REVISION_V2_PROFILE = ''arc_artifact_revision_v2''"

definition ARTIFACT_REVISION_PROFILE :: string where "ARTIFACT_REVISION_PROFILE = ARTIFACT_REVISION_V2_PROFILE"

definition OBSERVATION_QUALIFICATION_PROFILE :: string where "OBSERVATION_QUALIFICATION_PROFILE = ''arc_observation_qualification_v1''"

definition EXPECTED_IMPACT_ENVELOPE_V1_PROFILE :: string where "EXPECTED_IMPACT_ENVELOPE_V1_PROFILE = ''arc_expected_impact_envelope_v1''"

definition EXPECTED_IMPACT_ENVELOPE_V2_PROFILE :: string where "EXPECTED_IMPACT_ENVELOPE_V2_PROFILE = ''arc_expected_impact_envelope_v2''"

definition EXPECTED_IMPACT_ENVELOPE_PROFILE :: string where "EXPECTED_IMPACT_ENVELOPE_PROFILE = EXPECTED_IMPACT_ENVELOPE_V2_PROFILE"

definition ARTIFACT_SEMANTICS_V1_PROFILE :: string where "ARTIFACT_SEMANTICS_V1_PROFILE = ''arc_artifact_semantics_v1''"

definition ARTIFACT_SEMANTICS_V2_PROFILE :: string where "ARTIFACT_SEMANTICS_V2_PROFILE = ''arc_artifact_semantics_v2''"

definition ARTIFACT_SEMANTICS_PROFILE :: string where "ARTIFACT_SEMANTICS_PROFILE = ARTIFACT_SEMANTICS_V2_PROFILE"

definition AUTHORING_PROFILES :: "string list" where
  "AUTHORING_PROFILES = [SOURCE_APPROVAL_CLAIM_PROFILE, SOURCE_VERIFIER_ATTESTATION_PROFILE, SOURCE_APPROVAL_EVIDENCE_PROFILE,
    OBSERVATION_CLASS_PREDICATE_V1_PROFILE, OBSERVATION_CLASS_PREDICATE_V2_PROFILE, EXPECTED_IMPACT_ENVELOPE_V1_PROFILE,
    EXPECTED_IMPACT_ENVELOPE_V2_PROFILE, FIELD_PROVENANCE_PROFILE, ARTIFACT_SEMANTICS_V1_PROFILE, ARTIFACT_SEMANTICS_V2_PROFILE,
    APPROVAL_REVIEW_PACKAGE_V1_PROFILE, APPROVAL_REVIEW_PACKAGE_V2_PROFILE, ARTIFACT_REVISION_V1_PROFILE, ARTIFACT_REVISION_V2_PROFILE,
    ACTOR_SEPARATION_V1_PROFILE, ACTOR_SEPARATION_V2_PROFILE, APPROVAL_VERIFIER_ENROLLMENT_PROFILE, APPROVAL_PROVIDER_ASSERTION_PROFILE,
    OPERATIONAL_EVENT_PROFILE, OBSERVATION_COHORT_V1_PROFILE, OBSERVATION_COHORT_V2_PROFILE, OBSERVATION_QUALIFICATION_PROFILE,
    OBSERVATION_REPLAY_CORPUS_PROFILE]"

definition ACTIVE_AUTHORING_PROFILES :: "string list" where
  "ACTIVE_AUTHORING_PROFILES = filter (\<lambda>p. p \<notin> set [OBSERVATION_CLASS_PREDICATE_V1_PROFILE, EXPECTED_IMPACT_ENVELOPE_V1_PROFILE,
    ARTIFACT_SEMANTICS_V1_PROFILE, APPROVAL_REVIEW_PACKAGE_V1_PROFILE, ARTIFACT_REVISION_V1_PROFILE, ACTOR_SEPARATION_V1_PROFILE,
    OBSERVATION_COHORT_V1_PROFILE]) AUTHORING_PROFILES"

definition SOURCE_APPROVAL_CLAIM_SCHEMA :: schema where
  "SOURCE_APPROVAL_CLAIM_SCHEMA = profile_shape SOURCE_APPROVAL_CLAIM_PROFILE [
    (''source_system'', string_shape),
    (''source_revision_locator'', string_shape),
    (''source_content_digest_algorithm'', enum_shape [''sha256'']),
    (''source_content_digest'', digest_shape),
    (''source_content_type'', string_shape),
    (''approval_locator'', string_shape),
    (''approving_authority_issuer'', string_shape),
    (''approving_authority_subject'', string_shape),
    (''approval_scope'', string_shape),
    (''approved_at'', timestamp_shape),
    (''expires_at'', timestamp_shape)]"

definition SOURCE_VERIFIER_ATTESTATION_SCHEMA :: schema where
  "SOURCE_VERIFIER_ATTESTATION_SCHEMA = profile_shape SOURCE_VERIFIER_ATTESTATION_PROFILE [
    (''attestation_id'', uuid_shape),
    (''provider_id'', string_shape),
    (''provider_configuration_digest'', digest_shape),
    (''claim_digest'', digest_shape),
    (''approving_authority_issuer'', string_shape),
    (''approving_authority_subject'', string_shape),
    (''source_system'', string_shape),
    (''approval_scope'', string_shape),
    (''issued_at'', timestamp_shape),
    (''expires_at'', timestamp_shape)]"

definition SOURCE_APPROVAL_EVIDENCE_SCHEMA :: schema where
  "SOURCE_APPROVAL_EVIDENCE_SCHEMA = profile_shape SOURCE_APPROVAL_EVIDENCE_PROFILE [
    (''evidence_id'', uuid_shape),
    (''claim'', SOURCE_APPROVAL_CLAIM_SCHEMA),
    (''claim_digest'', digest_shape),
    (''verification_method'', enum_shape [''source_signed'', ''verifier_attested'', ''graph_promoted'']),
    (''verifier_id'', string_shape),
    (''signature'', nullable string_shape),
    (''verifier_attestation'', nullable SOURCE_VERIFIER_ATTESTATION_SCHEMA),
    (''admission_method'', enum_shape [''configured_connector'', ''authorized_upload'', ''graph_promotion'']),
    (''connector_id'', nullable string_shape),
    (''admitted_at'', timestamp_shape),
    (''admitted_by_issuer'', string_shape),
    (''admitted_by_subject'', string_shape),
    (''verified_at'', timestamp_shape),
    (''idempotency_key_digest'', digest_shape),
    (''admission_request_payload_digest'', digest_shape)]"

definition expected_impact_envelope :: "string \<Rightarrow> schema \<Rightarrow> schema" where
  "expected_impact_envelope literal item = profile_shape literal [
    (''envelope_id'', uuid_shape),
    (''proposal_id'', uuid_shape),
    (''proposal_version'', number_shape),
    (''items'', array_shape item ''ordered'' (Some ''item_id'') (Some 1)),
    (''author_issuer'', string_shape),
    (''author_subject'', string_shape),
    (''created_at'', timestamp_shape)]"

definition EXPECTED_IMPACT_ENVELOPE_V1_SCHEMA :: schema where "EXPECTED_IMPACT_ENVELOPE_V1_SCHEMA = expected_impact_envelope
  EXPECTED_IMPACT_ENVELOPE_V1_PROFILE ENVELOPE_ITEM_V1_SCHEMA"

definition EXPECTED_IMPACT_ENVELOPE_V2_SCHEMA :: schema where "EXPECTED_IMPACT_ENVELOPE_V2_SCHEMA = expected_impact_envelope
  EXPECTED_IMPACT_ENVELOPE_V2_PROFILE ENVELOPE_ITEM_V2_SCHEMA"

definition EXPECTED_IMPACT_ENVELOPE_SCHEMA :: schema where "EXPECTED_IMPACT_ENVELOPE_SCHEMA = EXPECTED_IMPACT_ENVELOPE_V2_SCHEMA"

definition FIELD_PROVENANCE_SCHEMA :: schema where
  "FIELD_PROVENANCE_SCHEMA = profile_shape FIELD_PROVENANCE_PROFILE [
    (''field_path'', string_shape),
    (''provenance_class'', enum_shape [''source_backed'', ''human_judgment'', ''server_derived'']),
    (''source_anchor'', nullable string_shape),
    (''quoted_excerpt_digest'', nullable digest_shape),
    (''author_issuer'', nullable string_shape),
    (''author_subject'', nullable string_shape),
    (''author_role'', nullable string_shape),
    (''derivation_profile'', nullable string_shape)]"

definition artifact_semantics :: "string \<Rightarrow> string \<Rightarrow> schema \<Rightarrow> schema" where
  "artifact_semantics literal summary_kind rule = profile_shape literal [
    (''projection_schema_version'', number_shape),
    (''materialiser_profile'', string_shape),
    (''materialiser_version'', string_shape),
    (''applicability_baseline_version'', string_shape),
    (''artifact_id'', uuid_shape),
    (''revision_id'', uuid_shape),
    (''kind'', enum_shape [''directive_bundle'', summary_kind]),
    (''owning_scope'', enum_shape [''global'', ''tenant'']),
    (''owning_tenant_id'', nullable uuid_shape),
    (''visibility'', enum_shape [''standard'', ''restricted'']),
    (''source_system'', string_shape),
    (''source_revision_locator'', string_shape),
    (''source_content_digest'', digest_shape),
    (''source_approval_evidence_digest'', digest_shape),
    (''directives'', array_shape DIRECTIVE_SCHEMA ''ordered'' (Some ''directive_id'') None),
    (''applicability'', array_shape rule ''ordered'' (Some ''rule_id'') None),
    (''detail_audience'', enum_shape [''agent_only'', ''human_only'', ''agent_and_human'']),
    (''review_expires_at'', timestamp_shape),
    (''content_classification'', enum_shape [''public'', ''internal'', ''confidential'']),
    (''approved_retention_floor_days'', number_shape),
    (''initial_freshness_basis'', enum_shape [''connector_verified'', ''revision_pinned_only'']),
    (''reviewed_baseline_revision_id'', nullable uuid_shape)]"

definition ARTIFACT_SEMANTICS_V1_SCHEMA :: schema where
  "ARTIFACT_SEMANTICS_V1_SCHEMA = artifact_semantics ARTIFACT_SEMANTICS_V1_PROFILE ''task_summary_template'' APPLICABILITY_RULE_V1_SCHEMA"

definition ARTIFACT_SEMANTICS_V2_SCHEMA :: schema where
  "ARTIFACT_SEMANTICS_V2_SCHEMA = artifact_semantics ARTIFACT_SEMANTICS_V2_PROFILE ''intent_summary_template'' APPLICABILITY_RULE_V2_SCHEMA"

definition ARTIFACT_SEMANTICS_SCHEMA :: schema where "ARTIFACT_SEMANTICS_SCHEMA = ARTIFACT_SEMANTICS_V2_SCHEMA"

definition approval_review_package :: "string \<Rightarrow> string list \<Rightarrow> schema" where
  "approval_review_package literal risk = profile_shape literal [
    (''artifact_semantics_digest'', digest_shape),
    (''source_approval_evidence_digest'', digest_shape),
    (''field_provenance'', array_shape PROVENANCE_SUMMARY_SCHEMA ''ordered'' (Some ''field_path'') None),
    (''semantic_tests'', array_shape SEMANTIC_TEST_SUMMARY_SCHEMA ''ordered'' (Some ''test_id'') None),
    (''risk_classification'', enum_shape risk),
    (''risk_algorithm_version'', string_shape),
    (''expected_impact_envelope_digest'', digest_shape),
    (''baseline_diff_digest'', digest_shape),
    (''proposal_id'', uuid_shape),
    (''proposal_version'', number_shape),
    (''submitted_by_issuer'', string_shape),
    (''submitted_by_subject'', string_shape),
    (''submitted_at'', timestamp_shape)]"

definition APPROVAL_REVIEW_PACKAGE_V1_SCHEMA :: schema where "APPROVAL_REVIEW_PACKAGE_V1_SCHEMA = approval_review_package
  APPROVAL_REVIEW_PACKAGE_V1_PROFILE RISK_CLASSIFICATIONS_V1"

definition APPROVAL_REVIEW_PACKAGE_V2_SCHEMA :: schema where "APPROVAL_REVIEW_PACKAGE_V2_SCHEMA = approval_review_package
  APPROVAL_REVIEW_PACKAGE_V2_PROFILE RISK_CLASSIFICATIONS_V2"

definition APPROVAL_REVIEW_PACKAGE_SCHEMA :: schema where "APPROVAL_REVIEW_PACKAGE_SCHEMA = APPROVAL_REVIEW_PACKAGE_V2_SCHEMA"

definition artifact_revision :: "string \<Rightarrow> string \<Rightarrow> schema" where
  "artifact_revision literal actor_separation_literal = profile_shape literal [
    (''artifact_id'', uuid_shape),
    (''revision_id'', uuid_shape),
    (''artifact_semantics_digest'', digest_shape),
    (''review_package_digest'', digest_shape),
    (''actor_separation_profile'', const_shape actor_separation_literal)]"

definition ARTIFACT_REVISION_V1_SCHEMA :: schema where "ARTIFACT_REVISION_V1_SCHEMA = artifact_revision ARTIFACT_REVISION_V1_PROFILE
  ACTOR_SEPARATION_V1_PROFILE"

definition ARTIFACT_REVISION_V2_SCHEMA :: schema where "ARTIFACT_REVISION_V2_SCHEMA = artifact_revision ARTIFACT_REVISION_V2_PROFILE
  ACTOR_SEPARATION_V2_PROFILE"

definition ARTIFACT_REVISION_SCHEMA :: schema where "ARTIFACT_REVISION_SCHEMA = ARTIFACT_REVISION_V2_SCHEMA"

definition actor_separation :: "string \<Rightarrow> string list \<Rightarrow> schema" where
  "actor_separation literal risk = profile_shape literal [
    (''risk_classification'', enum_shape risk),
    (''submitter_issuer'', string_shape),
    (''submitter_subject'', string_shape),
    (''approver_issuer'', string_shape),
    (''approver_subject'', string_shape),
    (''accepter_issuer'', nullable string_shape),
    (''accepter_subject'', nullable string_shape),
    (''activator_issuer'', string_shape),
    (''activator_subject'', string_shape),
    (''required_distinct_count'', number_shape),
    (''satisfied'', boolean_shape)]"

definition ACTOR_SEPARATION_V1_SCHEMA :: schema where "ACTOR_SEPARATION_V1_SCHEMA = actor_separation ACTOR_SEPARATION_V1_PROFILE
  RISK_CLASSIFICATIONS_V1"

definition ACTOR_SEPARATION_V2_SCHEMA :: schema where "ACTOR_SEPARATION_V2_SCHEMA = actor_separation ACTOR_SEPARATION_V2_PROFILE
  RISK_CLASSIFICATIONS_V2"

definition ACTOR_SEPARATION_SCHEMA :: schema where "ACTOR_SEPARATION_SCHEMA = ACTOR_SEPARATION_V2_SCHEMA"

definition APPROVAL_VERIFIER_ENROLLMENT_SCHEMA :: schema where
  "APPROVAL_VERIFIER_ENROLLMENT_SCHEMA = profile_shape APPROVAL_VERIFIER_ENROLLMENT_PROFILE [
    (''enrollment_challenge_id'', uuid_shape),
    (''nonce'', string_shape),
    (''verifier_id'', string_shape),
    (''binding_kind'', enum_shape [''exact_principal'', ''provider_delegated'']),
    (''principal_issuer'', nullable string_shape),
    (''principal_subject'', nullable string_shape),
    (''provider_allowed_principal_issuer'', nullable string_shape),
    (''scope_kind'', enum_shape [''global'', ''tenant'']),
    (''target_tenant_id'', nullable uuid_shape),
    (''allowed_evidence_types'', array_shape (enum_shape [''artifact_activation'', ''exception_approval'']) ''set'' None (Some 1)),
    (''signature_algorithm'', enum_shape [''Ed25519'']),
    (''key_digest'', digest_shape),
    (''valid_from'', timestamp_shape),
    (''valid_to'', timestamp_shape),
    (''issued_at'', timestamp_shape),
    (''expires_at'', timestamp_shape)]"

definition APPROVAL_PROVIDER_ASSERTION_SCHEMA :: schema where
  "APPROVAL_PROVIDER_ASSERTION_SCHEMA = profile_shape APPROVAL_PROVIDER_ASSERTION_PROFILE [
    (''assertion_id'', uuid_shape),
    (''provider_id'', string_shape),
    (''provider_configuration_digest'', digest_shape),
    (''approval_challenge_id'', uuid_shape),
    (''approval_evidence_digest'', digest_shape),
    (''principal_issuer'', string_shape),
    (''principal_subject'', string_shape),
    (''issued_at'', timestamp_shape),
    (''expires_at'', timestamp_shape)]"

definition OPERATIONAL_EVENT_SCHEMA :: schema where
  "OPERATIONAL_EVENT_SCHEMA = profile_shape OPERATIONAL_EVENT_PROFILE [
    (''event_id'', uuid_shape),
    (''artifact_id'', uuid_shape),
    (''revision_id'', uuid_shape),
    (''sequence'', number_shape),
    (''event_type'', enum_shape [''operational_state_initialized'', ''freshness_downgraded'', ''legal_hold_placed'', ''legal_hold_released'',
      ''retention_extended'']),
    (''event_payload'', EVENT_PAYLOAD_SCHEMA),
    (''actor_issuer'', string_shape),
    (''actor_subject'', string_shape),
    (''actor_role'', enum_shape [''system'', ''human'']),
    (''authorization_decision_reference'', string_shape),
    (''authority_evidence_digest'', digest_shape),
    (''idempotency_key_digest'', digest_shape),
    (''previous_event_digest'', nullable digest_shape),
    (''signer_key_id'', string_shape),
    (''created_at'', timestamp_shape)]"

definition observation_cohort :: "string \<Rightarrow> string list \<Rightarrow> schema" where
  "observation_cohort literal risk = profile_shape literal [
    (''cohort_id'', uuid_shape),
    (''risk_classification'', enum_shape risk),
    (''scope_predicate_digest'', digest_shape),
    (''tenant_membership_digest'', digest_shape),
    (''eligibility_predicate_digest'', digest_shape),
    (''frozen_at'', timestamp_shape),
    (''window_started_at'', timestamp_shape),
    (''window_deadline'', timestamp_shape)]"

definition OBSERVATION_COHORT_V1_SCHEMA :: schema where "OBSERVATION_COHORT_V1_SCHEMA = observation_cohort OBSERVATION_COHORT_V1_PROFILE
  RISK_CLASSIFICATIONS_V1"

definition OBSERVATION_COHORT_V2_SCHEMA :: schema where "OBSERVATION_COHORT_V2_SCHEMA = observation_cohort OBSERVATION_COHORT_V2_PROFILE
  RISK_CLASSIFICATIONS_V2"

definition OBSERVATION_COHORT_SCHEMA :: schema where "OBSERVATION_COHORT_SCHEMA = OBSERVATION_COHORT_V2_SCHEMA"

definition OBSERVATION_QUALIFICATION_SCHEMA :: schema where
  "OBSERVATION_QUALIFICATION_SCHEMA = profile_shape OBSERVATION_QUALIFICATION_PROFILE [
    (''qualification_id'', uuid_shape),
    (''idempotency_key_digest'', digest_shape),
    (''candidate_review_package_digest'', digest_shape),
    (''candidate_revision_id'', uuid_shape),
    (''proposal_id'', uuid_shape),
    (''proposal_version'', number_shape),
    (''risk_classification'', enum_shape RISK_CLASSIFICATIONS_V1),
    (''risk_algorithm_version'', string_shape),
    (''baseline_revision_id'', nullable uuid_shape),
    (''selection_engine_version'', string_shape),
    (''engine_configuration_version'', string_shape),
    (''cohort_id'', uuid_shape),
    (''cohort_digest'', digest_shape),
    (''window_started_at'', timestamp_shape),
    (''window_ended_at'', timestamp_shape),
    (''eligible_count'', number_shape),
    (''observed_count'', number_shape),
    (''expected_impact_envelope_digest'', digest_shape),
    (''counters_by_delta_code'', array_shape DELTA_COUNTER_SCHEMA ''ordered'' (Some ''delta_code'') None),
    (''unexplained_count'', number_shape),
    (''out_of_envelope_count'', number_shape),
    (''replay_corpus_digest'', nullable digest_shape),
    (''replay_result_digest'', nullable digest_shape),
    (''qualification_algorithm_version'', string_shape),
    (''computed_decision'', enum_shape [''qualified'', ''qualified_low_traffic'', ''insufficient'', ''failed'']),
    (''reason_codes'', array_shape string_shape ''ordered'' None None),
    (''accepted_by_issuer'', nullable string_shape),
    (''accepted_by_subject'', nullable string_shape),
    (''accepted_by_role'', nullable string_shape),
    (''accepted_at'', nullable timestamp_shape),
    (''acceptance_audit_reference'', nullable string_shape),
    (''expires_at'', nullable timestamp_shape)]"

definition OBSERVATION_REPLAY_CORPUS_SCHEMA :: schema where
  "OBSERVATION_REPLAY_CORPUS_SCHEMA = profile_shape OBSERVATION_REPLAY_CORPUS_PROFILE [
    (''corpus_id'', uuid_shape),
    (''generator_version'', string_shape),
    (''generator_input_digest'', digest_shape),
    (''canonical_corpus_digest'', digest_shape),
    (''fixture_class_count'', number_shape),
    (''scope'', enum_shape [''global'', ''tenant'']),
    (''target_tenant_id'', nullable uuid_shape),
    (''approving_authority_issuer'', string_shape),
    (''approving_authority_subject'', string_shape),
    (''approved_at'', timestamp_shape),
    (''expires_at'', timestamp_shape)]"

definition SCHEMA_BY_PROFILE :: "(string \<times> schema) list" where
  "SCHEMA_BY_PROFILE = [
    (SOURCE_APPROVAL_CLAIM_PROFILE, SOURCE_APPROVAL_CLAIM_SCHEMA),
    (SOURCE_VERIFIER_ATTESTATION_PROFILE, SOURCE_VERIFIER_ATTESTATION_SCHEMA),
    (SOURCE_APPROVAL_EVIDENCE_PROFILE, SOURCE_APPROVAL_EVIDENCE_SCHEMA),
    (OBSERVATION_CLASS_PREDICATE_V1_PROFILE, OBSERVATION_CLASS_PREDICATE_V1_SCHEMA),
    (OBSERVATION_CLASS_PREDICATE_V2_PROFILE, OBSERVATION_CLASS_PREDICATE_V2_SCHEMA),
    (EXPECTED_IMPACT_ENVELOPE_V1_PROFILE, EXPECTED_IMPACT_ENVELOPE_V1_SCHEMA),
    (EXPECTED_IMPACT_ENVELOPE_V2_PROFILE, EXPECTED_IMPACT_ENVELOPE_V2_SCHEMA),
    (FIELD_PROVENANCE_PROFILE, FIELD_PROVENANCE_SCHEMA),
    (ARTIFACT_SEMANTICS_V1_PROFILE, ARTIFACT_SEMANTICS_V1_SCHEMA),
    (ARTIFACT_SEMANTICS_V2_PROFILE, ARTIFACT_SEMANTICS_V2_SCHEMA),
    (APPROVAL_REVIEW_PACKAGE_V1_PROFILE, APPROVAL_REVIEW_PACKAGE_V1_SCHEMA),
    (APPROVAL_REVIEW_PACKAGE_V2_PROFILE, APPROVAL_REVIEW_PACKAGE_V2_SCHEMA),
    (ARTIFACT_REVISION_V1_PROFILE, ARTIFACT_REVISION_V1_SCHEMA),
    (ARTIFACT_REVISION_V2_PROFILE, ARTIFACT_REVISION_V2_SCHEMA),
    (ACTOR_SEPARATION_V1_PROFILE, ACTOR_SEPARATION_V1_SCHEMA),
    (ACTOR_SEPARATION_V2_PROFILE, ACTOR_SEPARATION_V2_SCHEMA),
    (APPROVAL_VERIFIER_ENROLLMENT_PROFILE, APPROVAL_VERIFIER_ENROLLMENT_SCHEMA),
    (APPROVAL_PROVIDER_ASSERTION_PROFILE, APPROVAL_PROVIDER_ASSERTION_SCHEMA),
    (OPERATIONAL_EVENT_PROFILE, OPERATIONAL_EVENT_SCHEMA),
    (OBSERVATION_COHORT_V1_PROFILE, OBSERVATION_COHORT_V1_SCHEMA),
    (OBSERVATION_COHORT_V2_PROFILE, OBSERVATION_COHORT_V2_SCHEMA),
    (OBSERVATION_QUALIFICATION_PROFILE, OBSERVATION_QUALIFICATION_SCHEMA),
    (OBSERVATION_REPLAY_CORPUS_PROFILE, OBSERVATION_REPLAY_CORPUS_SCHEMA)]"

end
