(* ===== verification/Authoring_Profiles.thy ===== *)
theory Authoring_Profiles
  imports Authoring_Shapes
begin

section \<open>Canonical bytes of the authoring profiles\<close>

text \<open>
  The model of \<open>contextplane/arc/schemas/authoring_profiles.py\<close>: one recursive pass both checks a value against its schema and rewrites it into its
  canonical form, whose text is what approvals sign and digests cover; validation adds the rules a closed field
  set cannot express. Every function that raises returns its exception on the left. The Unicode normalisation of the standard library is the parameter
  \<open>nfc\<close>, SHA-256 the parameter \<open>sha256\<close> (to its hexadecimal text). The path in the text of an exception is left out.
\<close>

subsection \<open>The engine\<close>

datatype profile_error =
    ProfileValidationFailed
  | EnvelopeItemsOverlapError
  | FieldProvenanceConditionalError
  | ActorSeparationViolationError
  | SourceAdmissionRefusedError
  | UnknownProfileError
  | PyKeyError
  | PyTypeError

definition serialize :: "json \<Rightarrow> string" where
  "serialize v = utf8 (dumps v)"

definition check_string :: "(string \<Rightarrow> string) \<Rightarrow> schema \<Rightarrow> string \<Rightarrow> profile_error + json" where
  "check_string nfc s v =
     (if ''string'' \<notin> set (sc_type s) then Inl ProfileValidationFailed
      else if sc_const s \<noteq> None \<and> sc_const s \<noteq> Some v then Inl ProfileValidationFailed
      else if sc_enum s \<noteq> None \<and> v \<notin> set (the (sc_enum s)) then Inl ProfileValidationFailed
      else if sc_pattern s \<noteq> None \<and> \<not> fullmatch (the (sc_pattern s)) v then Inl ProfileValidationFailed
      else if nfc v \<noteq> v then Inl ProfileValidationFailed
      else if CHR 0x00 \<in> set v then Inl ProfileValidationFailed
      else Inr (JStr v))"

text \<open>
  \<open>previous < current\<close> on canonical values: text and numbers compare, a boolean is a number. Other comparisons raise; that
  of two arrays, which Python makes element by element, raises here too, as no schema has an array as sort key.
\<close>

fun json_less :: "json \<Rightarrow> json \<Rightarrow> profile_error + bool" where
  "json_less (JStr a) (JStr b) = Inr (a < b)"
| "json_less (JInt a) (JInt b) = Inr (a < b)"
| "json_less (JInt a) (JBool b) = Inr (a < of_bool b)"
| "json_less (JBool a) (JInt b) = Inr (of_bool a < b)"
| "json_less (JBool a) (JBool b) = Inr (a < b)"
| "json_less _ _ = Inl PyTypeError"

definition sort_value :: "string \<Rightarrow> json \<Rightarrow> profile_error + json" where
  "sort_value order_key item =
     (case item of JObj kvs \<Rightarrow> of_option PyKeyError (map_of kvs order_key) | v \<Rightarrow> Inr v)"

fun check_ascending :: "string \<Rightarrow> json option \<Rightarrow> json list \<Rightarrow> profile_error + unit" where
  "check_ascending order_key previous [] = Inr ()"
| "check_ascending order_key previous (item # items) =
     result_bind (sort_value order_key item) (\<lambda>current.
       result_bind (case previous of None \<Rightarrow> Inr True | Some p \<Rightarrow> json_less p current) (\<lambda>ok.
         if \<not> ok then Inl ProfileValidationFailed
         else check_ascending order_key (if current = JNull then None else Some current) items))"

definition order_items :: "schema \<Rightarrow> json list \<Rightarrow> profile_error + json" where
  "order_items s canon_items =
     (if sc_array_kind s = Some ''set''
      then (let keyed = sort_key serialize canon_items in
            if distinct (map serialize keyed) then Inr (JArr keyed) else Inl ProfileValidationFailed)
      else if sc_array_kind s = Some ''ordered''
      then (case sc_order_key s of
              None \<Rightarrow> Inr (JArr canon_items)
            | Some k \<Rightarrow> result_map (\<lambda>_. JArr canon_items) (check_ascending k None canon_items))
      else Inl ProfileValidationFailed)"

definition check_fields :: "(string \<Rightarrow> string) \<Rightarrow> schema \<Rightarrow> (string \<times> json) list \<Rightarrow> profile_error + unit" where
  "check_fields nfc s kvs =
     (case (sc_properties s, sc_required s) of
        (Some properties, Some required) \<Rightarrow>
          if \<not> distinct (map fst kvs) then Inl ProfileValidationFailed
          else if \<not> list_all (\<lambda>k. k \<in> fst ` set kvs) required then Inl ProfileValidationFailed
          else if \<not> list_all (\<lambda>kv. fst kv \<in> fst ` set properties) kvs then Inl ProfileValidationFailed
          else if \<not> list_all (\<lambda>kv. nfc (fst kv) = fst kv) kvs then Inl ProfileValidationFailed
          else Inr ()
      | _ \<Rightarrow> Inl PyKeyError)"

lemma traverse_cong [fundef_cong]:
  "xs = ys \<Longrightarrow> (\<And>x. x \<in> set ys \<Longrightarrow> f x = g x) \<Longrightarrow> traverse f xs = traverse g ys"
proof (induction ys arbitrary: xs)
  case (Cons y ys)
  from Cons.IH [of ys] Cons.prems(2) have "traverse f ys = traverse g ys" by simp
  with Cons.prems show ?case by (simp split: sum.split)
qed simp

function check_and_canonicalize :: "(string \<Rightarrow> string) \<Rightarrow> schema \<Rightarrow> json \<Rightarrow> profile_error + json" where
  "check_and_canonicalize nfc s JNull =
     (if ''null'' \<in> set (sc_type s) then Inr JNull else Inl ProfileValidationFailed)"
| "check_and_canonicalize nfc s (JBool b) =
     (if ''boolean'' \<in> set (sc_type s) then Inr (JBool b) else Inl ProfileValidationFailed)"
| "check_and_canonicalize nfc s (JStr v) = check_string nfc s v"
| "check_and_canonicalize nfc s (JInt i) =
     (if ''number'' \<in> set (sc_type s) then Inr (JInt i) else Inl ProfileValidationFailed)"
| "check_and_canonicalize nfc s (JFloat q) =
     (if ''number'' \<notin> set (sc_type s) then Inl ProfileValidationFailed
      else if of_int (floor q) \<noteq> q then Inl ProfileValidationFailed
      else Inr (JInt (floor q)))"
| "check_and_canonicalize nfc s (JArr xs) =
     (if ''array'' \<notin> set (sc_type s) then Inl ProfileValidationFailed
      else if sc_min_items s \<noteq> None \<and> length xs < the (sc_min_items s) then Inl ProfileValidationFailed
      else (case sc_items s of
              None \<Rightarrow> Inl PyKeyError
            | Some items \<Rightarrow> result_bind (traverse (\<lambda>x. check_and_canonicalize nfc items x) xs) (order_items s)))"
| "check_and_canonicalize nfc s (JObj kvs) =
     (if ''object'' \<notin> set (sc_type s) then Inl ProfileValidationFailed
      else result_bind (check_fields nfc s kvs) (\<lambda>_.
        result_map JObj (traverse (\<lambda>kv.
            result_map (Pair (fst kv)) (check_and_canonicalize nfc (the (map_of (the (sc_properties s)) (fst kv))) (snd kv)))
          (sort_key fst kvs))))"
  by pat_completeness auto
termination
proof (relation "measure (\<lambda>(_, _, v). size v)", goal_cases)
  case (2 nfc s xs items x)
  then show ?case using size_list_estimation' [of x xs "size x" size] by simp
next
  case (3 nfc s kvs u kv)
  then have "kv \<in> set kvs" by simp
  moreover have "size (snd kv) \<le> size_prod (\<lambda>_. 0) size kv" by (cases kv) simp
  ultimately have "size (snd kv) \<le> size_list (size_prod (\<lambda>_. 0) size) kvs" by (rule size_list_estimation')
  then show ?case by simp
qed simp

definition canonical_bytes :: "(string \<Rightarrow> string) \<Rightarrow> schema \<Rightarrow> (string \<times> json) list \<Rightarrow> profile_error + string" where
  "canonical_bytes nfc s obj = result_map serialize (check_and_canonicalize nfc s (JObj obj))"

definition profile_field_names :: "string \<Rightarrow> profile_error + string list" where
  "profile_field_names profile_literal =
     (case map_of SCHEMA_BY_PROFILE profile_literal of
        None \<Rightarrow> Inl PyKeyError
      | Some s \<Rightarrow> (case sc_properties s of None \<Rightarrow> Inl PyKeyError | Some ps \<Rightarrow> Inr (map fst ps)))"

subsection \<open>Rules a closed field set cannot express\<close>

definition item_at :: "(string \<times> json) list \<Rightarrow> string \<Rightarrow> profile_error + json" where
  "item_at obj k = of_option PyKeyError (map_of obj k)"

text \<open>\<open>obj.get(name) is None\<close>.\<close>

definition is_null :: "(string \<times> json) list \<Rightarrow> string \<Rightarrow> bool" where
  "is_null obj k \<longleftrightarrow> map_of obj k = None \<or> map_of obj k = Some JNull"

definition PROVENANCE_GROUPS :: "(string \<times> string list \<times> string list) list" where
  "PROVENANCE_GROUPS = [
    (''source_backed'', [''source_anchor'', ''quoted_excerpt_digest''],
     [''author_issuer'', ''author_subject'', ''author_role'', ''derivation_profile'']),
    (''human_judgment'', [''author_issuer'', ''author_subject'', ''author_role''], [''derivation_profile'']),
    (''server_derived'', [''derivation_profile''],
     [''source_anchor'', ''quoted_excerpt_digest'', ''author_issuer'', ''author_subject'', ''author_role''])]"

definition check_field_provenance_conditional :: "(string \<times> json) list \<Rightarrow> profile_error + unit" where
  "check_field_provenance_conditional obj =
     (case map_of obj ''provenance_class'' of
        Some (JStr c) \<Rightarrow>
          (case map_of PROVENANCE_GROUPS c of
             None \<Rightarrow> Inl PyKeyError
           | Some (required, forbidden) \<Rightarrow>
               if list_ex (is_null obj) required then Inl FieldProvenanceConditionalError
               else if list_ex (\<lambda>k. \<not> is_null obj k) forbidden then Inl FieldProvenanceConditionalError
               else Inr ())
      | _ \<Rightarrow> Inl PyKeyError)"

text \<open>\<open>json.dumps(value, sort_keys=True, ensure_ascii=False)\<close>, with the default separators.\<close>

fun dumps_sorted :: "json \<Rightarrow> string" where
  "dumps_sorted (JArr xs) = ''['' @ py_join '', '' (map dumps_sorted xs) @ '']''"
| "dumps_sorted (JObj kvs) =
     ''{'' @ py_join '', '' (map snd (sort_key fst (map (\<lambda>kv. (fst kv, dump_string (fst kv) @ '': '' @ dumps_sorted (snd kv))) kvs))) @ ''}''"
| "dumps_sorted v = dumps v"

fun overlap_loop :: "(json \<times> string) set \<Rightarrow> json list \<Rightarrow> profile_error + unit" where
  "overlap_loop seen [] = Inr ()"
| "overlap_loop seen (item # items) =
     (case item of
        JObj kvs \<Rightarrow>
          result_bind (item_at kvs ''delta_code'') (\<lambda>code.
            result_bind (item_at kvs ''class_predicate'') (\<lambda>predicate.
              let key = (code, dumps_sorted predicate) in
              if key \<in> seen then Inl EnvelopeItemsOverlapError else overlap_loop (insert key seen) items))
      | _ \<Rightarrow> Inl PyTypeError)"

definition check_envelope_non_overlap :: "(string \<times> json) list \<Rightarrow> profile_error + unit" where
  "check_envelope_non_overlap obj =
     result_bind (item_at obj ''items'') (\<lambda>v. case v of JArr items \<Rightarrow> overlap_loop {} items | _ \<Rightarrow> Inl PyTypeError)"

definition principal_at :: "(string \<times> json) list \<Rightarrow> string \<Rightarrow> profile_error + json \<times> json" where
  "principal_at obj role =
     result_bind (item_at obj (role @ ''_issuer'')) (\<lambda>i. result_map (Pair i) (item_at obj (role @ ''_subject'')))"

definition check_actor_separation :: "(string \<times> json) list \<Rightarrow> profile_error + unit" where
  "check_actor_separation obj =
     result_bind (principal_at obj ''submitter'') (\<lambda>submitter.
       result_bind (principal_at obj ''approver'') (\<lambda>approver.
         result_bind (principal_at obj ''activator'') (\<lambda>activator.
           if submitter = approver then Inl ActorSeparationViolationError
           else result_bind (item_at obj ''risk_classification'') (\<lambda>risk.
             if risk = JStr ''global_mandatory'' \<and> card {submitter, approver, activator} \<noteq> 3
             then Inl ActorSeparationViolationError else Inr ()))))"

subsection \<open>The functions of each profile\<close>

definition canonicalize_source_approval_claim_v1 :: "(string \<Rightarrow> string) \<Rightarrow> (string \<times> json) list \<Rightarrow> profile_error + string" where
  "canonicalize_source_approval_claim_v1 nfc obj = canonical_bytes nfc SOURCE_APPROVAL_CLAIM_SCHEMA obj"

definition validate_source_approval_claim_v1 :: "(string \<Rightarrow> string) \<Rightarrow> (string \<times> json) list \<Rightarrow> profile_error + unit" where
  "validate_source_approval_claim_v1 nfc obj = result_map (\<lambda>_. ()) (canonicalize_source_approval_claim_v1 nfc obj)"

definition canonicalize_source_verifier_attestation_v1 :: "(string \<Rightarrow> string) \<Rightarrow> (string \<times> json) list \<Rightarrow> profile_error + string" where
  "canonicalize_source_verifier_attestation_v1 nfc obj = canonical_bytes nfc SOURCE_VERIFIER_ATTESTATION_SCHEMA obj"

definition validate_source_verifier_attestation_v1 :: "(string \<Rightarrow> string) \<Rightarrow> (string \<times> json) list \<Rightarrow> profile_error + unit" where
  "validate_source_verifier_attestation_v1 nfc obj = result_map (\<lambda>_. ()) (canonicalize_source_verifier_attestation_v1 nfc obj)"

definition canonicalize_source_approval_evidence_v1 :: "(string \<Rightarrow> string) \<Rightarrow> (string \<times> json) list \<Rightarrow> profile_error + string" where
  "canonicalize_source_approval_evidence_v1 nfc obj = canonical_bytes nfc SOURCE_APPROVAL_EVIDENCE_SCHEMA obj"

definition check_evidence_claim_digest ::
    "(string \<Rightarrow> string) \<Rightarrow> (string \<Rightarrow> string) \<Rightarrow> (string \<times> json) list \<Rightarrow> profile_error + unit" where
  "check_evidence_claim_digest nfc sha256 obj =
     result_bind (item_at obj ''claim'') (\<lambda>v. case v of
         JObj claim \<Rightarrow>
           result_bind (canonicalize_source_approval_claim_v1 nfc claim) (\<lambda>bytes.
             if map_of obj ''claim_digest'' \<noteq> Some (JStr (sha256 bytes)) then Inl SourceAdmissionRefusedError else Inr ())
       | _ \<Rightarrow> Inl ProfileValidationFailed)"

definition validate_source_approval_evidence_v1 :: "(string \<Rightarrow> string) \<Rightarrow> (string \<Rightarrow> string) \<Rightarrow> (string \<times> json) list \<Rightarrow> profile_error + unit" where
  "validate_source_approval_evidence_v1 nfc sha256 obj = result_bind (canonicalize_source_approval_evidence_v1 nfc obj) (\<lambda>_. check_evidence_claim_digest nfc sha256 obj)"

definition canonicalize_observation_class_predicate_v1 :: "(string \<Rightarrow> string) \<Rightarrow> (string \<times> json) list \<Rightarrow> profile_error + string" where
  "canonicalize_observation_class_predicate_v1 nfc obj = canonical_bytes nfc OBSERVATION_CLASS_PREDICATE_V1_SCHEMA obj"

definition validate_observation_class_predicate_v1 :: "(string \<Rightarrow> string) \<Rightarrow> (string \<times> json) list \<Rightarrow> profile_error + unit" where
  "validate_observation_class_predicate_v1 nfc obj = result_map (\<lambda>_. ()) (canonicalize_observation_class_predicate_v1 nfc obj)"

definition canonicalize_observation_class_predicate_v2 :: "(string \<Rightarrow> string) \<Rightarrow> (string \<times> json) list \<Rightarrow> profile_error + string" where
  "canonicalize_observation_class_predicate_v2 nfc obj = canonical_bytes nfc OBSERVATION_CLASS_PREDICATE_V2_SCHEMA obj"

definition validate_observation_class_predicate_v2 :: "(string \<Rightarrow> string) \<Rightarrow> (string \<times> json) list \<Rightarrow> profile_error + unit" where
  "validate_observation_class_predicate_v2 nfc obj = result_map (\<lambda>_. ()) (canonicalize_observation_class_predicate_v2 nfc obj)"

definition canonicalize_expected_impact_envelope_v1 :: "(string \<Rightarrow> string) \<Rightarrow> (string \<times> json) list \<Rightarrow> profile_error + string" where
  "canonicalize_expected_impact_envelope_v1 nfc obj = canonical_bytes nfc EXPECTED_IMPACT_ENVELOPE_V1_SCHEMA obj"

definition validate_expected_impact_envelope_v1 :: "(string \<Rightarrow> string) \<Rightarrow> (string \<times> json) list \<Rightarrow> profile_error + unit" where
  "validate_expected_impact_envelope_v1 nfc obj = result_bind (canonicalize_expected_impact_envelope_v1 nfc obj) (\<lambda>_. check_envelope_non_overlap obj)"

definition canonicalize_expected_impact_envelope_v2 :: "(string \<Rightarrow> string) \<Rightarrow> (string \<times> json) list \<Rightarrow> profile_error + string" where
  "canonicalize_expected_impact_envelope_v2 nfc obj = canonical_bytes nfc EXPECTED_IMPACT_ENVELOPE_V2_SCHEMA obj"

definition validate_expected_impact_envelope_v2 :: "(string \<Rightarrow> string) \<Rightarrow> (string \<times> json) list \<Rightarrow> profile_error + unit" where
  "validate_expected_impact_envelope_v2 nfc obj = result_bind (canonicalize_expected_impact_envelope_v2 nfc obj) (\<lambda>_. check_envelope_non_overlap obj)"

definition canonicalize_field_provenance_v1 :: "(string \<Rightarrow> string) \<Rightarrow> (string \<times> json) list \<Rightarrow> profile_error + string" where
  "canonicalize_field_provenance_v1 nfc obj = canonical_bytes nfc FIELD_PROVENANCE_SCHEMA obj"

definition validate_field_provenance_v1 :: "(string \<Rightarrow> string) \<Rightarrow> (string \<times> json) list \<Rightarrow> profile_error + unit" where
  "validate_field_provenance_v1 nfc obj = result_bind (canonicalize_field_provenance_v1 nfc obj) (\<lambda>_. check_field_provenance_conditional obj)"

definition canonicalize_artifact_semantics_v1 :: "(string \<Rightarrow> string) \<Rightarrow> (string \<times> json) list \<Rightarrow> profile_error + string" where
  "canonicalize_artifact_semantics_v1 nfc obj = canonical_bytes nfc ARTIFACT_SEMANTICS_V1_SCHEMA obj"

definition validate_artifact_semantics_v1 :: "(string \<Rightarrow> string) \<Rightarrow> (string \<times> json) list \<Rightarrow> profile_error + unit" where
  "validate_artifact_semantics_v1 nfc obj = result_map (\<lambda>_. ()) (canonicalize_artifact_semantics_v1 nfc obj)"

definition canonicalize_artifact_semantics_v2 :: "(string \<Rightarrow> string) \<Rightarrow> (string \<times> json) list \<Rightarrow> profile_error + string" where
  "canonicalize_artifact_semantics_v2 nfc obj = canonical_bytes nfc ARTIFACT_SEMANTICS_V2_SCHEMA obj"

definition validate_artifact_semantics_v2 :: "(string \<Rightarrow> string) \<Rightarrow> (string \<times> json) list \<Rightarrow> profile_error + unit" where
  "validate_artifact_semantics_v2 nfc obj = result_map (\<lambda>_. ()) (canonicalize_artifact_semantics_v2 nfc obj)"

definition canonicalize_approval_review_package_v1 :: "(string \<Rightarrow> string) \<Rightarrow> (string \<times> json) list \<Rightarrow> profile_error + string" where
  "canonicalize_approval_review_package_v1 nfc obj = canonical_bytes nfc APPROVAL_REVIEW_PACKAGE_V1_SCHEMA obj"

definition validate_approval_review_package_v1 :: "(string \<Rightarrow> string) \<Rightarrow> (string \<times> json) list \<Rightarrow> profile_error + unit" where
  "validate_approval_review_package_v1 nfc obj = result_map (\<lambda>_. ()) (canonicalize_approval_review_package_v1 nfc obj)"

definition canonicalize_approval_review_package_v2 :: "(string \<Rightarrow> string) \<Rightarrow> (string \<times> json) list \<Rightarrow> profile_error + string" where
  "canonicalize_approval_review_package_v2 nfc obj = canonical_bytes nfc APPROVAL_REVIEW_PACKAGE_V2_SCHEMA obj"

definition validate_approval_review_package_v2 :: "(string \<Rightarrow> string) \<Rightarrow> (string \<times> json) list \<Rightarrow> profile_error + unit" where
  "validate_approval_review_package_v2 nfc obj = result_map (\<lambda>_. ()) (canonicalize_approval_review_package_v2 nfc obj)"

definition canonicalize_artifact_revision_v1 :: "(string \<Rightarrow> string) \<Rightarrow> (string \<times> json) list \<Rightarrow> profile_error + string" where
  "canonicalize_artifact_revision_v1 nfc obj = canonical_bytes nfc ARTIFACT_REVISION_V1_SCHEMA obj"

definition validate_artifact_revision_v1 :: "(string \<Rightarrow> string) \<Rightarrow> (string \<times> json) list \<Rightarrow> profile_error + unit" where
  "validate_artifact_revision_v1 nfc obj = result_map (\<lambda>_. ()) (canonicalize_artifact_revision_v1 nfc obj)"

definition canonicalize_artifact_revision_v2 :: "(string \<Rightarrow> string) \<Rightarrow> (string \<times> json) list \<Rightarrow> profile_error + string" where
  "canonicalize_artifact_revision_v2 nfc obj = canonical_bytes nfc ARTIFACT_REVISION_V2_SCHEMA obj"

definition validate_artifact_revision_v2 :: "(string \<Rightarrow> string) \<Rightarrow> (string \<times> json) list \<Rightarrow> profile_error + unit" where
  "validate_artifact_revision_v2 nfc obj = result_map (\<lambda>_. ()) (canonicalize_artifact_revision_v2 nfc obj)"

definition canonicalize_actor_separation_v1 :: "(string \<Rightarrow> string) \<Rightarrow> (string \<times> json) list \<Rightarrow> profile_error + string" where
  "canonicalize_actor_separation_v1 nfc obj = canonical_bytes nfc ACTOR_SEPARATION_V1_SCHEMA obj"

definition validate_actor_separation_v1 :: "(string \<Rightarrow> string) \<Rightarrow> (string \<times> json) list \<Rightarrow> profile_error + unit" where
  "validate_actor_separation_v1 nfc obj = result_bind (canonicalize_actor_separation_v1 nfc obj) (\<lambda>_. check_actor_separation obj)"

definition canonicalize_actor_separation_v2 :: "(string \<Rightarrow> string) \<Rightarrow> (string \<times> json) list \<Rightarrow> profile_error + string" where
  "canonicalize_actor_separation_v2 nfc obj = canonical_bytes nfc ACTOR_SEPARATION_V2_SCHEMA obj"

definition validate_actor_separation_v2 :: "(string \<Rightarrow> string) \<Rightarrow> (string \<times> json) list \<Rightarrow> profile_error + unit" where
  "validate_actor_separation_v2 nfc obj = result_bind (canonicalize_actor_separation_v2 nfc obj) (\<lambda>_. check_actor_separation obj)"

definition canonicalize_approval_verifier_enrollment_v1 :: "(string \<Rightarrow> string) \<Rightarrow> (string \<times> json) list \<Rightarrow> profile_error + string" where
  "canonicalize_approval_verifier_enrollment_v1 nfc obj = canonical_bytes nfc APPROVAL_VERIFIER_ENROLLMENT_SCHEMA obj"

definition validate_approval_verifier_enrollment_v1 :: "(string \<Rightarrow> string) \<Rightarrow> (string \<times> json) list \<Rightarrow> profile_error + unit" where
  "validate_approval_verifier_enrollment_v1 nfc obj = result_map (\<lambda>_. ()) (canonicalize_approval_verifier_enrollment_v1 nfc obj)"

definition canonicalize_approval_provider_assertion_v1 :: "(string \<Rightarrow> string) \<Rightarrow> (string \<times> json) list \<Rightarrow> profile_error + string" where
  "canonicalize_approval_provider_assertion_v1 nfc obj = canonical_bytes nfc APPROVAL_PROVIDER_ASSERTION_SCHEMA obj"

definition validate_approval_provider_assertion_v1 :: "(string \<Rightarrow> string) \<Rightarrow> (string \<times> json) list \<Rightarrow> profile_error + unit" where
  "validate_approval_provider_assertion_v1 nfc obj = result_map (\<lambda>_. ()) (canonicalize_approval_provider_assertion_v1 nfc obj)"

definition canonicalize_operational_event_v1 :: "(string \<Rightarrow> string) \<Rightarrow> (string \<times> json) list \<Rightarrow> profile_error + string" where
  "canonicalize_operational_event_v1 nfc obj = canonical_bytes nfc OPERATIONAL_EVENT_SCHEMA obj"

definition validate_operational_event_v1 :: "(string \<Rightarrow> string) \<Rightarrow> (string \<times> json) list \<Rightarrow> profile_error + unit" where
  "validate_operational_event_v1 nfc obj = result_map (\<lambda>_. ()) (canonicalize_operational_event_v1 nfc obj)"

definition canonicalize_observation_cohort_v1 :: "(string \<Rightarrow> string) \<Rightarrow> (string \<times> json) list \<Rightarrow> profile_error + string" where
  "canonicalize_observation_cohort_v1 nfc obj = canonical_bytes nfc OBSERVATION_COHORT_V1_SCHEMA obj"

definition validate_observation_cohort_v1 :: "(string \<Rightarrow> string) \<Rightarrow> (string \<times> json) list \<Rightarrow> profile_error + unit" where
  "validate_observation_cohort_v1 nfc obj = result_map (\<lambda>_. ()) (canonicalize_observation_cohort_v1 nfc obj)"

definition canonicalize_observation_cohort_v2 :: "(string \<Rightarrow> string) \<Rightarrow> (string \<times> json) list \<Rightarrow> profile_error + string" where
  "canonicalize_observation_cohort_v2 nfc obj = canonical_bytes nfc OBSERVATION_COHORT_V2_SCHEMA obj"

definition validate_observation_cohort_v2 :: "(string \<Rightarrow> string) \<Rightarrow> (string \<times> json) list \<Rightarrow> profile_error + unit" where
  "validate_observation_cohort_v2 nfc obj = result_map (\<lambda>_. ()) (canonicalize_observation_cohort_v2 nfc obj)"

definition canonicalize_observation_qualification_v1 :: "(string \<Rightarrow> string) \<Rightarrow> (string \<times> json) list \<Rightarrow> profile_error + string" where
  "canonicalize_observation_qualification_v1 nfc obj = canonical_bytes nfc OBSERVATION_QUALIFICATION_SCHEMA obj"

definition validate_observation_qualification_v1 :: "(string \<Rightarrow> string) \<Rightarrow> (string \<times> json) list \<Rightarrow> profile_error + unit" where
  "validate_observation_qualification_v1 nfc obj = result_map (\<lambda>_. ()) (canonicalize_observation_qualification_v1 nfc obj)"

definition canonicalize_observation_replay_corpus_v1 :: "(string \<Rightarrow> string) \<Rightarrow> (string \<times> json) list \<Rightarrow> profile_error + string" where
  "canonicalize_observation_replay_corpus_v1 nfc obj = canonical_bytes nfc OBSERVATION_REPLAY_CORPUS_SCHEMA obj"

definition validate_observation_replay_corpus_v1 :: "(string \<Rightarrow> string) \<Rightarrow> (string \<times> json) list \<Rightarrow> profile_error + unit" where
  "validate_observation_replay_corpus_v1 nfc obj = result_map (\<lambda>_. ()) (canonicalize_observation_replay_corpus_v1 nfc obj)"

definition PROFILE_FUNCTIONS :: "(string \<Rightarrow> string) \<Rightarrow> (string \<Rightarrow> string) \<Rightarrow>
    (string \<times> ((string \<times> json) list \<Rightarrow> profile_error + unit) \<times> ((string \<times> json) list \<Rightarrow> profile_error + string)) list" where
  "PROFILE_FUNCTIONS nfc sha256 = [
    (SOURCE_APPROVAL_CLAIM_PROFILE, validate_source_approval_claim_v1 nfc, canonicalize_source_approval_claim_v1 nfc),
    (SOURCE_VERIFIER_ATTESTATION_PROFILE, validate_source_verifier_attestation_v1 nfc, canonicalize_source_verifier_attestation_v1 nfc),
    (SOURCE_APPROVAL_EVIDENCE_PROFILE, validate_source_approval_evidence_v1 nfc sha256, canonicalize_source_approval_evidence_v1 nfc),
    (OBSERVATION_CLASS_PREDICATE_V1_PROFILE, validate_observation_class_predicate_v1 nfc, canonicalize_observation_class_predicate_v1 nfc),
    (OBSERVATION_CLASS_PREDICATE_V2_PROFILE, validate_observation_class_predicate_v2 nfc, canonicalize_observation_class_predicate_v2 nfc),
    (EXPECTED_IMPACT_ENVELOPE_V1_PROFILE, validate_expected_impact_envelope_v1 nfc, canonicalize_expected_impact_envelope_v1 nfc),
    (EXPECTED_IMPACT_ENVELOPE_V2_PROFILE, validate_expected_impact_envelope_v2 nfc, canonicalize_expected_impact_envelope_v2 nfc),
    (FIELD_PROVENANCE_PROFILE, validate_field_provenance_v1 nfc, canonicalize_field_provenance_v1 nfc),
    (ARTIFACT_SEMANTICS_V1_PROFILE, validate_artifact_semantics_v1 nfc, canonicalize_artifact_semantics_v1 nfc),
    (ARTIFACT_SEMANTICS_V2_PROFILE, validate_artifact_semantics_v2 nfc, canonicalize_artifact_semantics_v2 nfc),
    (APPROVAL_REVIEW_PACKAGE_V1_PROFILE, validate_approval_review_package_v1 nfc, canonicalize_approval_review_package_v1 nfc),
    (APPROVAL_REVIEW_PACKAGE_V2_PROFILE, validate_approval_review_package_v2 nfc, canonicalize_approval_review_package_v2 nfc),
    (ARTIFACT_REVISION_V1_PROFILE, validate_artifact_revision_v1 nfc, canonicalize_artifact_revision_v1 nfc),
    (ARTIFACT_REVISION_V2_PROFILE, validate_artifact_revision_v2 nfc, canonicalize_artifact_revision_v2 nfc),
    (ACTOR_SEPARATION_V1_PROFILE, validate_actor_separation_v1 nfc, canonicalize_actor_separation_v1 nfc),
    (ACTOR_SEPARATION_V2_PROFILE, validate_actor_separation_v2 nfc, canonicalize_actor_separation_v2 nfc),
    (APPROVAL_VERIFIER_ENROLLMENT_PROFILE, validate_approval_verifier_enrollment_v1 nfc, canonicalize_approval_verifier_enrollment_v1 nfc),
    (APPROVAL_PROVIDER_ASSERTION_PROFILE, validate_approval_provider_assertion_v1 nfc, canonicalize_approval_provider_assertion_v1 nfc),
    (OPERATIONAL_EVENT_PROFILE, validate_operational_event_v1 nfc, canonicalize_operational_event_v1 nfc),
    (OBSERVATION_COHORT_V1_PROFILE, validate_observation_cohort_v1 nfc, canonicalize_observation_cohort_v1 nfc),
    (OBSERVATION_COHORT_V2_PROFILE, validate_observation_cohort_v2 nfc, canonicalize_observation_cohort_v2 nfc),
    (OBSERVATION_QUALIFICATION_PROFILE, validate_observation_qualification_v1 nfc, canonicalize_observation_qualification_v1 nfc),
    (OBSERVATION_REPLAY_CORPUS_PROFILE, validate_observation_replay_corpus_v1 nfc, canonicalize_observation_replay_corpus_v1 nfc)]"

definition canonicalize_stored ::
    "(string \<Rightarrow> string) \<Rightarrow> (string \<Rightarrow> string) \<Rightarrow> (string \<times> json) list \<Rightarrow> profile_error + string" where
  "canonicalize_stored nfc sha256 obj =
     (case map_of obj ''profile'' of
        Some (JStr literal) \<Rightarrow>
          (case map_of (PROFILE_FUNCTIONS nfc sha256) literal of
             None \<Rightarrow> Inl UnknownProfileError
           | Some (validate, canonicalize) \<Rightarrow> canonicalize obj)
      | _ \<Rightarrow> Inl UnknownProfileError)"

definition stored_profile_version :: "(string \<times> json) list \<Rightarrow> string \<Rightarrow> profile_error + string" where
  "stored_profile_version obj family =
     (case map_of obj ''profile'' of
        Some (JStr literal) \<Rightarrow>
          if \<not> py_startswith (family @ ''_v'') literal then Inl UnknownProfileError
          else if literal \<notin> fst ` set (PROFILE_FUNCTIONS id id) then Inl UnknownProfileError
          else Inr literal
      | _ \<Rightarrow> Inl UnknownProfileError)"

subsection \<open>A canonical value is its own canonical form\<close>

lemma traverse_map: "traverse f xs = Inr ys \<Longrightarrow> ys = map (projr \<circ> f) xs"
  by (induction xs arbitrary: ys) (auto split: sum.splits)

lemma order_items_Inr:
  assumes "order_items s xs = Inr c"
  obtains ys where "c = JArr ys" "mset ys = mset xs" "order_items s ys = Inr c"
proof (cases "sc_array_kind s = Some ''set''")
  case True
  with assms have "c = JArr (sort_key serialize xs)" "distinct (map serialize (sort_key serialize xs))"
    by (auto simp: order_items_def Let_def split: if_splits)
  then show ?thesis using True by (intro that [of "sort_key serialize xs"]) (auto simp: order_items_def sort_key_id_if_sorted)
next
  case False
  with assms have "c = JArr xs"
    by (auto simp: order_items_def result_map_eq_Inr split: if_splits option.splits)
  with assms show ?thesis by (intro that [of xs]) auto
qed

lemma check_fields_cong: "map fst kvs = map fst kvs' \<or> set (map fst kvs) = set (map fst kvs') \<and> distinct (map fst kvs) = distinct (map fst kvs') \<Longrightarrow>
    check_fields nfc s kvs = check_fields nfc s kvs'"
proof -
  assume *: "map fst kvs = map fst kvs' \<or> set (map fst kvs) = set (map fst kvs') \<and> distinct (map fst kvs) = distinct (map fst kvs')"
  have all: "list_all (\<lambda>kv. P (fst kv)) kvs = list_all P (map fst kvs)" for P :: "string \<Rightarrow> bool" and kvs :: "(string \<times> json) list"
    by (simp add: list_all_iff)
  from * have same: "fst ` set kvs = fst ` set kvs'" "distinct (map fst kvs) = distinct (map fst kvs')"
    by (metis list.set_map)+
  then have "list_all (\<lambda>kv. P (fst kv)) kvs = list_all (\<lambda>kv. P (fst kv)) kvs'" for P
    by (auto simp: all list_all_iff)
  from this [of "\<lambda>k. nfc k = k"] this [of "\<lambda>k. k \<in> fst ` set (the (sc_properties s))"] same show ?thesis
    by (auto simp: check_fields_def split: option.splits)
qed

text \<open>The fields of an object after the pass.\<close>

definition canon_field :: "(string \<Rightarrow> string) \<Rightarrow> schema \<Rightarrow> string \<times> json \<Rightarrow> profile_error + string \<times> json" where
  "canon_field nfc s kv =
     result_map (Pair (fst kv)) (check_and_canonicalize nfc (the (map_of (the (sc_properties s)) (fst kv))) (snd kv))"

lemma canon_object_Inr:
  "check_and_canonicalize nfc s (JObj kvs) = Inr c \<longleftrightarrow>
     ''object'' \<in> set (sc_type s) \<and> check_fields nfc s kvs = Inr () \<and>
     (\<exists>ys. c = JObj ys \<and> traverse (canon_field nfc s) (sort_key fst kvs) = Inr ys)"
  by (auto simp: result_bind_eq_Inr result_map_eq_Inr canon_field_def [abs_def])

lemma canon_array_Inr:
  "check_and_canonicalize nfc s (JArr xs) = Inr c \<longleftrightarrow>
     ''array'' \<in> set (sc_type s) \<and> (\<forall>n. sc_min_items s = Some n \<longrightarrow> n \<le> length xs) \<and>
     (\<exists>i ys. sc_items s = Some i \<and> traverse (check_and_canonicalize nfc i) xs = Inr ys \<and> order_items s ys = Inr c)"
  by (auto simp: result_bind_eq_Inr split: option.splits)

lemma canon_field_fst: "traverse (canon_field nfc s) kvs = Inr ys \<Longrightarrow> map fst ys = map fst kvs"
  by (auto simp: traverse_Inr_iff list_all2_conv_all_nth canon_field_def result_map_eq_Inr intro!: nth_equalityI)

lemma canonical_idem: "check_and_canonicalize nfc s v = Inr c \<Longrightarrow> check_and_canonicalize nfc s c = Inr c"
proof (induction nfc s v arbitrary: c rule: check_and_canonicalize.induct)
  case (6 nfc s xs)
  from "6.prems" obtain i ys where arr: "''array'' \<in> set (sc_type s)" "\<And>n. sc_min_items s = Some n \<Longrightarrow> n \<le> length xs"
    and i: "sc_items s = Some i" and ys: "traverse (check_and_canonicalize nfc i) xs = Inr ys" and c: "order_items s ys = Inr c"
    unfolding canon_array_Inr by blast
  from c obtain zs where zs: "c = JArr zs" "mset zs = mset ys" "order_items s zs = Inr c" by (rule order_items_Inr)
  have fixed: "check_and_canonicalize nfc i y = Inr y" if "y \<in> set zs" for y
  proof -
    from that zs(2) have "y \<in> set ys" by (metis set_mset_mset)
    with ys obtain x where x: "x \<in> set xs" "check_and_canonicalize nfc i x = Inr y" by (metis traverse_Inr_set)
    from arr(2) have "\<not> (sc_min_items s \<noteq> None \<and> length xs < the (sc_min_items s))" by auto
    with arr(1) i x show ?thesis by (intro "6.IH") simp_all
  qed
  then have "traverse (check_and_canonicalize nfc i) zs = Inr zs"
    using traverse_total [of zs "check_and_canonicalize nfc i" id] by simp
  moreover have "length zs = length xs" using zs(2) ys by (metis size_mset traverse_Inr_length)
  ultimately show ?case unfolding zs(1) canon_array_Inr using arr i zs(1,3) by auto
next
  case (7 nfc s kvs)
  from "7.prems" obtain ys where obj: "''object'' \<in> set (sc_type s)" "check_fields nfc s kvs = Inr ()"
    and c: "c = JObj ys" and ys: "traverse (canon_field nfc s) (sort_key fst kvs) = Inr ys"
    unfolding canon_object_Inr by blast
  from canon_field_fst [OF ys] have keys: "map fst ys = map fst (sort_key fst kvs)" .
  have "canon_field nfc s y = Inr y" if "y \<in> set ys" for y
  proof -
    from that ys obtain kv where kv: "kv \<in> set kvs" "canon_field nfc s kv = Inr y" by (metis traverse_Inr_set set_sort)
    then obtain v' where v': "y = (fst kv, v')"
      "check_and_canonicalize nfc (the (map_of (the (sc_properties s)) (fst kv))) (snd kv) = Inr v'"
      by (auto simp: canon_field_def result_map_eq_Inr)
    have "check_and_canonicalize nfc (the (map_of (the (sc_properties s)) (fst kv))) v' = Inr v'"
      by (rule "7.IH") (use obj kv v' in auto)
    with v'(1) show ?thesis by (simp add: canon_field_def)
  qed
  then have "traverse (canon_field nfc s) ys = Inr ys" using traverse_total [of ys "canon_field nfc s" id] by simp
  moreover have "sort_key fst ys = ys" by (rule sort_key_id_if_sorted) (simp add: keys)
  moreover have "check_fields nfc s ys = Inr ()"
  proof -
    have "set (map fst ys) = set (map fst kvs)" "distinct (map fst ys) = distinct (map fst kvs)"
      unfolding keys by (simp_all add: mset_eq_imp_distinct_iff [of "map fst (sort_key fst kvs)" "map fst kvs"])
    with obj(2) show ?thesis by (metis check_fields_cong)
  qed
  ultimately show ?case unfolding c canon_object_Inr using obj(1) by simp
qed (auto simp: check_string_def split: if_splits)

subsection \<open>What canonical bytes decide\<close>

lemma canonical_float_free: "check_and_canonicalize nfc s v = Inr c \<Longrightarrow> float_free c"
proof (induction nfc s v arbitrary: c rule: check_and_canonicalize.induct)
  case (6 nfc s xs)
  from "6.prems" obtain i ys where arr: "''array'' \<in> set (sc_type s)" "\<And>n. sc_min_items s = Some n \<Longrightarrow> n \<le> length xs"
    and i: "sc_items s = Some i" and ys: "traverse (check_and_canonicalize nfc i) xs = Inr ys" and c: "order_items s ys = Inr c"
    unfolding canon_array_Inr by blast
  from c obtain zs where zs: "c = JArr zs" "mset zs = mset ys" by (rule order_items_Inr)
  have "float_free y" if y: "y \<in> set zs" for y
  proof -
    from y zs(2) have "y \<in> set ys" by (metis set_mset_mset)
    with ys obtain x where x: "x \<in> set xs" "check_and_canonicalize nfc i x = Inr y" by (metis traverse_Inr_set)
    from arr(2) have "\<not> (sc_min_items s \<noteq> None \<and> length xs < the (sc_min_items s))" by auto
    with arr(1) i x show ?thesis by (intro "6.IH" [of i x]) simp_all
  qed
  then show ?case unfolding zs(1) by (simp add: list_all_iff)
next
  case (7 nfc s kvs)
  from "7.prems" obtain ys where obj: "''object'' \<in> set (sc_type s)" "check_fields nfc s kvs = Inr ()"
    and c: "c = JObj ys" and ys: "traverse (canon_field nfc s) (sort_key fst kvs) = Inr ys"
    unfolding canon_object_Inr by blast
  have "float_free (snd y)" if y: "y \<in> set ys" for y
  proof -
    from y ys obtain kv where kv: "kv \<in> set kvs" "canon_field nfc s kv = Inr y" by (metis traverse_Inr_set set_sort)
    then have "check_and_canonicalize nfc (the (map_of (the (sc_properties s)) (fst kv))) (snd kv) = Inr (snd y)"
      by (auto simp: canon_field_def result_map_eq_Inr)
    then show ?thesis by (rule "7.IH" [rotated -1]) (use obj kv in auto)
  qed
  then show ?case unfolding c by (simp add: list_all_iff)
qed (auto simp: check_string_def split: if_splits)

text \<open>
  Two values mean the same under a schema: an array labelled a set is read without its order, an object without the order of
  its keys, and a number as its value, whether it was written as an integer or not.
\<close>

fun number_value :: "json \<Rightarrow> rat option" where
  "number_value (JInt i) = Some (of_int i)"
| "number_value (JFloat q) = Some q"
| "number_value _ = None"

inductive alike :: "schema \<Rightarrow> json \<Rightarrow> json \<Rightarrow> bool" where
  alike_null: "alike s JNull JNull"
| alike_bool: "alike s (JBool b) (JBool b)"
| alike_string: "alike s (JStr v) (JStr v)"
| alike_number: "number_value v = Some q \<Longrightarrow> number_value w = Some q \<Longrightarrow> alike s v w"
| alike_set: "sc_array_kind s = Some ''set'' \<Longrightarrow> sc_items s = Some i \<Longrightarrow> mset ys' = mset ys \<Longrightarrow> list_all2 (alike i) xs ys' \<Longrightarrow>
    alike s (JArr xs) (JArr ys)"
| alike_ordered: "sc_array_kind s = Some ''ordered'' \<Longrightarrow> sc_items s = Some i \<Longrightarrow> list_all2 (alike i) xs ys \<Longrightarrow>
    alike s (JArr xs) (JArr ys)"
| alike_object: "list_all2 (\<lambda>kv kw. fst kv = fst kw \<and> alike (the (map_of (the (sc_properties s)) (fst kv))) (snd kv) (snd kw))
      (sort_key fst kvs) (sort_key fst kws) \<Longrightarrow>
    alike s (JObj kvs) (JObj kws)"

lemma traverse_permuted:
  assumes "traverse f ys = Inr ds" "mset ys' = mset ys"
  shows "\<exists>ds'. traverse f ys' = Inr ds' \<and> mset ds' = mset ds"
proof -
  have "f y = Inr ((projr \<circ> f) y)" if "y \<in> set ys'" for y
    using that assms(2) traverse_Inr_set_rev [OF assms(1), of y] by (metis comp_apply set_mset_mset sum.sel(2))
  then have "traverse f ys' = Inr (map (projr \<circ> f) ys')" by (rule traverse_total)
  then show ?thesis using traverse_map [OF assms(1)] assms(2) by (metis mset_map)
qed

lemma traverse_same:
  "list_all2 (\<lambda>x y. \<forall>c d. f x = Inr c \<longrightarrow> g y = Inr d \<longrightarrow> c = d) xs ys \<Longrightarrow>
   traverse f xs = Inr cs \<Longrightarrow> traverse g ys = Inr ds \<Longrightarrow> cs = ds"
  by (induction xs ys arbitrary: cs ds rule: list_all2_induct) (auto split: sum.splits)

lemma order_items_same:
  assumes "order_items s xs = Inr c" "order_items s ys = Inr d" "sc_array_kind s = Some ''set''" "mset xs = mset ys"
  shows "c = d"
proof -
  from assms(1,3) have "distinct (map serialize (sort_key serialize xs))" by (auto simp: order_items_def Let_def split: if_splits)
  then have "inj_on serialize (set xs)" by (simp add: distinct_map)
  with assms(4) have "sort_key serialize xs = sort_key serialize ys" by (intro sort_key_determined)
  with assms(1-3) show ?thesis by (auto simp: order_items_def Let_def split: if_splits)
qed

lemma alike_same_canonical:
  "alike s v w \<Longrightarrow> check_and_canonicalize nfc s v = Inr c \<Longrightarrow> check_and_canonicalize nfc s w = Inr d \<Longrightarrow> c = d"
proof (induction s v w arbitrary: c d rule: alike.induct)
  case (alike_number v q w s)
  then show ?case by (cases v; cases w) (auto split: if_splits)
next
  case (alike_set s i ys' ys xs)
  from alike_set.prems(1) alike_set.hyps(2) obtain cs where cs: "traverse (check_and_canonicalize nfc i) xs = Inr cs" "order_items s cs = Inr c"
    unfolding canon_array_Inr by auto
  from alike_set.prems(2) alike_set.hyps(2) obtain ds where ds: "traverse (check_and_canonicalize nfc i) ys = Inr ds" "order_items s ds = Inr d"
    unfolding canon_array_Inr by auto
  from traverse_permuted [OF ds(1) alike_set.hyps(3)]
  obtain ds' where ds': "traverse (check_and_canonicalize nfc i) ys' = Inr ds'" "mset ds' = mset ds" by blast
  have "cs = ds'" by (rule traverse_same [OF _ cs(1) ds'(1)]) (rule list_all2_mono [OF alike_set.IH], blast)
  with ds'(2) show ?case using order_items_same [OF cs(2) ds(2) alike_set.hyps(1)] by simp
next
  case (alike_ordered s i xs ys)
  from alike_ordered.prems alike_ordered.hyps(2) obtain cs ds where
    "traverse (check_and_canonicalize nfc i) xs = Inr cs" "order_items s cs = Inr c"
    "traverse (check_and_canonicalize nfc i) ys = Inr ds" "order_items s ds = Inr d"
    unfolding canon_array_Inr by auto
  moreover from this(1,3) have "cs = ds" by (rule traverse_same [rotated]) (rule list_all2_mono [OF alike_ordered.IH], blast)
  ultimately show ?case by simp
next
  case (alike_object s kvs kws)
  from alike_object.prems obtain cs ds where
    "traverse (canon_field nfc s) (sort_key fst kvs) = Inr cs" "c = JObj cs"
    "traverse (canon_field nfc s) (sort_key fst kws) = Inr ds" "d = JObj ds"
    unfolding canon_object_Inr by auto
  moreover from this(1,3) have "cs = ds"
    by (rule traverse_same [rotated]) (rule list_all2_mono [OF alike_object.IH], auto simp: canon_field_def result_map_eq_Inr)
  ultimately show ?case by simp
qed (auto split: if_splits simp: check_string_def)

lemma canonical_kind:
  "check_and_canonicalize nfc s v = Inr JNull \<Longrightarrow> v = JNull"
  "check_and_canonicalize nfc s v = Inr (JBool b) \<Longrightarrow> v = JBool b"
  "check_and_canonicalize nfc s v = Inr (JStr t) \<Longrightarrow> v = JStr t"
  "check_and_canonicalize nfc s v = Inr (JInt n) \<Longrightarrow> number_value v = Some (of_int n)"
  "check_and_canonicalize nfc s v = Inr (JArr xs) \<Longrightarrow> \<exists>ys. v = JArr ys"
  "check_and_canonicalize nfc s v = Inr (JObj kvs) \<Longrightarrow> \<exists>kws. v = JObj kws"
  by (cases v; auto simp: canon_array_Inr canon_object_Inr check_string_def simp del: check_and_canonicalize.simps(6,7)
      split: if_splits elim!: order_items_Inr)+

lemma order_items_kind: "order_items s xs = Inr c \<Longrightarrow> sc_array_kind s = Some ''set'' \<or> sc_array_kind s = Some ''ordered''"
  by (auto simp: order_items_def split: if_splits)

lemma list_all2_through:
  assumes "list_all2 (\<lambda>x c. f x = Inr c) xs cs" "list_all2 (\<lambda>c y. g y = Inr c) cs ys"
    and "\<And>x y c. x \<in> set xs \<Longrightarrow> f x = Inr c \<Longrightarrow> g y = Inr c \<Longrightarrow> Q x y"
  shows "list_all2 Q xs ys"
  using assms by (auto simp: list_all2_conv_all_nth)

lemma same_canonical_alike:
  "check_and_canonicalize nfc s v = Inr c \<Longrightarrow> check_and_canonicalize nfc s w = Inr c \<Longrightarrow> alike s v w"
proof (induction nfc s v arbitrary: w c rule: check_and_canonicalize.induct)
  case (1 nfc s)
  then show ?case by (auto split: if_splits dest: canonical_kind intro: alike.intros)
next
  case (2 nfc s b)
  then show ?case by (auto split: if_splits dest: canonical_kind intro: alike.intros)
next
  case (3 nfc s t)
  then show ?case by (auto simp: check_string_def split: if_splits dest: canonical_kind intro: alike.intros)
next
  case (4 nfc s i)
  then show ?case by (auto split: if_splits dest!: canonical_kind(4) intro: alike_number)
next
  case (5 nfc s q)
  then show ?case by (auto split: if_splits dest!: canonical_kind(4) intro: alike_number)
next
  case (6 nfc s xs)
  from "6.prems"(1) obtain i cs where arr: "''array'' \<in> set (sc_type s)" "\<And>n. sc_min_items s = Some n \<Longrightarrow> n \<le> length xs"
    and i: "sc_items s = Some i" and cs: "traverse (check_and_canonicalize nfc i) xs = Inr cs" "order_items s cs = Inr c"
    unfolding canon_array_Inr by blast
  then obtain zs where zs: "c = JArr zs" "mset zs = mset cs" by (metis order_items_Inr)
  with "6.prems"(2) obtain ys where w: "w = JArr ys" by (metis canonical_kind(5))
  from "6.prems"(2) i obtain ds where ds: "traverse (check_and_canonicalize nfc i) ys = Inr ds" "order_items s ds = Inr c"
    unfolding w canon_array_Inr by auto
  from ds(2) zs have "mset ds = mset cs" by (metis json.inject(5) order_items_Inr)
  have small: "\<not> (sc_min_items s \<noteq> None \<and> length xs < the (sc_min_items s))" using arr(2) by auto
  have item: "alike i x y" if "x \<in> set xs" "check_and_canonicalize nfc i x = Inr b" "check_and_canonicalize nfc i y = Inr b" for x y b
    using "6.IH" [OF _ small i that(1,2,3)] arr(1) by simp
  have results: "list_all2 (\<lambda>x c. check_and_canonicalize nfc i x = Inr c) xs cs"
    "list_all2 (\<lambda>c y. check_and_canonicalize nfc i y = Inr c) ds ys"
    using cs(1) ds(1) by (auto simp: traverse_Inr_iff list_all2_conv_all_nth)
  show ?case
  proof (cases "sc_array_kind s = Some ''set''")
    case True
    from list_all2_reorder_left_invariance [OF results(2), of cs] \<open>mset ds = mset cs\<close>
    obtain ys' where ys': "list_all2 (\<lambda>c y. check_and_canonicalize nfc i y = Inr c) cs ys'" "mset ys' = mset ys" by metis
    have "list_all2 (alike i) xs ys'" by (rule list_all2_through [OF results(1) ys'(1) item])
    with True i ys'(2) show ?thesis unfolding w by (auto intro: alike_set)
  next
    case False
    with cs(2) ds(2) have "cs = ds" "sc_array_kind s = Some ''ordered''"
      by (auto simp: order_items_def result_map_eq_Inr split: if_splits option.splits)
    moreover have "list_all2 (alike i) xs ys"
      by (rule list_all2_through [OF results(1) results(2) [folded \<open>cs = ds\<close>] item])
    ultimately show ?thesis unfolding w using i by (auto intro: alike_ordered)
  qed
next
  case (7 nfc s kvs)
  from "7.prems"(1) obtain cs where obj: "''object'' \<in> set (sc_type s)" "check_fields nfc s kvs = Inr ()"
    and cs: "c = JObj cs" "traverse (canon_field nfc s) (sort_key fst kvs) = Inr cs"
    unfolding canon_object_Inr by blast
  with "7.prems"(2) obtain kws where w: "w = JObj kws" by (metis canonical_kind(6))
  from "7.prems"(2) cs(1) have ds: "traverse (canon_field nfc s) (sort_key fst kws) = Inr cs" unfolding w canon_object_Inr by auto
  have "list_all2 (\<lambda>kv kw. fst kv = fst kw \<and> alike (the (map_of (the (sc_properties s)) (fst kv))) (snd kv) (snd kw))
      (sort_key fst kvs) (sort_key fst kws)"
  proof (rule list_all2_through)
    show "list_all2 (\<lambda>x c. canon_field nfc s x = Inr c) (sort_key fst kvs) cs" using cs(2) by (simp add: traverse_Inr_iff)
    show "list_all2 (\<lambda>c y. canon_field nfc s y = Inr c) cs (sort_key fst kws)"
      using ds by (auto simp: traverse_Inr_iff list_all2_conv_all_nth)
    fix kv kw b
    assume kv: "kv \<in> set (sort_key fst kvs)" "canon_field nfc s kv = Inr b" and kw: "canon_field nfc s kw = Inr b"
    from kv(2) kw have same: "fst kv = fst kw"
      "check_and_canonicalize nfc (the (map_of (the (sc_properties s)) (fst kv))) (snd kv) = Inr (snd b)"
      "check_and_canonicalize nfc (the (map_of (the (sc_properties s)) (fst kv))) (snd kw) = Inr (snd b)"
      by (auto simp: canon_field_def result_map_eq_Inr)
    from obj(1) have obj': "\<not> ''object'' \<notin> set (sc_type s)" by simp
    from "7.IH" [OF obj' kv(1) same(2,3)] same(1)
    show "fst kv = fst kw \<and> alike (the (map_of (the (sc_properties s)) (fst kv))) (snd kv) (snd kw)" by simp
  qed
  then show ?case unfolding w by (rule alike_object)
qed

lemma canonical_bytes_Inr:
  "canonical_bytes nfc s obj = Inr b \<longleftrightarrow> (\<exists>c. check_and_canonicalize nfc s (JObj obj) = Inr c \<and> b = serialize c)"
  by (auto simp: canonical_bytes_def result_map_eq_Inr simp del: check_and_canonicalize.simps)

lemma serialize_inj: "float_free c \<Longrightarrow> float_free d \<Longrightarrow> serialize c = serialize d \<Longrightarrow> c = d"
  unfolding serialize_def by (rule utf8_dumps_inj)

text \<open>
  C31. The canonical bytes of a profile decide exactly what an accepted instance means: two instances that a schema accepts have the
  same bytes if and only if they mean the same under it. So a signature or digest over the bytes covers everything the schema
  distinguishes, and nothing else.
\<close>

theorem canonical_bytes_exact:
  assumes "canonical_bytes nfc s v = Inr b" "canonical_bytes nfc s w = Inr b'"
  shows "b = b' \<longleftrightarrow> alike s (JObj v) (JObj w)"
proof -
  from assms obtain c d where c: "check_and_canonicalize nfc s (JObj v) = Inr c" "b = serialize c"
    and d: "check_and_canonicalize nfc s (JObj w) = Inr d" "b' = serialize d"
    unfolding canonical_bytes_Inr by blast
  have "b = b' \<longleftrightarrow> c = d"
    using c d canonical_float_free serialize_inj by blast
  then show ?thesis using alike_same_canonical [OF _ c(1) d(1)] same_canonical_alike [OF c(1)] d(1) by blast
qed

text \<open>
  Two instances of the actor-separation profile that differ in the order of their keys and in a number written as a float.
\<close>

definition separation_record :: "(string \<times> json) list" where
  "separation_record = [
    (''profile'', JStr ACTOR_SEPARATION_PROFILE), (''risk_classification'', JStr ''tenant_mandatory''),
    (''submitter_issuer'', JStr ''idp''), (''submitter_subject'', JStr ''ann''),
    (''approver_issuer'', JStr ''idp''), (''approver_subject'', JStr ''ben''),
    (''accepter_issuer'', JNull), (''accepter_subject'', JNull),
    (''activator_issuer'', JStr ''idp''), (''activator_subject'', JStr ''ann''),
    (''required_distinct_count'', JInt 2), (''satisfied'', JBool True)]"

definition separation_record' :: "(string \<times> json) list" where
  "separation_record' = rev (AList.update ''required_distinct_count'' (JFloat 2) separation_record)"

theorem canonical_bytes_exact_witness: "alike ACTOR_SEPARATION_V2_SCHEMA (JObj separation_record) (JObj separation_record')"
proof -
  let ?b = "serialize (projr (check_and_canonicalize id ACTOR_SEPARATION_V2_SCHEMA (JObj separation_record)))"
  have "canonical_bytes id ACTOR_SEPARATION_V2_SCHEMA separation_record = Inr ?b"
    "canonical_bytes id ACTOR_SEPARATION_V2_SCHEMA separation_record' = Inr ?b" by code_simp+
  from canonical_bytes_exact [OF this] show ?thesis by simp
qed

subsection \<open>Stored instances\<close>

lemma profile_table:
  "map (\<lambda>(l, v, f). (l, f)) (PROFILE_FUNCTIONS nfc sha256) = map (\<lambda>(l, s). (l, canonical_bytes nfc s)) SCHEMA_BY_PROFILE"
  by (simp add: PROFILE_FUNCTIONS_def SCHEMA_BY_PROFILE_def fun_eq_iff
    canonicalize_source_approval_claim_v1_def canonicalize_source_verifier_attestation_v1_def canonicalize_source_approval_evidence_v1_def
    canonicalize_observation_class_predicate_v1_def canonicalize_observation_class_predicate_v2_def canonicalize_expected_impact_envelope_v1_def
    canonicalize_expected_impact_envelope_v2_def canonicalize_field_provenance_v1_def canonicalize_artifact_semantics_v1_def
    canonicalize_artifact_semantics_v2_def canonicalize_approval_review_package_v1_def canonicalize_approval_review_package_v2_def
    canonicalize_artifact_revision_v1_def canonicalize_artifact_revision_v2_def canonicalize_actor_separation_v1_def
    canonicalize_actor_separation_v2_def canonicalize_approval_verifier_enrollment_v1_def canonicalize_approval_provider_assertion_v1_def
    canonicalize_operational_event_v1_def canonicalize_observation_cohort_v1_def canonicalize_observation_cohort_v2_def
    canonicalize_observation_qualification_v1_def canonicalize_observation_replay_corpus_v1_def)

lemma profile_lookup:
  "map_option snd (map_of (PROFILE_FUNCTIONS nfc sha256) l) = map_option (canonical_bytes nfc) (map_of SCHEMA_BY_PROFILE l)"
proof -
  have "map_of (map (\<lambda>(l, v, f). (l, f)) xs) l = map_option snd (map_of xs l)"
    for xs :: "(string \<times> ((string \<times> json) list \<Rightarrow> profile_error + unit) \<times> ((string \<times> json) list \<Rightarrow> profile_error + string)) list"
    by (induction xs) auto
  moreover have "map_of (map (\<lambda>(l, s). (l, canonical_bytes nfc s)) ys) l = map_option (canonical_bytes nfc) (map_of ys l)" for ys
    by (induction ys) auto
  ultimately show ?thesis using profile_table by metis
qed

lemma stored_Inr:
  "canonicalize_stored nfc sha256 obj = Inr b \<longleftrightarrow>
     (\<exists>l s. map_of obj ''profile'' = Some (JStr l) \<and> map_of SCHEMA_BY_PROFILE l = Some s \<and> canonical_bytes nfc s obj = Inr b)"
proof (cases "\<exists>l. map_of obj ''profile'' = Some (JStr l)")
  case True
  then obtain l where l: "map_of obj ''profile'' = Some (JStr l)" ..
  from profile_lookup [of nfc sha256 l] l show ?thesis
    by (cases "map_of (PROFILE_FUNCTIONS nfc sha256) l"; cases "map_of SCHEMA_BY_PROFILE l") (auto simp: canonicalize_stored_def)
next
  case False
  then show ?thesis by (auto simp: canonicalize_stored_def split: option.split json.split)
qed

lemma canonical_field:
  assumes "check_and_canonicalize nfc s (JObj kvs) = Inr (JObj cs)" "map_of kvs k = Some (JStr t)"
  shows "map_of cs k = Some (JStr t)"
proof -
  from assms(1) have cs: "traverse (canon_field nfc s) (sort_key fst kvs) = Inr cs" and ok: "check_fields nfc s kvs = Inr ()"
    unfolding canon_object_Inr by auto
  from ok have dist: "distinct (map fst kvs)" by (auto simp: check_fields_def split: option.splits if_splits)
  from assms(2) have "(k, JStr t) \<in> set (sort_key fst kvs)" by (simp add: map_of_SomeD)
  with cs obtain c where c: "c \<in> set cs" "canon_field nfc s (k, JStr t) = Inr c" by (metis traverse_Inr_set_rev)
  then have "c = (k, JStr t)" by (auto simp: canon_field_def result_map_eq_Inr check_string_def split: if_splits)
  moreover have "distinct (map fst cs)"
    using canon_field_fst [OF cs] dist mset_eq_imp_distinct_iff [of "map fst (sort_key fst kvs)" "map fst kvs"] by simp
  ultimately show ?thesis using c(1) by simp
qed

text \<open>
  C32. What is read back is identified by its bytes alone: two stored instances with the same canonical bytes declare the same
  profile, in the same version, and mean the same under the one schema of that profile.
\<close>

theorem stored_bytes_identify:
  assumes "canonicalize_stored nfc sha256 v = Inr b" "canonicalize_stored nfc sha256 w = Inr b"
  shows "\<exists>l s. map_of v ''profile'' = Some (JStr l) \<and> map_of w ''profile'' = Some (JStr l) \<and>
    map_of SCHEMA_BY_PROFILE l = Some s \<and> alike s (JObj v) (JObj w)"
proof -
  from assms(1) obtain l s c where v: "map_of v ''profile'' = Some (JStr l)" "map_of SCHEMA_BY_PROFILE l = Some s"
    "check_and_canonicalize nfc s (JObj v) = Inr c" "b = serialize c"
    unfolding stored_Inr canonical_bytes_Inr by blast
  from assms(2) obtain l' s' d where w: "map_of w ''profile'' = Some (JStr l')" "map_of SCHEMA_BY_PROFILE l' = Some s'"
    "check_and_canonicalize nfc s' (JObj w) = Inr d" "b = serialize d"
    unfolding stored_Inr canonical_bytes_Inr by blast
  have cd: "c = d" using v(3,4) w(3,4) canonical_float_free serialize_inj by metis
  from v(3) obtain cs where cs: "c = JObj cs" unfolding canon_object_Inr by blast
  have "l = l'" using canonical_field [of nfc s v cs, OF _ v(1)] canonical_field [of nfc s' w cs, OF _ w(1)] v(3) w(3) cd cs by simp
  with v w cd same_canonical_alike show ?thesis by fastforce
qed

theorem stored_bytes_identify_witness:
  "\<exists>s. map_of SCHEMA_BY_PROFILE ACTOR_SEPARATION_PROFILE = Some s \<and> alike s (JObj separation_record) (JObj separation_record')"
proof -
  let ?b = "serialize (projr (check_and_canonicalize id ACTOR_SEPARATION_V2_SCHEMA (JObj separation_record)))"
  have "canonicalize_stored id id separation_record = Inr ?b" "canonicalize_stored id id separation_record' = Inr ?b" by code_simp+
  from stored_bytes_identify [OF this]
  show ?thesis by (auto simp: separation_record_def)
qed

subsection \<open>Actor separation\<close>

lemma card_three: "card {a, b, c} \<noteq> 3 \<longleftrightarrow> a = b \<or> a = c \<or> b = c"
  by (auto simp: card_insert_if)

lemma actor_separation_iff:
  assumes "principal_at obj ''submitter'' = Inr sub" "principal_at obj ''approver'' = Inr app" "principal_at obj ''activator'' = Inr act"
    "map_of obj ''risk_classification'' = Some risk"
  shows "check_actor_separation obj = Inr () \<longleftrightarrow>
    sub \<noteq> app \<and> (risk = JStr ''global_mandatory'' \<longrightarrow> act \<noteq> sub \<and> act \<noteq> app)"
  using assms by (auto simp: check_actor_separation_def item_at_def card_three)

subsection \<open>Overlap of impact items\<close>

definition class_predicate :: "string list \<Rightarrow> json" where
  "class_predicate environments = JObj [
    (''profile'', JStr OBSERVATION_CLASS_PREDICATE_V2_PROFILE), (''intent_kind'', JNull), (''requested_action_classes'', JNull),
    (''environment'', JArr (map JStr environments)), (''data_sensitivity_tier'', JNull), (''entity_ids'', JNull), (''domain_ids'', JNull)]"

definition impact_item :: "string \<Rightarrow> string list \<Rightarrow> json" where
  "impact_item i environments = JObj [
    (''item_id'', JStr i), (''delta_code'', JStr ''newly_selected''), (''class_predicate'', class_predicate environments),
    (''minimum_count'', JInt 0), (''maximum_count'', JNull), (''rationale_code'', JStr ''r'')]"

definition impact_envelope :: "json list \<Rightarrow> (string \<times> json) list" where
  "impact_envelope items = (let u = ''00000000-0000-0000-0000-000000000001'' in [
    (''profile'', JStr EXPECTED_IMPACT_ENVELOPE_V2_PROFILE), (''envelope_id'', JStr u), (''proposal_id'', JStr u),
    (''proposal_version'', JInt 1), (''items'', JArr items), (''author_issuer'', JStr ''idp''), (''author_subject'', JStr ''ann''),
    (''created_at'', JStr ''2026-01-01T00:00:00Z'')])"

text \<open>
  The rule that no two items overlap compares the text of the predicates as they were sent, not their canonical form: one and the same
  predicate listed twice is refused, and accepted when the second copy lists its environments in another order.
\<close>

theorem reordered_predicate_overlap_unseen:
  "check_envelope_non_overlap (impact_envelope [impact_item ''a'' [''dev'', ''prod''], impact_item ''b'' [''dev'', ''prod'']])
     = Inl EnvelopeItemsOverlapError"
  "check_envelope_non_overlap (impact_envelope [impact_item ''a'' [''dev'', ''prod''], impact_item ''b'' [''prod'', ''dev'']])
     = Inr ()"
  "check_and_canonicalize id OBSERVATION_CLASS_PREDICATE_V2_SCHEMA (class_predicate [''dev'', ''prod'']) =
     check_and_canonicalize id OBSERVATION_CLASS_PREDICATE_V2_SCHEMA (class_predicate [''prod'', ''dev''])"
  by code_simp+

end
