(* ===== verification/Arc_Authorization.thy ===== *)
theory Arc_Authorization
  imports Arc_Types
begin

section \<open>Who may see or change governed content\<close>

text \<open>
  The model of \<open>contextplane/arc/service/authorization.py\<close> with the request identity \<open>ArcRequestContext\<close> of \<open>contextplane/arc/types.py\<close>. The visibility of
  entities, which another service decides, and the integrity of a revision are parameters. The theory also names the
  exceptions of the write paths of ARC, which call this module first.
\<close>

subsection \<open>Requests, scopes and failures\<close>

datatype arc_failure =
    ArcAuthorizationError
  | NotFoundError
  | RegistryError
  | ValidationError
  | ArtifactLifecycleError
  | ApprovalTrustWithdrawn
  | ApprovalVerificationFailed
  | ApprovalChallengeError
  | ActivationPredicateFailed
  | ActivationRequestMismatch
  | RiskClassificationError
  | UnknownRiskAlgorithmVersion
  | SourceStatusUnavailable
  | ReviewPackageUnavailable
  | ReviewPackageIntegrityError
  | OperationalChainIntegrityError
  | ProfileRefused
  | AuditPayloadTooLarge
  | DatabaseIntegrityError
  | MultipleResultsFound
  | PythonValueError
  | PythonStopIteration

record arc_ctx =
  ctx_tenant_id :: uuid
  ctx_actor_id :: uuid
  ctx_roles :: "string list"
  ctx_oidc_subject :: string
  ctx_oidc_issuer :: string
  ctx_mcp_session_id :: "string option"

definition operator_identity :: "arc_ctx \<Rightarrow> string \<times> string" where
  "operator_identity ctx = (ctx_oidc_issuer ctx, ctx_oidc_subject ctx)"

definition is_mcp_session :: "arc_ctx \<Rightarrow> bool" where
  "is_mcp_session ctx \<longleftrightarrow> ctx_mcp_session_id ctx \<noteq> None"

definition DEPLOYMENT_TENANT_ID :: uuid where
  "DEPLOYMENT_TENANT_ID = ''ffffffff-ffff-ffff-ffff-ffffffffffff''"

definition ROLE_ADMIN :: string where "ROLE_ADMIN = ''admin''"
definition ROLE_AUDITOR :: string where "ROLE_AUDITOR = ''auditor''"

record artifact_scope =
  as_scope :: authority_scope
  as_tenant_id :: "uuid option"
  as_entity_id :: "uuid option"

definition artifact_scope_post_init :: "artifact_scope \<Rightarrow> arc_failure + artifact_scope" where
  "artifact_scope_post_init a =
     (if as_scope a = GLOBAL \<and> as_tenant_id a \<noteq> None then Inl PythonValueError
      else if as_scope a \<noteq> GLOBAL \<and> as_tenant_id a = None then Inl PythonValueError
      else if as_scope a = ENTITY \<and> as_entity_id a = None then Inl PythonValueError
      else Inr a)"

subsection \<open>The service\<close>

type_synonym global_writers = "(string \<times> string) list"

definition assert_request_tenant :: "arc_ctx \<Rightarrow> arc_failure + unit" where
  "assert_request_tenant ctx = (if ctx_tenant_id ctx = DEPLOYMENT_TENANT_ID then Inl ArcAuthorizationError else Inr ())"

definition can_read_artifact :: "arc_ctx \<Rightarrow> artifact_scope \<Rightarrow> arc_failure + bool" where
  "can_read_artifact ctx a =
     result_map (\<lambda>_. if as_scope a = GLOBAL then True else as_tenant_id a = Some (ctx_tenant_id ctx)) (assert_request_tenant ctx)"

definition can_write_artifact :: "global_writers \<Rightarrow> arc_ctx \<Rightarrow> artifact_scope \<Rightarrow> arc_failure + bool" where
  "can_write_artifact writers ctx a =
     result_map (\<lambda>_.
       if as_scope a = GLOBAL then operator_identity ctx \<in> set writers
       else if as_tenant_id a \<noteq> Some (ctx_tenant_id ctx) then False
       else ROLE_ADMIN \<in> set (ctx_roles ctx)) (assert_request_tenant ctx)"

definition refuse_unless :: "arc_failure + bool \<Rightarrow> arc_failure + unit" where
  "refuse_unless r = result_bind r (\<lambda>ok. if ok then Inr () else Inl ArcAuthorizationError)"

definition assert_can_read_artifact :: "arc_ctx \<Rightarrow> artifact_scope \<Rightarrow> arc_failure + unit" where
  "assert_can_read_artifact ctx a = refuse_unless (can_read_artifact ctx a)"

definition assert_can_write_artifact :: "global_writers \<Rightarrow> arc_ctx \<Rightarrow> artifact_scope \<Rightarrow> arc_failure + unit" where
  "assert_can_write_artifact writers ctx a = refuse_unless (can_write_artifact writers ctx a)"

definition can_read_detail :: "arc_ctx \<Rightarrow> artifact_scope \<Rightarrow> detail_audience \<Rightarrow> bool \<Rightarrow> arc_failure + bool" where
  "can_read_detail ctx a audience matched =
     result_map (\<lambda>readable.
       if \<not> readable then False
       else if \<not> matched then False
       else (case audience of
           ALL_MATCHED_ACTORS \<Rightarrow> True
         | TENANT_ADMIN_AUDITOR \<Rightarrow> ROLE_ADMIN \<in> set (ctx_roles ctx) \<or> ROLE_AUDITOR \<in> set (ctx_roles ctx)
         | REGISTERED_GATEWAY_ONLY \<Rightarrow> is_mcp_session ctx)) (can_read_artifact ctx a)"

definition assert_can_read_detail :: "arc_ctx \<Rightarrow> artifact_scope \<Rightarrow> detail_audience \<Rightarrow> bool \<Rightarrow> arc_failure + unit" where
  "assert_can_read_detail ctx a audience matched = refuse_unless (can_read_detail ctx a audience matched)"

definition can_read_receipt :: "arc_ctx \<Rightarrow> uuid \<Rightarrow> uuid \<Rightarrow> arc_failure + bool" where
  "can_read_receipt ctx receipt_tenant_id receipt_actor_id =
     result_map (\<lambda>_.
       if receipt_tenant_id \<noteq> ctx_tenant_id ctx then False
       else if receipt_actor_id = ctx_actor_id ctx then True
       else ROLE_ADMIN \<in> set (ctx_roles ctx) \<or> ROLE_AUDITOR \<in> set (ctx_roles ctx)) (assert_request_tenant ctx)"

definition assert_can_read_receipt :: "arc_ctx \<Rightarrow> uuid \<Rightarrow> uuid \<Rightarrow> arc_failure + unit" where
  "assert_can_read_receipt ctx receipt_tenant_id receipt_actor_id =
     refuse_unless (can_read_receipt ctx receipt_tenant_id receipt_actor_id)"

definition visible_entity_ids :: "(arc_ctx \<Rightarrow> uuid list \<Rightarrow> uuid list) \<Rightarrow> arc_ctx \<Rightarrow> uuid list \<Rightarrow> arc_failure + uuid list" where
  "visible_entity_ids visibility ctx ids =
     result_map (\<lambda>_. if ids = [] then [] else visibility ctx ids) (assert_request_tenant ctx)"

text \<open>The integrity assessment gives \<open>None\<close> for a valid revision and the reason code otherwise.\<close>

definition assert_protected_action_authorized :: "(uuid \<Rightarrow> string option) \<Rightarrow> uuid \<Rightarrow> arc_failure + unit" where
  "assert_protected_action_authorized assess revision_id =
     (if assess revision_id = None then Inr () else Inl ArcAuthorizationError)"

subsection \<open>What is granted\<close>

lemma refuse_unless_Inr: "refuse_unless r = Inr () \<longleftrightarrow> r = Inr True"
  by (auto simp: refuse_unless_def result_bind_eq_Inr split: if_splits)

lemma request_tenant_Inr: "assert_request_tenant ctx = Inr () \<longleftrightarrow> ctx_tenant_id ctx \<noteq> DEPLOYMENT_TENANT_ID"
  by (simp add: assert_request_tenant_def)

text \<open>Who may write: never the reserved tenant; global content an operator of the allowlist, the rest an administrator of the owner.\<close>

lemma write_granted_iff:
  "assert_can_write_artifact writers ctx a = Inr () \<longleftrightarrow>
     ctx_tenant_id ctx \<noteq> DEPLOYMENT_TENANT_ID \<and>
     (if as_scope a = GLOBAL then operator_identity ctx \<in> set writers
      else as_tenant_id a = Some (ctx_tenant_id ctx) \<and> ROLE_ADMIN \<in> set (ctx_roles ctx))"
  by (auto simp: assert_can_write_artifact_def refuse_unless_Inr can_write_artifact_def result_map_eq_Inr request_tenant_Inr split: if_splits)

text \<open>
  No tenant reads the private content of another tenant: whatever is read, written, retrieved in detail or inspected as a
  receipt is global or belongs to the tenant of the request.
\<close>

theorem access_stays_in_tenant:
  "assert_can_read_artifact ctx a = Inr () \<or> assert_can_read_detail ctx a audience matched = Inr () \<or>
     assert_can_write_artifact writers ctx a = Inr () \<Longrightarrow>
   as_scope a = GLOBAL \<or> as_tenant_id a = Some (ctx_tenant_id ctx)"
  "assert_can_read_receipt ctx t actor = Inr () \<Longrightarrow> t = ctx_tenant_id ctx"
  by (auto simp: assert_can_read_artifact_def assert_can_read_detail_def write_granted_iff refuse_unless_Inr can_read_artifact_def
      can_read_detail_def assert_can_read_receipt_def can_read_receipt_def result_map_eq_Inr split: if_splits)

end
