(* ===== verification/Arc_Risk.thy ===== *)
theory Arc_Risk
  imports Authoring_Shapes Arc_Authorization
begin

section \<open>Risk classification\<close>

text \<open>
  The model of the reducer of \<open>contextplane/arc/service/risk.py\<close>: the classification of a candidate is computed over all its applicability rules, under the
  algorithm version bound at submission. Of a rule only the keys \<open>scope\<close> and \<open>is_mandatory\<close> matter; a scope that is no string is no scope name. The
  shape of the semantics document makes the rules an array of objects, another value of \<open>applicability\<close> counts as no rules.
\<close>

subsection \<open>The reducer\<close>

definition CURRENT_RISK_ALGORITHM_VERSION :: string where "CURRENT_RISK_ALGORITHM_VERSION = ''arc_risk_reducer_v1''"

definition SCOPE_ORDER :: "(string \<times> nat) list" where
  "SCOPE_ORDER = [(''tenant'', 4), (''domain'', 3), (''entity'', 2), (''intent'', 1)]"

text \<open>\<open>rule.get("scope")\<close> as text, and \<open>bool(rule.get("is_mandatory"))\<close>.\<close>

record risk_rule =
  rule_scope :: string
  rule_mandatory :: bool

fun json_truth :: "json \<Rightarrow> bool" where
  "json_truth JNull = False"
| "json_truth (JBool b) = b"
| "json_truth (JInt i) = (i \<noteq> 0)"
| "json_truth (JFloat q) = (q \<noteq> 0)"
| "json_truth (JStr s) = (s \<noteq> [])"
| "json_truth (JArr xs) = (xs \<noteq> [])"
| "json_truth (JObj kvs) = (kvs \<noteq> [])"

definition risk_rule_of :: "json \<Rightarrow> risk_rule" where
  "risk_rule_of rule =
     (case rule of
        JObj kvs \<Rightarrow>
          \<lparr>rule_scope = (case map_of kvs ''scope'' of Some (JStr s) \<Rightarrow> s | _ \<Rightarrow> ''None''),
           rule_mandatory = (case map_of kvs ''is_mandatory'' of Some v \<Rightarrow> json_truth v | None \<Rightarrow> False)\<rparr>
      | _ \<Rightarrow> \<lparr>rule_scope = ''None'', rule_mandatory = False\<rparr>)"

definition semantic_rules :: "(string \<times> json) list \<Rightarrow> risk_rule list" where
  "semantic_rules semantics =
     (case map_of semantics ''applicability'' of Some (JArr xs) \<Rightarrow> map risk_rule_of xs | _ \<Rightarrow> [])"

fun rank_loop :: "risk_rule list \<Rightarrow> nat option \<times> bool \<Rightarrow> nat option \<times> bool" where
  "rank_loop [] best = best"
| "rank_loop (r # rs) (best_rank, best_mandatory) =
     (case map_of SCOPE_ORDER (rule_scope r) of
        None \<Rightarrow> rank_loop rs (best_rank, best_mandatory)
      | Some rank \<Rightarrow>
          if (case best_rank of None \<Rightarrow> True | Some b \<Rightarrow> rank > b) \<or>
             (best_rank = Some rank \<and> rule_mandatory r \<and> \<not> best_mandatory)
          then rank_loop rs (Some rank, rule_mandatory r)
          else rank_loop rs (best_rank, best_mandatory))"

definition reduce_v1 :: "risk_rule list \<Rightarrow> arc_failure + string" where
  "reduce_v1 rules =
     (if rules = [] then Inl RiskClassificationError
      else if list_ex (\<lambda>r. rule_scope r = ''global'' \<and> rule_mandatory r) rules then Inr ''global_mandatory''
      else if list_ex (\<lambda>r. rule_scope r = ''global'') rules then Inr ''global_non_mandatory''
      else (case rank_loop rules (None, False) of
          (best_rank, best_mandatory) \<Rightarrow>
            (case find (\<lambda>(name, rank). Some rank = best_rank) SCOPE_ORDER of
               None \<Rightarrow> Inl PythonStopIteration
             | Some (scope_name, _) \<Rightarrow> Inr (scope_name @ ''_'' @ (if best_mandatory then ''mandatory'' else ''non_mandatory'')))))"

definition REDUCERS :: "(string \<times> (risk_rule list \<Rightarrow> arc_failure + string)) list" where
  "REDUCERS = [(CURRENT_RISK_ALGORITHM_VERSION, reduce_v1)]"

record risk_result =
  rr_classification :: string
  rr_algorithm_version :: string

definition classify :: "(string \<times> json) list \<Rightarrow> string \<Rightarrow> arc_failure + risk_result" where
  "classify semantics reducer_version =
     (case map_of REDUCERS reducer_version of
        None \<Rightarrow> Inl UnknownRiskAlgorithmVersion
      | Some reducer \<Rightarrow>
          result_bind (reducer (semantic_rules semantics)) (\<lambda>classification.
            if classification \<notin> set RISK_CLASSIFICATIONS then Inl RiskClassificationError
            else Inr \<lparr>rr_classification = classification, rr_algorithm_version = reducer_version\<rparr>))"

definition requires_observation :: "string \<Rightarrow> bool" where
  "requires_observation classification \<longleftrightarrow>
     (if py_startswith ''global'' classification then True
      else py_endswith ''_mandatory'' classification \<and> \<not> py_endswith ''_non_mandatory'' classification)"

subsection \<open>The classification is that of the weightiest rule\<close>

text \<open>
  The weight of a rule, stated apart from the table of the code: global above tenant, tenant above domain, domain above entity, entity above intent, and mandatory above
  not mandatory within a scope.
\<close>

definition scope_weight :: "string \<Rightarrow> nat" where
  "scope_weight s = (if s = ''global'' then 5 else if s = ''tenant'' then 4 else if s = ''domain'' then 3 else if s = ''entity'' then 2
     else if s = ''intent'' then 1 else 0)"

definition weight :: "risk_rule \<Rightarrow> nat" where
  "weight r = 2 * scope_weight (rule_scope r) + (if rule_mandatory r then 1 else 0)"

definition class_of :: "risk_rule \<Rightarrow> string" where
  "class_of r = rule_scope r @ ''_'' @ (if rule_mandatory r then ''mandatory'' else ''non_mandatory'')"

definition known_scope :: "risk_rule \<Rightarrow> bool" where
  "known_scope r \<longleftrightarrow> rule_scope r \<in> {''global'', ''tenant'', ''domain'', ''entity'', ''intent''}"

definition acc_weight :: "nat option \<times> bool \<Rightarrow> nat" where
  "acc_weight a = (case a of (None, _) \<Rightarrow> 0 | (Some b, m) \<Rightarrow> 2 * b + (if m then 1 else 0))"

lemma narrow_scope_rank:
  assumes "known_scope r" "rule_scope r \<noteq> ''global''"
  shows "map_of SCOPE_ORDER (rule_scope r) = Some (scope_weight (rule_scope r))" "0 < scope_weight (rule_scope r)" "scope_weight (rule_scope r) < 5"
  using assms by (auto simp: known_scope_def SCOPE_ORDER_def scope_weight_def)

lemma rank_loop_best:
  assumes "\<forall>r \<in> set rs. known_scope r \<and> rule_scope r \<noteq> ''global''"
  shows "acc_weight acc \<le> acc_weight (rank_loop rs acc) \<and> (\<forall>r \<in> set rs. weight r \<le> acc_weight (rank_loop rs acc)) \<and>
    (rank_loop rs acc = acc \<or> (\<exists>r \<in> set rs. rank_loop rs acc = (Some (scope_weight (rule_scope r)), rule_mandatory r)))"
  using assms
proof (induction rs arbitrary: acc)
  case (Cons r rs)
  obtain b m where acc: "acc = (b, m)" by (cases acc)
  from Cons.prems have r: "known_scope r" "rule_scope r \<noteq> ''global''" by auto
  note rank = narrow_scope_rank [OF r]
  let ?new = "(Some (scope_weight (rule_scope r)), rule_mandatory r)"
  let ?swap = "(case b of None \<Rightarrow> True | Some b \<Rightarrow> scope_weight (rule_scope r) > b) \<or>
    (b = Some (scope_weight (rule_scope r)) \<and> rule_mandatory r \<and> \<not> m)"
  have step: "rank_loop (r # rs) acc = rank_loop rs (if ?swap then ?new else acc)" by (simp add: acc rank(1))
  have new: "acc_weight ?new = weight r" by (simp add: acc_weight_def weight_def)
  have grows: "acc_weight acc \<le> acc_weight (if ?swap then ?new else acc)" "weight r \<le> acc_weight (if ?swap then ?new else acc)"
    by (auto simp: acc acc_weight_def weight_def split: option.splits)
  define next_acc where "next_acc = (if ?swap then ?new else acc)"
  have ih: "acc_weight next_acc \<le> acc_weight (rank_loop rs next_acc)" "\<forall>r \<in> set rs. weight r \<le> acc_weight (rank_loop rs next_acc)"
    "rank_loop rs next_acc = next_acc \<or> (\<exists>r \<in> set rs. rank_loop rs next_acc = (Some (scope_weight (rule_scope r)), rule_mandatory r))"
    using Cons.IH [of next_acc] Cons.prems by simp_all
  have "next_acc = acc \<or> next_acc = ?new" by (simp add: next_acc_def)
  with ih grows show ?case unfolding step next_acc_def [symmetric] by (metis le_trans set_ConsD list.set_intros)
qed simp

lemma SCOPE_ORDER_find:
  assumes "known_scope r" "rule_scope r \<noteq> ''global''"
  shows "find (\<lambda>(name, rank). Some rank = Some (scope_weight (rule_scope r))) SCOPE_ORDER = Some (rule_scope r, scope_weight (rule_scope r))"
  using assms by (auto simp: known_scope_def SCOPE_ORDER_def scope_weight_def)

lemma reduce_weightiest:
  assumes "rules \<noteq> []" "\<forall>r \<in> set rules. known_scope r"
  obtains r where "r \<in> set rules" "reduce_v1 rules = Inr (class_of r)" "\<forall>r' \<in> set rules. weight r' \<le> weight r"
proof (cases "\<exists>r \<in> set rules. rule_scope r = ''global''")
  case True
  have light: "weight r' \<le> (if rule_scope r' = ''global'' then 10 + (if rule_mandatory r' then 1 else 0) else 9)"
    if "r' \<in> set rules" for r'
    using narrow_scope_rank(3) [of r'] assms(2) that by (auto simp: weight_def scope_weight_def)
  show ?thesis
  proof (cases "\<exists>r \<in> set rules. rule_scope r = ''global'' \<and> rule_mandatory r")
    case True
    then obtain r where r: "r \<in> set rules" "rule_scope r = ''global''" "rule_mandatory r" by blast
    then have "weight r = 11" by (simp add: weight_def scope_weight_def)
    with r light assms(1) show ?thesis by (intro that [of r]) (auto simp: reduce_v1_def list_ex_iff class_of_def dest: light split: if_splits)
  next
    case False
    from \<open>\<exists>r \<in> set rules. rule_scope r = ''global''\<close> False obtain r where r: "r \<in> set rules" "rule_scope r = ''global''" "\<not> rule_mandatory r"
      by blast
    then have "weight r = 10" by (simp add: weight_def scope_weight_def)
    moreover have "weight r' \<le> 10" if "r' \<in> set rules" for r' using light [OF that] False that by (auto split: if_splits)
    ultimately show ?thesis using r False assms(1) by (intro that [of r]) (auto simp: reduce_v1_def list_ex_iff class_of_def)
  qed
next
  case False
  with assms(2) have narrow: "\<forall>r \<in> set rules. known_scope r \<and> rule_scope r \<noteq> ''global''" by blast
  note best = rank_loop_best [OF this, of "(None, False)"]
  have "weight (hd rules) > 0" using narrow_scope_rank(2) [of "hd rules"] narrow assms(1) by (auto simp: weight_def)
  moreover have "weight (hd rules) \<le> acc_weight (rank_loop rules (None, False))" using best assms(1) by simp
  ultimately have "rank_loop rules (None, False) \<noteq> (None, False)" by (auto simp: acc_weight_def)
  with best obtain r where r: "r \<in> set rules" "rank_loop rules (None, False) = (Some (scope_weight (rule_scope r)), rule_mandatory r)"
    by blast
  with best have "\<forall>r' \<in> set rules. weight r' \<le> weight r" by (simp add: acc_weight_def weight_def)
  moreover have "reduce_v1 rules = Inr (class_of r)"
    using r narrow False assms(1) SCOPE_ORDER_find [of r] by (auto simp: reduce_v1_def list_ex_iff class_of_def)
  ultimately show ?thesis using r(1) by (intro that)
qed

lemma class_of_known: "known_scope r \<Longrightarrow> class_of r \<in> set RISK_CLASSIFICATIONS"
  by (auto simp: known_scope_def class_of_def RISK_CLASSIFICATIONS_def RISK_CLASSIFICATIONS_V2_def risk_classifications_def)

text \<open>
  C11. A candidate is classified by its weightiest rule: with at least one rule and scopes of the closed vocabulary the current reducer answers, with
  the class of a rule that no rule of the candidate outweighs, whatever their order. In particular a mandatory global rule cannot hide
  among narrower ones.
\<close>

theorem classified_by_weightiest_rule:
  assumes "semantic_rules semantics \<noteq> []" "\<forall>r \<in> set (semantic_rules semantics). known_scope r"
  shows "\<exists>r \<in> set (semantic_rules semantics). (\<forall>r' \<in> set (semantic_rules semantics). weight r' \<le> weight r) \<and>
    classify semantics CURRENT_RISK_ALGORITHM_VERSION =
      Inr \<lparr>rr_classification = class_of r, rr_algorithm_version = CURRENT_RISK_ALGORITHM_VERSION\<rparr>"
proof -
  from reduce_weightiest [OF assms] obtain r where r: "r \<in> set (semantic_rules semantics)"
    "reduce_v1 (semantic_rules semantics) = Inr (class_of r)" "\<forall>r' \<in> set (semantic_rules semantics). weight r' \<le> weight r" .
  with class_of_known [of r] assms(2) show ?thesis by (auto simp: classify_def REDUCERS_def)
qed

definition mixed_semantics :: "(string \<times> json) list" where
  "mixed_semantics = [(''applicability'', JArr [
     JObj [(''scope'', JStr ''intent''), (''is_mandatory'', JBool True)], JObj [(''scope'', JStr ''global''), (''is_mandatory'', JBool True)]])]"

theorem classified_by_weightiest_rule_witness:
  "\<exists>r. weight r = 11 \<and> classify mixed_semantics CURRENT_RISK_ALGORITHM_VERSION =
     Inr \<lparr>rr_classification = class_of r, rr_algorithm_version = CURRENT_RISK_ALGORITHM_VERSION\<rparr>"
proof -
  let ?narrow = "\<lparr>rule_scope = ''intent'', rule_mandatory = True\<rparr>" and ?wide = "\<lparr>rule_scope = ''global'', rule_mandatory = True\<rparr>"
  have rules: "semantic_rules mixed_semantics = [?narrow, ?wide]" by (simp add: semantic_rules_def mixed_semantics_def risk_rule_of_def)
  have known: "\<forall>r \<in> set (semantic_rules mixed_semantics). known_scope r" by (simp add: rules known_scope_def)
  have weights: "weight ?narrow = 3" "weight ?wide = 11" by (simp_all add: weight_def scope_weight_def SCOPE_ORDER_def)
  from classified_by_weightiest_rule [OF _ known] obtain r where "r \<in> {?narrow, ?wide}" "weight ?wide \<le> weight r"
    "classify mixed_semantics CURRENT_RISK_ALGORITHM_VERSION =
      Inr \<lparr>rr_classification = class_of r, rr_algorithm_version = CURRENT_RISK_ALGORITHM_VERSION\<rparr>"
    by (auto simp: rules)
  then show ?thesis using weights by (intro exI [of _ r]) (auto simp: weights)
qed

end
