(* ===== verification/Arc_Store.thy ===== *)
theory Arc_Store
  imports Arc_Corpus Arc_Risk
begin

section \<open>The tables of governed content and their transactions\<close>

text \<open>
  The rows the write paths of ARC share, as the dataclasses of \<open>contextplane/arc/service/queries/\<close> have them, the statements on them, and the audit outbox
  of \<open>contextplane/arc/service/audit_outbox.py\<close>. The rows of revisions, obligations and artifacts extend those the corpus reader reads, so that its view of the tables
  is a projection. A block \<open>async with session.begin()\<close> is a transaction: it keeps its writes when it ends and undoes them when an exception leaves it.
  Row locks order concurrent transactions; here transactions run one after the other.
\<close>

subsection \<open>Rows\<close>

record arc_revision = revision_row +
  rev_artifact_id :: uuid
  rev_review_expires_at :: moment
  rev_approval_evidence_id :: "uuid option"
  rev_activated_at :: "moment option"
  rev_revoked_at :: "moment option"
  rev_superseded_by :: "uuid option"

record arc_obligation = obligation_row +
  obl_current_revision_id :: "uuid option"
  obl_updated_at :: moment

record arc_family = artifact_row +
  fam_active_revision_id :: "uuid option"

record approval_evidence_row =
  ae_evidence_id :: uuid
  ae_approved_revision_id :: "uuid option"
  ae_verifier :: "string option"

record verifier_row =
  vf_approval_verifier_id :: string
  vf_allowed_evidence_types :: "string list"
  vf_valid_from :: moment
  vf_valid_to :: "moment option"
  vf_revoked_at :: "moment option"
  vf_principal_binding_kind :: "string option"
  vf_principal_issuer :: "string option"
  vf_principal_subject :: "string option"
  vf_provider_id :: "string option"
  vf_algorithm :: "string option"
  vf_public_key :: "string option"
  vf_credential_fingerprint :: "string option"

record version_row =
  vr_proposal_id :: uuid
  vr_proposal_version :: int
  vr_artifact_id :: uuid
  vr_state :: string
  vr_source_evidence_id :: uuid
  vr_reviewed_baseline_revision_id :: "uuid option"
  vr_revision_id :: "uuid option"
  vr_opened_by_issuer :: string
  vr_opened_by_subject :: string
  vr_semantics :: "(string \<times> json) list option"
  vr_terminal_reason_code :: "string option"
  vr_terminal_note :: "string option"
  vr_terminal_by_issuer :: "string option"
  vr_terminal_by_subject :: "string option"
  vr_terminalized_at :: "moment option"

record evidence_row =
  le_revision_id :: uuid
  le_approved_payload_digest :: string
  le_approval_verifier_id :: string
  le_credential_fingerprint_at_approval :: string
  le_verification_method :: string
  le_signature_algorithm :: "string option"
  le_proof_bytes :: string
  le_approving_principal_issuer :: string
  le_approving_principal_subject :: string
  le_revoked_at :: "moment option"

record qualification_row =
  ql_qualification_id :: uuid
  ql_candidate_revision_id :: uuid
  ql_computed_decision :: string
  ql_accepted_by_issuer :: "string option"
  ql_accepted_by_subject :: "string option"
  ql_accepted_at :: "moment option"
  ql_expires_at :: "moment option"

record risk_row =
  rk_proposal_id :: uuid
  rk_proposal_version :: int
  rk_classification :: string
  rk_algorithm_version :: string

record checkpoint_row =
  ck_revision_id :: uuid
  ck_sequence :: int
  ck_exported_at :: "moment option"
  ck_sink_receipt_digest :: "string option"
  ck_sink_receipt_signature :: "string option"

record outbox_row =
  ob_tenant_id :: uuid
  ob_event_type :: string
  ob_event_payload :: string

record arc_store =
  revisions :: "arc_revision list"
  directives :: "directive_row list"
  applicability_rules :: "rule_row list"
  approved_exceptions :: "exception_row list"
  mandatory_obligations :: "arc_obligation list"
  artifacts :: "arc_family list"
  approval_evidence :: "approval_evidence_row list"
  evidence_revocations :: "uuid list"
  approval_verifiers :: "verifier_row list"
  proposal_versions :: "version_row list"
  projection_evidence :: "evidence_row list"
  qualifications :: "qualification_row list"
  risk_classification_rows :: "risk_row list"
  checkpoints :: "checkpoint_row list"
  audit_outbox :: "outbox_row list"

text \<open>What the corpus reader sees of the tables.\<close>

definition corpus_view :: "arc_store \<Rightarrow> corpus_db" where
  "corpus_view db =
     \<lparr>arc_revisions = map revision_row.truncate (revisions db), arc_directives = directives db,
      arc_applicability_rules = applicability_rules db, arc_approved_exceptions = approved_exceptions db,
      arc_mandatory_obligations = map obligation_row.truncate (mandatory_obligations db),
      arc_artifacts = map artifact_row.truncate (artifacts db)\<rparr>"

subsection \<open>Transactions\<close>

type_synonym 'a tx = "arc_store \<Rightarrow> (arc_failure + 'a) \<times> arc_store"

definition tx_return :: "'a \<Rightarrow> 'a tx" where "tx_return x = (\<lambda>db. (Inr x, db))"
definition tx_raise :: "arc_failure \<Rightarrow> 'a tx" where "tx_raise e = (\<lambda>db. (Inl e, db))"
definition tx_read :: "(arc_store \<Rightarrow> 'a) \<Rightarrow> 'a tx" where "tx_read f = (\<lambda>db. (Inr (f db), db))"
definition tx_lift :: "arc_failure + 'a \<Rightarrow> 'a tx" where "tx_lift r = (\<lambda>db. (r, db))"
definition tx_write :: "(arc_store \<Rightarrow> arc_store) \<Rightarrow> unit tx" where "tx_write f = (\<lambda>db. (Inr (), f db))"

definition tx_bind :: "'a tx \<Rightarrow> ('a \<Rightarrow> 'b tx) \<Rightarrow> 'b tx" where
  "tx_bind p q = (\<lambda>db. case p db of (Inl e, db') \<Rightarrow> (Inl e, db') | (Inr x, db') \<Rightarrow> q x db')"

definition transaction :: "'a tx \<Rightarrow> 'a tx" where
  "transaction p = (\<lambda>db. case p db of (Inl e, _) \<Rightarrow> (Inl e, db) | (Inr x, db') \<Rightarrow> (Inr x, db'))"

named_theorems tx_simps \<open>equations of transactions\<close>

lemma tx_run [tx_simps]:
  "tx_return x db = (Inr x, db)" "tx_raise e db = (Inl e, db)" "tx_read f db = (Inr (f db), db)" "tx_lift r db = (r, db)"
  "tx_write w db = (Inr (), w db)"
  by (simp_all add: tx_return_def tx_raise_def tx_read_def tx_lift_def tx_write_def)

lemma tx_bind_Inr:
  "tx_bind p q db = (Inr y, db'') \<longleftrightarrow> (\<exists>x db'. p db = (Inr x, db') \<and> q x db' = (Inr y, db''))"
  by (auto simp: tx_bind_def split: prod.splits sum.splits)

lemma tx_bind_simps [tx_simps]:
  "p db = (Inr x, db') \<Longrightarrow> tx_bind p q db = q x db'"
  "p db = (Inl e, db') \<Longrightarrow> tx_bind p q db = (Inl e, db')"
  by (simp_all add: tx_bind_def)

lemma tx_bind_run [tx_simps]:
  "tx_bind (tx_return x) q db = q x db" "tx_bind (tx_raise e) q' db = (Inl e, db)" "tx_bind (tx_read f) q'' db = q'' (f db) db"
  "tx_bind (tx_lift r) q''' db = (case r of Inl e \<Rightarrow> (Inl e, db) | Inr x \<Rightarrow> q''' x db)" "tx_bind (tx_write w) q'''' db = q'''' () (w db)"
  by (simp_all add: tx_bind_def tx_simps split: sum.split)

lemma transaction_Inr: "transaction p db = (Inr x, db') \<longleftrightarrow> p db = (Inr x, db')"
  by (auto simp: transaction_def split: prod.splits sum.splits)

lemma transaction_Inl: "transaction p db = (Inl e, db') \<longleftrightarrow> db' = db \<and> (\<exists>db''. p db = (Inl e, db''))"
  by (auto simp: transaction_def split: prod.splits sum.splits)

text \<open>A query read with \<open>one_or_none()\<close>: more than one row raises.\<close>

definition one_or_none :: "'a list \<Rightarrow> arc_failure + 'a option" where
  "one_or_none rows = (case rows of [] \<Rightarrow> Inr None | [r] \<Rightarrow> Inr (Some r) | _ \<Rightarrow> Inl MultipleResultsFound)"

definition tx_one_or_none :: "(arc_store \<Rightarrow> 'a list) \<Rightarrow> 'a option tx" where
  "tx_one_or_none rows = tx_bind (tx_read rows) (\<lambda>xs. tx_lift (one_or_none xs))"

lemma one_or_none_Inr: "one_or_none xs = Inr r \<longleftrightarrow> (case r of None \<Rightarrow> xs = [] | Some x \<Rightarrow> xs = [x])"
  by (auto simp: one_or_none_def split: list.splits option.splits)

lemma tx_one_or_none_run [tx_simps]: "tx_one_or_none rows db = (one_or_none (rows db), db)"
  by (simp add: tx_one_or_none_def tx_simps split: sum.split)

subsection \<open>Statements on revisions\<close>

text \<open>The unique index over the artifacts of active revisions, and the checks on superseded and revoked revisions.\<close>

definition one_active :: "arc_revision list \<Rightarrow> bool" where
  "one_active rs \<longleftrightarrow> distinct (map rev_artifact_id (filter (\<lambda>r. rv_lifecycle_state r = ''active'') rs))"

definition revision_checks :: "arc_revision \<Rightarrow> bool" where
  "revision_checks r \<longleftrightarrow>
     (rv_lifecycle_state r \<noteq> ''superseded'' \<or> rev_superseded_by r \<noteq> None) \<and>
     (rv_lifecycle_state r \<noteq> ''revoked'' \<or> rev_revoked_at r \<noteq> None)"

definition update_revisions :: "(arc_revision \<Rightarrow> bool) \<Rightarrow> (arc_revision \<Rightarrow> arc_revision) \<Rightarrow> nat tx" where
  "update_revisions P f = (\<lambda>db.
     let rs = map (\<lambda>r. if P r then f r else r) (revisions db) in
     if one_active rs \<and> list_all revision_checks rs then (Inr (length (filter P (revisions db))), db\<lparr>revisions := rs\<rparr>)
     else (Inl DatabaseIntegrityError, db))"

subsection \<open>The audit outbox\<close>

definition MAX_PAYLOAD_BYTES :: nat where "MAX_PAYLOAD_BYTES = 8 * 1024"

definition serialize_payload :: "(string \<times> json) list \<Rightarrow> arc_failure + string" where
  "serialize_payload payload =
     (let encoded = dumps_ascii (JObj payload) in
      if length encoded > MAX_PAYLOAD_BYTES then Inl AuditPayloadTooLarge else Inr encoded)"

definition emit :: "uuid \<Rightarrow> string \<Rightarrow> (string \<times> json) list \<Rightarrow> unit tx" where
  "emit tenant_id event_type payload =
     tx_bind (tx_lift (serialize_payload payload)) (\<lambda>text.
       tx_write (\<lambda>db. db\<lparr>audit_outbox := audit_outbox db @
         [\<lparr>ob_tenant_id = tenant_id, ob_event_type = event_type, ob_event_payload = text\<rparr>]\<rparr>))"

definition emit_global :: "string \<Rightarrow> (string \<times> json) list \<Rightarrow> unit tx" where
  "emit_global event_type payload = emit DEPLOYMENT_TENANT_ID event_type payload"

definition json_opt :: "string option \<Rightarrow> json" where
  "json_opt v = (case v of None \<Rightarrow> JNull | Some s \<Rightarrow> JStr s)"

lemma emit_Inr:
  "emit t e p db = (Inr (), db') \<longleftrightarrow> (\<exists>text. serialize_payload p = Inr text \<and>
     db' = db\<lparr>audit_outbox := audit_outbox db @ [\<lparr>ob_tenant_id = t, ob_event_type = e, ob_event_payload = text\<rparr>]\<rparr>)"
  by (auto simp: emit_def tx_simps split: sum.splits)

end
