(* ===== verification/Base64.thy ===== *)
theory Base64
  imports CP_Prelude
begin

section \<open>Base64 of the standard library\<close>

text \<open>
  The functions \<open>base64.b64encode\<close> and \<open>base64.b64decode(\<dots>, validate=True)\<close> on strings of bytes, with padding and the standard alphabet. Decoding accepts
  groups of four letters of the alphabet, the last of which may end in one or two signs of padding; everything else is an error. Decoding reads back
  what encoding wrote.
\<close>

definition b64_alphabet :: string where
  "b64_alphabet = ''ABCDEFGHIJKLMNOPQRSTUVWXYZabcdefghijklmnopqrstuvwxyz0123456789+/''"

definition b64_letter :: "nat \<Rightarrow> char" where
  "b64_letter i = b64_alphabet ! i"

definition b64_value :: "char \<Rightarrow> nat option" where
  "b64_value c = (let i = length (takeWhile (\<lambda>x. x \<noteq> c) b64_alphabet) in if i < 64 then Some i else None)"

fun b64encode :: "string \<Rightarrow> string" where
  "b64encode [] = []"
| "b64encode [a] = (let x = of_char a in [b64_letter (x div 4), b64_letter (x mod 4 * 16), CHR ''='', CHR ''=''])"
| "b64encode [a, b] =
     (let x = of_char a; y = of_char b in
      [b64_letter (x div 4), b64_letter (x mod 4 * 16 + y div 16), b64_letter (y mod 16 * 4), CHR ''=''])"
| "b64encode (a # b # c # bs) =
     (let x = of_char a; y = of_char b; z = of_char c in
      [b64_letter (x div 4), b64_letter (x mod 4 * 16 + y div 16), b64_letter (y mod 16 * 4 + z div 64), b64_letter (z mod 64)] @ b64encode bs)"

definition b64_last :: "char \<Rightarrow> char \<Rightarrow> char \<Rightarrow> char \<Rightarrow> string option" where
  "b64_last a b c d =
     (case (b64_value a, b64_value b) of
        (Some p, Some q) \<Rightarrow>
          if c = CHR ''='' then if d = CHR ''='' then Some [char_of (p * 4 + q div 16)] else None
          else (case b64_value c of
                  Some r \<Rightarrow>
                    if d = CHR ''='' then Some [char_of (p * 4 + q div 16), char_of (q mod 16 * 16 + r div 4)]
                    else (case b64_value d of
                            Some s \<Rightarrow> Some [char_of (p * 4 + q div 16), char_of (q mod 16 * 16 + r div 4), char_of (r mod 4 * 64 + s)]
                          | None \<Rightarrow> None)
                | None \<Rightarrow> None)
      | _ \<Rightarrow> None)"

definition b64_group :: "char \<Rightarrow> char \<Rightarrow> char \<Rightarrow> char \<Rightarrow> string option" where
  "b64_group a b c d = (if c = CHR ''='' \<or> d = CHR ''='' then None else b64_last a b c d)"

fun b64decode :: "string \<Rightarrow> string option" where
  "b64decode [] = Some []"
| "b64decode [a, b, c, d] = b64_last a b c d"
| "b64decode (a # b # c # d # e # bs) =
     (case b64_group a b c d of None \<Rightarrow> None | Some xs \<Rightarrow> map_option (append xs) (b64decode (e # bs)))"
| "b64decode _ = None"

lemma b64_table: "list_all (\<lambda>i. b64_value (b64_letter i) = Some i \<and> b64_letter i \<noteq> CHR ''='') [0..<64]"
  by code_simp

lemma b64_letter_simps [simp]:
  assumes "i < 64"
  shows "b64_value (b64_letter i) = Some i" "b64_letter i \<noteq> CHR ''=''"
  using b64_table assms by (simp_all add: list_all_iff)

lemma of_char_less [simp]: "(of_char c :: nat) < 256"
  using nat_of_char_less_256 [of c] .

lemma byte_parts:
  fixes x :: nat
  assumes "x < 256"
  shows "x div 4 < 64" "x div 16 div 16 = 0" "x div 16 mod 16 = x div 16" "x div 64 div 4 = 0" "x div 64 mod 4 = x div 64" "x div 16 < 16" "x div 64 < 4"
  using assms by (simp_all add: div_less_iff_less_mult flip: div_mult2_eq)

lemma sextets:
  fixes x y :: nat
  shows "x mod 4 * 16 < 64" "y < 256 \<Longrightarrow> x mod 4 * 16 + y div 16 < 64" "x mod 16 * 4 < 64" "y < 256 \<Longrightarrow> x mod 16 * 4 + y div 64 < 64" "x mod 64 < 64"
proof -
  have x: "x mod 4 < 4" "x mod 16 < 16" by simp_all
  from x show "x mod 4 * 16 < 64" "x mod 16 * 4 < 64" by linarith+
  from x byte_parts [of y] show "y < 256 \<Longrightarrow> x mod 4 * 16 + y div 16 < 64" "y < 256 \<Longrightarrow> x mod 16 * 4 + y div 64 < 64" by linarith+
qed simp

lemma b64_last_triple:
  "b64_last (b64_letter (of_char a div 4)) (b64_letter (of_char a mod 4 * 16 + of_char b div 16)) (b64_letter (of_char b mod 16 * 4 + of_char c div 64))
     (b64_letter (of_char c mod 64)) = Some [a, b, c]"
  by (simp add: b64_last_def byte_parts sextets)

lemma b64decode_Cons4:
  assumes "b64_last a b c d = Some xs" "c \<noteq> CHR ''=''" "d \<noteq> CHR ''=''"
  shows "b64decode (a # b # c # d # bs) = map_option (append xs) (b64decode bs)"
  using assms by (cases bs) (simp_all add: b64_group_def)

lemma b64_roundtrip: "b64decode (b64encode bs) = Some bs"
proof (induction bs rule: b64encode.induct)
  case (4 a b c bs)
  then show ?case by (simp add: Let_def sextets b64decode_Cons4 [OF b64_last_triple])
qed (simp_all add: Let_def b64_last_def byte_parts sextets)

end
