(* ===== verification/Arc_Approval.thy ===== *)
theory Arc_Approval
  imports Arc_Store Authoring_Profiles Base64
begin

section \<open>Verification of approvals\<close>

text \<open>
  The model of \<open>contextplane/arc/service/approval_challenge_verification.py\<close>: the bytes an approver signs and the verification of a proof against the registered
  material of a verifier. The material has the columns of a verifier's row, so the row stands for it. Signatures (the \<open>cryptography\<close> package), attestation providers (which a
  deployment configures), SHA-256 and Unicode normalisation are parameters.
\<close>

subsection \<open>Parameters, proofs and material\<close>

type_synonym attestation_provider = "string \<Rightarrow> string \<Rightarrow> string \<Rightarrow> (string \<times> string) option"

record verify_env =
  ve_nfc :: "string \<Rightarrow> string"
  ve_sha256 :: "string \<Rightarrow> string"
  ve_signature_verifier :: "string \<Rightarrow> string \<Rightarrow> string \<Rightarrow> bool"
  ve_attestation_providers :: "(string \<times> attestation_provider) list"

definition SIGNING_DOMAIN :: string where
  "SIGNING_DOMAIN = ''ARC-PROJECTION-APPROVAL-EVIDENCE-V1'' @ [CHR 0x00]"

definition ED25519_PUBLIC_KEY_BYTES :: nat where "ED25519_PUBLIC_KEY_BYTES = 32"

definition ARTIFACT_ACTIVATION_EVIDENCE_TYPE :: string where "ARTIFACT_ACTIVATION_EVIDENCE_TYPE = ''artifact_activation''"

datatype proof_input =
    DetachedSignatureProofInput (signature_algorithm: string) (signature_base64: string)
  | AttestationProofInput (proof_provider_id: string) (assertion_format: string) (assertion_base64: string)

definition usable_at :: "verifier_row \<Rightarrow> moment \<Rightarrow> bool" where
  "usable_at v m =
     (if (case vf_revoked_at v of None \<Rightarrow> False | Some t \<Rightarrow> m \<ge> t) then False
      else if m < vf_valid_from v then False
      else \<not> (case vf_valid_to v of None \<Rightarrow> False | Some t \<Rightarrow> m \<ge> t))"

record verified_approval =
  va_approving_principal_issuer :: string
  va_approving_principal_subject :: string
  va_credential_fingerprint :: string

subsection \<open>The bytes and the proof\<close>

text \<open>Every acceptance failure of a profile is a \<open>CanonicalizationError\<close>; the two Python errors of the engine are not.\<close>

definition build_canonical_evidence :: "verify_env \<Rightarrow> uuid \<Rightarrow> uuid \<Rightarrow> string \<Rightarrow> string \<Rightarrow> arc_failure + string" where
  "build_canonical_evidence V artifact_id revision_id s r =
     (case canonicalize_artifact_revision_v2 (ve_nfc V)
         [(''profile'', JStr ARTIFACT_REVISION_PROFILE), (''artifact_id'', JStr artifact_id), (''revision_id'', JStr revision_id),
          (''artifact_semantics_digest'', JStr s), (''review_package_digest'', JStr r),
          (''actor_separation_profile'', JStr ACTOR_SEPARATION_PROFILE)] of
        Inr bytes \<Rightarrow> Inr bytes
      | Inl PyKeyError \<Rightarrow> Inl ProfileRefused
      | Inl PyTypeError \<Rightarrow> Inl ProfileRefused
      | Inl _ \<Rightarrow> Inl ApprovalChallengeError)"

definition verify_detached :: "verify_env \<Rightarrow> verifier_row \<Rightarrow> proof_input \<Rightarrow> string \<Rightarrow> arc_failure + verified_approval" where
  "verify_detached V verifier proof signing_input =
     (case proof of
        AttestationProofInput _ _ _ \<Rightarrow> Inl ApprovalVerificationFailed
      | DetachedSignatureProofInput algorithm text \<Rightarrow>
          if vf_algorithm verifier \<noteq> Some algorithm then Inl ApprovalVerificationFailed
          else (case vf_public_key verifier of
              None \<Rightarrow> Inl ApprovalVerificationFailed
            | Some key \<Rightarrow>
                if length key \<noteq> ED25519_PUBLIC_KEY_BYTES then Inl ApprovalVerificationFailed
                else (case b64decode text of
                    None \<Rightarrow> Inl ApprovalVerificationFailed
                  | Some signature \<Rightarrow>
                      if \<not> ve_signature_verifier V key signature signing_input then Inl ApprovalVerificationFailed
                      else (case (vf_principal_issuer verifier, vf_principal_subject verifier) of
                          (Some issuer, Some subj) \<Rightarrow>
                            (case vf_credential_fingerprint verifier of
                               None \<Rightarrow> Inl ApprovalVerificationFailed
                             | Some fp \<Rightarrow> Inr \<lparr>va_approving_principal_issuer = issuer, va_approving_principal_subject = subj,
                                 va_credential_fingerprint = fp\<rparr>)
                        | _ \<Rightarrow> Inl ApprovalVerificationFailed))))"

definition verify_attested :: "verify_env \<Rightarrow> verifier_row \<Rightarrow> proof_input \<Rightarrow> string \<Rightarrow> arc_failure + verified_approval" where
  "verify_attested V verifier proof bytes =
     (case proof of
        DetachedSignatureProofInput _ _ \<Rightarrow> Inl ApprovalVerificationFailed
      | AttestationProofInput pid fmt text \<Rightarrow>
          if Some pid \<noteq> vf_provider_id verifier then Inl ApprovalVerificationFailed
          else (case map_of (ve_attestation_providers V) pid of
              None \<Rightarrow> Inl ApprovalVerificationFailed
            | Some provider \<Rightarrow>
                (case provider bytes fmt text of
                   None \<Rightarrow> Inl ApprovalVerificationFailed
                 | Some (issuer, subj) \<Rightarrow>
                     (case vf_credential_fingerprint verifier of
                        None \<Rightarrow> Inl ApprovalVerificationFailed
                      | Some fp \<Rightarrow> Inr \<lparr>va_approving_principal_issuer = issuer, va_approving_principal_subject = subj,
                          va_credential_fingerprint = fp\<rparr>))))"

definition verify_proof :: "verify_env \<Rightarrow> verifier_row \<Rightarrow> proof_input \<Rightarrow> string \<Rightarrow> moment \<Rightarrow> arc_failure + verified_approval" where
  "verify_proof V verifier proof bytes as_of' =
     (if ARTIFACT_ACTIVATION_EVIDENCE_TYPE \<notin> set (vf_allowed_evidence_types verifier) then Inl ApprovalVerificationFailed
      else if \<not> usable_at verifier as_of' then Inl ApprovalVerificationFailed
      else if vf_principal_binding_kind verifier = None then Inl ApprovalVerificationFailed
      else if vf_principal_binding_kind verifier = Some ''exact_principal'' then verify_detached V verifier proof (SIGNING_DOMAIN @ bytes)
      else verify_attested V verifier proof bytes)"

subsection \<open>What a verified proof shows\<close>

lemma usable_at_iff:
  "usable_at v m \<longleftrightarrow> vf_valid_from v \<le> m \<and> (\<forall>t. vf_valid_to v = Some t \<longrightarrow> m < t) \<and> (\<forall>t. vf_revoked_at v = Some t \<longrightarrow> m < t)"
  by (auto simp: usable_at_def split: option.splits)

lemma verify_detached_Inr:
  assumes "verify_detached V v proof input = Inr a"
  obtains alg txt64 key sig where "proof = DetachedSignatureProofInput alg txt64" "vf_algorithm v = Some alg" "vf_public_key v = Some key"
    "b64decode txt64 = Some sig" "ve_signature_verifier V key sig input"
    "vf_principal_issuer v = Some (va_approving_principal_issuer a)" "vf_principal_subject v = Some (va_approving_principal_subject a)"
  using assms by (auto simp: verify_detached_def split: proof_input.splits option.splits if_splits prod.splits)

text \<open>
  A stored signature that verifies again is a signature of the verifier's present key over the domain and the bytes: the proof is encoded from the stored bytes and decoded
  to them.
\<close>

lemma stored_signature_verified:
  assumes "verify_proof V v (DetachedSignatureProofInput alg (b64encode proof_bytes)) bytes m = Inr a"
  shows "usable_at v m" "\<exists>key. vf_public_key v = Some key \<and> ve_signature_verifier V key proof_bytes (SIGNING_DOMAIN @ bytes)"
    "vf_principal_issuer v = Some (va_approving_principal_issuer a) \<and> vf_principal_subject v = Some (va_approving_principal_subject a)"
proof -
  from assms have d: "usable_at v m" "verify_detached V v (DetachedSignatureProofInput alg (b64encode proof_bytes)) (SIGNING_DOMAIN @ bytes) = Inr a"
    by (auto simp: verify_proof_def verify_attested_def split: if_splits)
  then show "usable_at v m" by simp
  from d(2) show "\<exists>key. vf_public_key v = Some key \<and> ve_signature_verifier V key proof_bytes (SIGNING_DOMAIN @ bytes)"
    "vf_principal_issuer v = Some (va_approving_principal_issuer a) \<and> vf_principal_subject v = Some (va_approving_principal_subject a)"
    by (auto elim!: verify_detached_Inr simp: b64_roundtrip)
qed

end
