(* ===== verification/Arc_Integrity.thy ===== *)
theory Arc_Integrity
  imports Arc_Approval
begin

section \<open>Trust in a revision\<close>

text \<open>
  The model of \<open>contextplane/arc/service/integrity.py\<close> and of the queries it makes: five checks, each of which refuses, decide whether the approval of a revision still stands. The services
  it is built from are parameters, as in the source, where they are protocols: the assembler of review packages, the checker of source
  status and the verifier of the operational chain. Log lines are left out.
\<close>

subsection \<open>Purposes, reasons and assessments\<close>

definition PURPOSE_ACTIVATION :: string where "PURPOSE_ACTIVATION = ''activation''"
definition PURPOSE_CORPUS_ASSEMBLY :: string where "PURPOSE_CORPUS_ASSEMBLY = ''corpus_assembly''"
definition PURPOSE_SELECTION :: string where "PURPOSE_SELECTION = ''selection''"
definition PURPOSE_AUTHORIZATION :: string where "PURPOSE_AUTHORIZATION = ''authorization''"

definition PURPOSES :: "string list" where
  "PURPOSES = [PURPOSE_ACTIVATION, PURPOSE_CORPUS_ASSEMBLY, PURPOSE_SELECTION, PURPOSE_AUTHORIZATION]"

definition REASON_SOURCE_STATUS_UNAVAILABLE :: string where "REASON_SOURCE_STATUS_UNAVAILABLE = ''arc_source_status_unavailable''"
definition REASON_PROJECTION_EVIDENCE_INVALID :: string where "REASON_PROJECTION_EVIDENCE_INVALID = ''arc_approval_verification_failed''"
definition REASON_OPERATIONAL_INTEGRITY_FAILED :: string where "REASON_OPERATIONAL_INTEGRITY_FAILED = ''arc_operational_integrity_failed''"
definition REASON_OPERATIONAL_INTEGRITY_PENDING :: string where "REASON_OPERATIONAL_INTEGRITY_PENDING = ''arc_operational_integrity_pending''"
definition REASON_PROPOSAL_STATE_CONFLICT :: string where "REASON_PROPOSAL_STATE_CONFLICT = ''arc_proposal_state_conflict''"

definition REASON_CODES :: "string list" where
  "REASON_CODES = [REASON_SOURCE_STATUS_UNAVAILABLE, REASON_PROJECTION_EVIDENCE_INVALID, REASON_OPERATIONAL_INTEGRITY_FAILED,
     REASON_OPERATIONAL_INTEGRITY_PENDING, REASON_PROPOSAL_STATE_CONFLICT]"

record integrity_assessment =
  ia_valid :: bool
  ia_reason_code :: "string option"

definition assessment_post_init :: "integrity_assessment \<Rightarrow> arc_failure + integrity_assessment" where
  "assessment_post_init a =
     (if ia_valid a \<and> ia_reason_code a \<noteq> None then Inl PythonValueError
      else if \<not> ia_valid a \<and> (case ia_reason_code a of None \<Rightarrow> True | Some c \<Rightarrow> c \<notin> set REASON_CODES) then Inl PythonValueError
      else Inr a)"

definition refused :: "string \<Rightarrow> arc_failure + integrity_assessment" where
  "refused reason_code = assessment_post_init \<lparr>ia_valid = False, ia_reason_code = Some reason_code\<rparr>"

subsection \<open>Parameters and queries\<close>

record review_digests =
  rd_artifact_semantics_digest :: string
  rd_review_package_digest :: string

record integrity_env =
  ie_verify :: verify_env
  ie_assemble :: "arc_store \<Rightarrow> uuid \<Rightarrow> int \<Rightarrow> arc_failure + review_digests"
  ie_check_status :: "uuid \<Rightarrow> arc_failure + unit"
  ie_verify_chain :: "arc_store \<Rightarrow> uuid \<Rightarrow> arc_failure + unit"
  ie_now :: moment

definition load_version_by_revision_id :: "arc_store \<Rightarrow> uuid \<Rightarrow> arc_failure + version_row option" where
  "load_version_by_revision_id db revision_id = one_or_none (filter (\<lambda>v. vr_revision_id v = Some revision_id) (proposal_versions db))"

definition load_live_evidence_by_revision :: "arc_store \<Rightarrow> uuid \<Rightarrow> arc_failure + evidence_row option" where
  "load_live_evidence_by_revision db revision_id =
     one_or_none (filter (\<lambda>e. le_revision_id e = revision_id \<and> le_revoked_at e = None) (projection_evidence db))"

definition load_verifier_for_share :: "arc_store \<Rightarrow> string \<Rightarrow> arc_failure + verifier_row option" where
  "load_verifier_for_share db verifier_id = one_or_none (filter (\<lambda>v. vf_approval_verifier_id v = verifier_id) (approval_verifiers db))"

definition load_latest_checkpoint :: "arc_store \<Rightarrow> uuid \<Rightarrow> checkpoint_row option" where
  "load_latest_checkpoint db revision_id =
     (case sort_key (\<lambda>c. - ck_sequence c) (filter (\<lambda>c. ck_revision_id c = revision_id) (checkpoints db)) of
        [] \<Rightarrow> None | c # _ \<Rightarrow> Some c)"

subsection \<open>The five checks\<close>

text \<open>A check gives \<open>None\<close> when it holds and a refusal otherwise; an exception it does not catch leaves the assessment.\<close>

definition check_source_status :: "integrity_env \<Rightarrow> uuid \<Rightarrow> arc_failure + integrity_assessment option" where
  "check_source_status I source_evidence_id =
     (case ie_check_status I source_evidence_id of
        Inr _ \<Rightarrow> Inr None
      | Inl e \<Rightarrow> if e = SourceStatusUnavailable \<or> e = NotFoundError then result_map Some (refused REASON_SOURCE_STATUS_UNAVAILABLE) else Inl e)"

definition check_cached_state :: "integrity_env \<Rightarrow> arc_store \<Rightarrow> version_row \<Rightarrow> arc_failure + (integrity_assessment + review_digests)" where
  "check_cached_state I db identity =
     (case ie_assemble I db (vr_proposal_id identity) (vr_proposal_version identity) of
        Inr d \<Rightarrow> Inr (Inr d)
      | Inl e \<Rightarrow> if e = ReviewPackageIntegrityError then result_map Inl (refused REASON_OPERATIONAL_INTEGRITY_FAILED)
                 else if e = ReviewPackageUnavailable then result_map Inl (refused REASON_PROPOSAL_STATE_CONFLICT)
                 else Inl e)"

definition reverify_proof :: "verify_env \<Rightarrow> verifier_row \<Rightarrow> evidence_row \<Rightarrow> string \<Rightarrow> moment \<Rightarrow> arc_failure + unit" where
  "reverify_proof V verifier evidence bytes now =
     (if le_verification_method evidence = ''detached_signature'' \<and> le_signature_algorithm evidence \<noteq> None
      then result_map (\<lambda>_. ())
        (verify_proof V verifier (DetachedSignatureProofInput (the (le_signature_algorithm evidence)) (b64encode (le_proof_bytes evidence))) bytes now)
      else Inr ())"

definition assert_projection_evidence :: "integrity_env \<Rightarrow> arc_store \<Rightarrow> version_row \<Rightarrow> uuid \<Rightarrow> review_digests \<Rightarrow> arc_failure + unit" where
  "assert_projection_evidence I db identity revision_id digests =
     result_bind (load_live_evidence_by_revision db revision_id) (\<lambda>row.
     case row of
       None \<Rightarrow> Inl ApprovalVerificationFailed
     | Some evidence \<Rightarrow>
         if le_revoked_at evidence \<noteq> None then Inl ApprovalVerificationFailed
         else result_bind (load_verifier_for_share db (le_approval_verifier_id evidence)) (\<lambda>found.
         case found of
           None \<Rightarrow> Inl ApprovalVerificationFailed
         | Some verifier \<Rightarrow>
             if \<not> usable_at verifier (ie_now I) then Inl ApprovalVerificationFailed
             else if vf_credential_fingerprint verifier \<noteq> Some (le_credential_fingerprint_at_approval evidence) then Inl ApprovalVerificationFailed
             else result_bind (build_canonical_evidence (ie_verify I) (vr_artifact_id identity) revision_id
                 (rd_artifact_semantics_digest digests) (rd_review_package_digest digests)) (\<lambda>bytes.
               if ve_sha256 (ie_verify I) bytes \<noteq> le_approved_payload_digest evidence then Inl ApprovalVerificationFailed
               else reverify_proof (ie_verify I) verifier evidence bytes (ie_now I))))"

definition check_projection_evidence ::
    "integrity_env \<Rightarrow> arc_store \<Rightarrow> version_row \<Rightarrow> uuid \<Rightarrow> review_digests \<Rightarrow> arc_failure + integrity_assessment option" where
  "check_projection_evidence I db identity revision_id digests =
     (case assert_projection_evidence I db identity revision_id digests of
        Inr _ \<Rightarrow> Inr None
      | Inl e \<Rightarrow> if e = ApprovalVerificationFailed then result_map Some (refused REASON_PROJECTION_EVIDENCE_INVALID) else Inl e)"

definition check_operational_chain :: "integrity_env \<Rightarrow> arc_store \<Rightarrow> uuid \<Rightarrow> arc_failure + integrity_assessment option" where
  "check_operational_chain I db revision_id =
     (case ie_verify_chain I db revision_id of
        Inr _ \<Rightarrow> Inr None
      | Inl e \<Rightarrow> if e = OperationalChainIntegrityError then result_map Some (refused REASON_OPERATIONAL_INTEGRITY_FAILED) else Inl e)"

definition check_durable_checkpoint :: "arc_store \<Rightarrow> uuid \<Rightarrow> arc_failure + integrity_assessment option" where
  "check_durable_checkpoint db revision_id =
     (case load_latest_checkpoint db revision_id of
        None \<Rightarrow> result_map Some (refused REASON_OPERATIONAL_INTEGRITY_PENDING)
      | Some c \<Rightarrow>
          if ck_exported_at c = None \<or> ck_sink_receipt_digest c = None \<or> ck_sink_receipt_signature c = None
          then result_map Some (refused REASON_OPERATIONAL_INTEGRITY_PENDING) else Inr None)"

definition guard :: "arc_failure + integrity_assessment option \<Rightarrow> (unit \<Rightarrow> arc_failure + integrity_assessment) \<Rightarrow> arc_failure + integrity_assessment" where
  "guard check rest = result_bind check (\<lambda>refusal. case refusal of Some a \<Rightarrow> Inr a | None \<Rightarrow> rest ())"

definition assess :: "integrity_env \<Rightarrow> arc_store \<Rightarrow> uuid \<Rightarrow> string \<Rightarrow> arc_failure + integrity_assessment" where
  "assess I db revision_id purpose =
     (if purpose \<notin> set PURPOSES then Inl ValidationError
      else result_bind (load_version_by_revision_id db revision_id) (\<lambda>found.
      case found of
        None \<Rightarrow> refused REASON_OPERATIONAL_INTEGRITY_FAILED
      | Some identity \<Rightarrow>
          if vr_revision_id identity = None then refused REASON_OPERATIONAL_INTEGRITY_FAILED
          else guard (check_source_status I (vr_source_evidence_id identity)) (\<lambda>_.
            result_bind (check_cached_state I db identity) (\<lambda>state.
            case state of
              Inl a \<Rightarrow> Inr a
            | Inr digests \<Rightarrow>
                guard (check_projection_evidence I db identity revision_id digests) (\<lambda>_.
                guard (check_operational_chain I db revision_id) (\<lambda>_.
                guard (check_durable_checkpoint db revision_id) (\<lambda>_.
                  assessment_post_init \<lparr>ia_valid = True, ia_reason_code = None\<rparr>)))))))"

subsection \<open>When a revision is trusted\<close>

lemma refused_invalid: "refused c = Inr a \<Longrightarrow> \<not> ia_valid a"
  by (auto simp: refused_def assessment_post_init_def split: if_splits)

lemma result_map_Some_refused: "result_map Some (refused c) = Inr (Some a) \<Longrightarrow> \<not> ia_valid a"
  by (auto simp: result_map_eq_Inr dest: refused_invalid)

lemma guard_valid:
  assumes "\<And>a. check = Inr (Some a) \<Longrightarrow> \<not> ia_valid a"
  shows "(\<exists>a. guard check rest = Inr a \<and> ia_valid a) \<longleftrightarrow> check = Inr None \<and> (\<exists>a. rest () = Inr a \<and> ia_valid a)"
  using assms by (auto simp: guard_def result_bind_eq_Inr split: option.splits)

lemma state_valid:
  assumes "\<And>a. state = Inr (Inl a) \<Longrightarrow> \<not> ia_valid a"
  shows "(\<exists>a. result_bind state (\<lambda>s. case s of Inl a \<Rightarrow> Inr a | Inr d \<Rightarrow> rest d) = Inr a \<and> ia_valid a) \<longleftrightarrow>
    (\<exists>d. state = Inr (Inr d) \<and> (\<exists>a. rest d = Inr a \<and> ia_valid a))"
proof (cases state)
  case (Inr s)
  with assms show ?thesis by (cases s) auto
qed simp

lemma checks_refuse_invalid:
  "check_source_status I s = Inr (Some a) \<Longrightarrow> \<not> ia_valid a" "check_projection_evidence I db v rid d = Inr (Some a) \<Longrightarrow> \<not> ia_valid a"
  "check_operational_chain I db rid = Inr (Some a) \<Longrightarrow> \<not> ia_valid a" "check_durable_checkpoint db rid = Inr (Some a) \<Longrightarrow> \<not> ia_valid a"
  "check_cached_state I db v = Inr (Inl a) \<Longrightarrow> \<not> ia_valid a"
  by (auto simp: check_source_status_def check_projection_evidence_def check_operational_chain_def check_durable_checkpoint_def
      check_cached_state_def result_map_eq_Inr split: sum.splits if_splits option.splits dest: refused_invalid)

lemma checks_hold:
  "check_source_status I s = Inr None \<longleftrightarrow> ie_check_status I s = Inr ()"
  "check_cached_state I db v = Inr (Inr d) \<longleftrightarrow> ie_assemble I db (vr_proposal_id v) (vr_proposal_version v) = Inr d"
  "check_projection_evidence I db v rid d = Inr None \<longleftrightarrow> assert_projection_evidence I db v rid d = Inr ()"
  "check_operational_chain I db rid = Inr None \<longleftrightarrow> ie_verify_chain I db rid = Inr ()"
  by (auto simp: check_source_status_def check_projection_evidence_def check_operational_chain_def check_cached_state_def result_map_eq_Inr
      split: sum.splits if_splits)

definition checkpoint_durable :: "arc_store \<Rightarrow> uuid \<Rightarrow> bool" where
  "checkpoint_durable db revision_id \<longleftrightarrow>
     (\<exists>c. load_latest_checkpoint db revision_id = Some c \<and> ck_exported_at c \<noteq> None \<and> ck_sink_receipt_digest c \<noteq> None \<and> ck_sink_receipt_signature c \<noteq> None)"

lemma durable_iff: "check_durable_checkpoint db rid = Inr None \<longleftrightarrow> checkpoint_durable db rid"
  by (auto simp: check_durable_checkpoint_def checkpoint_durable_def result_map_eq_Inr split: option.splits if_splits)

lemma version_of_revision: "load_version_by_revision_id db rid = Inr (Some v) \<Longrightarrow> v \<in> set (proposal_versions db) \<and> vr_revision_id v = Some rid"
  by (auto simp: load_version_by_revision_id_def one_or_none_Inr filter_eq_Cons_iff)

lemma assess_valid_iff:
  "(\<exists>a. assess I db rid purpose = Inr a \<and> ia_valid a) \<longleftrightarrow> purpose \<in> set PURPOSES \<and>
     (\<exists>v d. load_version_by_revision_id db rid = Inr (Some v) \<and> ie_check_status I (vr_source_evidence_id v) = Inr () \<and>
        ie_assemble I db (vr_proposal_id v) (vr_proposal_version v) = Inr d \<and> assert_projection_evidence I db v rid d = Inr () \<and>
        ie_verify_chain I db rid = Inr () \<and> checkpoint_durable db rid)"
proof (cases "load_version_by_revision_id db rid")
  case (Inl e)
  then show ?thesis by (simp add: assess_def)
next
  case found: (Inr w)
  show ?thesis
  proof (cases w)
    case None
    with found show ?thesis by (auto simp: assess_def dest: refused_invalid)
  next
    case (Some v)
    from found Some have v: "vr_revision_id v = Some rid" using version_of_revision [of db rid v] by simp
    have valid: "\<exists>a. assessment_post_init \<lparr>ia_valid = True, ia_reason_code = None\<rparr> = Inr a \<and> ia_valid a" by (simp add: assessment_post_init_def)
    show ?thesis
    proof (cases "purpose \<in> set PURPOSES")
      case True
      have "assess I db rid purpose = guard (check_source_status I (vr_source_evidence_id v)) (\<lambda>_.
            result_bind (check_cached_state I db v) (\<lambda>state. case state of Inl a \<Rightarrow> Inr a | Inr digests \<Rightarrow>
                guard (check_projection_evidence I db v rid digests) (\<lambda>_. guard (check_operational_chain I db rid) (\<lambda>_.
                guard (check_durable_checkpoint db rid) (\<lambda>_. assessment_post_init \<lparr>ia_valid = True, ia_reason_code = None\<rparr>)))))"
        using True found Some v by (simp add: assess_def)
      also have "(\<exists>a. \<dots> = Inr a \<and> ia_valid a) \<longleftrightarrow> ie_check_status I (vr_source_evidence_id v) = Inr () \<and>
          (\<exists>d. ie_assemble I db (vr_proposal_id v) (vr_proposal_version v) = Inr d \<and> assert_projection_evidence I db v rid d = Inr () \<and>
             ie_verify_chain I db rid = Inr () \<and> checkpoint_durable db rid)"
        by (simp only: guard_valid [OF checks_refuse_invalid(1)] state_valid [OF checks_refuse_invalid(5)] guard_valid [OF checks_refuse_invalid(2)]
            guard_valid [OF checks_refuse_invalid(3)] guard_valid [OF checks_refuse_invalid(4)] checks_hold durable_iff valid simp_thms)
      finally show ?thesis using True found Some by auto
    qed (simp add: assess_def)
  qed
qed

text \<open>What stands behind evidence that is accepted.\<close>

definition evidence_stands :: "integrity_env \<Rightarrow> arc_store \<Rightarrow> uuid \<Rightarrow> uuid \<Rightarrow> review_digests \<Rightarrow> bool" where
  "evidence_stands I db artifact_id revision_id d \<longleftrightarrow>
     (\<exists>e v bytes. load_live_evidence_by_revision db revision_id = Inr (Some e) \<and> load_verifier_for_share db (le_approval_verifier_id e) = Inr (Some v) \<and>
        usable_at v (ie_now I) \<and> vf_credential_fingerprint v = Some (le_credential_fingerprint_at_approval e) \<and>
        build_canonical_evidence (ie_verify I) artifact_id revision_id (rd_artifact_semantics_digest d) (rd_review_package_digest d) = Inr bytes \<and>
        le_approved_payload_digest e = ve_sha256 (ie_verify I) bytes \<and> reverify_proof (ie_verify I) v e bytes (ie_now I) = Inr ())"

lemma live_evidence: "load_live_evidence_by_revision db rid = Inr (Some e) \<Longrightarrow> e \<in> set (projection_evidence db) \<and> le_revision_id e = rid \<and> le_revoked_at e = None"
  by (auto simp: load_live_evidence_by_revision_def one_or_none_Inr filter_eq_Cons_iff)

lemma assert_projection_evidence_iff:
  "assert_projection_evidence I db v rid d = Inr () \<longleftrightarrow> evidence_stands I db (vr_artifact_id v) rid d"
proof (cases "load_live_evidence_by_revision db rid")
  case found: (Inr w)
  show ?thesis
  proof (cases w)
    case (Some e)
    with found have "le_revoked_at e = None" using live_evidence by blast
    with found Some show ?thesis
      by (cases "load_verifier_for_share db (le_approval_verifier_id e)"; cases "projr (load_verifier_for_share db (le_approval_verifier_id e))";
          cases "build_canonical_evidence (ie_verify I) (vr_artifact_id v) rid (rd_artifact_semantics_digest d) (rd_review_package_digest d)")
        (auto simp: assert_projection_evidence_def evidence_stands_def)
  qed (use found in \<open>simp add: assert_projection_evidence_def evidence_stands_def\<close>)
qed (simp add: assert_projection_evidence_def evidence_stands_def)

lemma reverified:
  assumes "reverify_proof V v e bytes m = Inr ()" "le_verification_method e = ''detached_signature''" "le_signature_algorithm e \<noteq> None"
  shows "\<exists>key. vf_public_key v = Some key \<and> ve_signature_verifier V key (le_proof_bytes e) (SIGNING_DOMAIN @ bytes)"
  using assms stored_signature_verified(2) by (fastforce simp: reverify_proof_def result_map_eq_Inr split: if_splits)

text \<open>
  The integrity gate is exact: a revision is judged valid, for any of the four purposes, precisely when it is bound to a proposal version whose source is current, whose review
  package recomputes, whose operational chain verifies and whose newest checkpoint has been exported with a signed receipt, and live evidence of a usable verifier with an unchanged credential
  approves exactly the recomputed package, its stored signature verifying again.
\<close>

theorem assess_exact:
  "(\<exists>a. assess I db rid purpose = Inr a \<and> ia_valid a) \<longleftrightarrow> purpose \<in> set PURPOSES \<and>
     (\<exists>v d. load_version_by_revision_id db rid = Inr (Some v) \<and> ie_check_status I (vr_source_evidence_id v) = Inr () \<and>
        ie_assemble I db (vr_proposal_id v) (vr_proposal_version v) = Inr d \<and> evidence_stands I db (vr_artifact_id v) rid d \<and>
        ie_verify_chain I db rid = Inr () \<and> checkpoint_durable db rid)"
  by (simp only: assess_valid_iff assert_projection_evidence_iff)

end
