(* ===== verification/Arc_Lifecycle.thy ===== *)
theory Arc_Lifecycle
  imports Arc_Store
begin

section \<open>The lifecycle of governed revisions\<close>

text \<open>
  The model of \<open>contextplane/arc/service/artifact_integrity.py\<close>, of the transitions of \<open>contextplane/arc/service/artifact.py\<close> and of the worker
  \<open>contextplane/arc/workers/review_expiry.py\<close>: a registered revision is activated, revoked, invalidated or expires, and the mandatory obligations it satisfied are
  refreshed or left as tombstones. The clock, SHA-256, the ISO printer, the identities the database draws and the rows another session has locked are parameters. The
  theorems follow every revision through any sequence of these operations, and every obligation into the view of the corpus reader.
\<close>

subsection \<open>States and transitions\<close>

definition LIFECYCLE_DRAFT :: string where "LIFECYCLE_DRAFT = ''draft''"
definition LIFECYCLE_ACTIVE :: string where "LIFECYCLE_ACTIVE = ''active''"
definition LIFECYCLE_SUPERSEDED :: string where "LIFECYCLE_SUPERSEDED = ''superseded''"
definition LIFECYCLE_REVOKED :: string where "LIFECYCLE_REVOKED = ''revoked''"
definition LIFECYCLE_EXPIRED :: string where "LIFECYCLE_EXPIRED = ''expired''"

lemmas lifecycle_defs = LIFECYCLE_DRAFT_def LIFECYCLE_ACTIVE_def LIFECYCLE_SUPERSEDED_def LIFECYCLE_REVOKED_def LIFECYCLE_EXPIRED_def

definition LEGAL_TRANSITIONS :: "(string \<times> string list) list" where
  "LEGAL_TRANSITIONS = [
    (LIFECYCLE_DRAFT, [LIFECYCLE_ACTIVE, LIFECYCLE_REVOKED]),
    (LIFECYCLE_ACTIVE, [LIFECYCLE_SUPERSEDED, LIFECYCLE_REVOKED, LIFECYCLE_EXPIRED]),
    (LIFECYCLE_SUPERSEDED, [LIFECYCLE_REVOKED]),
    (LIFECYCLE_EXPIRED, [LIFECYCLE_REVOKED, LIFECYCLE_ACTIVE]),
    (LIFECYCLE_REVOKED, [])]"

definition assert_transition :: "string \<Rightarrow> string \<Rightarrow> arc_failure + unit" where
  "assert_transition current target =
     (let allowed = (case map_of LEGAL_TRANSITIONS current of Some ts \<Rightarrow> ts | None \<Rightarrow> []) in
      if target \<notin> set allowed then Inl ArtifactLifecycleError else Inr ())"

definition OBLIGATION_SATISFIED :: string where "OBLIGATION_SATISFIED = ''satisfied''"
definition OBLIGATION_MISSING_REVOKED :: string where "OBLIGATION_MISSING_REVOKED = ''missing_revoked''"
definition OBLIGATION_MISSING_INVALID :: string where "OBLIGATION_MISSING_INVALID = ''missing_invalid''"
definition OBLIGATION_MISSING_REVIEW_EXPIRED :: string where "OBLIGATION_MISSING_REVIEW_EXPIRED = ''missing_review_expired''"

definition ARC_ARTIFACT_ACTIVATED :: string where "ARC_ARTIFACT_ACTIVATED = ''arc.artifact.activated''"
definition ARC_ARTIFACT_REVOKED :: string where "ARC_ARTIFACT_REVOKED = ''arc.artifact.revoked''"
definition ARC_ARTIFACT_INVALIDATED :: string where "ARC_ARTIFACT_INVALIDATED = ''arc.artifact.invalidated''"

subsection \<open>Applicability\<close>

definition sorted_strs :: "string list option \<Rightarrow> json" where
  "sorted_strs v = JArr (map JStr (sort (case v of None \<Rightarrow> [] | Some xs \<Rightarrow> xs)))"

definition applicability_snapshot :: "rule_row \<Rightarrow> (string \<times> json) list" where
  "applicability_snapshot r = [
    (''scope'', JStr (rr_scope r)),
    (''target_tenant_id'', json_opt (rr_target_tenant_id r)),
    (''entity_ids'', sorted_strs (rr_entity_ids r)),
    (''domain_ids'', sorted_strs (rr_domain_ids r)),
    (''intent_kinds'', sorted_strs (rr_intent_kinds r)),
    (''action_classes'', sorted_strs (rr_action_classes r)),
    (''environments'', sorted_strs (rr_environments r)),
    (''data_sensitivity_tiers'', sorted_strs (rr_data_sensitivity_tiers r))]"

definition applicability_digest :: "(string \<Rightarrow> string) \<Rightarrow> (string \<times> json) list \<Rightarrow> string" where
  "applicability_digest sha256 snapshot = sha256 (dumps_ascii (JObj snapshot))"

subsection \<open>Reading rows\<close>

record arc_env =
  env_sha256 :: "string \<Rightarrow> string"
  env_new_id :: "arc_obligation list \<Rightarrow> uuid"
  env_isoformat :: "moment \<Rightarrow> string"
  env_writers :: global_writers
  env_now :: moment

definition assert_evidence_approves :: "uuid \<Rightarrow> uuid \<Rightarrow> unit tx" where
  "assert_evidence_approves evidence_id revision_id =
     tx_bind (tx_one_or_none (\<lambda>db. filter (\<lambda>e. ae_evidence_id e = evidence_id) (approval_evidence db))) (\<lambda>row.
       case row of
         None \<Rightarrow> tx_raise NotFoundError
       | Some e \<Rightarrow>
           (case ae_approved_revision_id e of
              None \<Rightarrow> tx_raise NotFoundError
            | Some approved \<Rightarrow> if approved \<noteq> revision_id then tx_raise ValidationError else tx_return ()))"

definition assert_evidence_is_trusted :: "uuid \<Rightarrow> unit tx" where
  "assert_evidence_is_trusted evidence_id =
     tx_bind (tx_read id) (\<lambda>db.
       tx_bind (tx_lift (one_or_none [(r, v).
           e \<leftarrow> approval_evidence db, ae_evidence_id e = evidence_id,
           r \<leftarrow> (let rs = filter (\<lambda>x. x = evidence_id) (evidence_revocations db) in if rs = [] then [None] else map Some rs),
           v \<leftarrow> (let vs = filter (\<lambda>x. ae_verifier e = Some (vf_approval_verifier_id x) \<and> vf_revoked_at x \<noteq> None) (approval_verifiers db)
                in if vs = [] then [None] else map Some vs)])) (\<lambda>row.
         case row of
           None \<Rightarrow> tx_return ()
         | Some (r, v) \<Rightarrow> if r \<noteq> None then tx_raise ApprovalTrustWithdrawn
                          else if v \<noteq> None then tx_raise ApprovalTrustWithdrawn else tx_return ()))"

definition load_artifact :: "uuid \<Rightarrow> artifact_scope tx" where
  "load_artifact artifact_id =
     tx_bind (tx_one_or_none (\<lambda>db. filter (\<lambda>a. ar_artifact_id a = artifact_id) (artifacts db))) (\<lambda>row.
       case row of
         None \<Rightarrow> tx_raise NotFoundError
       | Some a \<Rightarrow>
           tx_lift (artifact_scope_post_init
             (case ar_tenant_id a of
                None \<Rightarrow> \<lparr>as_scope = GLOBAL, as_tenant_id = None, as_entity_id = None\<rparr>
              | Some t \<Rightarrow> \<lparr>as_scope = TENANT, as_tenant_id = Some t, as_entity_id = None\<rparr>)))"

definition lock_family :: "uuid \<Rightarrow> arc_revision tx" where
  "lock_family revision_id =
     tx_bind (tx_one_or_none (\<lambda>db. filter (\<lambda>r. rv_revision_id r = revision_id) (revisions db))) (\<lambda>row.
       case row of None \<Rightarrow> tx_raise NotFoundError | Some r \<Rightarrow> tx_return r)"

definition active_revision :: "uuid \<Rightarrow> uuid option tx" where
  "active_revision artifact_id =
     tx_one_or_none (\<lambda>db. map rv_revision_id
       (filter (\<lambda>r. rev_artifact_id r = artifact_id \<and> rv_lifecycle_state r = LIFECYCLE_ACTIVE) (revisions db)))"

subsection \<open>Writes\<close>

definition set_state :: "moment \<Rightarrow> uuid \<Rightarrow> string \<Rightarrow> uuid option \<Rightarrow> nat tx" where
  "set_state now revision_id state superseded_by =
     update_revisions (\<lambda>r. rv_revision_id r = revision_id) (\<lambda>r. r\<lparr>
       rv_lifecycle_state := state,
       rev_superseded_by := (if superseded_by = None then rev_superseded_by r else superseded_by),
       rev_revoked_at := (if state = ''revoked'' then Some now else rev_revoked_at r)\<rparr>)"

definition tombstone_obligations :: "moment \<Rightarrow> uuid \<Rightarrow> string \<Rightarrow> unit tx" where
  "tombstone_obligations now revision_id state =
     tx_write (\<lambda>db. db\<lparr>mandatory_obligations := map (\<lambda>o'. if obl_current_revision_id o' = Some revision_id
       then o'\<lparr>or_obligation_state := state, obl_current_revision_id := None, obl_updated_at := now\<rparr> else o') (mandatory_obligations db)\<rparr>)"

definition matches :: "uuid \<Rightarrow> string \<Rightarrow> arc_obligation \<Rightarrow> bool" where
  "matches did dig o' \<longleftrightarrow> or_directive_id o' = did \<and> or_applicability_digest o' = dig"

definition refresh_one :: "arc_env \<Rightarrow> uuid \<Rightarrow> uuid \<times> uuid \<times> rule_row \<Rightarrow> arc_obligation list \<Rightarrow> arc_failure + arc_obligation list" where
  "refresh_one E revision_id row obls =
     (case row of (did, aid, rule) \<Rightarrow>
        let snapshot = applicability_snapshot rule; dig = applicability_digest (env_sha256 E) snapshot in
        result_map (\<lambda>existing.
          case existing of
            None \<Rightarrow> obls @ [\<lparr>or_obligation_id = env_new_id E obls, or_artifact_id = aid, or_directive_id = did,
              or_obligation_state = OBLIGATION_SATISFIED, or_applicability_digest = dig, or_applicability_snapshot = JObj snapshot,
              or_effective_from = rr_effective_from rule, or_effective_until = rr_effective_until rule,
              obl_current_revision_id = Some revision_id, obl_updated_at = env_now E\<rparr>]
          | Some oid \<Rightarrow> map (\<lambda>o'. if or_obligation_id o' = oid
              then o'\<lparr>obl_current_revision_id := Some revision_id, or_obligation_state := OBLIGATION_SATISFIED,
                or_effective_from := rr_effective_from rule, or_effective_until := rr_effective_until rule, obl_updated_at := env_now E\<rparr>
              else o') obls)
          (one_or_none (map or_obligation_id (filter (matches did dig) obls))))"

definition mandatory_rows :: "arc_store \<Rightarrow> uuid \<Rightarrow> (uuid \<times> uuid \<times> rule_row) list" where
  "mandatory_rows db revision_id =
     [(dr_directive_id d, rev_artifact_id r, ar).
        d \<leftarrow> directives db, dr_revision_id d = revision_id,
        r \<leftarrow> revisions db, rv_revision_id r = dr_revision_id d,
        ar \<leftarrow> applicability_rules db, rr_revision_id ar = dr_revision_id d \<and> rr_is_mandatory ar]"

definition refresh_obligations :: "arc_env \<Rightarrow> uuid \<Rightarrow> unit tx" where
  "refresh_obligations E revision_id =
     tx_bind (tx_read id) (\<lambda>db.
       tx_bind (tx_lift (fold_result (refresh_one E revision_id) (mandatory_rows db revision_id) (mandatory_obligations db))) (\<lambda>obls.
         tx_write (\<lambda>db. db\<lparr>mandatory_obligations := obls\<rparr>)))"

subsection \<open>The operations\<close>

definition artifact_activate :: "arc_env \<Rightarrow> arc_ctx \<Rightarrow> uuid \<Rightarrow> uuid option \<Rightarrow> unit tx" where
  "artifact_activate E ctx revision_id supersedes = transaction (
     tx_bind (lock_family revision_id) (\<lambda>revision.
     tx_bind (load_artifact (rev_artifact_id revision)) (\<lambda>artifact.
     tx_bind (tx_lift (assert_can_write_artifact (env_writers E) ctx artifact)) (\<lambda>_.
     tx_bind (tx_lift (assert_transition (rv_lifecycle_state revision) LIFECYCLE_ACTIVE)) (\<lambda>_.
     if rev_review_expires_at revision \<le> env_now E then tx_raise ArtifactLifecycleError
     else (case rev_approval_evidence_id revision of
         None \<Rightarrow> tx_raise ArtifactLifecycleError
       | Some evidence_id \<Rightarrow>
           tx_bind (assert_evidence_approves evidence_id revision_id) (\<lambda>_.
           tx_bind (assert_evidence_is_trusted evidence_id) (\<lambda>_.
           tx_bind (active_revision (rev_artifact_id revision)) (\<lambda>current.
           tx_bind (if current \<noteq> None \<and> current \<noteq> Some revision_id
                    then if supersedes \<noteq> None \<and> supersedes \<noteq> current then tx_raise ArtifactLifecycleError
                         else set_state (env_now E) (the current) LIFECYCLE_SUPERSEDED (Some revision_id)
                    else tx_return 0) (\<lambda>_.
           tx_bind (update_revisions (\<lambda>r. rv_revision_id r = revision_id)
                     (\<lambda>r. r\<lparr>rv_lifecycle_state := LIFECYCLE_ACTIVE, rev_activated_at := Some (env_now E)\<rparr>)) (\<lambda>_.
           tx_bind (refresh_obligations E revision_id) (\<lambda>_.
           emit (ctx_tenant_id ctx) ARC_ARTIFACT_ACTIVATED
             [(''artifact_id'', JStr (rev_artifact_id revision)), (''revision_id'', JStr revision_id),
              (''superseded_revision_id'', if current \<noteq> None \<and> current \<noteq> Some revision_id then json_opt current else JNull)]))))))))))))"

definition withdraw :: "string \<Rightarrow> string \<Rightarrow> arc_env \<Rightarrow> arc_ctx \<Rightarrow> uuid \<Rightarrow> string \<Rightarrow> unit tx" where
  "withdraw missing event_type E ctx revision_id reason = transaction (
     tx_bind (lock_family revision_id) (\<lambda>revision.
     tx_bind (load_artifact (rev_artifact_id revision)) (\<lambda>artifact.
     tx_bind (tx_lift (assert_can_write_artifact (env_writers E) ctx artifact)) (\<lambda>_.
     tx_bind (tx_lift (assert_transition (rv_lifecycle_state revision) LIFECYCLE_REVOKED)) (\<lambda>_.
     tx_bind (set_state (env_now E) revision_id LIFECYCLE_REVOKED None) (\<lambda>_.
     tx_bind (tombstone_obligations (env_now E) revision_id missing) (\<lambda>_.
     emit (ctx_tenant_id ctx) event_type
       [(''artifact_id'', JStr (rev_artifact_id revision)), (''revision_id'', JStr revision_id),
        (''reason'', JStr (take 200 reason))])))))))"

definition artifact_revoke :: "arc_env \<Rightarrow> arc_ctx \<Rightarrow> uuid \<Rightarrow> string \<Rightarrow> unit tx" where
  "artifact_revoke = withdraw OBLIGATION_MISSING_REVOKED ARC_ARTIFACT_REVOKED"

definition artifact_invalidate :: "arc_env \<Rightarrow> arc_ctx \<Rightarrow> uuid \<Rightarrow> string \<Rightarrow> unit tx" where
  "artifact_invalidate = withdraw OBLIGATION_MISSING_INVALID ARC_ARTIFACT_INVALIDATED"

subsection \<open>Expiry of reviews\<close>

definition ARC_REVIEW_EXPIRED :: string where "ARC_REVIEW_EXPIRED = ''arc.review.expired''"

definition DEFAULT_LIMIT :: int where "DEFAULT_LIMIT = 500"

definition review_expiry_worker :: "int \<Rightarrow> arc_failure + nat" where
  "review_expiry_worker limit = (if limit < 1 then Inl PythonValueError else Inr (nat limit))"

definition expirable :: "moment \<Rightarrow> uuid set \<Rightarrow> nat \<Rightarrow> arc_store \<Rightarrow> arc_revision list" where
  "expirable now locked limit db =
     take limit (sort_key rev_review_expires_at
       (filter (\<lambda>r. rv_lifecycle_state r = LIFECYCLE_ACTIVE \<and> rev_review_expires_at r \<le> now \<and> rv_revision_id r \<notin> locked) (revisions db)))"

definition emit_expired_event :: "arc_env \<Rightarrow> arc_revision \<Rightarrow> unit tx" where
  "emit_expired_event E r =
     (let payload = [(''artifact_id'', JStr (rev_artifact_id r)), (''revision_id'', JStr (rv_revision_id r)),
        (''review_expires_at'', JStr (env_isoformat E (rev_review_expires_at r))), (''expired_at'', JStr (env_isoformat E (env_now E)))] in
      case rv_tenant_id r of
        None \<Rightarrow> emit_global ARC_REVIEW_EXPIRED payload
      | Some t \<Rightarrow> emit t ARC_REVIEW_EXPIRED payload)"

primrec emit_all :: "arc_env \<Rightarrow> arc_revision list \<Rightarrow> unit tx" where
  "emit_all E [] = tx_return ()"
| "emit_all E (r # rs) = tx_bind (emit_expired_event E r) (\<lambda>_. emit_all E rs)"

definition run_expiry :: "arc_env \<Rightarrow> uuid set \<Rightarrow> nat \<Rightarrow> (nat \<times> nat) tx" where
  "run_expiry E locked limit = transaction (
     tx_bind (tx_read (expirable (env_now E) locked limit)) (\<lambda>expired.
     tx_bind (update_revisions (\<lambda>r. rv_revision_id r \<in> rv_revision_id ` set expired) (\<lambda>r. r\<lparr>rv_lifecycle_state := LIFECYCLE_EXPIRED\<rparr>)) (\<lambda>_.
     if expired = [] then tx_return (0, 0)
     else
       let ids = rv_revision_id ` set expired; hit = (\<lambda>o'. case obl_current_revision_id o' of None \<Rightarrow> False | Some i \<Rightarrow> i \<in> ids) in
       tx_bind (tx_read (\<lambda>db. length (filter hit (mandatory_obligations db)))) (\<lambda>tombstoned.
       tx_bind (tx_write (\<lambda>db. db\<lparr>mandatory_obligations := map (\<lambda>o'. if hit o'
           then o'\<lparr>or_obligation_state := OBLIGATION_MISSING_REVIEW_EXPIRED, obl_current_revision_id := None, obl_updated_at := env_now E\<rparr>
           else o') (mandatory_obligations db)\<rparr>)) (\<lambda>_.
       tx_bind (emit_all E expired) (\<lambda>_. tx_return (length expired, tombstoned)))))))"

subsection \<open>What the operations read and write\<close>

lemma lock_family_Inr: "lock_family rid db = (Inr r, db') \<longleftrightarrow> db' = db \<and> filter (\<lambda>r. rv_revision_id r = rid) (revisions db) = [r]"
  by (auto simp: lock_family_def tx_bind_Inr tx_simps one_or_none_Inr split: option.splits)

lemma load_artifact_Inr: "load_artifact aid db = (Inr a, db') \<Longrightarrow> db' = db"
  by (auto simp: load_artifact_def tx_bind_Inr tx_simps split: option.splits)

lemma lift_Inr: "tx_lift v db = (Inr x, db') \<longleftrightarrow> v = Inr x \<and> db' = db" by (auto simp: tx_simps)

lemma evidence_approves_Inr: "assert_evidence_approves eid rid db = (Inr u, db') \<Longrightarrow> db' = db"
  by (auto simp: assert_evidence_approves_def tx_bind_Inr tx_simps split: option.splits if_splits)

lemma evidence_is_trusted_Inr: "assert_evidence_is_trusted eid db = (Inr u, db') \<Longrightarrow> db' = db"
  by (auto simp: assert_evidence_is_trusted_def tx_bind_Inr tx_simps split: option.splits if_splits prod.splits sum.splits)

lemma active_revision_Inr:
  "active_revision aid db = (Inr c, db') \<longleftrightarrow> db' = db \<and>
     one_or_none (map rv_revision_id (filter (\<lambda>r. rev_artifact_id r = aid \<and> rv_lifecycle_state r = LIFECYCLE_ACTIVE) (revisions db))) = Inr c"
  by (auto simp: active_revision_def tx_simps)

lemma update_revisions_Inr:
  "update_revisions P f db = (Inr n, db') \<longleftrightarrow>
     n = length (filter P (revisions db)) \<and> db' = db\<lparr>revisions := map (\<lambda>r. if P r then f r else r) (revisions db)\<rparr> \<and>
     one_active (revisions db') \<and> list_all revision_checks (revisions db')"
  by (auto simp: update_revisions_def Let_def)

lemma refresh_obligations_Inr:
  "refresh_obligations E rid db = (Inr u, db') \<longleftrightarrow>
     (\<exists>obls. fold_result (refresh_one E rid) (mandatory_rows db rid) (mandatory_obligations db) = Inr obls \<and> db' = db\<lparr>mandatory_obligations := obls\<rparr>)"
  by (auto simp: refresh_obligations_def tx_simps split: sum.splits)

lemma emit_keeps:
  "emit t e p db = (Inr u, db') \<Longrightarrow> revisions db' = revisions db \<and> mandatory_obligations db' = mandatory_obligations db \<and> artifacts db' = artifacts db"
  by (auto simp: emit_Inr)

lemmas step_Inr = transaction_Inr tx_bind_Inr lock_family_Inr lift_Inr

text \<open>What a successful activation has read and written.\<close>

definition activation_rows :: "arc_env \<Rightarrow> uuid \<Rightarrow> uuid option \<Rightarrow> arc_revision list \<Rightarrow> arc_revision list" where
  "activation_rows E rid current rows =
     map (\<lambda>r. if rv_revision_id r = rid then r\<lparr>rv_lifecycle_state := LIFECYCLE_ACTIVE, rev_activated_at := Some (env_now E)\<rparr> else r)
       (map (\<lambda>r. if Some (rv_revision_id r) = current \<and> current \<noteq> Some rid
                 then r\<lparr>rv_lifecycle_state := LIFECYCLE_SUPERSEDED, rev_superseded_by := Some rid\<rparr> else r) rows)"

lemma activation_Inr:
  assumes "artifact_activate E ctx rid supersedes db = (Inr u, db')"
  obtains r current obls where "filter (\<lambda>r. rv_revision_id r = rid) (revisions db) = [r]"
    "assert_transition (rv_lifecycle_state r) LIFECYCLE_ACTIVE = Inr ()" "env_now E < rev_review_expires_at r" "rev_approval_evidence_id r \<noteq> None"
    "one_or_none (map rv_revision_id (filter (\<lambda>r'. rev_artifact_id r' = rev_artifact_id r \<and> rv_lifecycle_state r' = LIFECYCLE_ACTIVE) (revisions db))) = Inr current"
    "revisions db' = activation_rows E rid current (revisions db)" "one_active (revisions db')"
    "fold_result (refresh_one E rid) (mandatory_rows (db\<lparr>revisions := revisions db'\<rparr>) rid) (mandatory_obligations db) = Inr obls"
    "mandatory_obligations db' = obls" "artifacts db' = artifacts db"
proof -
  let ?now = "env_now E"
  let ?step = "\<lambda>current. if current \<noteq> None \<and> current \<noteq> Some rid
     then if supersedes \<noteq> None \<and> supersedes \<noteq> current then tx_raise ArtifactLifecycleError
          else set_state ?now (the current) LIFECYCLE_SUPERSEDED (Some rid)
     else tx_return 0"
  from assms [unfolded artifact_activate_def] obtain r a where r: "filter (\<lambda>r. rv_revision_id r = rid) (revisions db) = [r]"
    and t: "assert_transition (rv_lifecycle_state r) LIFECYCLE_ACTIVE = Inr ()" and x: "\<not> rev_review_expires_at r \<le> ?now"
    and rest: "(case rev_approval_evidence_id r of None \<Rightarrow> tx_raise ArtifactLifecycleError
       | Some evidence_id \<Rightarrow>
           tx_bind (assert_evidence_approves evidence_id rid) (\<lambda>_.
           tx_bind (assert_evidence_is_trusted evidence_id) (\<lambda>_.
           tx_bind (active_revision (rev_artifact_id r)) (\<lambda>current.
           tx_bind (?step current) (\<lambda>_.
           tx_bind (update_revisions (\<lambda>r. rv_revision_id r = rid)
                     (\<lambda>r. r\<lparr>rv_lifecycle_state := LIFECYCLE_ACTIVE, rev_activated_at := Some ?now\<rparr>)) (\<lambda>_.
           tx_bind (refresh_obligations E rid) (\<lambda>_.
           emit (ctx_tenant_id ctx) ARC_ARTIFACT_ACTIVATED
             [(''artifact_id'', JStr (rev_artifact_id r)), (''revision_id'', JStr rid),
              (''superseded_revision_id'', if current \<noteq> None \<and> current \<noteq> Some rid then json_opt current else JNull)]))))))) db = (Inr u, db')"
    by (auto simp only: step_Inr tx_run prod.inject sum.distinct split: if_splits dest!: load_artifact_Inr, simp, blast)
  from rest obtain eid current n db1 m db2 v db3 where e: "rev_approval_evidence_id r = Some eid"
    and c: "one_or_none (map rv_revision_id (filter (\<lambda>r'. rev_artifact_id r' = rev_artifact_id r \<and> rv_lifecycle_state r' = LIFECYCLE_ACTIVE) (revisions db))) = Inr current"
    and s: "?step current db = (Inr n, db1)"
    and up: "update_revisions (\<lambda>r. rv_revision_id r = rid)
                     (\<lambda>r. r\<lparr>rv_lifecycle_state := LIFECYCLE_ACTIVE, rev_activated_at := Some ?now\<rparr>) db1 = (Inr m, db2)"
    and ro: "refresh_obligations E rid db2 = (Inr v, db3)"
    and em: "revisions db' = revisions db3 \<and> mandatory_obligations db' = mandatory_obligations db3 \<and> artifacts db' = artifacts db3"
    by (cases "rev_approval_evidence_id r")
      (auto simp only: option.case step_Inr tx_run active_revision_Inr prod.inject sum.distinct dest!: evidence_approves_Inr evidence_is_trusted_Inr emit_keeps)
  have s1: "db1 = db\<lparr>revisions := map (\<lambda>r. if Some (rv_revision_id r) = current \<and> current \<noteq> Some rid
                 then r\<lparr>rv_lifecycle_state := LIFECYCLE_SUPERSEDED, rev_superseded_by := Some rid\<rparr> else r) (revisions db)\<rparr>"
  proof (cases "current \<noteq> None \<and> current \<noteq> Some rid")
    case True
    with s have "set_state ?now (the current) LIFECYCLE_SUPERSEDED (Some rid) db = (Inr n, db1)" by (simp add: tx_simps split: if_splits)
    with True show ?thesis by (auto simp: set_state_def update_revisions_Inr lifecycle_defs)
  next
    case False
    with s have "db1 = db" by (auto simp: tx_simps)
    with False show ?thesis by (cases current) auto
  qed
  from ro obtain obls where obls: "fold_result (refresh_one E rid) (mandatory_rows db2 rid) (mandatory_obligations db2) = Inr obls"
      "db3 = db2\<lparr>mandatory_obligations := obls\<rparr>" by (auto simp: refresh_obligations_Inr)
  from up s1 have u: "db2 = db\<lparr>revisions := activation_rows E rid current (revisions db)\<rparr>" "one_active (revisions db2)"
    by (auto simp: update_revisions_Inr activation_rows_def)
  show thesis
    by (rule that [OF r t _ _ c, where obls = obls]) (use x e em obls u in simp_all)
qed

lemma withdraw_Inr:
  assumes "withdraw missing event E ctx rid reason db = (Inr u, db')"
  obtains r where "filter (\<lambda>r. rv_revision_id r = rid) (revisions db) = [r]"
    "assert_transition (rv_lifecycle_state r) LIFECYCLE_REVOKED = Inr ()"
    "revisions db' = map (\<lambda>r. if rv_revision_id r = rid then r\<lparr>rv_lifecycle_state := LIFECYCLE_REVOKED, rev_revoked_at := Some (env_now E)\<rparr> else r) (revisions db)"
    "one_active (revisions db')"
    "mandatory_obligations db' = map (\<lambda>o'. if obl_current_revision_id o' = Some rid
       then o'\<lparr>or_obligation_state := missing, obl_current_revision_id := None, obl_updated_at := env_now E\<rparr> else o') (mandatory_obligations db)"
    "artifacts db' = artifacts db"
proof -
  from assms obtain r db1 db2 n where r: "filter (\<lambda>r. rv_revision_id r = rid) (revisions db) = [r]"
    and t: "assert_transition (rv_lifecycle_state r) LIFECYCLE_REVOKED = Inr ()"
    and s: "set_state (env_now E) rid LIFECYCLE_REVOKED None db = (Inr n, db1)"
    and o: "tombstone_obligations (env_now E) rid missing db1 = (Inr (), db2)"
    and em: "revisions db' = revisions db2 \<and> mandatory_obligations db' = mandatory_obligations db2 \<and> artifacts db' = artifacts db2"
    by (auto simp: withdraw_def step_Inr dest!: load_artifact_Inr emit_keeps)
  show thesis
    by (rule that [OF r t]) (use s o em in \<open>auto simp: set_state_def update_revisions_Inr tombstone_obligations_def tx_simps lifecycle_defs\<close>)
qed

lemma emit_all_keeps:
  "emit_all E rs db = (Inr u, db') \<Longrightarrow> revisions db' = revisions db \<and> mandatory_obligations db' = mandatory_obligations db \<and> artifacts db' = artifacts db"
proof (induction rs arbitrary: db)
  case Nil
  then show ?case by (simp add: tx_simps)
next
  case (Cons r rs)
  then obtain db1 where "emit_expired_event E r db = (Inr (), db1)" "emit_all E rs db1 = (Inr u, db')" by (auto simp: tx_bind_Inr)
  with Cons.IH [of db1] show ?case by (auto simp: emit_expired_event_def emit_global_def Let_def split: option.splits dest!: emit_keeps)
qed

lemma run_expiry_Inr:
  assumes "run_expiry E locked limit db = (Inr u, db')"
  obtains ids where "ids = rv_revision_id ` set (expirable (env_now E) locked limit db)"
    "revisions db' = map (\<lambda>r. if rv_revision_id r \<in> ids then r\<lparr>rv_lifecycle_state := LIFECYCLE_EXPIRED\<rparr> else r) (revisions db)"
    "one_active (revisions db')"
    "mandatory_obligations db' = map (\<lambda>o'. if \<exists>i \<in> ids. obl_current_revision_id o' = Some i
       then o'\<lparr>or_obligation_state := OBLIGATION_MISSING_REVIEW_EXPIRED, obl_current_revision_id := None, obl_updated_at := env_now E\<rparr>
       else o') (mandatory_obligations db)"
    "artifacts db' = artifacts db"
proof -
  let ?xs = "expirable (env_now E) locked limit db" and ?ids = "rv_revision_id ` set (expirable (env_now E) locked limit db)"
  let ?hit = "\<lambda>o'. case obl_current_revision_id o' of None \<Rightarrow> False | Some i \<Rightarrow> i \<in> ?ids"
  let ?tomb = "\<lambda>db. db\<lparr>mandatory_obligations := map (\<lambda>o'. if ?hit o'
           then o'\<lparr>or_obligation_state := OBLIGATION_MISSING_REVIEW_EXPIRED, obl_current_revision_id := None, obl_updated_at := env_now E\<rparr>
           else o') (mandatory_obligations db)\<rparr>"
  have hit: "?hit o' \<longleftrightarrow> (\<exists>i \<in> ?ids. obl_current_revision_id o' = Some i)" for o' :: arc_obligation by (auto split: option.split)
  from assms obtain db1 n where up: "update_revisions (\<lambda>r. rv_revision_id r \<in> ?ids) (\<lambda>r. r\<lparr>rv_lifecycle_state := LIFECYCLE_EXPIRED\<rparr>) db = (Inr n, db1)"
    and rest: "(if ?xs = [] then tx_return (0, 0) else
       tx_bind (tx_read (\<lambda>db. length (filter ?hit (mandatory_obligations db)))) (\<lambda>tombstoned.
       tx_bind (tx_write ?tomb) (\<lambda>_. tx_bind (emit_all E ?xs) (\<lambda>_. tx_return (length ?xs, tombstoned))))) db1 = (Inr u, db')"
    unfolding run_expiry_def Let_def by (auto simp: transaction_Inr tx_bind_Inr tx_run)
  have kept: "revisions db' = revisions db1" "artifacts db' = artifacts db1" "mandatory_obligations db' = mandatory_obligations (?tomb db1)"
  proof (atomize (full), cases "?xs = []")
    case True
    have no: "\<not> ?hit o'" for o' :: arc_obligation by (simp add: True split: option.split)
    have "mandatory_obligations (?tomb db1) = mandatory_obligations db1" by (simp add: no)
    moreover from rest True have "db' = db1" by (auto simp: tx_simps)
    ultimately show "revisions db' = revisions db1 \<and> artifacts db' = artifacts db1 \<and> mandatory_obligations db' = mandatory_obligations (?tomb db1)"
      by simp
  next
    case False
    with rest obtain v where "emit_all E ?xs (?tomb db1) = (Inr v, db')" by (auto simp only: if_False tx_bind_Inr tx_run prod.inject sum.inject)
    from emit_all_keeps [OF this] show "revisions db' = revisions db1 \<and> artifacts db' = artifacts db1 \<and> mandatory_obligations db' = mandatory_obligations (?tomb db1)"
      by simp
  qed
  from up have u: "db1 = db\<lparr>revisions := map (\<lambda>r. if rv_revision_id r \<in> ?ids then r\<lparr>rv_lifecycle_state := LIFECYCLE_EXPIRED\<rparr> else r) (revisions db)\<rparr>"
    and one: "one_active (revisions db1)" unfolding update_revisions_Inr by blast+
  from u have a: "revisions db1 = map (\<lambda>r. if rv_revision_id r \<in> ?ids then r\<lparr>rv_lifecycle_state := LIFECYCLE_EXPIRED\<rparr> else r) (revisions db)"
    "artifacts db1 = artifacts db" "mandatory_obligations db1 = mandatory_obligations db" by simp_all
  have m: "mandatory_obligations (?tomb db1) = map (\<lambda>o'. if \<exists>i \<in> ?ids. obl_current_revision_id o' = Some i
       then o'\<lparr>or_obligation_state := OBLIGATION_MISSING_REVIEW_EXPIRED, obl_current_revision_id := None, obl_updated_at := env_now E\<rparr>
       else o') (mandatory_obligations db1)" unfolding hit by simp
  show thesis by (rule that [OF refl]) (use one in \<open>simp_all only: kept(1,2) kept(3) [unfolded m] a\<close>)
qed

subsection \<open>Runs of the lifecycle\<close>

text \<open>One call of one of the operations, whatever it returns.\<close>

inductive lifecycle_step :: "arc_store \<Rightarrow> arc_store \<Rightarrow> bool" where
  by_activate: "artifact_activate E ctx rid supersedes db = (result, db') \<Longrightarrow> lifecycle_step db db'"
| by_revoke: "artifact_revoke E ctx rid reason db = (result, db') \<Longrightarrow> lifecycle_step db db'"
| by_invalidate: "artifact_invalidate E ctx rid reason db = (result, db') \<Longrightarrow> lifecycle_step db db'"
| by_expiry: "run_expiry E locked limit db = (outcome, db') \<Longrightarrow> lifecycle_step db db'"

inductive_cases lifecycle_stepE: "lifecycle_step db db'"

definition legal :: "string \<Rightarrow> string \<Rightarrow> bool" where
  "legal s t \<longleftrightarrow> assert_transition s t = Inr ()"

lemma legal_simps:
  "legal s t \<longleftrightarrow> (s, t) \<in> {(''draft'', ''active''), (''draft'', ''revoked''), (''active'', ''superseded''), (''active'', ''revoked''),
     (''active'', ''expired''), (''superseded'', ''revoked''), (''expired'', ''revoked''), (''expired'', ''active'')}"
  by (auto simp: legal_def assert_transition_def LEGAL_TRANSITIONS_def lifecycle_defs split: if_splits)

definition row_step :: "(string \<Rightarrow> string \<Rightarrow> bool) \<Rightarrow> arc_revision \<Rightarrow> arc_revision \<Rightarrow> bool" where
  "row_step R r r' \<longleftrightarrow> rv_revision_id r' = rv_revision_id r \<and> rev_artifact_id r' = rev_artifact_id r \<and> R (rv_lifecycle_state r) (rv_lifecycle_state r')"

lemma filter_single: "filter P xs = [r] \<Longrightarrow> x \<in> set xs \<Longrightarrow> P x \<Longrightarrow> x = r"
proof -
  assume *: "filter P xs = [r]" and "x \<in> set xs" "P x"
  then have "x \<in> set [r]" by (simp flip: *)
  then show "x = r" by simp
qed

lemma list_all2_map: "(\<And>x. x \<in> set xs \<Longrightarrow> R x (f x)) \<Longrightarrow> list_all2 R xs (map f xs)"
  by (simp add: list_all2_conv_all_nth)

lemma row_of_key_unique: "distinct (map f xs) \<Longrightarrow> x \<in> set xs \<Longrightarrow> y \<in> set xs \<Longrightarrow> f x = f y \<Longrightarrow> x = y"
  by (meson inj_onD distinct_map)

lemma activation_rows_step:
  assumes ids: "distinct (map rv_revision_id rows)" and r: "filter (\<lambda>r. rv_revision_id r = rid) rows = [r]"
    and t: "legal (rv_lifecycle_state r) LIFECYCLE_ACTIVE"
    and c: "one_or_none (map rv_revision_id (filter (\<lambda>r'. rev_artifact_id r' = rev_artifact_id r \<and> rv_lifecycle_state r' = LIFECYCLE_ACTIVE) rows)) = Inr current"
  shows "list_all2 (row_step legal\<^sup>=\<^sup>=) rows (activation_rows E rid current rows)"
proof -
  have *: "row_step legal\<^sup>=\<^sup>= x (if rv_revision_id x = rid then x\<lparr>rv_lifecycle_state := LIFECYCLE_ACTIVE, rev_activated_at := Some (env_now E)\<rparr> else
      if Some (rv_revision_id x) = current then x\<lparr>rv_lifecycle_state := LIFECYCLE_SUPERSEDED, rev_superseded_by := Some rid\<rparr> else x)"
    if x: "x \<in> set rows" for x
  proof (cases "rv_revision_id x = rid")
    case True
    with filter_single [OF r x] t show ?thesis by (simp add: row_step_def)
  next
    case False
    show ?thesis
    proof (cases "Some (rv_revision_id x) = current")
      case cur: True
      with c obtain y where "filter (\<lambda>r'. rev_artifact_id r' = rev_artifact_id r \<and> rv_lifecycle_state r' = LIFECYCLE_ACTIVE) rows = [y]" "rv_revision_id y = rv_revision_id x"
        by (auto simp: one_or_none_Inr split: option.splits)
      then have "y \<in> set rows" "rv_lifecycle_state y = LIFECYCLE_ACTIVE" "rv_revision_id y = rv_revision_id x" by (auto simp: filter_eq_Cons_iff)
      with x ids have "rv_lifecycle_state x = LIFECYCLE_ACTIVE" by (metis row_of_key_unique)
      with False cur show ?thesis by (simp add: row_step_def legal_simps lifecycle_defs)
    qed (use False in \<open>simp add: row_step_def\<close>)
  qed
  have "activation_rows E rid current rows = map (\<lambda>x. if rv_revision_id x = rid then x\<lparr>rv_lifecycle_state := LIFECYCLE_ACTIVE, rev_activated_at := Some (env_now E)\<rparr> else
      if Some (rv_revision_id x) = current then x\<lparr>rv_lifecycle_state := LIFECYCLE_SUPERSEDED, rev_superseded_by := Some rid\<rparr> else x) rows"
    by (auto simp: activation_rows_def)
  with * show ?thesis by (simp only: list_all2_map)
qed

lemma lifecycle_step_rows:
  assumes "lifecycle_step db db'" and ids: "distinct (map rv_revision_id (revisions db))" and one: "one_active (revisions db)"
  shows "one_active (revisions db') \<and> list_all2 (row_step legal\<^sup>=\<^sup>=) (revisions db) (revisions db')"
proof -
  have same: "list_all2 (row_step legal\<^sup>=\<^sup>=) rows rows" for rows by (simp add: list_all2_same row_step_def)
  have withdrawn: "one_active (revisions db') \<and> list_all2 (row_step legal\<^sup>=\<^sup>=) (revisions db) (revisions db')"
    if w: "withdraw missing event E ctx rid reason db = (result, db')" for missing event E ctx rid reason result
  proof (cases result)
    case (Inl e)
    with w one same show ?thesis by (auto simp: withdraw_def transaction_Inl)
  next
    case (Inr u)
    with w obtain r where r: "filter (\<lambda>r. rv_revision_id r = rid) (revisions db) = [r]" "legal (rv_lifecycle_state r) LIFECYCLE_REVOKED"
      "revisions db' = map (\<lambda>r. if rv_revision_id r = rid then r\<lparr>rv_lifecycle_state := LIFECYCLE_REVOKED, rev_revoked_at := Some (env_now E)\<rparr> else r) (revisions db)"
      "one_active (revisions db')" by (auto simp: legal_def elim: withdraw_Inr)
    then have "x = r" if "x \<in> set (revisions db)" "rv_revision_id x = rid" for x
      using that by (auto dest: filter_single)
    with r(2) have "list_all2 (row_step legal\<^sup>=\<^sup>=) (revisions db) (revisions db')"
      unfolding r(3) by (intro list_all2_map) (auto simp: row_step_def)
    with r(4) show ?thesis ..
  qed
  from assms(1) show ?thesis
  proof (cases rule: lifecycle_step.cases)
    case (by_activate E ctx rid supersedes result)
    then show ?thesis
    proof (cases result)
      case (Inl e)
      with by_activate one same show ?thesis by (auto simp: artifact_activate_def transaction_Inl)
    next
      case (Inr u)
      with by_activate show ?thesis
        by (auto elim!: activation_Inr intro!: activation_rows_step [OF ids] simp: legal_def)
    qed
  next
    case (by_expiry E locked limit outcome)
    then show ?thesis
    proof (cases outcome)
      case (Inl e)
      with by_expiry one same show ?thesis by (auto simp: run_expiry_def transaction_Inl)
    next
      case (Inr u)
      have "row_step legal\<^sup>=\<^sup>= x (x\<lparr>rv_lifecycle_state := LIFECYCLE_EXPIRED\<rparr>)"
        if "x \<in> set (revisions db)" "rv_revision_id x \<in> rv_revision_id ` set (expirable (env_now E) locked limit db)" for x
      proof -
        from that(2) obtain y where "y \<in> set (revisions db)" "rv_lifecycle_state y = LIFECYCLE_ACTIVE" "rv_revision_id y = rv_revision_id x"
          by (auto simp: expirable_def dest!: in_set_takeD)
        with that(1) ids have "x = y" by (metis row_of_key_unique)
        with \<open>rv_lifecycle_state y = LIFECYCLE_ACTIVE\<close> show ?thesis by (simp add: row_step_def legal_simps lifecycle_defs)
      qed
      with by_expiry Inr show ?thesis
        by (auto elim!: run_expiry_Inr intro!: list_all2_map simp: row_step_def)
    qed
  qed (auto simp: artifact_revoke_def artifact_invalidate_def dest: withdrawn)
qed

definition lifecycle_run :: "arc_store \<Rightarrow> arc_store \<Rightarrow> bool" where
  "lifecycle_run = lifecycle_step\<^sup>*\<^sup>*"

lemma row_step_trans:
  "list_all2 (row_step legal\<^sup>*\<^sup>*) rows rows' \<Longrightarrow> list_all2 (row_step legal\<^sup>=\<^sup>=) rows' rows'' \<Longrightarrow> list_all2 (row_step legal\<^sup>*\<^sup>*) rows rows''"
  by (erule (1) list_all2_trans [rotated]) (auto simp: row_step_def intro: rtranclp.rtrancl_into_rtrancl)

lemma row_step_ids: "list_all2 (row_step R) rows rows' \<Longrightarrow> map rv_revision_id rows' = map rv_revision_id rows"
  by (auto simp: list_all2_conv_all_nth row_step_def intro!: nth_equalityI)

subsection \<open>A small store for the witnesses\<close>

definition sample_env :: arc_env where
  "sample_env = \<lparr>env_sha256 = id, env_new_id = (\<lambda>obls. replicate (Suc (sum_list (map (\<lambda>o'. length (or_obligation_id o')) obls))) CHR ''o''),
     env_isoformat = (\<lambda>_. ''2026-01-01''), env_writers = [], env_now = 5\<rparr>"

definition sample_admin :: arc_ctx where
  "sample_admin = \<lparr>ctx_tenant_id = ''t'', ctx_actor_id = ''u'', ctx_roles = [''admin''], ctx_oidc_subject = ''s'', ctx_oidc_issuer = ''i'', ctx_mcp_session_id = None\<rparr>"

definition sample_draft :: arc_revision where
  "sample_draft = \<lparr>rv_revision_id = ''v'', rv_tenant_id = Some ''t'', rv_lifecycle_state = ''draft'', rv_effective_from = 1, rv_effective_until = None,
     rev_artifact_id = ''a'', rev_review_expires_at = 9, rev_approval_evidence_id = Some ''e'', rev_activated_at = None, rev_revoked_at = None,
     rev_superseded_by = None\<rparr>"

definition sample_store :: arc_store where
  "sample_store = \<lparr>revisions = [sample_draft], directives = [sample_directive_row], applicability_rules = [sample_rule_row ''k'' True ''tenant'' [] []],
     approved_exceptions = [], mandatory_obligations = [], artifacts = [\<lparr>ar_artifact_id = ''a'', ar_tenant_id = Some ''t'', fam_active_revision_id = None\<rparr>],
     approval_evidence = [\<lparr>ae_evidence_id = ''e'', ae_approved_revision_id = Some ''v'', ae_verifier = None\<rparr>], evidence_revocations = [],
     approval_verifiers = [], proposal_versions = [], projection_evidence = [], qualifications = [], risk_classification_rows = [], checkpoints = [],
     audit_outbox = []\<rparr>"

lemma sample_env_fresh: "env_new_id sample_env obls \<notin> or_obligation_id ` set obls"
proof
  let ?f = "\<lambda>o'. length (or_obligation_id o')"
  assume "env_new_id sample_env obls \<in> or_obligation_id ` set obls"
  then obtain o1 where o1: "o1 \<in> set obls" "or_obligation_id o1 = env_new_id sample_env obls" by auto
  then have "?f o1 = Suc (sum_list (map ?f obls))" by (simp add: sample_env_def)
  moreover from o1(1) have "?f o1 \<le> sum_list (map ?f obls)" by (intro member_le_sum_list) auto
  ultimately show False by simp
qed

definition after_activation :: arc_store where "after_activation = snd (artifact_activate sample_env sample_admin ''v'' None sample_store)"
definition after_revocation :: arc_store where "after_revocation = snd (artifact_revoke sample_env sample_admin ''v'' ''wrong'' after_activation)"

lemma sample_activation: "artifact_activate sample_env sample_admin ''v'' None sample_store = (Inr (), after_activation)"
proof -
  have "fst (artifact_activate sample_env sample_admin ''v'' None sample_store) = Inr ()" by code_simp
  then show ?thesis by (metis after_activation_def prod.collapse)
qed

lemma sample_revocation: "artifact_revoke sample_env sample_admin ''v'' ''wrong'' after_activation = (Inr (), after_revocation)"
proof -
  have "fst (artifact_revoke sample_env sample_admin ''v'' ''wrong'' after_activation) = Inr ()" by code_simp
  then show ?thesis by (metis after_revocation_def prod.collapse)
qed

text \<open>
  C10. Through any sequence of activations, revocations, invalidations and expiry passes, of any callers and clocks and whatever each returns, a family keeps at most
  one active revision, no revision changes its identity or family, and each moves only along the legal transitions: in particular a revoked revision stays revoked.
\<close>

theorem revisions_move_legally:
  assumes "lifecycle_run db db'" "distinct (map rv_revision_id (revisions db))" "one_active (revisions db)"
  shows "one_active (revisions db') \<and> list_all2 (row_step legal\<^sup>*\<^sup>*) (revisions db) (revisions db')"
  using assms(1) unfolding lifecycle_run_def
proof (induction rule: rtranclp_induct)
  case base
  with assms(3) show ?case by (simp add: list_all2_same row_step_def)
next
  case (step y z)
  with assms(2) have "distinct (map rv_revision_id (revisions y))" using row_step_ids by metis
  with step lifecycle_step_rows [of y z] show ?case by (auto intro: row_step_trans)
qed

theorem revisions_move_legally_witness:
  "map rv_lifecycle_state (revisions after_activation) = [''active''] \<and> one_active (revisions after_revocation) \<and>
   list_all2 (row_step legal\<^sup>*\<^sup>*) (revisions sample_store) (revisions after_revocation)"
proof -
  have "lifecycle_step sample_store after_activation" "lifecycle_step after_activation after_revocation"
    using sample_activation sample_revocation by (auto intro: by_activate by_revoke)
  then have "lifecycle_run sample_store after_revocation" by (simp add: lifecycle_run_def rtranclp.rtrancl_into_rtrancl)
  moreover have "distinct (map rv_revision_id (revisions sample_store))" "one_active (revisions sample_store)"
    "map rv_lifecycle_state (revisions after_activation) = [''active'']" by code_simp+
  ultimately show ?thesis using revisions_move_legally by blast
qed

lemma revoked_stays: "legal\<^sup>*\<^sup>* ''revoked'' s \<longleftrightarrow> s = ''revoked''"
  by (auto elim: converse_rtranclpE simp: legal_simps)

subsection \<open>Obligations\<close>

definition satisfied_by :: "uuid \<Rightarrow> arc_obligation \<Rightarrow> bool" where
  "satisfied_by rid o' \<longleftrightarrow> or_obligation_state o' = OBLIGATION_SATISFIED \<and> obl_current_revision_id o' = Some rid"

definition rule_digest :: "arc_env \<Rightarrow> rule_row \<Rightarrow> string" where
  "rule_digest E rule = applicability_digest (env_sha256 E) (applicability_snapshot rule)"

lemma refresh_one_Inr:
  assumes one: "refresh_one E rid (did, aid, rule) obls = Inr obls'" and ids: "distinct (map or_obligation_id obls)"
    and fresh: "env_new_id E obls \<notin> or_obligation_id ` set obls"
  shows "distinct (map or_obligation_id obls')" (is ?distinct)
    "\<exists>o' \<in> set obls'. matches did (rule_digest E rule) o' \<and> satisfied_by rid o'" (is ?satisfied)
    "o1 \<in> set obls \<Longrightarrow> matches d g o1 \<Longrightarrow> satisfied_by rid o1 \<Longrightarrow> \<exists>o' \<in> set obls'. matches d g o' \<and> satisfied_by rid o'"
proof -
  let ?dig = "rule_digest E rule"
  have "?distinct \<and> ?satisfied \<and> (\<forall>o1 \<in> set obls. matches d g o1 \<and> satisfied_by rid o1 \<longrightarrow> (\<exists>o' \<in> set obls'. matches d g o' \<and> satisfied_by rid o'))" for d g
  proof (cases "filter (matches did ?dig) obls")
    case Nil
    with one obtain o1 where "obls' = obls @ [o1]" "or_obligation_id o1 = env_new_id E obls" "matches did ?dig o1" "satisfied_by rid o1"
      by (auto simp: refresh_one_def Let_def one_or_none_def matches_def satisfied_by_def rule_digest_def)
    with ids fresh show ?thesis by auto
  next
    case (Cons o1 rest)
    with one have rest: "rest = []"
      by (cases rest) (simp_all add: refresh_one_def Let_def one_or_none_def rule_digest_def)
    define g1 where "g1 o' = (if or_obligation_id o' = or_obligation_id o1
              then o'\<lparr>obl_current_revision_id := Some rid, or_obligation_state := OBLIGATION_SATISFIED,
                or_effective_from := rr_effective_from rule, or_effective_until := rr_effective_until rule, obl_updated_at := env_now E\<rparr>
              else o')" for o' :: arc_obligation
    from one Cons rest have "obls' = map g1 obls"
      by (simp add: refresh_one_def Let_def one_or_none_def rule_digest_def g1_def [abs_def])
    moreover have "or_obligation_id (g1 x) = or_obligation_id x" "matches d g (g1 x) = matches d g x" "satisfied_by rid x \<Longrightarrow> satisfied_by rid (g1 x)"
      "satisfied_by rid (g1 o1)" for x d g by (simp_all add: g1_def matches_def satisfied_by_def)
    moreover from Cons have "o1 \<in> set obls" "matches did ?dig o1" by (auto simp: filter_eq_Cons_iff)
    ultimately show ?thesis using ids by (auto simp: comp_def)
  qed
  from this [of d g] show ?distinct ?satisfied
    "o1 \<in> set obls \<Longrightarrow> matches d g o1 \<Longrightarrow> satisfied_by rid o1 \<Longrightarrow> \<exists>o' \<in> set obls'. matches d g o' \<and> satisfied_by rid o'" by blast+
qed

lemma refresh_keeps:
  assumes "fold_result (refresh_one E rid) rows obls = Inr obls'" "distinct (map or_obligation_id obls)"
    and fresh: "\<And>obls. env_new_id E obls \<notin> or_obligation_id ` set obls"
    and "o1 \<in> set obls" "matches d g o1" "satisfied_by rid o1"
  shows "\<exists>o' \<in> set obls'. matches d g o' \<and> satisfied_by rid o'"
  using assms(1,2,4-)
proof (induction rows arbitrary: obls o1)
  case (Cons row rows)
  obtain did aid rule where row: "row = (did, aid, rule)" by (cases row)
  from Cons.prems(1) obtain obls1 where one: "refresh_one E rid row obls = Inr obls1" "fold_result (refresh_one E rid) rows obls1 = Inr obls'"
    by (auto simp: result_bind_eq_Inr)
  note step = refresh_one_Inr [OF one(1) [unfolded row] Cons.prems(2) fresh]
  from step(3) [OF Cons.prems(3-5)] obtain o2 where "o2 \<in> set obls1" "matches d g o2" "satisfied_by rid o2" by blast
  from Cons.IH [OF one(2) step(1) this] show ?case .
qed auto

lemma refresh_satisfies:
  assumes "fold_result (refresh_one E rid) rows obls = Inr obls'" "distinct (map or_obligation_id obls)"
    and fresh: "\<And>obls. env_new_id E obls \<notin> or_obligation_id ` set obls"
    and "(did, aid, rule) \<in> set rows"
  shows "\<exists>o' \<in> set obls'. matches did (rule_digest E rule) o' \<and> satisfied_by rid o'"
  using assms(1,2,4)
proof (induction rows arbitrary: obls)
  case (Cons row rows)
  obtain did1 aid1 rule1 where row: "row = (did1, aid1, rule1)" by (cases row)
  from Cons.prems(1) obtain obls1 where one: "refresh_one E rid row obls = Inr obls1" "fold_result (refresh_one E rid) rows obls1 = Inr obls'"
    by (auto simp: result_bind_eq_Inr)
  note step = refresh_one_Inr [OF one(1) [unfolded row] Cons.prems(2) fresh]
  show ?case
  proof (cases "row = (did, aid, rule)")
    case True
    with row step(2) obtain o2 where "o2 \<in> set obls1" "matches did (rule_digest E rule) o2" "satisfied_by rid o2" by auto
    from refresh_keeps [OF one(2) step(1) fresh this] show ?thesis .
  next
    case False
    with Cons.prems(3) Cons.IH [OF one(2) step(1)] show ?thesis by auto
  qed
qed simp

lemma activation_rows_ids: "map rv_revision_id (activation_rows E rid current rows) = map rv_revision_id rows"
  by (simp add: activation_rows_def)

lemma activate_satisfies:
  assumes act: "artifact_activate E ctx rid supersedes db = (Inr u, db')" and keys: "distinct (map or_obligation_id (mandatory_obligations db))"
    and fresh: "\<And>obls. env_new_id E obls \<notin> or_obligation_id ` set obls"
    and rows: "d \<in> set (directives db)" "dr_revision_id d = rid" "rule \<in> set (applicability_rules db)" "rr_revision_id rule = rid" "rr_is_mandatory rule"
  shows "\<exists>o' \<in> set (mandatory_obligations db'). matches (dr_directive_id d) (rule_digest E rule) o' \<and> satisfied_by rid o'"
  using act
proof (rule activation_Inr)
  fix r current obls
  assume r: "filter (\<lambda>r. rv_revision_id r = rid) (revisions db) = [r]" and rs: "revisions db' = activation_rows E rid current (revisions db)"
    and f: "fold_result (refresh_one E rid) (mandatory_rows (db\<lparr>revisions := revisions db'\<rparr>) rid) (mandatory_obligations db) = Inr obls"
    and o: "mandatory_obligations db' = obls"
  from r have "rid \<in> set (map rv_revision_id (revisions db))" by (auto simp: filter_eq_Cons_iff)
  then have "rid \<in> set (map rv_revision_id (revisions db'))" unfolding rs activation_rows_ids .
  then obtain r' where "r' \<in> set (revisions db')" "rv_revision_id r' = rid" by auto
  with rows have "(dr_directive_id d, rev_artifact_id r', rule) \<in> set (mandatory_rows (db\<lparr>revisions := revisions db'\<rparr>) rid)"
    by (auto simp: mandatory_rows_def)
  from refresh_satisfies [OF f keys fresh this] o show ?thesis by simp
qed

text \<open>
  C9. Revoking content that agents were bound to does not unbind them: when a revision is activated and then revoked, every mandatory rule of its directives leaves
  an obligation, in state \<open>missing_revoked\<close>, in the tables the corpus reader reads, and every resolution that reads it and that its snapshot covers, or whose
  coverage cannot be told, comes back blocked.
\<close>

theorem revoked_mandatory_blocks:
  assumes act: "artifact_activate E ctx rid supersedes db = (Inr (), db1)" and rev: "artifact_revoke E' ctx' rid reason db1 = (Inr (), db2)"
    and keys: "distinct (map or_obligation_id (mandatory_obligations db))" and fresh: "\<And>obls. env_new_id E obls \<notin> or_obligation_id ` set obls"
    and rows: "d \<in> set (directives db)" "dr_revision_id d = rid" "rule \<in> set (applicability_rules db)" "rr_revision_id rule = rid" "rr_is_mandatory rule"
  shows "\<exists>row \<in> set (arc_mandatory_obligations (corpus_view db2)). or_directive_id row = dr_directive_id d \<and>
     or_applicability_digest row = applicability_digest (env_sha256 E) (applicability_snapshot rule) \<and> or_obligation_state row = ''missing_revoked'' \<and>
     (\<forall>json_loads assess t man m inp snapshot. assemble json_loads assess (corpus_view db2) t man m = Inr inp \<and> row \<in> set (obligations_sql (corpus_view db2) t m) \<and>
        decode_column json_loads (or_applicability_snapshot row) = Inr snapshot \<and>
        (case obligation_rule snapshot (or_obligation_id row) of None \<Rightarrow> True | Some rule \<Rightarrow> rule_applies rule man t m) \<longrightarrow>
        status (select inp) = BLOCKED)"
proof -
  from activate_satisfies [OF act keys fresh rows] obtain o1 where o1: "o1 \<in> set (mandatory_obligations db1)"
      "matches (dr_directive_id d) (rule_digest E rule) o1" "obl_current_revision_id o1 = Some rid" by (auto simp: satisfied_by_def)
  let ?o2 = "o1\<lparr>or_obligation_state := OBLIGATION_MISSING_REVOKED, obl_current_revision_id := None, obl_updated_at := env_now E'\<rparr>"
  from rev have "mandatory_obligations db2 = map (\<lambda>o'. if obl_current_revision_id o' = Some rid
       then o'\<lparr>or_obligation_state := OBLIGATION_MISSING_REVOKED, obl_current_revision_id := None, obl_updated_at := env_now E'\<rparr> else o') (mandatory_obligations db1)"
    unfolding artifact_revoke_def by (rule withdraw_Inr) simp
  with o1(1,3) have "?o2 \<in> set (mandatory_obligations db2)" by force
  then have "obligation_row.truncate ?o2 \<in> set (arc_mandatory_obligations (corpus_view db2))" by (simp add: corpus_view_def)
  moreover have "or_directive_id (obligation_row.truncate ?o2) = dr_directive_id d" "or_obligation_state (obligation_row.truncate ?o2) = ''missing_revoked''"
    "or_applicability_digest (obligation_row.truncate ?o2) = applicability_digest (env_sha256 E) (applicability_snapshot rule)"
    using o1(2) by (simp_all add: obligation_row.truncate_def matches_def rule_digest_def OBLIGATION_MISSING_REVOKED_def)
  ultimately show ?thesis
    by (intro bexI [of _ "obligation_row.truncate ?o2"]) (auto intro: unsatisfied_row_blocks)
qed

theorem revoked_mandatory_blocks_witness:
  "\<exists>row \<in> set (arc_mandatory_obligations (corpus_view after_revocation)). or_obligation_state row = ''missing_revoked'' \<and>
     row \<in> set (obligations_sql (corpus_view after_revocation) ''t'' 5) \<and>
     (\<exists>inp. assemble no_text (\<lambda>_. None) (corpus_view after_revocation) ''t'' sample_change 5 = Inr inp \<and> status (select inp) = BLOCKED)"
proof -
  have keys: "distinct (map or_obligation_id (mandatory_obligations sample_store))"
    and d: "sample_directive_row \<in> set (directives sample_store)" "dr_revision_id sample_directive_row = ''v''"
    and rule: "sample_rule_row ''k'' True ''tenant'' [] [] \<in> set (applicability_rules sample_store)"
      "rr_revision_id (sample_rule_row ''k'' True ''tenant'' [] []) = ''v''" "rr_is_mandatory (sample_rule_row ''k'' True ''tenant'' [] [])"
    by (simp_all add: sample_store_def sample_directive_row_def sample_rule_row_def)
  from revoked_mandatory_blocks [OF sample_activation sample_revocation keys sample_env_fresh d rule]
  obtain row where row: "row \<in> set (arc_mandatory_obligations (corpus_view after_revocation))" "or_obligation_state row = ''missing_revoked''"
    and blocks: "\<And>inp snapshot. assemble no_text (\<lambda>_. None) (corpus_view after_revocation) ''t'' sample_change 5 = Inr inp \<Longrightarrow>
        row \<in> set (obligations_sql (corpus_view after_revocation) ''t'' 5) \<Longrightarrow> decode_column no_text (or_applicability_snapshot row) = Inr snapshot \<Longrightarrow>
        (case obligation_rule snapshot (or_obligation_id row) of None \<Rightarrow> True | Some rule \<Rightarrow> rule_applies rule sample_change ''t'' 5) \<Longrightarrow>
        status (select inp) = BLOCKED" by blast
  have all: "list_all (\<lambda>row. List.member (obligations_sql (corpus_view after_revocation) ''t'' 5) row \<and>
      (case decode_column no_text (or_applicability_snapshot row) of Inl e \<Rightarrow> False | Inr snapshot \<Rightarrow>
        (case obligation_rule snapshot (or_obligation_id row) of None \<Rightarrow> True | Some rule \<Rightarrow> rule_applies rule sample_change ''t'' 5)))
      (arc_mandatory_obligations (corpus_view after_revocation))" by code_simp
  have "\<not> isl (assemble no_text (\<lambda>_. None) (corpus_view after_revocation) ''t'' sample_change 5)" by code_simp
  then obtain inp where inp: "assemble no_text (\<lambda>_. None) (corpus_view after_revocation) ''t'' sample_change 5 = Inr inp"
    by (cases "assemble no_text (\<lambda>_. None) (corpus_view after_revocation) ''t'' sample_change 5") auto
  from all row(1) have "row \<in> set (obligations_sql (corpus_view after_revocation) ''t'' 5)" "status (select inp) = BLOCKED"
    using blocks [OF inp] by (cases "decode_column no_text (or_applicability_snapshot row)"; auto simp: list_all_iff)+
  with row inp show ?thesis by blast
qed

end
