(* ===== verification/Arc_Activation.thy ===== *)
theory Arc_Activation
  imports Arc_Integrity Arc_Lifecycle
begin

section \<open>Activation of authored revisions\<close>

text \<open>
  The model of \<open>contextplane/arc/service/activation_predicates.py\<close>, \<open>contextplane/arc/service/activation.py\<close> and of the queries they make: the ten predicates an authored revision must satisfy, their
  evaluation, and the one transaction that then puts the revision into force. The clock is read once per call and once per evaluation. Locks are left
  out, as transactions run one after the other.
\<close>

subsection \<open>Predicates\<close>

definition PREDICATE_LATEST_VERSION :: string where "PREDICATE_LATEST_VERSION = ''latest_version''"
definition PREDICATE_STATE_APPROVED :: string where "PREDICATE_STATE_APPROVED = ''state_approved''"
definition PREDICATE_DIGEST_CHAIN :: string where "PREDICATE_DIGEST_CHAIN = ''digest_chain''"
definition PREDICATE_BASELINE_CURRENT :: string where "PREDICATE_BASELINE_CURRENT = ''baseline_current''"
definition PREDICATE_SOURCE_VALID :: string where "PREDICATE_SOURCE_VALID = ''source_valid''"
definition PREDICATE_RISK_REPRODUCIBLE :: string where "PREDICATE_RISK_REPRODUCIBLE = ''risk_reproducible''"
definition PREDICATE_OBSERVATION_QUALIFIED :: string where "PREDICATE_OBSERVATION_QUALIFIED = ''observation_qualified''"
definition PREDICATE_PROJECTION_EVIDENCE_VALID :: string where "PREDICATE_PROJECTION_EVIDENCE_VALID = ''projection_evidence_valid''"
definition PREDICATE_ACTOR_SEPARATION :: string where "PREDICATE_ACTOR_SEPARATION = ''actor_separation''"
definition PREDICATE_OPERATIONAL_INTEGRITY :: string where "PREDICATE_OPERATIONAL_INTEGRITY = ''operational_integrity''"

definition PREDICATE_ORDER :: "string list" where
  "PREDICATE_ORDER = [PREDICATE_LATEST_VERSION, PREDICATE_STATE_APPROVED, PREDICATE_DIGEST_CHAIN, PREDICATE_BASELINE_CURRENT, PREDICATE_SOURCE_VALID,
     PREDICATE_RISK_REPRODUCIBLE, PREDICATE_OBSERVATION_QUALIFIED, PREDICATE_PROJECTION_EVIDENCE_VALID, PREDICATE_ACTOR_SEPARATION,
     PREDICATE_OPERATIONAL_INTEGRITY]"

definition REASON_ACTIVATION_PREDICATE_FAILED :: string where "REASON_ACTIVATION_PREDICATE_FAILED = ''arc_activation_predicate_failed''"
definition REASON_APPROVAL_VERIFICATION_FAILED :: string where "REASON_APPROVAL_VERIFICATION_FAILED = ''arc_approval_verification_failed''"

record predicate_result =
  pr_name :: string
  pr_satisfied :: bool
  pr_reason_code :: "string option"

definition satisfied :: "string \<Rightarrow> predicate_result" where
  "satisfied name = \<lparr>pr_name = name, pr_satisfied = True, pr_reason_code = None\<rparr>"

definition unsatisfied :: "string \<Rightarrow> string \<Rightarrow> predicate_result" where
  "unsatisfied name reason_code = \<lparr>pr_name = name, pr_satisfied = False, pr_reason_code = Some reason_code\<rparr>"

definition check_latest_version :: "version_row \<Rightarrow> version_row option \<Rightarrow> predicate_result" where
  "check_latest_version version latest =
     (if (case latest of None \<Rightarrow> True | Some l \<Rightarrow> vr_proposal_version l \<noteq> vr_proposal_version version)
      then unsatisfied PREDICATE_LATEST_VERSION REASON_ACTIVATION_PREDICATE_FAILED else satisfied PREDICATE_LATEST_VERSION)"

definition check_state_approved :: "version_row \<Rightarrow> predicate_result" where
  "check_state_approved version =
     (if vr_state version \<noteq> ''approved'' then unsatisfied PREDICATE_STATE_APPROVED REASON_ACTIVATION_PREDICATE_FAILED
      else satisfied PREDICATE_STATE_APPROVED)"

definition check_digest_chain ::
    "verify_env \<Rightarrow> uuid \<Rightarrow> uuid \<Rightarrow> review_digests option \<Rightarrow> evidence_row option \<Rightarrow> arc_failure + predicate_result" where
  "check_digest_chain V artifact_id revision_id digests live_evidence =
     (case (digests, live_evidence) of
        (Some d, Some e) \<Rightarrow>
          if le_revoked_at e \<noteq> None then Inr (unsatisfied PREDICATE_DIGEST_CHAIN REASON_ACTIVATION_PREDICATE_FAILED)
          else result_map (\<lambda>bytes.
              if ve_sha256 V bytes \<noteq> le_approved_payload_digest e
              then unsatisfied PREDICATE_DIGEST_CHAIN REASON_APPROVAL_VERIFICATION_FAILED else satisfied PREDICATE_DIGEST_CHAIN)
            (build_canonical_evidence V artifact_id revision_id (rd_artifact_semantics_digest d) (rd_review_package_digest d))
      | _ \<Rightarrow> Inr (unsatisfied PREDICATE_DIGEST_CHAIN REASON_ACTIVATION_PREDICATE_FAILED))"

definition check_baseline_current :: "version_row \<Rightarrow> arc_family \<Rightarrow> predicate_result" where
  "check_baseline_current version family =
     (if fam_active_revision_id family \<noteq> vr_reviewed_baseline_revision_id version
      then unsatisfied PREDICATE_BASELINE_CURRENT REASON_ACTIVATION_PREDICATE_FAILED else satisfied PREDICATE_BASELINE_CURRENT)"

definition check_source_valid :: "(uuid \<Rightarrow> arc_failure + unit) \<Rightarrow> version_row \<Rightarrow> predicate_result" where
  "check_source_valid check_status version =
     (case check_status (vr_source_evidence_id version) of
        Inl _ \<Rightarrow> unsatisfied PREDICATE_SOURCE_VALID REASON_SOURCE_STATUS_UNAVAILABLE
      | Inr _ \<Rightarrow> satisfied PREDICATE_SOURCE_VALID)"

text \<open>The second component says whether the reducer that classified the version has been retired.\<close>

definition check_risk_reproducible :: "version_row \<Rightarrow> risk_row option \<Rightarrow> arc_failure + predicate_result \<times> bool" where
  "check_risk_reproducible version row =
     (case (row, vr_semantics version) of
        (Some r, Some semantics) \<Rightarrow>
          (case classify semantics (rk_algorithm_version r) of
             Inl UnknownRiskAlgorithmVersion \<Rightarrow> Inr (unsatisfied PREDICATE_RISK_REPRODUCIBLE REASON_ACTIVATION_PREDICATE_FAILED, True)
           | Inl RiskClassificationError \<Rightarrow> Inr (unsatisfied PREDICATE_RISK_REPRODUCIBLE REASON_ACTIVATION_PREDICATE_FAILED, False)
           | Inl e \<Rightarrow> Inl e
           | Inr fresh \<Rightarrow>
               Inr (if rr_classification fresh \<noteq> rk_classification r
                    then unsatisfied PREDICATE_RISK_REPRODUCIBLE REASON_ACTIVATION_PREDICATE_FAILED
                    else satisfied PREDICATE_RISK_REPRODUCIBLE, False))
      | _ \<Rightarrow> Inr (unsatisfied PREDICATE_RISK_REPRODUCIBLE REASON_ACTIVATION_PREDICATE_FAILED, False))"

definition qualification_holds :: "qualification_row option \<Rightarrow> uuid \<Rightarrow> moment \<Rightarrow> bool" where
  "qualification_holds qualification revision_id now =
     (case qualification of
        None \<Rightarrow> False
      | Some q \<Rightarrow> ql_candidate_revision_id q = revision_id \<and> ql_computed_decision q \<in> {''qualified'', ''qualified_low_traffic''} \<and>
          ql_accepted_at q \<noteq> None \<and> (case ql_expires_at q of None \<Rightarrow> False | Some t \<Rightarrow> now < t))"

definition check_observation_qualified ::
    "risk_row option \<Rightarrow> qualification_row option \<Rightarrow> uuid option \<Rightarrow> uuid \<Rightarrow> moment \<Rightarrow> predicate_result" where
  "check_observation_qualified row qualification qualification_id revision_id now =
     (let required = (case row of None \<Rightarrow> False | Some r \<Rightarrow> requires_observation (rk_classification r)) in
      if required \<and> qualification_id = None then unsatisfied PREDICATE_OBSERVATION_QUALIFIED REASON_ACTIVATION_PREDICATE_FAILED
      else if \<not> required \<and> qualification_id \<noteq> None then unsatisfied PREDICATE_OBSERVATION_QUALIFIED REASON_ACTIVATION_PREDICATE_FAILED
      else if required \<and> \<not> qualification_holds qualification revision_id now
      then unsatisfied PREDICATE_OBSERVATION_QUALIFIED REASON_ACTIVATION_PREDICATE_FAILED
      else satisfied PREDICATE_OBSERVATION_QUALIFIED)"

definition assert_projection_evidence_valid ::
    "verify_env \<Rightarrow> uuid \<Rightarrow> uuid \<Rightarrow> review_digests option \<Rightarrow> evidence_row option \<Rightarrow> verifier_row option \<Rightarrow> moment \<Rightarrow> arc_failure + unit" where
  "assert_projection_evidence_valid V artifact_id revision_id digests live_evidence verifier now =
     (case live_evidence of
        None \<Rightarrow> Inl ApprovalVerificationFailed
      | Some e \<Rightarrow>
          if le_revoked_at e \<noteq> None then Inl ApprovalVerificationFailed
          else (case verifier of
              None \<Rightarrow> Inl ApprovalVerificationFailed
            | Some v \<Rightarrow>
                if \<not> usable_at v now then Inl ApprovalVerificationFailed
                else if vf_credential_fingerprint v \<noteq> Some (le_credential_fingerprint_at_approval e) then Inl ApprovalVerificationFailed
                else (case digests of
                    None \<Rightarrow> Inl ApprovalVerificationFailed
                  | Some d \<Rightarrow>
                      result_bind (build_canonical_evidence V artifact_id revision_id (rd_artifact_semantics_digest d) (rd_review_package_digest d))
                        (\<lambda>bytes. reverify_proof V v e bytes now))))"

definition check_projection_evidence_valid ::
    "verify_env \<Rightarrow> uuid \<Rightarrow> uuid \<Rightarrow> review_digests option \<Rightarrow> evidence_row option \<Rightarrow> verifier_row option \<Rightarrow> moment \<Rightarrow>
     arc_failure + predicate_result" where
  "check_projection_evidence_valid V artifact_id revision_id digests live_evidence verifier now =
     (case assert_projection_evidence_valid V artifact_id revision_id digests live_evidence verifier now of
        Inr _ \<Rightarrow> Inr (satisfied PREDICATE_PROJECTION_EVIDENCE_VALID)
      | Inl e \<Rightarrow>
          if e = ApprovalVerificationFailed
          then Inr (unsatisfied PREDICATE_PROJECTION_EVIDENCE_VALID REASON_APPROVAL_VERIFICATION_FAILED) else Inl e)"

definition load_approving_principal :: "arc_store \<Rightarrow> uuid \<Rightarrow> arc_failure + (string \<times> string) option" where
  "load_approving_principal db revision_id =
     result_map (map_option (\<lambda>e. (le_approving_principal_issuer e, le_approving_principal_subject e)))
       (one_or_none (filter (\<lambda>e. le_revision_id e = revision_id \<and> le_revoked_at e = None) (projection_evidence db)))"

definition separation_object ::
    "version_row \<Rightarrow> risk_row option \<Rightarrow> qualification_row option \<Rightarrow> (string \<times> string) option \<Rightarrow> string option \<Rightarrow> string option \<Rightarrow> (string \<times> json) list" where
  "separation_object version row qualification approver activator_issuer activator_subject =
     (let classification = (case row of Some r \<Rightarrow> rk_classification r | None \<Rightarrow> ''task_non_mandatory'');
          opener = (vr_opened_by_issuer version, vr_opened_by_subject version);
          approving = (case approver of Some a \<Rightarrow> a | None \<Rightarrow> opener) in
      [(''profile'', JStr ACTOR_SEPARATION_PROFILE),
       (''risk_classification'', JStr classification),
       (''submitter_issuer'', JStr (fst opener)),
       (''submitter_subject'', JStr (snd opener)),
       (''approver_issuer'', JStr (fst approving)),
       (''approver_subject'', JStr (snd approving)),
       (''accepter_issuer'', case qualification of Some q \<Rightarrow> json_opt (ql_accepted_by_issuer q) | None \<Rightarrow> JNull),
       (''accepter_subject'', case qualification of Some q \<Rightarrow> json_opt (ql_accepted_by_subject q) | None \<Rightarrow> JNull),
       (''activator_issuer'', JStr (case activator_issuer of Some i \<Rightarrow> i | None \<Rightarrow> fst opener)),
       (''activator_subject'', JStr (case activator_subject of Some s \<Rightarrow> s | None \<Rightarrow> snd opener)),
       (''required_distinct_count'', JInt (if classification = ''global_mandatory'' then 3 else 2)),
       (''satisfied'', JBool True)])"

definition check_actor_separation ::
    "verify_env \<Rightarrow> arc_store \<Rightarrow> version_row \<Rightarrow> risk_row option \<Rightarrow> qualification_row option \<Rightarrow> uuid \<Rightarrow> string option \<Rightarrow> string option \<Rightarrow>
     arc_failure + predicate_result" where
  "check_actor_separation V db version row qualification revision_id activator_issuer activator_subject =
     result_bind (load_approving_principal db revision_id) (\<lambda>approver.
       if approver = None \<or> activator_issuer = None \<or> activator_subject = None
       then Inr (unsatisfied PREDICATE_ACTOR_SEPARATION REASON_ACTIVATION_PREDICATE_FAILED)
       else (case validate_actor_separation_v2 (ve_nfc V)
               (separation_object version row qualification approver activator_issuer activator_subject) of
             Inr _ \<Rightarrow> Inr (satisfied PREDICATE_ACTOR_SEPARATION)
           | Inl ActorSeparationViolationError \<Rightarrow> Inr (unsatisfied PREDICATE_ACTOR_SEPARATION REASON_ACTIVATION_PREDICATE_FAILED)
           | Inl _ \<Rightarrow> Inl ProfileRefused))"

definition check_operational_integrity :: "integrity_assessment \<Rightarrow> predicate_result" where
  "check_operational_integrity a =
     \<lparr>pr_name = PREDICATE_OPERATIONAL_INTEGRITY, pr_satisfied = ia_valid a, pr_reason_code = ia_reason_code a\<rparr>"

subsection \<open>Queries\<close>

definition load_family :: "arc_store \<Rightarrow> uuid \<Rightarrow> arc_failure + arc_family option" where
  "load_family db artifact_id = one_or_none (filter (\<lambda>a. ar_artifact_id a = artifact_id) (artifacts db))"

definition load_version :: "arc_store \<Rightarrow> uuid \<Rightarrow> int \<Rightarrow> arc_failure + version_row option" where
  "load_version db proposal_id proposal_version =
     one_or_none (filter (\<lambda>v. vr_proposal_id v = proposal_id \<and> vr_proposal_version v = proposal_version) (proposal_versions db))"

definition load_latest_version :: "arc_store \<Rightarrow> uuid \<Rightarrow> version_row option" where
  "load_latest_version db proposal_id =
     (case sort_key (\<lambda>v. - vr_proposal_version v) (filter (\<lambda>v. vr_proposal_id v = proposal_id) (proposal_versions db)) of
        [] \<Rightarrow> None | v # _ \<Rightarrow> Some v)"

definition lock_qualification :: "arc_store \<Rightarrow> uuid \<Rightarrow> arc_failure + qualification_row option" where
  "lock_qualification db qualification_id = one_or_none (filter (\<lambda>q. ql_qualification_id q = qualification_id) (qualifications db))"

definition load_risk_classification :: "arc_store \<Rightarrow> uuid \<Rightarrow> int \<Rightarrow> arc_failure + risk_row option" where
  "load_risk_classification db proposal_id proposal_version =
     one_or_none (filter (\<lambda>r. rk_proposal_id r = proposal_id \<and> rk_proposal_version r = proposal_version) (risk_classification_rows db))"

definition transition_version ::
    "uuid \<Rightarrow> int \<Rightarrow> string list \<Rightarrow> string \<Rightarrow> string \<Rightarrow> string option \<Rightarrow> string \<Rightarrow> string \<Rightarrow> moment \<Rightarrow> version_row option tx" where
  "transition_version proposal_id proposal_version from_states to_state reason_code note issuer subj now =
     (let hit = (\<lambda>v. vr_proposal_id v = proposal_id \<and> vr_proposal_version v = proposal_version \<and> vr_state v \<in> set from_states);
          move = (\<lambda>v. v\<lparr>vr_state := to_state, vr_terminal_reason_code := Some reason_code, vr_terminal_note := note, vr_terminal_by_issuer := Some issuer,
            vr_terminal_by_subject := Some subj, vr_terminalized_at := Some now\<rparr>) in
      tx_bind (tx_read (\<lambda>db. map move (filter hit (proposal_versions db)))) (\<lambda>returned.
      tx_bind (tx_write (\<lambda>db. db\<lparr>proposal_versions := map (\<lambda>v. if hit v then move v else v) (proposal_versions db)\<rparr>)) (\<lambda>_.
      tx_lift (one_or_none returned))))"

definition supersede_revision_row :: "uuid \<Rightarrow> uuid \<Rightarrow> unit tx" where
  "supersede_revision_row revision_id successor =
     tx_bind (update_revisions (\<lambda>r. rv_revision_id r = revision_id \<and> rv_lifecycle_state r = ''active'')
       (\<lambda>r. r\<lparr>rv_lifecycle_state := ''superseded'', rev_superseded_by := Some successor\<rparr>)) (\<lambda>_. tx_return ())"

definition activate_revision_row :: "uuid \<Rightarrow> moment \<Rightarrow> bool tx" where
  "activate_revision_row revision_id now =
     tx_bind (update_revisions (\<lambda>r. rv_revision_id r = revision_id \<and> rv_lifecycle_state r = ''draft'')
       (\<lambda>r. r\<lparr>rv_lifecycle_state := ''active'', rev_activated_at := Some now, rv_effective_from := now\<rparr>)) (\<lambda>n. tx_return (n \<noteq> 0))"

definition cas_active_revision :: "uuid \<Rightarrow> uuid option \<Rightarrow> uuid \<Rightarrow> bool tx" where
  "cas_active_revision artifact_id expected new_id =
     (let hit = (\<lambda>a. ar_artifact_id a = artifact_id \<and> fam_active_revision_id a = expected) in
      tx_bind (tx_read (\<lambda>db. filter hit (artifacts db) \<noteq> [])) (\<lambda>won.
      tx_bind (tx_write (\<lambda>db. db\<lparr>artifacts := map (\<lambda>a. if hit a then a\<lparr>fam_active_revision_id := Some new_id\<rparr> else a) (artifacts db)\<rparr>)) (\<lambda>_.
      tx_return won)))"

definition load_revision :: "arc_store \<Rightarrow> uuid \<Rightarrow> arc_failure + arc_revision option" where
  "load_revision db revision_id = one_or_none (filter (\<lambda>r. rv_revision_id r = revision_id) (revisions db))"

subsection \<open>Evaluation\<close>

definition ARC_PROPOSAL_STALE :: string where "ARC_PROPOSAL_STALE = ''arc.proposal.stale''"
definition ARC_PROPOSAL_ACTIVATED :: string where "ARC_PROPOSAL_ACTIVATED = ''arc.proposal.activated''"
definition STALE_REASON_CODE :: string where "STALE_REASON_CODE = ''risk_reducer_retired''"
definition ACTIVATED_REASON_CODE :: string where "ACTIVATED_REASON_CODE = ''revision_activated''"

record activation_eligibility =
  el_eligible :: bool
  el_predicates :: "predicate_result list"

record evaluation =
  ev_eligibility :: activation_eligibility
  ev_stale_reducer_retired :: bool
  ev_family :: arc_family

record revision_activation =
  ra_revision_id :: uuid
  ra_artifact_id :: uuid
  ra_lifecycle_state :: string
  ra_operational_integrity_state :: string
  ra_activated_at :: "moment option"
  ra_revoked_at :: "moment option"

record activation_env =
  ae_arc :: arc_env
  ae_integrity :: integrity_env
  ae_now :: moment

definition predicate_index :: "predicate_result \<Rightarrow> nat" where
  "predicate_index p = length (takeWhile (\<lambda>n. n \<noteq> pr_name p) PREDICATE_ORDER)"

definition recompute_digests :: "integrity_env \<Rightarrow> arc_store \<Rightarrow> version_row \<Rightarrow> uuid \<Rightarrow> int \<Rightarrow> arc_failure + review_digests option" where
  "recompute_digests I db version proposal_id proposal_version =
     (if vr_semantics version \<noteq> None \<and> vr_revision_id version \<noteq> None
      then (case ie_assemble I db proposal_id proposal_version of
          Inr d \<Rightarrow> Inr (Some d)
        | Inl e \<Rightarrow> if e = ReviewPackageUnavailable \<or> e = ReviewPackageIntegrityError then Inr None else Inl e)
      else Inr None)"

definition or_raise :: "arc_failure \<Rightarrow> arc_failure + 'a option \<Rightarrow> arc_failure + 'a" where
  "or_raise e r = result_bind r (of_option e)"

definition evaluate ::
    "activation_env \<Rightarrow> arc_store \<Rightarrow> uuid \<Rightarrow> string option \<Rightarrow> string option \<Rightarrow> uuid option \<Rightarrow> arc_failure + evaluation" where
  "evaluate A db revision_id activator_issuer activator_subject qualification_id =
     (let I = ae_integrity A; V = ie_verify I in
      result_bind (or_raise NotFoundError (load_version_by_revision_id db revision_id)) (\<lambda>identity.
      result_bind (load_live_evidence_by_revision db revision_id) (\<lambda>live_evidence.
      result_bind (case live_evidence of None \<Rightarrow> Inr None | Some e \<Rightarrow> load_verifier_for_share db (le_approval_verifier_id e)) (\<lambda>verifier.
      result_bind (or_raise RegistryError (load_family db (vr_artifact_id identity))) (\<lambda>family.
      result_bind (or_raise RegistryError (load_version db (vr_proposal_id identity) (vr_proposal_version identity))) (\<lambda>version.
      result_bind (fst (lock_family revision_id db)) (\<lambda>_.
      result_bind (case qualification_id of None \<Rightarrow> Inr None | Some q \<Rightarrow> lock_qualification db q) (\<lambda>qualification.
      result_bind (load_risk_classification db (vr_proposal_id identity) (vr_proposal_version identity)) (\<lambda>row.
      result_bind (recompute_digests I db version (vr_proposal_id identity) (vr_proposal_version identity)) (\<lambda>digests.
      let latest = load_latest_version db (vr_proposal_id identity) in
      result_bind (check_risk_reproducible version row) (\<lambda>(risk_result, stale).
      result_bind (assess I db revision_id PURPOSE_ACTIVATION) (\<lambda>assessment.
      result_bind (check_digest_chain V (vr_artifact_id identity) revision_id digests live_evidence) (\<lambda>chain.
      result_bind (check_projection_evidence_valid V (vr_artifact_id identity) revision_id digests live_evidence verifier (ae_now A)) (\<lambda>evidence.
      result_bind (check_actor_separation V db version row qualification revision_id activator_issuer activator_subject) (\<lambda>separation.
      let ordered = sort_key predicate_index
        [check_latest_version version latest, check_state_approved version, chain, check_baseline_current version family,
         check_source_valid (ie_check_status I) version, risk_result,
         check_observation_qualified row qualification qualification_id revision_id (ae_now A), evidence, separation,
         check_operational_integrity assessment] in
      Inr \<lparr>ev_eligibility = \<lparr>el_eligible = list_all pr_satisfied ordered, el_predicates = ordered\<rparr>,
           ev_stale_reducer_retired = stale, ev_family = family\<rparr>)))))))))))))))"

subsection \<open>The operations\<close>

definition family_scope :: "uuid option \<Rightarrow> arc_failure + artifact_scope" where
  "family_scope tenant_id =
     artifact_scope_post_init \<lparr>as_scope = (if tenant_id = None then GLOBAL else TENANT), as_tenant_id = tenant_id, as_entity_id = None\<rparr>"

definition tx_read_or_raise :: "(arc_store \<Rightarrow> arc_failure + 'a) \<Rightarrow> 'a tx" where
  "tx_read_or_raise f = tx_bind (tx_read f) tx_lift"

definition get_eligibility :: "activation_env \<Rightarrow> arc_ctx \<Rightarrow> uuid \<Rightarrow> activation_eligibility tx" where
  "get_eligibility A ctx revision_id = transaction (
     tx_bind (tx_read_or_raise (\<lambda>db. or_raise NotFoundError (load_version_by_revision_id db revision_id))) (\<lambda>version.
     tx_bind (tx_read_or_raise (\<lambda>db. or_raise RegistryError (load_family db (vr_artifact_id version)))) (\<lambda>family.
     tx_bind (tx_lift (result_bind (family_scope (ar_tenant_id family)) (assert_can_read_artifact ctx))) (\<lambda>_.
     tx_bind (tx_read_or_raise (\<lambda>db. evaluate A db revision_id (Some (ctx_oidc_issuer ctx)) (Some (ctx_oidc_subject ctx)) None)) (\<lambda>e.
     tx_return (ev_eligibility e))))))"

definition check_eligibility :: "activation_env \<Rightarrow> arc_store \<Rightarrow> uuid \<Rightarrow> arc_failure + activation_eligibility" where
  "check_eligibility A db revision_id = result_map ev_eligibility (evaluate A db revision_id None None None)"

definition commit_activation :: "arc_ctx \<Rightarrow> uuid \<Rightarrow> uuid \<Rightarrow> int \<Rightarrow> arc_family \<Rightarrow> moment \<Rightarrow> revision_activation tx" where
  "commit_activation ctx revision_id proposal_id proposal_version family now =
     (let current = fam_active_revision_id family in
      tx_bind (if current \<noteq> None \<and> current \<noteq> Some revision_id then supersede_revision_row (the current) revision_id else tx_return ()) (\<lambda>_.
      tx_bind (activate_revision_row revision_id now) (\<lambda>activated.
      if \<not> activated then tx_raise RegistryError
      else tx_bind (cas_active_revision (ar_artifact_id family) current revision_id) (\<lambda>won.
      if \<not> won then tx_raise RegistryError
      else tx_bind (transition_version proposal_id proposal_version [''approved''] ''activated'' ACTIVATED_REASON_CODE None
          (ctx_oidc_issuer ctx) (ctx_oidc_subject ctx) now) (\<lambda>moved.
      if moved = None then tx_raise RegistryError
      else tx_bind (tx_read_or_raise (\<lambda>db. or_raise RegistryError (load_revision db revision_id))) (\<lambda>row.
      tx_bind (emit (ctx_tenant_id ctx) ARC_ARTIFACT_ACTIVATED
          [(''artifact_id'', JStr (rev_artifact_id row)), (''revision_id'', JStr revision_id), (''superseded_revision_id'', json_opt current)]) (\<lambda>_.
      tx_bind (emit (ctx_tenant_id ctx) ARC_PROPOSAL_ACTIVATED [(''revision_id'', JStr revision_id)]) (\<lambda>_.
      tx_return \<lparr>ra_revision_id = rv_revision_id row, ra_artifact_id = rev_artifact_id row, ra_lifecycle_state = rv_lifecycle_state row,
        ra_operational_integrity_state = ''verified'', ra_activated_at = rev_activated_at row, ra_revoked_at = rev_revoked_at row\<rparr>))))))))"

definition activate_revision :: "activation_env \<Rightarrow> arc_ctx \<Rightarrow> uuid \<Rightarrow> uuid \<Rightarrow> int \<Rightarrow> uuid option \<Rightarrow> revision_activation tx" where
  "activate_revision A ctx revision_id proposal_id proposal_version qualification_id = transaction (
     tx_bind (tx_read_or_raise (\<lambda>db. or_raise NotFoundError (load_version_by_revision_id db revision_id))) (\<lambda>identity.
     if vr_proposal_id identity \<noteq> proposal_id \<or> vr_proposal_version identity \<noteq> proposal_version then tx_raise ActivationRequestMismatch
     else tx_bind (tx_read_or_raise (\<lambda>db. or_raise RegistryError (load_family db (vr_artifact_id identity)))) (\<lambda>family.
     tx_bind (tx_lift (result_bind (family_scope (ar_tenant_id family)) (assert_can_write_artifact (env_writers (ae_arc A)) ctx))) (\<lambda>_.
     tx_bind (tx_read_or_raise (\<lambda>db. evaluate A db revision_id (Some (ctx_oidc_issuer ctx)) (Some (ctx_oidc_subject ctx)) qualification_id)) (\<lambda>e.
     if ev_stale_reducer_retired e
     then tx_bind (transition_version proposal_id proposal_version [''approved''] ''stale'' STALE_REASON_CODE None
              (ctx_oidc_issuer ctx) (ctx_oidc_subject ctx) (env_now (ae_arc A))) (\<lambda>_.
          tx_bind (emit (ctx_tenant_id ctx) ARC_PROPOSAL_STALE
              [(''proposal_id'', JStr proposal_id), (''proposal_version'', JInt proposal_version), (''reason_code'', JStr STALE_REASON_CODE)]) (\<lambda>_.
          tx_raise ActivationPredicateFailed))
     else if \<not> el_eligible (ev_eligibility e) then tx_raise ActivationPredicateFailed
     else commit_activation ctx revision_id proposal_id proposal_version family (env_now (ae_arc A)))))))"

definition revoke_revision :: "activation_env \<Rightarrow> arc_ctx \<Rightarrow> uuid \<Rightarrow> string \<Rightarrow> string option \<Rightarrow> revision_activation tx" where
  "revoke_revision A ctx revision_id reason_code note =
     tx_bind (artifact_revoke (ae_arc A) ctx revision_id
        (case note of None \<Rightarrow> reason_code | Some n \<Rightarrow> if n = [] then reason_code else reason_code @ '': '' @ n)) (\<lambda>_.
     tx_bind (tx_read_or_raise (\<lambda>db. or_raise RegistryError (load_revision db revision_id))) (\<lambda>row.
     tx_return \<lparr>ra_revision_id = rv_revision_id row, ra_artifact_id = rev_artifact_id row, ra_lifecycle_state = rv_lifecycle_state row,
       ra_operational_integrity_state = ''pending'', ra_activated_at = rev_activated_at row, ra_revoked_at = rev_revoked_at row\<rparr>))"

subsection \<open>What each predicate says\<close>

lemma satisfied_simps [simp]:
  "pr_satisfied (satisfied n)" "\<not> pr_satisfied (unsatisfied n c)" "pr_satisfied (check_operational_integrity a) = ia_valid a"
  "unsatisfied n c \<noteq> satisfied m" "satisfied m \<noteq> unsatisfied n c"
  by (simp_all add: satisfied_def unsatisfied_def check_operational_integrity_def)

lemma predicate_holds:
  "pr_satisfied (check_latest_version v latest) \<longleftrightarrow> (\<exists>l. latest = Some l \<and> vr_proposal_version l = vr_proposal_version v)"
  "pr_satisfied (check_state_approved v) \<longleftrightarrow> vr_state v = ''approved''"
  "pr_satisfied (check_baseline_current v f) \<longleftrightarrow> fam_active_revision_id f = vr_reviewed_baseline_revision_id v"
  "pr_satisfied (check_source_valid st v) \<longleftrightarrow> st (vr_source_evidence_id v) = Inr ()"
  by (auto simp: check_latest_version_def check_state_approved_def check_baseline_current_def check_source_valid_def split: option.splits sum.splits)

lemma observation_holds:
  "pr_satisfied (check_observation_qualified row q qid rid now) \<longleftrightarrow>
     (if \<exists>r. row = Some r \<and> requires_observation (rk_classification r) then qid \<noteq> None \<and> qualification_holds q rid now else qid = None)"
  by (auto simp: check_observation_qualified_def Let_def split: option.splits)

lemma risk_holds:
  assumes "check_risk_reproducible v row = Inr (p, stale)"
  shows "pr_satisfied p \<longleftrightarrow> (\<exists>r s c. row = Some r \<and> vr_semantics v = Some s \<and> classify s (rk_algorithm_version r) = Inr c \<and> rr_classification c = rk_classification r)"
    "stale \<longleftrightarrow> (\<exists>r s. row = Some r \<and> vr_semantics v = Some s \<and> classify s (rk_algorithm_version r) = Inl UnknownRiskAlgorithmVersion)"
  using assms by (auto simp: check_risk_reproducible_def split: option.splits sum.splits arc_failure.splits if_splits)

lemma chain_holds:
  assumes "check_digest_chain V aid rid digests live = Inr p" "pr_satisfied p"
  obtains d e bytes where "digests = Some d" "live = Some e"
    "build_canonical_evidence V aid rid (rd_artifact_semantics_digest d) (rd_review_package_digest d) = Inr bytes" "le_approved_payload_digest e = ve_sha256 V bytes"
  using assms by (auto simp: check_digest_chain_def result_map_eq_Inr split: option.splits if_splits)

lemma evidence_holds:
  assumes "check_projection_evidence_valid V aid rid digests live verifier now = Inr p" "pr_satisfied p"
  obtains d e v bytes where "digests = Some d" "live = Some e" "verifier = Some v" "usable_at v now"
    "vf_credential_fingerprint v = Some (le_credential_fingerprint_at_approval e)"
    "build_canonical_evidence V aid rid (rd_artifact_semantics_digest d) (rd_review_package_digest d) = Inr bytes" "reverify_proof V v e bytes now = Inr ()"
proof -
  from assms have "assert_projection_evidence_valid V aid rid digests live verifier now = Inr ()"
    by (auto simp: check_projection_evidence_valid_def split: sum.splits if_splits)
  with that show thesis
    by (auto simp: assert_projection_evidence_valid_def result_bind_eq_Inr split: option.splits if_splits)
qed

lemma separation_holds:
  assumes "check_actor_separation V db v row q rid ai as = Inr p" "pr_satisfied p"
  obtains approver i s where "load_approving_principal db rid = Inr (Some approver)" "ai = Some i" "as = Some s"
    "approver \<noteq> (vr_opened_by_issuer v, vr_opened_by_subject v)"
    "(\<exists>r. row = Some r \<and> rk_classification r = ''global_mandatory'') \<longrightarrow> (i, s) \<noteq> approver \<and> (i, s) \<noteq> (vr_opened_by_issuer v, vr_opened_by_subject v)"
proof -
  from assms obtain approver i s where a: "load_approving_principal db rid = Inr (Some approver)" "ai = Some i" "as = Some s"
    and "validate_actor_separation_v2 (ve_nfc V) (separation_object v row q (Some approver) (Some i) (Some s)) = Inr ()"
    by (auto simp: check_actor_separation_def result_bind_eq_Inr split: if_splits sum.splits profile_error.splits)
  then have c: "Authoring_Profiles.check_actor_separation (separation_object v row q (Some approver) (Some i) (Some s)) = Inr ()"
    by (auto simp: validate_actor_separation_v2_def result_bind_eq_Inr)
  let ?obj = "separation_object v row q (Some approver) (Some i) (Some s)"
  have p: "principal_at ?obj ''submitter'' = Inr (JStr (vr_opened_by_issuer v), JStr (vr_opened_by_subject v))"
    "principal_at ?obj ''approver'' = Inr (JStr (fst approver), JStr (snd approver))" "principal_at ?obj ''activator'' = Inr (JStr i, JStr s)"
    "map_of ?obj ''risk_classification'' = Some (JStr (case row of Some r \<Rightarrow> rk_classification r | None \<Rightarrow> ''task_non_mandatory''))"
    by (simp_all add: principal_at_def item_at_def separation_object_def Let_def)
  from c [unfolded actor_separation_iff [OF p]] have "approver \<noteq> (vr_opened_by_issuer v, vr_opened_by_subject v)"
    "(\<exists>r. row = Some r \<and> rk_classification r = ''global_mandatory'') \<longrightarrow> (i, s) \<noteq> approver \<and> (i, s) \<noteq> (vr_opened_by_issuer v, vr_opened_by_subject v)"
    by (auto simp: prod_eq_iff)
  with a show thesis by (rule that)
qed

subsection \<open>Evaluation\<close>

lemma or_raise_Inr: "or_raise e r = Inr x \<longleftrightarrow> r = Inr (Some x)"
  by (auto simp: or_raise_def result_bind_eq_Inr of_option_eq_Inr)

lemma latest_version_max:
  assumes "load_latest_version db pid = Some l" "v \<in> set (proposal_versions db)" "vr_proposal_id v = pid"
  shows "vr_proposal_version v \<le> vr_proposal_version l"
proof -
  let ?xs = "filter (\<lambda>v. vr_proposal_id v = pid) (proposal_versions db)"
  from assms(1) obtain rest where s: "sort_key (\<lambda>v. - vr_proposal_version v) ?xs = l # rest"
    by (auto simp: load_latest_version_def split: list.splits)
  have "sorted (map (\<lambda>v. - vr_proposal_version v) (sort_key (\<lambda>v. - vr_proposal_version v) ?xs))" by simp
  moreover from assms(2,3) have "v \<in> set (sort_key (\<lambda>v. - vr_proposal_version v) ?xs)" by simp
  ultimately show ?thesis unfolding s by auto
qed

lemma same_version:
  assumes "load_version_by_revision_id db rid = Inr (Some v)" "load_version db (vr_proposal_id v) (vr_proposal_version v) = Inr (Some w)"
  shows "w = v"
proof -
  from assms(2) have "filter (\<lambda>x. vr_proposal_id x = vr_proposal_id v \<and> vr_proposal_version x = vr_proposal_version v) (proposal_versions db) = [w]"
    by (simp add: load_version_def one_or_none_Inr)
  from filter_single [OF this] version_of_revision [OF assms(1)] show ?thesis by auto
qed

text \<open>The facts an eligible evaluation has established.\<close>

definition activation_proof ::
    "activation_env \<Rightarrow> arc_store \<Rightarrow> uuid \<Rightarrow> string \<times> string \<Rightarrow> uuid option \<Rightarrow> version_row \<Rightarrow> arc_family \<Rightarrow> risk_row \<Rightarrow> evidence_row \<Rightarrow> verifier_row \<Rightarrow>
     review_digests \<Rightarrow> string \<Rightarrow> bool" where
  "activation_proof A db rid activator qid v family r e vf d bytes \<longleftrightarrow>
     load_version_by_revision_id db rid = Inr (Some v) \<and> load_family db (vr_artifact_id v) = Inr (Some family) \<and>
     load_risk_classification db (vr_proposal_id v) (vr_proposal_version v) = Inr (Some r) \<and>
     load_live_evidence_by_revision db rid = Inr (Some e) \<and> load_verifier_for_share db (le_approval_verifier_id e) = Inr (Some vf) \<and>
     ie_assemble (ae_integrity A) db (vr_proposal_id v) (vr_proposal_version v) = Inr d \<and>
     (\<forall>w \<in> set (proposal_versions db). vr_proposal_id w = vr_proposal_id v \<longrightarrow> vr_proposal_version w \<le> vr_proposal_version v) \<and>
     vr_state v = ''approved'' \<and> fam_active_revision_id family = vr_reviewed_baseline_revision_id v \<and>
     ie_check_status (ae_integrity A) (vr_source_evidence_id v) = Inr () \<and>
     (\<exists>s c. vr_semantics v = Some s \<and> classify s (rk_algorithm_version r) = Inr c \<and> rr_classification c = rk_classification r) \<and>
     (if requires_observation (rk_classification r) then \<exists>i q. qid = Some i \<and> lock_qualification db i = Inr q \<and> qualification_holds q rid (ae_now A) else qid = None) \<and>
     build_canonical_evidence (ie_verify (ae_integrity A)) (vr_artifact_id v) rid (rd_artifact_semantics_digest d) (rd_review_package_digest d) = Inr bytes \<and>
     le_approved_payload_digest e = ve_sha256 (ie_verify (ae_integrity A)) bytes \<and> usable_at vf (ae_now A) \<and>
     vf_credential_fingerprint vf = Some (le_credential_fingerprint_at_approval e) \<and> reverify_proof (ie_verify (ae_integrity A)) vf e bytes (ae_now A) = Inr () \<and>
     (le_approving_principal_issuer e, le_approving_principal_subject e) \<noteq> (vr_opened_by_issuer v, vr_opened_by_subject v) \<and>
     (rk_classification r = ''global_mandatory'' \<longrightarrow> activator \<noteq> (le_approving_principal_issuer e, le_approving_principal_subject e) \<and>
        activator \<noteq> (vr_opened_by_issuer v, vr_opened_by_subject v)) \<and>
     (\<exists>a. assess (ae_integrity A) db rid PURPOSE_ACTIVATION = Inr a \<and> ia_valid a)"

lemma approver_of_evidence:
  assumes "load_live_evidence_by_revision db rid = Inr (Some e)"
  shows "load_approving_principal db rid = Inr (Some (le_approving_principal_issuer e, le_approving_principal_subject e))"
  using assms by (simp add: load_live_evidence_by_revision_def load_approving_principal_def)

lemma evaluate_Inr:
  assumes "evaluate A db rid ai as qid = Inr ev"
  obtains v live verifier family q row digests p stale a chain evp sep where
    "load_version_by_revision_id db rid = Inr (Some v)" "load_live_evidence_by_revision db rid = Inr live"
    "(case live of None \<Rightarrow> Inr None | Some e \<Rightarrow> load_verifier_for_share db (le_approval_verifier_id e)) = Inr verifier"
    "load_family db (vr_artifact_id v) = Inr (Some family)" "(case qid of None \<Rightarrow> Inr None | Some i \<Rightarrow> lock_qualification db i) = Inr q"
    "load_risk_classification db (vr_proposal_id v) (vr_proposal_version v) = Inr row"
    "recompute_digests (ae_integrity A) db v (vr_proposal_id v) (vr_proposal_version v) = Inr digests"
    "check_risk_reproducible v row = Inr (p, stale)" "assess (ae_integrity A) db rid PURPOSE_ACTIVATION = Inr a"
    "check_digest_chain (ie_verify (ae_integrity A)) (vr_artifact_id v) rid digests live = Inr chain"
    "check_projection_evidence_valid (ie_verify (ae_integrity A)) (vr_artifact_id v) rid digests live verifier (ae_now A) = Inr evp"
    "check_actor_separation (ie_verify (ae_integrity A)) db v row q rid ai as = Inr sep"
    "ev_stale_reducer_retired ev = stale" "ev_family ev = family"
    "el_eligible (ev_eligibility ev) = list_all pr_satisfied
        [check_latest_version v (load_latest_version db (vr_proposal_id v)), check_state_approved v, chain, check_baseline_current v family,
         check_source_valid (ie_check_status (ae_integrity A)) v, p, check_observation_qualified row q qid rid (ae_now A), evp, sep, check_operational_integrity a]"
proof -
  have all: "list_all P (sort_key f xs) = list_all P xs" for P f and xs :: "predicate_result list" by (simp add: list_all_iff)
  from assms obtain v live verifier family w t q row digests p stale a chain evp sep where
    v: "load_version_by_revision_id db rid = Inr (Some v)" and live: "load_live_evidence_by_revision db rid = Inr live"
    and vf: "(case live of None \<Rightarrow> Inr None | Some e \<Rightarrow> load_verifier_for_share db (le_approval_verifier_id e)) = Inr verifier"
    and fam: "load_family db (vr_artifact_id v) = Inr (Some family)" and w: "load_version db (vr_proposal_id v) (vr_proposal_version v) = Inr (Some w)"
    and rest: "fst (lock_family rid db) = Inr t" "(case qid of None \<Rightarrow> Inr None | Some i \<Rightarrow> lock_qualification db i) = Inr q"
    "load_risk_classification db (vr_proposal_id v) (vr_proposal_version v) = Inr row"
    "recompute_digests (ae_integrity A) db w (vr_proposal_id v) (vr_proposal_version v) = Inr digests"
    "check_risk_reproducible w row = Inr (p, stale)" "assess (ae_integrity A) db rid PURPOSE_ACTIVATION = Inr a"
    "check_digest_chain (ie_verify (ae_integrity A)) (vr_artifact_id v) rid digests live = Inr chain"
    "check_projection_evidence_valid (ie_verify (ae_integrity A)) (vr_artifact_id v) rid digests live verifier (ae_now A) = Inr evp"
    "check_actor_separation (ie_verify (ae_integrity A)) db w row q rid ai as = Inr sep"
    "ev = \<lparr>ev_eligibility = \<lparr>el_eligible = list_all pr_satisfied (sort_key predicate_index
        [check_latest_version w (load_latest_version db (vr_proposal_id v)), check_state_approved w, chain, check_baseline_current w family,
         check_source_valid (ie_check_status (ae_integrity A)) w, p, check_observation_qualified row q qid rid (ae_now A), evp, sep, check_operational_integrity a]),
       el_predicates = sort_key predicate_index
        [check_latest_version w (load_latest_version db (vr_proposal_id v)), check_state_approved w, chain, check_baseline_current w family,
         check_source_valid (ie_check_status (ae_integrity A)) w, p, check_observation_qualified row q qid rid (ae_now A), evp, sep, check_operational_integrity a]\<rparr>,
       ev_stale_reducer_retired = stale, ev_family = family\<rparr>"
    unfolding evaluate_def Let_def by (simp only: result_bind_eq_Inr or_raise_Inr split_paired_Ex prod.case sum.inject) metis
  have "w = v" by (rule same_version [OF v w])
  show thesis
    by (rule that [OF v live vf fam rest(2-3) rest(4-9) [unfolded \<open>w = v\<close>]]) (simp_all only: rest(10) \<open>w = v\<close> all evaluation.simps activation_eligibility.simps)
qed

lemma evaluate_eligible:
  assumes ev: "evaluate A db rid (Some i) (Some s) qid = Inr ev" "el_eligible (ev_eligibility ev)"
  obtains v family r e vf d bytes where "activation_proof A db rid (i, s) qid v family r e vf d bytes"
  using ev(1)
proof (rule evaluate_Inr)
  fix v live verifier family q row digests p stale a chain evp sep
  assume v: "load_version_by_revision_id db rid = Inr (Some v)" and live: "load_live_evidence_by_revision db rid = Inr live"
    and verifier: "(case live of None \<Rightarrow> Inr None | Some e \<Rightarrow> load_verifier_for_share db (le_approval_verifier_id e)) = Inr verifier"
    and family: "load_family db (vr_artifact_id v) = Inr (Some family)" and q: "(case qid of None \<Rightarrow> Inr None | Some i \<Rightarrow> lock_qualification db i) = Inr q"
    and row: "load_risk_classification db (vr_proposal_id v) (vr_proposal_version v) = Inr row"
    and digests: "recompute_digests (ae_integrity A) db v (vr_proposal_id v) (vr_proposal_version v) = Inr digests"
    and p: "check_risk_reproducible v row = Inr (p, stale)" and a: "assess (ae_integrity A) db rid PURPOSE_ACTIVATION = Inr a"
    and chain: "check_digest_chain (ie_verify (ae_integrity A)) (vr_artifact_id v) rid digests live = Inr chain"
    and evp: "check_projection_evidence_valid (ie_verify (ae_integrity A)) (vr_artifact_id v) rid digests live verifier (ae_now A) = Inr evp"
    and sep: "check_actor_separation (ie_verify (ae_integrity A)) db v row q rid (Some i) (Some s) = Inr sep"
    and el: "el_eligible (ev_eligibility ev) = list_all pr_satisfied
        [check_latest_version v (load_latest_version db (vr_proposal_id v)), check_state_approved v, chain, check_baseline_current v family,
         check_source_valid (ie_check_status (ae_integrity A)) v, p, check_observation_qualified row q qid rid (ae_now A), evp, sep, check_operational_integrity a]"
  from el ev(2) have ok: "pr_satisfied (check_latest_version v (load_latest_version db (vr_proposal_id v)))" "pr_satisfied (check_state_approved v)"
    "pr_satisfied chain" "pr_satisfied (check_baseline_current v family)" "pr_satisfied (check_source_valid (ie_check_status (ae_integrity A)) v)" "pr_satisfied p"
    "pr_satisfied (check_observation_qualified row q qid rid (ae_now A))" "pr_satisfied evp" "pr_satisfied sep" "ia_valid a" by simp_all
  from chain ok(3) obtain d e bytes where c: "digests = Some d" "live = Some e"
      "build_canonical_evidence (ie_verify (ae_integrity A)) (vr_artifact_id v) rid (rd_artifact_semantics_digest d) (rd_review_package_digest d) = Inr bytes"
      "le_approved_payload_digest e = ve_sha256 (ie_verify (ae_integrity A)) bytes" by (rule chain_holds)
  from evp ok(8) obtain vf where u: "verifier = Some vf" "usable_at vf (ae_now A)" "vf_credential_fingerprint vf = Some (le_credential_fingerprint_at_approval e)"
      "reverify_proof (ie_verify (ae_integrity A)) vf e bytes (ae_now A) = Inr ()"
    by (rule evidence_holds) (use c in auto)
  from risk_holds(1) [OF p] ok(6) obtain r sem cl where r: "row = Some r" "vr_semantics v = Some sem" "classify sem (rk_algorithm_version r) = Inr cl"
      "rr_classification cl = rk_classification r" by blast
  from sep ok(9) obtain approver where app: "load_approving_principal db rid = Inr (Some approver)" "approver \<noteq> (vr_opened_by_issuer v, vr_opened_by_subject v)"
      "rk_classification r = ''global_mandatory'' \<longrightarrow> (i, s) \<noteq> approver \<and> (i, s) \<noteq> (vr_opened_by_issuer v, vr_opened_by_subject v)"
    by (rule separation_holds) (use r(1) in auto)
  from approver_of_evidence [of db rid e] live c(2) app(1) have approver: "approver = (le_approving_principal_issuer e, le_approving_principal_subject e)" by simp
  from digests c(1) have d: "ie_assemble (ae_integrity A) db (vr_proposal_id v) (vr_proposal_version v) = Inr d"
    by (auto simp: recompute_digests_def split: if_splits sum.splits)
  from ok(1) latest_version_max have latest: "\<forall>w \<in> set (proposal_versions db). vr_proposal_id w = vr_proposal_id v \<longrightarrow> vr_proposal_version w \<le> vr_proposal_version v"
    by (fastforce simp: predicate_holds)
  from ok(7) r(1) q have qual: "if requires_observation (rk_classification r) then \<exists>i q. qid = Some i \<and> lock_qualification db i = Inr q \<and> qualification_holds q rid (ae_now A) else qid = None"
    by (auto simp: observation_holds split: if_splits)
  have "activation_proof A db rid (i, s) qid v family r e vf d bytes"
    unfolding activation_proof_def
    by (intro conjI; (rule latest | rule qual)?)
      (use v family row live verifier d ok c u r app approver a in \<open>auto simp: predicate_holds\<close>)
  then show thesis by (rule that)
qed

subsection \<open>Commitment\<close>

lemma read_or_raise_Inr: "tx_read_or_raise f db = (Inr x, db') \<longleftrightarrow> f db = Inr x \<and> db' = db"
  by (auto simp: tx_read_or_raise_def tx_bind_Inr tx_run)

lemma transition_version_Inr:
  assumes "transition_version pid pv from_states to_state reason note i s now db = (Inr (Some w), db')"
  shows "vr_proposal_id w = pid \<and> vr_proposal_version w = pv \<and> vr_state w = to_state \<and> w \<in> set (proposal_versions db')"
    "revisions db' = revisions db \<and> artifacts db' = artifacts db \<and> mandatory_obligations db' = mandatory_obligations db"
  using assms by (auto simp: transition_version_def Let_def tx_bind_Inr tx_run one_or_none_Inr filter_eq_Cons_iff)

lemma cas_Inr:
  assumes "cas_active_revision aid expected new db = (Inr won, db')"
  shows "won \<longleftrightarrow> (\<exists>a \<in> set (artifacts db). ar_artifact_id a = aid \<and> fam_active_revision_id a = expected)"
    "artifacts db' = map (\<lambda>a. if ar_artifact_id a = aid \<and> fam_active_revision_id a = expected then a\<lparr>fam_active_revision_id := Some new\<rparr> else a) (artifacts db)"
    "revisions db' = revisions db \<and> proposal_versions db' = proposal_versions db \<and> mandatory_obligations db' = mandatory_obligations db"
  using assms by (auto simp: cas_active_revision_def Let_def tx_bind_Inr tx_run filter_empty_conv)

lemma activate_row_Inr:
  assumes "activate_revision_row rid now db = (Inr activated, db')"
  shows "activated \<longleftrightarrow> (\<exists>r \<in> set (revisions db). rv_revision_id r = rid \<and> rv_lifecycle_state r = ''draft'')"
    "db' = db\<lparr>revisions := map (\<lambda>r. if rv_revision_id r = rid \<and> rv_lifecycle_state r = ''draft''
       then r\<lparr>rv_lifecycle_state := ''active'', rev_activated_at := Some now, rv_effective_from := now\<rparr> else r) (revisions db)\<rparr>"
    "one_active (revisions db')"
  using assms by (auto simp: activate_revision_row_def tx_bind_Inr tx_run update_revisions_Inr filter_empty_conv)

lemma supersede_Inr:
  assumes "supersede_revision_row old successor db = (Inr u, db')"
  shows "artifacts db' = artifacts db \<and> mandatory_obligations db' = mandatory_obligations db \<and> proposal_versions db' = proposal_versions db"
  using assms by (auto simp: supersede_revision_row_def tx_bind_Inr tx_run update_revisions_Inr)

lemma emit_versions: "emit t e p db = (Inr u, db') \<Longrightarrow> proposal_versions db' = proposal_versions db"
  by (auto simp: emit_Inr)

definition in_force :: "arc_store \<Rightarrow> uuid \<Rightarrow> moment \<Rightarrow> bool" where
  "in_force db rid now \<longleftrightarrow> one_active (revisions db) \<and>
     (\<exists>r \<in> set (revisions db). rv_revision_id r = rid \<and> rv_lifecycle_state r = ''active'' \<and> rev_activated_at r = Some now \<and> rv_effective_from r = now)"

lemma commit_activation_Inr:
  assumes "commit_activation ctx rid pid pv family now db = (Inr act, db')"
  shows "in_force db' rid now"
    "artifacts db' = map (\<lambda>a. if ar_artifact_id a = ar_artifact_id family \<and> fam_active_revision_id a = fam_active_revision_id family
       then a\<lparr>fam_active_revision_id := Some rid\<rparr> else a) (artifacts db)"
    "\<exists>w \<in> set (proposal_versions db'). vr_proposal_id w = pid \<and> vr_proposal_version w = pv \<and> vr_state w = ''activated''"
    "mandatory_obligations db' = mandatory_obligations db"
proof -
  let ?current = "fam_active_revision_id family"
  define sup where "sup = (if ?current \<noteq> None \<and> ?current \<noteq> Some rid then supersede_revision_row (the ?current) rid else tx_return ())"
  from assms obtain u1 db1 db2 db3 moved db4 u2 db5 u3 where
    sup: "sup db = (Inr u1, db1)"
    and act: "activate_revision_row rid now db1 = (Inr True, db2)" and cas: "cas_active_revision (ar_artifact_id family) ?current rid db2 = (Inr True, db3)"
    and tr: "transition_version pid pv [''approved''] ''activated'' ACTIVATED_REASON_CODE None (ctx_oidc_issuer ctx) (ctx_oidc_subject ctx) now db3 = (Inr moved, db4)" and moved: "moved \<noteq> None"
    and em: "\<exists>e p. emit (ctx_tenant_id ctx) e p db4 = (Inr u2, db5)" "\<exists>e p. emit (ctx_tenant_id ctx) e p db5 = (Inr u3, db')"
    unfolding commit_activation_def Let_def sup_def [symmetric]
    by (auto simp only: tx_bind_Inr tx_run read_or_raise_Inr prod.inject sum.distinct split: if_splits, simp, blast)
  from moved obtain w where w: "moved = Some w" by blast
  from em have e: "revisions db' = revisions db4" "mandatory_obligations db' = mandatory_obligations db4" "artifacts db' = artifacts db4"
      "proposal_versions db' = proposal_versions db4" using emit_keeps emit_versions by metis+
  from sup have s: "artifacts db1 = artifacts db" "mandatory_obligations db1 = mandatory_obligations db"
    by (auto simp: sup_def tx_run split: if_splits dest!: supersede_Inr)
  note a = activate_row_Inr [OF act] and c = cas_Inr [OF cas] and t = transition_version_Inr [OF tr [unfolded w]]
  from a(1) obtain r where "r \<in> set (revisions db1)" "rv_revision_id r = rid" "rv_lifecycle_state r = ''draft''" by auto
  then have "\<exists>r \<in> set (revisions db2). rv_revision_id r = rid \<and> rv_lifecycle_state r = ''active'' \<and> rev_activated_at r = Some now \<and> rv_effective_from r = now"
    unfolding a(2) by (intro bexI [of _ "r\<lparr>rv_lifecycle_state := ''active'', rev_activated_at := Some now, rv_effective_from := now\<rparr>"]) (simp, force)
  with a(3) c t e show "in_force db' rid now" by (simp add: in_force_def)
  from a(2) c t e s show "mandatory_obligations db' = mandatory_obligations db"
    "artifacts db' = map (\<lambda>a. if ar_artifact_id a = ar_artifact_id family \<and> fam_active_revision_id a = ?current
       then a\<lparr>fam_active_revision_id := Some rid\<rparr> else a) (artifacts db)" by simp_all
  from t e show "\<exists>w \<in> set (proposal_versions db'). vr_proposal_id w = pid \<and> vr_proposal_version w = pv \<and> vr_state w = ''activated''" by auto
qed

lemma activate_revision_Inr:
  assumes "activate_revision A ctx rid pid pv qid db = (Inr act, db')"
  obtains v family ev where "load_version_by_revision_id db rid = Inr (Some v)" "vr_proposal_id v = pid" "vr_proposal_version v = pv"
    "load_family db (vr_artifact_id v) = Inr (Some family)"
    "result_bind (family_scope (ar_tenant_id family)) (assert_can_write_artifact (env_writers (ae_arc A)) ctx) = Inr ()"
    "evaluate A db rid (Some (ctx_oidc_issuer ctx)) (Some (ctx_oidc_subject ctx)) qid = Inr ev" "el_eligible (ev_eligibility ev)"
    "commit_activation ctx rid pid pv family (env_now (ae_arc A)) db = (Inr act, db')"
proof -
  from assms [unfolded activate_revision_def] obtain v family u ev where
    "load_version_by_revision_id db rid = Inr (Some v)" "vr_proposal_id v = pid" "vr_proposal_version v = pv" "load_family db (vr_artifact_id v) = Inr (Some family)"
    "result_bind (family_scope (ar_tenant_id family)) (assert_can_write_artifact (env_writers (ae_arc A)) ctx) = Inr u"
    "evaluate A db rid (Some (ctx_oidc_issuer ctx)) (Some (ctx_oidc_subject ctx)) qid = Inr ev" "el_eligible (ev_eligibility ev)"
    "commit_activation ctx rid pid pv family (env_now (ae_arc A)) db = (Inr act, db')"
    by (auto simp only: transaction_Inr tx_bind_Inr tx_run read_or_raise_Inr or_raise_Inr prod.inject sum.distinct de_Morgan_disj not_not split: if_splits)
  then show thesis by (intro that) simp_all
qed

text \<open>
  What the rows have to say for a revision to go live, written out without the predicates of the code: the version, the baseline, the source and the risk class; the qualification, for the
  six classes that must be observed first; the evidence and its verifier; the three persons; and the durable checkpoint.
\<close>

definition newest_approved :: "arc_store \<Rightarrow> uuid \<Rightarrow> version_row \<Rightarrow> arc_family \<Rightarrow> bool" where
  "newest_approved db rid v family \<longleftrightarrow>
     v \<in> set (proposal_versions db) \<and> vr_revision_id v = Some rid \<and> vr_state v = ''approved'' \<and>
     (\<forall>w \<in> set (proposal_versions db). vr_proposal_id w = vr_proposal_id v \<longrightarrow> vr_proposal_version w \<le> vr_proposal_version v) \<and>
     family \<in> set (artifacts db) \<and> ar_artifact_id family = vr_artifact_id v \<and> fam_active_revision_id family = vr_reviewed_baseline_revision_id v"

definition risk_stands :: "arc_store \<Rightarrow> uuid \<Rightarrow> uuid option \<Rightarrow> moment \<Rightarrow> version_row \<Rightarrow> risk_row \<Rightarrow> bool" where
  "risk_stands db rid qid now v r \<longleftrightarrow>
     r \<in> set (risk_classification_rows db) \<and> rk_proposal_id r = vr_proposal_id v \<and> rk_proposal_version r = vr_proposal_version v \<and>
     (\<exists>s c. vr_semantics v = Some s \<and> classify s (rk_algorithm_version r) = Inr c \<and> rr_classification c = rk_classification r) \<and>
     (if rk_classification r \<in> {''global_mandatory'', ''global_non_mandatory'', ''tenant_mandatory'', ''domain_mandatory'', ''entity_mandatory'', ''intent_mandatory''}
      then \<exists>q t. q \<in> set (qualifications db) \<and> qid = Some (ql_qualification_id q) \<and> ql_candidate_revision_id q = rid \<and>
        ql_computed_decision q \<in> {''qualified'', ''qualified_low_traffic''} \<and> ql_accepted_at q \<noteq> None \<and> ql_expires_at q = Some t \<and> now < t
      else qid = None)"

definition approval_stands :: "activation_env \<Rightarrow> arc_store \<Rightarrow> uuid \<Rightarrow> version_row \<Rightarrow> evidence_row \<Rightarrow> bool" where
  "approval_stands A db rid v e \<longleftrightarrow>
     e \<in> set (projection_evidence db) \<and> le_revision_id e = rid \<and> le_revoked_at e = None \<and>
     (\<exists>vf d bytes. vf \<in> set (approval_verifiers db) \<and> vf_approval_verifier_id vf = le_approval_verifier_id e \<and>
        vf_valid_from vf \<le> ae_now A \<and> (\<forall>t. vf_valid_to vf = Some t \<longrightarrow> ae_now A < t) \<and> (\<forall>t. vf_revoked_at vf = Some t \<longrightarrow> ae_now A < t) \<and>
        vf_credential_fingerprint vf = Some (le_credential_fingerprint_at_approval e) \<and>
        ie_assemble (ae_integrity A) db (vr_proposal_id v) (vr_proposal_version v) = Inr d \<and>
        build_canonical_evidence (ie_verify (ae_integrity A)) (vr_artifact_id v) rid (rd_artifact_semantics_digest d) (rd_review_package_digest d) = Inr bytes \<and>
        le_approved_payload_digest e = ve_sha256 (ie_verify (ae_integrity A)) bytes \<and>
        (le_verification_method e = ''detached_signature'' \<and> le_signature_algorithm e \<noteq> None \<longrightarrow>
          (\<exists>key. vf_public_key vf = Some key \<and> ve_signature_verifier (ie_verify (ae_integrity A)) key (le_proof_bytes e) (SIGNING_DOMAIN @ bytes))))"

definition persons_apart :: "string \<times> string \<Rightarrow> version_row \<Rightarrow> risk_row \<Rightarrow> evidence_row \<Rightarrow> bool" where
  "persons_apart activator v r e \<longleftrightarrow>
     (let opener = (vr_opened_by_issuer v, vr_opened_by_subject v); approver = (le_approving_principal_issuer e, le_approving_principal_subject e) in
      approver \<noteq> opener \<and> (rk_classification r = ''global_mandatory'' \<longrightarrow> activator \<noteq> approver \<and> activator \<noteq> opener))"

definition checkpointed :: "arc_store \<Rightarrow> uuid \<Rightarrow> bool" where
  "checkpointed db rid \<longleftrightarrow>
     (\<exists>c \<in> set (checkpoints db). ck_revision_id c = rid \<and> (\<forall>c' \<in> set (checkpoints db). ck_revision_id c' = rid \<longrightarrow> ck_sequence c' \<le> ck_sequence c) \<and>
        ck_exported_at c \<noteq> None \<and> ck_sink_receipt_digest c \<noteq> None \<and> ck_sink_receipt_signature c \<noteq> None)"

lemma observed_classes:
  assumes "classify s ver = Inr c"
  shows "requires_observation (rr_classification c) \<longleftrightarrow> rr_classification c \<in>
    {''global_mandatory'', ''global_non_mandatory'', ''tenant_mandatory'', ''domain_mandatory'', ''entity_mandatory'', ''intent_mandatory''}"
proof -
  have "list_all (\<lambda>c. requires_observation c \<longleftrightarrow> c \<in>
    {''global_mandatory'', ''global_non_mandatory'', ''tenant_mandatory'', ''domain_mandatory'', ''entity_mandatory'', ''intent_mandatory''}) RISK_CLASSIFICATIONS"
    by code_simp
  moreover have "rr_classification c \<in> set RISK_CLASSIFICATIONS"
    using assms by (auto simp: classify_def result_bind_eq_Inr split: option.splits if_splits)
  ultimately show ?thesis by (simp add: list_all_iff)
qed

lemma durable_checkpointed: "checkpoint_durable db rid \<Longrightarrow> checkpointed db rid"
proof -
  let ?xs = "filter (\<lambda>c. ck_revision_id c = rid) (checkpoints db)"
  assume "checkpoint_durable db rid"
  then obtain c rest where s: "sort_key (\<lambda>c. - ck_sequence c) ?xs = c # rest"
      and c: "ck_exported_at c \<noteq> None" "ck_sink_receipt_digest c \<noteq> None" "ck_sink_receipt_signature c \<noteq> None"
    by (auto simp: checkpoint_durable_def load_latest_checkpoint_def split: list.splits)
  have m: "set (c # rest) = set ?xs" by (metis s set_sort)
  have "sorted (map (\<lambda>c. - ck_sequence c) (c # rest))" by (metis s sorted_sort_key)
  then have "\<forall>c' \<in> set ?xs. ck_sequence c' \<le> ck_sequence c" unfolding m [symmetric] by auto
  moreover have "c \<in> set ?xs" using m by auto
  ultimately show ?thesis using c by (auto simp: checkpointed_def)
qed

lemma proof_spelled_out:
  assumes "activation_proof A db rid activator qid v family r e vf d bytes"
  shows "newest_approved db rid v family" "risk_stands db rid qid (ae_now A) v r" "approval_stands A db rid v e" "persons_apart activator v r e"
    "ie_check_status (ae_integrity A) (vr_source_evidence_id v) = Inr ()" "ie_verify_chain (ae_integrity A) db rid = Inr ()" "checkpointed db rid"
proof -
  note p = assms [unfolded activation_proof_def]
  from p have rows: "load_version_by_revision_id db rid = Inr (Some v)" "load_family db (vr_artifact_id v) = Inr (Some family)"
    "load_risk_classification db (vr_proposal_id v) (vr_proposal_version v) = Inr (Some r)"
    "load_live_evidence_by_revision db rid = Inr (Some e)" "load_verifier_for_share db (le_approval_verifier_id e) = Inr (Some vf)" by blast+
  have fam: "family \<in> set (artifacts db)" "ar_artifact_id family = vr_artifact_id v"
    using rows(2) by (auto simp: load_family_def one_or_none_Inr filter_eq_Cons_iff)
  from version_of_revision [OF rows(1)] fam p show "newest_approved db rid v family" unfolding newest_approved_def by blast
  have r: "r \<in> set (risk_classification_rows db)" "rk_proposal_id r = vr_proposal_id v" "rk_proposal_version r = vr_proposal_version v"
    using rows(3) by (auto simp: load_risk_classification_def one_or_none_Inr filter_eq_Cons_iff)
  from p obtain s c where c: "vr_semantics v = Some s" "classify s (rk_algorithm_version r) = Inr c" "rr_classification c = rk_classification r" by blast
  have q: "\<exists>q t. q \<in> set (qualifications db) \<and> qid = Some (ql_qualification_id q) \<and> ql_candidate_revision_id q = rid \<and>
        ql_computed_decision q \<in> {''qualified'', ''qualified_low_traffic''} \<and> ql_accepted_at q \<noteq> None \<and> ql_expires_at q = Some t \<and> ae_now A < t"
    if "qid = Some i" "lock_qualification db i = Inr q" "qualification_holds q rid (ae_now A)" for i q
    using that by (auto simp: lock_qualification_def qualification_holds_def one_or_none_Inr filter_eq_Cons_iff split: option.splits)
  from p have req: "if requires_observation (rk_classification r) then \<exists>i q. qid = Some i \<and> lock_qualification db i = Inr q \<and> qualification_holds q rid (ae_now A) else qid = None"
    by blast
  show "risk_stands db rid qid (ae_now A) v r"
    unfolding risk_stands_def observed_classes [OF c(2), unfolded c(3), symmetric]
    using r c req q by (cases "requires_observation (rk_classification r)") (simp only: if_True if_False; blast)+
  have vf: "vf \<in> set (approval_verifiers db)" "vf_approval_verifier_id vf = le_approval_verifier_id e"
    using rows(5) by (auto simp: load_verifier_for_share_def one_or_none_Inr filter_eq_Cons_iff)
  have "vf_valid_from vf \<le> ae_now A" "\<forall>t. vf_valid_to vf = Some t \<longrightarrow> ae_now A < t" "\<forall>t. vf_revoked_at vf = Some t \<longrightarrow> ae_now A < t"
    using p by (auto simp: usable_at_def split: if_splits option.splits)
  with vf live_evidence [OF rows(4)] p reverified [of "ie_verify (ae_integrity A)" vf e bytes "ae_now A"] show "approval_stands A db rid v e"
    unfolding approval_stands_def by blast
  from p show "persons_apart activator v r e" by (simp add: persons_apart_def Let_def)
  from p show "ie_check_status (ae_integrity A) (vr_source_evidence_id v) = Inr ()" by blast
  from p have "\<exists>a. assess (ae_integrity A) db rid PURPOSE_ACTIVATION = Inr a \<and> ia_valid a" by blast
  then have "ie_verify_chain (ae_integrity A) db rid = Inr ()" "checkpoint_durable db rid" unfolding assess_valid_iff by blast+
  then show "ie_verify_chain (ae_integrity A) db rid = Inr ()" "checkpointed db rid" using durable_checkpointed by blast+
qed

text \<open>
  C1. The gate of activation. When an authored revision is activated, the caller may write its family and the present rows prove it: its version is the newest of the named proposal
  and approved; its reviewed baseline is still the active revision; its source is current; its recorded risk class recomputes; an accepted, unexpired qualification of this revision stands where
  the class is one of the six that must be observed, and none is claimed otherwise; live evidence of a verifier that is valid now and whose credential is unchanged approves exactly the
  recomputed package, a stored signature verifying again; the approver is not the opener and, for globally mandatory content, the activator is a third person; the operational
  chain verifies and its newest checkpoint has been exported with a signed receipt. Afterwards the revision is in force, alone in its family, its family points at it and the version is activated.
\<close>

theorem activation_proved:
  assumes "activate_revision A ctx rid pid pv qid db = (Inr act, db')"
  shows "\<exists>v family r e. vr_proposal_id v = pid \<and> vr_proposal_version v = pv \<and>
     result_bind (family_scope (ar_tenant_id family)) (assert_can_write_artifact (env_writers (ae_arc A)) ctx) = Inr () \<and>
     newest_approved db rid v family \<and> risk_stands db rid qid (ae_now A) v r \<and> approval_stands A db rid v e \<and> persons_apart (operator_identity ctx) v r e \<and>
     ie_check_status (ae_integrity A) (vr_source_evidence_id v) = Inr () \<and> ie_verify_chain (ae_integrity A) db rid = Inr () \<and> checkpointed db rid \<and>
     in_force db' rid (env_now (ae_arc A)) \<and> (\<forall>a \<in> set (artifacts db'). ar_artifact_id a = vr_artifact_id v \<longrightarrow> fam_active_revision_id a = Some rid) \<and>
     (\<exists>w \<in> set (proposal_versions db'). vr_proposal_id w = pid \<and> vr_proposal_version w = pv \<and> vr_state w = ''activated'')"
  using assms
proof (rule activate_revision_Inr)
  fix v family ev
  assume v: "load_version_by_revision_id db rid = Inr (Some v)" "vr_proposal_id v = pid" "vr_proposal_version v = pv"
    and fam: "load_family db (vr_artifact_id v) = Inr (Some family)"
    and may: "result_bind (family_scope (ar_tenant_id family)) (assert_can_write_artifact (env_writers (ae_arc A)) ctx) = Inr ()"
    and ev: "evaluate A db rid (Some (ctx_oidc_issuer ctx)) (Some (ctx_oidc_subject ctx)) qid = Inr ev" "el_eligible (ev_eligibility ev)"
    and com: "commit_activation ctx rid pid pv family (env_now (ae_arc A)) db = (Inr act, db')"
  from ev obtain v' family' r e vf d bytes where p: "activation_proof A db rid (operator_identity ctx) qid v' family' r e vf d bytes"
    unfolding operator_identity_def by (rule evaluate_eligible)
  with v(1) fam have same: "v' = v" "family' = family" by (auto simp: activation_proof_def)
  from fam have one: "filter (\<lambda>a. ar_artifact_id a = vr_artifact_id v) (artifacts db) = [family]" by (simp add: load_family_def one_or_none_Inr)
  then have aid: "ar_artifact_id family = vr_artifact_id v" by (auto simp: filter_eq_Cons_iff)
  have "\<forall>a \<in> set (artifacts db'). ar_artifact_id a = vr_artifact_id v \<longrightarrow> fam_active_revision_id a = Some rid"
    unfolding commit_activation_Inr(2) [OF com] by (auto simp: aid dest: filter_single [OF one])
  with proof_spelled_out [OF p [unfolded same]] v(2,3) may commit_activation_Inr(1,3) [OF com] show ?thesis
    by (intro exI [of _ v] exI [of _ family] exI [of _ r] exI [of _ e]) simp
qed

text \<open>
  An activated revision owes nothing: activation of an authored revision refreshes no obligation, so when it is revoked afterwards the table of obligations is what it
  was before it was activated, and no tombstone stands for its mandatory rules.
\<close>

theorem authored_revocation_leaves_no_tombstone:
  assumes act: "activate_revision A ctx rid pid pv qid db = (Inr act, db1)" and rev: "revoke_revision A' ctx' rid reason note db1 = (Inr act', db2)"
    and none: "\<forall>o' \<in> set (mandatory_obligations db). obl_current_revision_id o' \<noteq> Some rid"
  shows "mandatory_obligations db2 = mandatory_obligations db"
proof -
  from act have same: "mandatory_obligations db1 = mandatory_obligations db" by (rule activate_revision_Inr) (rule commit_activation_Inr(4))
  from rev obtain u reason' where "artifact_revoke (ae_arc A') ctx' rid reason' db1 = (Inr u, db2)"
    by (auto simp: revoke_revision_def tx_bind_Inr tx_run read_or_raise_Inr)
  then have "mandatory_obligations db2 = map (\<lambda>o'. if obl_current_revision_id o' = Some rid
       then o'\<lparr>or_obligation_state := OBLIGATION_MISSING_REVOKED, obl_current_revision_id := None, obl_updated_at := env_now (ae_arc A')\<rparr> else o') (mandatory_obligations db1)"
    unfolding artifact_revoke_def by (rule withdraw_Inr) simp
  with same none show ?thesis by (simp add: map_idI)
qed

text \<open>
  A proposal version whose reducer has been retired is never terminalised: the activation that would record it as stale raises, and the transaction undoes the
  transition and its audit event with the rest.
\<close>

theorem retired_reducer_writes_nothing:
  assumes "load_risk_classification db pid pv = Inr (Some r)" "rk_algorithm_version r \<noteq> CURRENT_RISK_ALGORITHM_VERSION"
  shows "\<exists>x. activate_revision A ctx rid pid pv qid db = (Inl x, db)"
proof (cases "activate_revision A ctx rid pid pv qid db")
  case (Pair result db')
  show ?thesis
  proof (cases result)
    case (Inl x)
    with Pair show ?thesis by (auto simp: activate_revision_def transaction_Inl)
  next
    case (Inr act)
    with Pair have "activate_revision A ctx rid pid pv qid db = (Inr act, db')" by simp
    then show ?thesis
    proof (rule activate_revision_Inr)
      fix v ev
      assume "load_version_by_revision_id db rid = Inr (Some v)" "vr_proposal_id v = pid" "vr_proposal_version v = pv"
        and "evaluate A db rid (Some (ctx_oidc_issuer ctx)) (Some (ctx_oidc_subject ctx)) qid = Inr ev" "el_eligible (ev_eligibility ev)"
      then obtain s c where "classify s (rk_algorithm_version r) = Inr c"
        using assms(1) by (auto elim!: evaluate_eligible simp: activation_proof_def)
      with assms(2) show ?thesis by (simp add: classify_def REDUCERS_def)
    qed
  qed
qed

text \<open>The report asks for no qualification, so content that must be observed first is never reported eligible.\<close>

lemma observed_never_reported_eligible:
  assumes "get_eligibility A ctx rid db = (Inr el, db')" "load_version_by_revision_id db rid = Inr (Some v)"
    and "load_risk_classification db (vr_proposal_id v) (vr_proposal_version v) = Inr (Some r)" "requires_observation (rk_classification r)"
  shows "\<not> el_eligible el"
proof
  assume "el_eligible el"
  with assms(1) obtain ev where "evaluate A db rid (Some (ctx_oidc_issuer ctx)) (Some (ctx_oidc_subject ctx)) None = Inr ev" "el_eligible (ev_eligibility ev)"
    by (auto simp: get_eligibility_def transaction_Inr tx_bind_Inr tx_run read_or_raise_Inr)
  with assms show False by (auto elim!: evaluate_eligible simp: activation_proof_def)
qed

subsection \<open>An authored store for the witness\<close>

definition authored_revision :: uuid where "authored_revision = ''00000000-0000-4000-8000-000000000001''"
definition authored_family :: uuid where "authored_family = ''00000000-0000-4000-8000-000000000002''"

definition authored_digests :: review_digests where
  "authored_digests = \<lparr>rd_artifact_semantics_digest = replicate 64 CHR ''a'', rd_review_package_digest = replicate 64 CHR ''b''\<rparr>"

definition authored_env :: activation_env where
  "authored_env = \<lparr>ae_arc = sample_env,
     ae_integrity = \<lparr>ie_verify = \<lparr>ve_nfc = id, ve_sha256 = id, ve_signature_verifier = (\<lambda>_ _ _. True), ve_attestation_providers = []\<rparr>,
       ie_assemble = (\<lambda>_ _ _. Inr authored_digests), ie_check_status = (\<lambda>_. Inr ()), ie_verify_chain = (\<lambda>_ _. Inr ()), ie_now = 5\<rparr>,
     ae_now = 5\<rparr>"

definition authored_version :: version_row where
  "authored_version = \<lparr>vr_proposal_id = ''p'', vr_proposal_version = 1, vr_artifact_id = authored_family, vr_state = ''approved'',
     vr_source_evidence_id = ''src'', vr_reviewed_baseline_revision_id = None, vr_revision_id = Some authored_revision, vr_opened_by_issuer = ''i'',
     vr_opened_by_subject = ''author'',
     vr_semantics = Some [(''applicability'', JArr [JObj [(''scope'', JStr ''tenant''), (''is_mandatory'', JBool False)]])],
     vr_terminal_reason_code = None, vr_terminal_note = None, vr_terminal_by_issuer = None, vr_terminal_by_subject = None, vr_terminalized_at = None\<rparr>"

definition authored_bytes :: string where
  "authored_bytes = projr (build_canonical_evidence (ie_verify (ae_integrity authored_env)) authored_family authored_revision
     (rd_artifact_semantics_digest authored_digests) (rd_review_package_digest authored_digests))"

definition authored_evidence :: evidence_row where
  "authored_evidence = \<lparr>le_revision_id = authored_revision, le_approved_payload_digest = authored_bytes,
     le_approval_verifier_id = ''ver'', le_credential_fingerprint_at_approval = ''fp'', le_verification_method = ''detached_signature'',
     le_signature_algorithm = Some ''Ed25519'', le_proof_bytes = ''sig'', le_approving_principal_issuer = ''i'',
     le_approving_principal_subject = ''approver'', le_revoked_at = None\<rparr>"

definition authored_verifier :: verifier_row where
  "authored_verifier = \<lparr>vf_approval_verifier_id = ''ver'', vf_allowed_evidence_types = [''artifact_activation''], vf_valid_from = 0, vf_valid_to = None,
     vf_revoked_at = None, vf_principal_binding_kind = Some ''exact_principal'', vf_principal_issuer = Some ''i'', vf_principal_subject = Some ''approver'',
     vf_provider_id = None, vf_algorithm = Some ''Ed25519'', vf_public_key = Some (replicate 32 CHR ''k''), vf_credential_fingerprint = Some ''fp''\<rparr>"

definition authored_store :: arc_store where
  "authored_store = sample_store\<lparr>
     revisions := [sample_draft\<lparr>rv_revision_id := authored_revision, rev_artifact_id := authored_family\<rparr>],
     artifacts := [\<lparr>ar_artifact_id = authored_family, ar_tenant_id = Some ''t'', fam_active_revision_id = None\<rparr>],
     approval_verifiers := [authored_verifier], proposal_versions := [authored_version], projection_evidence := [authored_evidence],
     risk_classification_rows := [\<lparr>rk_proposal_id = ''p'', rk_proposal_version = 1, rk_classification = ''tenant_non_mandatory'',
       rk_algorithm_version = CURRENT_RISK_ALGORITHM_VERSION\<rparr>],
     checkpoints := [\<lparr>ck_revision_id = authored_revision, ck_sequence = 1, ck_exported_at = Some 3, ck_sink_receipt_digest = Some ''r'',
       ck_sink_receipt_signature = Some ''s''\<rparr>]\<rparr>"

end
