(* ===== verification/Spec2Isabelle.thy ===== *)
theory Spec2Isabelle
  imports Sensitivity Version_Predicates Arc_Corpus Webhook_Delivery Rate_Limit Audience Consolidation Retention_Sweep Receipt_Redaction Sharing Context_Assembly Rank_Fusion Write_Intent Interface_Diff Authoring_Profiles Arc_Activation
begin

section \<open>A verification development for contextplane\<close>

text \<open>
  \<^bold>\<open>The program.\<close> Contextplane is a multi-tenant service that keeps what agents need to know about an
  organisation: a catalog of capabilities, claims about them with their authority and confidence,
  and approved rules (ARC) that an agent must obey for an intended action. The sources are under
  \<open>src/contextplane/\<close>. This development models the decision logic of these parts:

  \<^item> ARC (\<open>arc/types.py\<close>, \<open>arc/service/selection.py\<close>, \<open>arc/service/corpus.py\<close>): an intent manifest arrives, the corpus
    reader queries the tables for the directives, exceptions and obligations in force for the tenant,
    selection matches and orders them, finds conflicts and blocks, and a last recheck of integrity
    drops or blocks what was tampered with.
  \<^item> Claims (\<open>service/memory/claim_compare.py\<close>, \<open>confidence.py\<close>, \<open>confidence_decay.py\<close>, \<open>service/governance/authority.py\<close>):
    whether two claims contradict each other, how far a claim is to be trusted given who said it
    and who agrees, and how that trust ages. Comparison uses the version predicates of the catalog
    (\<open>service/catalog/version_predicates.py\<close>).
  \<^item> The claim tables (\<open>service/memory/contest.py\<close>, \<open>claim_writer.py\<close>, \<open>confirmation.py\<close>, \<open>claim_curator_actions.py\<close>,
    \<open>consolidation.py\<close>, \<open>workers/consolidation_sweep.py\<close>): a new claim is compared with its neighbours, contradictions
    are recorded as contests, duplicates are folded together, weaker claims are closed, and every
    claim touched is scored again.
  \<^item> Access: the audience of a task (\<open>workspaces/audience.py\<close>, \<open>workspaces/schemas/intent_memory.py\<close>), the sensitivity
    tiers (\<open>sensitivity.py\<close>) and the rate limiter of the API (\<open>api/middleware/ratelimit.py\<close>).
  \<^item> Delivery of notifications to webhooks (\<open>workers/webhook_delivery.py\<close>, with the payload of
    \<open>service/notifications/core.py\<close>).
  \<^item> Retention (\<open>retention/policies.py\<close>, \<open>tombstones.py\<close>, \<open>holds.py\<close>, \<open>derivatives.py\<close>, \<open>workers/derivative_propagation.py\<close>,
    \<open>workers/retention_expiry.py\<close>, \<open>context/derivative_handlers.py\<close>): every record class has a period, every artefact built
    from records is registered with its sources and expires with the earliest of them, legal holds
    suspend expiry, a sweep queues the deletion of what has expired, and a drain carries the queue out
    through a handler per kind of artefact.
  \<^item> Sharing between organisations (\<open>sharing/grants.py\<close>, \<open>authorization.py\<close>, \<open>derivatives.py\<close>): a grant is proposed, activated by
    a second person and revoked; a request is decided against the grants in force, and what was
    derived under them carries a digest of them, so that it is stale when they change.
  \<^item> Context assembly (\<open>context/schemas/trust.py\<close>, \<open>context/schemas/envelope.py\<close>, \<open>context/quality.py\<close>, \<open>context/assembler.py\<close>): the
    arms of a request run side by side, each gives a block of items with their trust, and the envelope says what was
    asked, served, withheld and failed. Hybrid search fuses its rankings by \<open>service/retrieval/fusion.py\<close>.
  \<^item> Writes and releases: the routing of a profile write by intent and authority (\<open>entities/write_intent.py\<close>), and the
    classification of a change of an interface (\<open>service/catalog/interface_diff.py\<close>).

  \<^bold>\<open>The theories.\<close> Each theory holds one source file, in the order of that file: its dataclasses as
  records, its enumerations as datatypes, one definition per function with the function's name
  (without leading underscores), then its lemmas and theorems.

  \<^item> \<open>CP_Prelude\<close>: shared types (\<open>uuid\<close>, \<open>moment\<close>, \<open>json\<close>), results as a sum with the error on the left, and the
    loops the sources share. The locale \<open>keyed_preference\<close> is the contract of the loop that keeps the best
    item per key; it is interpreted for the successors of a directive, for the governing rule of
    a directive and for the strongest evidence of an independence class.
  \<^item> \<open>Py_Strings\<close>, \<open>Py_Uuid\<close>: what the sources use of \<open>str\<close>, \<open>int\<close> and \<open>uuid.UUID\<close>.
  \<^item> \<open>Sensitivity\<close>: the tiers, their rank, and the ceiling test.
  \<^item> \<open>Version_Predicates\<close>: caret and tilde expansion, clauses, conjunction, validation, evaluation. Theorems: a
    caret or tilde predicate means the interval it documents; a conjunction means all its clauses;
    a caret followed by an alternation is accepted and the alternation ignored.
  \<^item> \<open>Arc_Types\<close>: vocabularies, constraints, conflict subjects and their digest, directives and rules with
    their validation. The hashed message determines the subject.
  \<^item> \<open>Arc_Selection\<close>: constraint compatibility, conflicts, rule matching, exceptions, precedence, successors,
    \<open>select\<close> and \<open>select_and_verify\<close>. Theorems: two constraints are compatible exactly when a value satisfies both;
    conflicts are exactly the irreconcilable pairs; the status is exact; the latest applying
    candidate is served; the result does not depend on the order of the inputs; exceptions change
    only what they may; nothing invalid is served.
  \<^item> \<open>Arc_Corpus\<close>: the three queries, the conversion of rows and \<open>assemble\<close>. Theorems: tenants are isolated,
    exceptions reach selection only within their scope, unsatisfied obligations block even when
    unreadable, a mandatory rule governs, row order is irrelevant; and the defect that the governing
    rule is chosen before rules are matched.
  \<^item> \<open>Webhook_Delivery\<close>: one delivery and a drain pass over the delivery table. Runs of the worker are the
    inductive relation \<open>drained\<close>, with the surroundings of each pass (client, clock, locked rows) chosen
    anew. Theorems by rule induction: settled rows stay settled, answered deliveries are bounded;
    and two defects (transport errors retry for ever, unsendable rows starve the queue).
  \<^item> \<open>Rate_Limit\<close>: token buckets, the store with eviction, the request decision. Theorems: the rate bound over
    any sequence of requests, the honesty of \<open>Retry-After\<close>, soundness of the whole middleware step; and
    that budgets are per token.
  \<^item> \<open>Audience\<close>: grants, decisions, materialised entitlements, revocation. Theorems give the exact instants at
    which each of these counts.
  \<^item> \<open>Authority\<close>, \<open>Confidence\<close>, \<open>Confidence_Decay\<close>: the ladder, the score and its ageing. Theorems: range of scores and
    the ceiling of agreement, re-derivation from stored inputs, independence from repetition,
    the law of decay; and a label that contradicts the rounded value.
  \<^item> \<open>Claim_Compare\<close>: verdicts for every value type. Theorems: a reported version conflict is real, verdicts are
    symmetric, interval overlap is exact; and names without ASCII letters or digits collapse.
  \<^item> \<open>Claim_Store\<close>: the claim, provenance and contest tables as one record, what every operation on them keeps
    (\<open>evolves\<close>: claims are never removed nor their content changed), and when the contested flags are exact.
    The locale \<open>claim_operation\<close> is the contract of an operation on the tables; it is interpreted on resolving
    a contest, on closing a claim and on consolidating one.
  \<^item> \<open>Contest\<close>, \<open>Claim_Writer\<close>, \<open>Consolidation\<close>: detection, groups and resolution of contests; rescoring, closing,
    confirmation and discarding; the decision for one claim and the scheduled sweep. Theorems: detection
    finds exactly the disagreements, settling clears exactly the flags it may, groups never mix
    tenants, only outranked claims are closed, consolidation is idempotent and a sweep accounts for
    every candidate; and three defects (the incumbent of a duplicate is retired, rescoring
    forgets a confirmation, confirming leaves contests open).
  \<^item> \<open>Retention_Policy\<close>: the disposition of the record classes, deadlines, the expiry an artefact inherits, and the
    keyed values that stand for erased content. Theorem: that expiry is the least known one of the sources.
  \<^item> \<open>Legal_Holds\<close>: the three tables of holds with the constraints of migration \<open>0046\<close>; histories are the inductive
    relation \<open>held_run\<close>. The locale \<open>hold_store\<close> is what an expiry sweep relies on; it is interpreted on the store that
    holds nothing and on the Postgres store. Theorems: every renewal of a hold is on record with an
    approval of at least the required rank; and two defects (escalation can fall, a lapsed hold blocks a
    new one).
  \<^item> \<open>Derivatives\<close>, \<open>Derivative_Propagation\<close>: the registry and the outbox with the unique indexes of migration \<open>0043\<close>,
    and the drain. Theorems: what one pass does to each row, and that enough passes settle everything.
  \<^item> \<open>Retention_Sweep\<close>: the sweep over any store of holds; histories of the tables under registration, ordering,
    draining and sweeping are the inductive relation \<open>derivative_run\<close>. Theorems: no artefact outlives a source, the
    sweep respects holds and covers what is due; and three defects (a batch of held artefacts starves
    the sweep, failed work cannot be queued again, a late hold does not protect).
  \<^item> \<open>Receipt_Redaction\<close>: the handler of receipts, an instance of the locale \<open>derivative_handler\<close>. Theorem: erasing an
    actor refines the specification that every line of his receipts is replaced by its keyed marker.
  \<^item> \<open>Sharing\<close>: the grant table with the checks of migration \<open>0053\<close>; its histories are the inductive relation \<open>grant_step\<close>.
    Theorems: the decision is exact, what is permitted was approved by someone else than its proposer, a scope that is
    fresh permits what it permitted, and revoking a grant makes the scopes that relied on it stale.
  \<^item> \<open>Context_Envelope\<close>, \<open>Context_Assembly\<close>: items, blocks and the envelope with their validation, and the assembler. Theorems:
    the state and quality of the response follow exactly from the arms, every item served carries its trust, and
    an arm cannot change another arm's block; and the defect that one bad item costs an arm all its items.
  \<^item> \<open>Rank_Fusion\<close>: decay weights, redistribution and the fusion loop. Theorem: the fused ranking is the weighted sum of
    the contributions of the arms that answered.
  \<^item> \<open>Write_Intent\<close>: the routes of a profile write. Theorem: the exact condition under which a write is routed, and where to.
  \<^item> \<open>Interface_Diff\<close>: surfaces and their comparison. Theorems: the severity is that of the worst change listed, and a change that is not
    breaking breaks no documented caller; and two defects (a first type, and types in payloads, go unseen).

  \<^bold>\<open>Idealisations.\<close> Floats are rationals (\<open>confidence.py\<close>, \<open>ratelimit.py\<close>, \<open>fusion.py\<close>) or reals (\<open>confidence_decay.py\<close>). Strings are
  sequences of 8-bit characters, case folding is that of ASCII. Tables are lists of rows, a query is
  a comprehension with a sort by its \<open>ORDER BY\<close> columns; statements of one pass run in sequence. Sets the sources walk in arbitrary order are walked in the order
  of the list they were built from. Code
  outside the sources is a parameter: the JSON decoder and printer, \<open>semver\<close>, SHA-256 and HMAC,
  \<open>uuid5\<close>, decimal and ISO parsing, URL splitting, the HTTP client, the clock, and the
  integrity assessment of a revision. What is relied on of a parameter is a named predicate
  (\<open>semver_match_law\<close>, \<open>semver_triples\<close>, \<open>semver_match_sound\<close>), shown satisfiable by a concrete instance. All functions
  are total and terminate, so no fuel is needed; the loops of the sources run over finite lists.

  \<^bold>\<open>Not modelled.\<close> The HTTP and MCP surface, storage and migrations, embedding and search services, connectors
  and language-model extraction are input and output or third-party code. Promotion of
  claims, activation and approval of ARC artifacts and profile compilation are decision logic of the same kind as the above and
  follow in that order.
\<close>

end
